(* ===== verification/LobPrelude.thy ===== *)
theory LobPrelude
  imports Complex_Main "HOL-Library.AList" "HOL-Library.Char_ord" "HOL-Library.List_Lexorder"
    "HOL-Library.Sublist" "HOL-Library.Multiset"
begin

text \<open>
  Shared layer of the development. It fixes how Python's own values are represented: exceptions
  (\<open>py_error\<close> in the left half of a sum), dictionaries (association lists that keep insertion
  order, as Python's do), decimal rendering of integers inside f-strings, \<open>str\<close> operations and
  \<open>sorted\<close>. The lemmas here are the ones several components use.
\<close>

named_theorems dict_simps \<open>lookups and key sets after dictionary operations\<close>
named_theorems inv_intros \<open>introduction rules of the component invariants\<close>

section \<open>Exceptions\<close>

text \<open>
  The exceptions the modelled code raises. A computation that may raise returns \<open>Inl\<close> of one of
  these; \<open>Inr\<close> is a normal return.
\<close>

datatype py_error =
    ValueError string
  | KeyError string
  | TypeError string
  | IndexError
  | ZeroDivisionError
  | OverflowError string
  | ArithmeticError string
  | RuntimeError string

definition try_bind :: "'e + 'a \<Rightarrow> ('a \<Rightarrow> 'e + 'b) \<Rightarrow> 'e + 'b" where
  "try_bind m f = (case m of Inl e \<Rightarrow> Inl e | Inr x \<Rightarrow> f x)"

lemma try_bind_simps [simp]:
  "try_bind (Inl e) f = Inl e"
  "try_bind (Inr x) f = f x"
  by (simp_all add: try_bind_def)

lemma try_bind_Inr: "try_bind m f = Inr y \<longleftrightarrow> (\<exists>x. m = Inr x \<and> f x = Inr y)"
  by (cases m) auto

lemma try_bind_cong [fundef_cong]:
  "m = m' \<Longrightarrow> (\<And>x. m' = Inr x \<Longrightarrow> f x = f' x) \<Longrightarrow> try_bind m f = try_bind m' f'"
  by (cases m') auto

text \<open>A guard clause: \<open>if bad: raise e\<close>.\<close>

definition raise_if :: "bool \<Rightarrow> 'e \<Rightarrow> 'e + unit" where
  "raise_if b e = (if b then Inl e else Inr ())"

lemma raise_if_simps [simp]:
  "raise_if True e = Inl e"
  "raise_if False e = Inr ()"
  by (simp_all add: raise_if_def)

lemma raise_if_Inr [simp]: "raise_if b e = Inr u \<longleftrightarrow> \<not> b"
  by (simp add: raise_if_def)

text \<open>Map a function that may raise over a list, stopping at the first exception.\<close>

fun try_map :: "('a \<Rightarrow> 'e + 'b) \<Rightarrow> 'a list \<Rightarrow> 'e + 'b list" where
  "try_map f [] = Inr []"
| "try_map f (x # xs) = try_bind (f x) (\<lambda>y. try_bind (try_map f xs) (\<lambda>ys. Inr (y # ys)))"

lemma try_map_cong [fundef_cong]:
  "xs = ys \<Longrightarrow> (\<And>x. x \<in> set ys \<Longrightarrow> f x = g x) \<Longrightarrow> try_map f xs = try_map g ys"
proof (induction ys arbitrary: xs)
  case (Cons y ys)
  then show ?case by (cases xs) auto
qed simp

lemma try_map_Inr: "(\<And>x. x \<in> set xs \<Longrightarrow> f x = Inr (g x)) \<Longrightarrow> try_map f xs = Inr (map g xs)"
  by (induction xs) auto

lemma try_map_length: "try_map f xs = Inr ys \<Longrightarrow> length ys = length xs"
  by (induction xs arbitrary: ys) (auto simp: try_bind_Inr)

text \<open>
  Methods that change an object's state and may raise: the state is returned in both cases, since
  what was changed before an exception stays changed.
\<close>

type_synonym ('s, 'a) step = "'s \<Rightarrow> 's \<times> (py_error + 'a)"

definition step_return :: "'a \<Rightarrow> ('s, 'a) step" where
  "step_return x s = (s, Inr x)"

definition step_bind :: "('s, 'a) step \<Rightarrow> ('a \<Rightarrow> ('s, 'b) step) \<Rightarrow> ('s, 'b) step" where
  "step_bind f g s = (case f s of (s', Inl e) \<Rightarrow> (s', Inl e) | (s', Inr x) \<Rightarrow> g x s')"

lemma step_bind_Inr:
  "step_bind f g s = (s', Inr y) \<longleftrightarrow> (\<exists>s1 x. f s = (s1, Inr x) \<and> g x s1 = (s', Inr y))"
  by (auto simp: step_bind_def split: prod.splits sum.splits)

fun step_each :: "('x \<Rightarrow> ('s, unit) step) \<Rightarrow> 'x list \<Rightarrow> ('s, unit) step" where
  "step_each f [] s = (s, Inr ())"
| "step_each f (x # xs) s = step_bind (f x) (\<lambda>_. step_each f xs) s"

fun step_map :: "('x \<Rightarrow> ('s, 'y) step) \<Rightarrow> 'x list \<Rightarrow> ('s, 'y list) step" where
  "step_map f [] s = (s, Inr [])"
| "step_map f (x # xs) s = step_bind (f x) (\<lambda>y. step_bind (step_map f xs) (\<lambda>ys. step_return (y # ys))) s"

text \<open>A step on one half of a paired state.\<close>

definition on_fst :: "('s, 'a) step \<Rightarrow> ('s \<times> 't, 'a) step" where
  "on_fst f st = (case f (fst st) of (s', r) \<Rightarrow> ((s', snd st), r))"

definition on_snd :: "('t, 'a) step \<Rightarrow> ('s \<times> 't, 'a) step" where
  "on_snd f st = (case f (snd st) of (t', r) \<Rightarrow> ((fst st, t'), r))"

text \<open>
  A relation that holds between the states before and after, whatever the outcome, composes.
\<close>

definition step_keeps :: "('s \<Rightarrow> bool) \<Rightarrow> ('s, 'a) step \<Rightarrow> bool" where
  "step_keeps P f = (\<forall>s. P s \<longrightarrow> P (fst (f s)))"

lemma step_keeps_return [inv_intros]: "step_keeps P (step_return x)"
  by (simp add: step_keeps_def step_return_def)

lemma step_keeps_bind [inv_intros]:
  "step_keeps P f \<Longrightarrow> (\<And>x. step_keeps P (g x)) \<Longrightarrow> step_keeps P (step_bind f g)"
  by (auto simp: step_keeps_def step_bind_def split: prod.splits sum.splits)

lemma step_keeps_each [inv_intros]: "(\<And>x. x \<in> set xs \<Longrightarrow> step_keeps P (f x)) \<Longrightarrow> step_keeps P (step_each f xs)"
proof (induction xs)
  case (Cons x xs)
  have "step_keeps P (step_bind (f x) (\<lambda>_. step_each f xs))"
    using Cons by (intro step_keeps_bind) auto
  then show ?case by (simp add: step_keeps_def)
qed (simp add: step_keeps_def)

lemma step_keeps_map [inv_intros]: "(\<And>x. x \<in> set xs \<Longrightarrow> step_keeps P (f x)) \<Longrightarrow> step_keeps P (step_map f xs)"
proof (induction xs)
  case (Cons x xs)
  have "step_keeps P (step_bind (f x) (\<lambda>y. step_bind (step_map f xs) (\<lambda>ys. step_return (y # ys))))"
    using Cons by (intro step_keeps_bind step_keeps_return) auto
  then show ?case by (simp add: step_keeps_def)
qed (simp add: step_keeps_def)

lemma step_keeps_on_snd [inv_intros]: "step_keeps P f \<Longrightarrow> step_keeps (\<lambda>st. P (snd st)) (on_snd f)"
  by (auto simp: step_keeps_def on_snd_def split: prod.splits)

section \<open>Dictionaries\<close>

text \<open>
  A Python dictionary is an association list with distinct keys, in insertion order: assigning to
  an existing key keeps its place, a new key goes to the end, deletion closes the gap.
\<close>

type_synonym ('k, 'v) dict = "('k \<times> 'v) list"

abbreviation dget :: "('k, 'v) dict \<Rightarrow> 'k \<Rightarrow> 'v option" where
  "dget d k \<equiv> map_of d k"

abbreviation dset :: "'k \<Rightarrow> 'v \<Rightarrow> ('k, 'v) dict \<Rightarrow> ('k, 'v) dict" where
  "dset k v d \<equiv> AList.update k v d"

abbreviation dpop :: "'k \<Rightarrow> ('k, 'v) dict \<Rightarrow> ('k, 'v) dict" where
  "dpop k d \<equiv> AList.delete k d"

abbreviation dkeys :: "('k, 'v) dict \<Rightarrow> 'k list" where
  "dkeys d \<equiv> map fst d"

definition dget_or :: "'v \<Rightarrow> ('k, 'v) dict \<Rightarrow> 'k \<Rightarrow> 'v" where
  "dget_or v d k = (case dget d k of None \<Rightarrow> v | Some x \<Rightarrow> x)"

definition dsetdefault :: "'k \<Rightarrow> 'v \<Rightarrow> ('k, 'v) dict \<Rightarrow> ('k, 'v) dict" where
  "dsetdefault k v d = (case dget d k of None \<Rightarrow> dset k v d | Some _ \<Rightarrow> d)"

text \<open>\<open>for k in ks: d.pop(k, None)\<close>\<close>

definition dpop_all :: "'k list \<Rightarrow> ('k, 'v) dict \<Rightarrow> ('k, 'v) dict" where
  "dpop_all ks d = foldl (\<lambda>d k. dpop k d) d ks"

definition dict_ok :: "('k, 'v) dict \<Rightarrow> bool" where
  "dict_ok d = distinct (dkeys d)"

text \<open>
  What the components rely on. The laws are stated once, and the order book's three dictionaries,
  the scenarios' stage tables and the label tables all use the interpretation below.
\<close>

locale keyed_store =
  fixes look :: "'m \<Rightarrow> 'k \<Rightarrow> 'v option"
    and put :: "'k \<Rightarrow> 'v \<Rightarrow> 'm \<Rightarrow> 'm"
    and drop_key :: "'k \<Rightarrow> 'm \<Rightarrow> 'm"
    and ok :: "'m \<Rightarrow> bool"
  assumes look_put: "look (put k v m) k' = (if k' = k then Some v else look m k')"
    and look_drop: "look (drop_key k m) k' = (if k' = k then None else look m k')"
    and ok_put: "ok m \<Longrightarrow> ok (put k v m)"
    and ok_drop: "ok m \<Longrightarrow> ok (drop_key k m)"
begin

lemma look_put_same: "look (put k v m) k = Some v"
  by (simp add: look_put)

lemma look_put_other: "k' \<noteq> k \<Longrightarrow> look (put k v m) k' = look m k'"
  by (simp add: look_put)

lemma look_drop_all:
  "look (foldl (\<lambda>m k. drop_key k m) m ks) k' = (if k' \<in> set ks then None else look m k')"
  by (induction ks arbitrary: m) (auto simp: look_drop)

lemma ok_drop_all: "ok m \<Longrightarrow> ok (foldl (\<lambda>m k. drop_key k m) m ks)"
  by (induction ks arbitrary: m) (auto intro: ok_drop)

lemma look_put_all:
  "(\<And>x. x \<in> set xs \<Longrightarrow> key x \<noteq> k) \<Longrightarrow> look (foldl (\<lambda>m x. put (key x) (val x) m) m xs) k = look m k"
  by (induction xs arbitrary: m) (auto simp: look_put)

end

interpretation pd: keyed_store "map_of" "AList.update" "AList.delete" dict_ok
  by unfold_locales
    (auto simp: update_conv' delete_conv' dict_ok_def distinct_update distinct_delete)

lemmas dict_laws = pd.look_put pd.look_drop pd.ok_put pd.ok_drop

declare pd.look_put [dict_simps] pd.look_drop [dict_simps]

lemma dget_pop_all [dict_simps]: "dget (dpop_all ks d) k = (if k \<in> set ks then None else dget d k)"
  unfolding dpop_all_def by (rule pd.look_drop_all)

lemma dict_ok_pop_all: "dict_ok d \<Longrightarrow> dict_ok (dpop_all ks d)"
  unfolding dpop_all_def by (rule pd.ok_drop_all)

lemma dict_ok_Nil [simp]: "dict_ok []"
  by (simp add: dict_ok_def)

lemma set_dkeys: "set (dkeys d) = dom (map_of d)"
  by (simp add: dom_map_of_conv_image_fst)

lemma dkeys_iff: "k \<in> set (dkeys d) \<longleftrightarrow> dget d k \<noteq> None"
  by (simp only: set_dkeys domIff)

lemma dget_in_set: "dict_ok d \<Longrightarrow> (k, v) \<in> set d \<longleftrightarrow> dget d k = Some v"
  unfolding dict_ok_def by simp

lemma dget_setdefault [dict_simps]:
  "dget (dsetdefault k v d) k' =
     (if k' = k then Some (dget_or v d k) else dget d k')"
  by (auto simp: dsetdefault_def dget_or_def dict_laws split: option.splits)

lemma dict_ok_setdefault: "dict_ok d \<Longrightarrow> dict_ok (dsetdefault k v d)"
  by (auto simp: dsetdefault_def dict_laws split: option.splits)

lemma dget_or_simps [dict_simps]:
  "dget d k = None \<Longrightarrow> dget_or v d k = v"
  "dget d k = Some x \<Longrightarrow> dget_or v d k = x"
  by (simp_all add: dget_or_def)

section \<open>Strings\<close>

text \<open>
  Strings are lists of 8-bit characters and compare by character code, as ASCII strings do in
  Python. An empty string and \<open>None\<close> are both false, which \<open>a or b\<close> on optional strings uses.
\<close>

definition opt_str_or :: "string option \<Rightarrow> string option \<Rightarrow> string option" where
  "opt_str_or a b = (case a of None \<Rightarrow> b | Some s \<Rightarrow> if s = [] then b else Some s)"

definition str_or :: "string \<Rightarrow> string \<Rightarrow> string" where
  "str_or a b = (if a = [] then b else a)"

definition opt_truthy :: "string option \<Rightarrow> bool" where
  "opt_truthy a = (case a of None \<Rightarrow> False | Some s \<Rightarrow> s \<noteq> [])"

definition ascii_lower :: "char \<Rightarrow> char" where
  "ascii_lower c = (let n = of_char c :: nat in if 65 \<le> n \<and> n \<le> 90 then char_of (n + 32) else c)"

definition ascii_upper :: "char \<Rightarrow> char" where
  "ascii_upper c = (let n = of_char c :: nat in if 97 \<le> n \<and> n \<le> 122 then char_of (n - 32) else c)"

definition str_lower :: "string \<Rightarrow> string" where
  "str_lower = map ascii_lower"

definition str_upper :: "string \<Rightarrow> string" where
  "str_upper = map ascii_upper"

text \<open>\<open>needle in haystack\<close> on strings.\<close>

definition str_in :: "string \<Rightarrow> string \<Rightarrow> bool" where
  "str_in needle hay = sublist needle hay"

definition is_ascii :: "string \<Rightarrow> bool" where
  "is_ascii s = list_all (\<lambda>c. (of_char c :: nat) < 128) s"

definition is_space :: "char \<Rightarrow> bool" where
  "is_space c = ((of_char c :: nat) \<in> {9, 10, 11, 12, 13, 28, 29, 30, 31, 32})"

definition str_strip :: "string \<Rightarrow> string" where
  "str_strip s = rev (dropWhile is_space (rev (dropWhile is_space s)))"

fun str_join :: "string \<Rightarrow> string list \<Rightarrow> string" where
  "str_join sep [] = []"
| "str_join sep [s] = s"
| "str_join sep (s # t # ss) = s @ sep @ str_join sep (t # ss)"

subsection \<open>Decimal rendering\<close>

definition digit_char :: "nat \<Rightarrow> char" where
  "digit_char d = char_of (48 + d)"

fun nat_dec :: "nat \<Rightarrow> string" where
  "nat_dec n = (if n < 10 then [digit_char n] else nat_dec (n div 10) @ [digit_char (n mod 10)])"

declare nat_dec.simps [simp del]

definition int_dec :: "int \<Rightarrow> string" where
  "int_dec i = (if i < 0 then CHR ''-'' # nat_dec (nat (- i)) else nat_dec (nat i))"

text \<open>\<open>f"{n:0wd}"\<close> for a non-negative \<open>n\<close>: pad with zeros on the left to width \<open>w\<close>.\<close>

definition zpad :: "nat \<Rightarrow> string \<Rightarrow> string" where
  "zpad w s = replicate (w - length s) (CHR ''0'') @ s"

definition dec_value :: "string \<Rightarrow> nat" where
  "dec_value s = foldl (\<lambda>a c. 10 * a + (of_char c - 48)) 0 s"

definition is_digit :: "char \<Rightarrow> bool" where
  "is_digit c = (48 \<le> (of_char c :: nat) \<and> (of_char c :: nat) \<le> 57)"

lemma of_char_digit: "d < 10 \<Longrightarrow> (of_char (digit_char d) :: nat) = 48 + d"
  by (simp add: digit_char_def)

lemma is_digit_digit_char: "d < 10 \<Longrightarrow> is_digit (digit_char d)"
  by (simp add: is_digit_def of_char_digit)

lemma nat_dec_digits: "list_all is_digit (nat_dec n)"
proof (induction n rule: nat_dec.induct)
  case (1 n)
  then show ?case
    by (cases "n < 10") (simp_all add: nat_dec.simps [of n] is_digit_digit_char)
qed

lemma nat_dec_nonempty: "nat_dec n \<noteq> []"
  by (simp add: nat_dec.simps [of n])

lemma dec_value_nat_dec: "dec_value (nat_dec n) = n"
proof (induction n rule: nat_dec.induct)
  case (1 n)
  show ?case
  proof (cases "n < 10")
    case True
    then show ?thesis by (simp add: nat_dec.simps [of n] dec_value_def of_char_digit)
  next
    case False
    then have "dec_value (nat_dec (n div 10)) = n div 10" by (rule "1.IH")
    with False show ?thesis
      by (simp add: nat_dec.simps [of n] dec_value_def of_char_digit)
  qed
qed

lemma nat_dec_inject [simp]: "nat_dec m = nat_dec n \<longleftrightarrow> m = n"
  by (metis dec_value_nat_dec)

lemma dec_value_zpad: "dec_value (zpad w s) = dec_value s"
proof -
  have "foldl (\<lambda>a c. 10 * a + (of_char c - 48)) 0 (replicate k (CHR ''0'')) = (0::nat)" for k
    by (induction k) auto
  then show ?thesis by (simp add: zpad_def dec_value_def)
qed

lemma zpad_nat_dec_inject [simp]: "zpad w (nat_dec m) = zpad w (nat_dec n) \<longleftrightarrow> m = n"
  by (metis dec_value_zpad dec_value_nat_dec)

text \<open>The same on integers, whose numerals evaluate in the kernel.\<close>

fun udec :: "int \<Rightarrow> string" where
  "udec n = (if n < 10 then [digit_char (nat n)] else udec (n div 10) @ [digit_char (nat (n mod 10))])"

declare udec.simps [simp del]

lemma udec_nat: "udec (int n) = nat_dec n"
proof (induction n rule: nat_dec.induct)
  case (1 n)
  show ?case
  proof (cases "n < 10")
    case False
    have "int n div 10 = int (n div 10)" "int n mod 10 = int (n mod 10)"
      using zdiv_int [of n 10] zmod_int [of n 10] by simp_all
    then show ?thesis
      using "1.IH" [OF False] False
      by (simp add: nat_dec.simps [of n] udec.simps [of "int n"])
  qed (simp add: nat_dec.simps [of n] udec.simps [of "int n"])
qed

lemma nat_dec_code [code]: "nat_dec n = udec (int n)"
  by (simp add: udec_nat)

lemma int_dec_code [code]: "int_dec i = (if i < 0 then CHR ''-'' # udec (- i) else udec i)"
  by (simp add: int_dec_def flip: udec_nat)

lemma not_digit_in_nat_dec: "\<not> is_digit c \<Longrightarrow> c \<notin> set (nat_dec n)"
  using nat_dec_digits [of n] by (auto simp: list_all_iff)

lemma int_dec_inject [simp]: "int_dec i = int_dec j \<longleftrightarrow> i = j"
proof -
  have no: "CHR ''-'' \<notin> set (nat_dec n)" for n
    by (rule not_digit_in_nat_dec) (simp add: is_digit_def)
  have "CHR ''-'' # xs \<noteq> nat_dec n" for n xs
    using no [of n] by (metis list.set_intros(1))
  then show ?thesis
    by (auto simp: int_dec_def dest: sym split: if_splits)
qed

text \<open>
  A text with a separator that does not occur before it (or after it) splits uniquely. The
  identifiers the code builds from a counter end in such a separator and the counter.
\<close>

lemma prefix_split_inject:
  "s @ c # p = t @ c # q \<Longrightarrow> c \<notin> set s \<Longrightarrow> c \<notin> set t \<Longrightarrow> s = t \<and> p = q"
proof (induction s arbitrary: t)
  case Nil
  then show ?case by (cases t) auto
next
  case (Cons a s)
  then show ?case by (cases t) auto
qed

lemma suffix_split_inject:
  assumes "p @ c # s = q @ c # t" and "c \<notin> set s" and "c \<notin> set t"
  shows "p = q \<and> s = t"
  using prefix_split_inject [of "rev s" c "rev p" "rev t" "rev q"]
    arg_cong [OF assms(1), of rev] assms(2,3) by simp

section \<open>Sorting\<close>

text \<open>
  \<open>sorted\<close> is stable, as \<open>sort_key\<close> is; \<open>reverse=True\<close> keeps the order of equal elements too. A
  set of strings comes out of \<open>sorted\<close> without repetitions.
\<close>

definition sorted_desc :: "('a \<Rightarrow> 'b::linorder) \<Rightarrow> 'a list \<Rightarrow> 'a list" where
  "sorted_desc key xs = rev (sort_key key (rev xs))"

definition sorted_set :: "'a::linorder list \<Rightarrow> 'a list" where
  "sorted_set xs = sort (remdups xs)"

lemma set_sorted_set [simp]: "set (sorted_set xs) = set xs"
  by (simp add: sorted_set_def)

lemma sorted_sorted_set [simp]: "sorted (sorted_set xs)"
  by (simp add: sorted_set_def)

lemma distinct_sorted_set [simp]: "distinct (sorted_set xs)"
  by (simp add: sorted_set_def)

lemma set_sorted_desc [simp]: "set (sorted_desc k xs) = set xs"
  by (simp add: sorted_desc_def)

lemma mset_sorted_desc [simp]: "mset (sorted_desc k xs) = mset xs"
  by (simp add: sorted_desc_def)

text \<open>\<open>max(xs, default=None)\<close> and \<open>min(xs, default=None)\<close>.\<close>

definition max_opt :: "'a::linorder list \<Rightarrow> 'a option" where
  "max_opt xs = (if xs = [] then None else Some (Max (set xs)))"

definition min_opt :: "'a::linorder list \<Rightarrow> 'a option" where
  "min_opt xs = (if xs = [] then None else Some (Min (set xs)))"

lemma max_opt_Some: "max_opt xs = Some m \<longleftrightarrow> m \<in> set xs \<and> (\<forall>x\<in>set xs. x \<le> m)"
  by (cases "xs = []") (auto simp: max_opt_def Max_eq_iff)

lemma min_opt_Some: "min_opt xs = Some m \<longleftrightarrow> m \<in> set xs \<and> (\<forall>x\<in>set xs. m \<le> x)"
  by (cases "xs = []") (auto simp: min_opt_def Min_eq_iff)

lemma max_opt_None [simp]: "max_opt xs = None \<longleftrightarrow> xs = []"
  by (simp add: max_opt_def)

lemma min_opt_None [simp]: "min_opt xs = None \<longleftrightarrow> xs = []"
  by (simp add: min_opt_def)

text \<open>\<open>max(xs, key=f)\<close> is the first of the largest elements.\<close>

fun max_by :: "('a \<Rightarrow> 'b::linorder) \<Rightarrow> 'a list \<Rightarrow> 'a option" where
  "max_by f [] = None"
| "max_by f (x # xs) = (case max_by f xs of None \<Rightarrow> Some x | Some y \<Rightarrow> if f x < f y then Some y else Some x)"

lemma max_by_None [simp]: "max_by f xs = None \<longleftrightarrow> xs = []"
  by (cases xs) (auto split: option.splits)

lemma max_by_Some: "max_by f xs = Some m \<Longrightarrow> m \<in> set xs \<and> (\<forall>x\<in>set xs. f x \<le> f m)"
proof (induction xs arbitrary: m)
  case (Cons x xs)
  then show ?case by (fastforce split: option.splits if_splits)
qed simp

end
