(* ===== verification/PyFloat.thy ===== *)
theory PyFloat
  imports LobPrelude "HOL-Library.Log_Nat"
begin

text \<open>
  Python floats. A finite float is the rational number it denotes; every operation computes the
  exact result and rounds it to 53 significant bits, ties to even, which is what IEEE binary64
  does. The exponent is unbounded here: overflow to infinity, underflow to subnormals, NaN and the
  sign of zero are outside the model. Literals such as \<open>0.05\<close> are the rounded decimal
  (\<open>flit\<close>), \<open>round(x, k)\<close> is Python's correctly rounded decimal rounding (\<open>fround\<close>), and \<open>sum\<close>
  over floats is the left-to-right sum of CPython 3.11, the version of the deployed image.

  The locale \<open>float_rounding\<close> holds what the components' proofs use of rounding: it is monotone,
  idempotent, odd, and keeps zero and only zero at zero.
\<close>

named_theorems float_signs \<open>signs and bounds of rounded results\<close>

section \<open>What rounding promises\<close>

locale float_rounding =
  fixes rnd :: "rat \<Rightarrow> rat"
  assumes rnd_mono: "x \<le> y \<Longrightarrow> rnd x \<le> rnd y"
    and rnd_idem: "rnd (rnd x) = rnd x"
    and rnd_minus: "rnd (- x) = - rnd x"
    and rnd_zero_iff: "rnd x = 0 \<longleftrightarrow> x = 0"
begin

lemma rnd_zero: "rnd 0 = 0"
  by (simp add: rnd_zero_iff)

lemma rnd_nonneg: "0 \<le> x \<Longrightarrow> 0 \<le> rnd x"
  using rnd_mono [of 0 x] by (simp add: rnd_zero)

lemma rnd_nonpos: "x \<le> 0 \<Longrightarrow> rnd x \<le> 0"
  using rnd_mono [of x 0] by (simp add: rnd_zero)

lemma rnd_pos_iff: "0 < rnd x \<longleftrightarrow> 0 < x"
  using rnd_nonneg [of x] rnd_nonpos [of x] rnd_zero_iff [of x] by linarith

lemma rnd_nonneg_iff: "0 \<le> rnd x \<longleftrightarrow> 0 \<le> x"
  using rnd_nonneg [of x] rnd_nonpos [of x] rnd_zero_iff [of x] by linarith

lemma rnd_le_fixed: "rnd y = y \<Longrightarrow> x \<le> y \<Longrightarrow> rnd x \<le> y"
  using rnd_mono [of x y] by simp

lemma fixed_le_rnd: "rnd y = y \<Longrightarrow> y \<le> x \<Longrightarrow> y \<le> rnd x"
  using rnd_mono [of y x] by simp

lemma rnd_diff_le: "rnd x = x \<Longrightarrow> 0 \<le> y \<Longrightarrow> rnd (x - y) \<le> x"
  by (rule rnd_le_fixed) auto

lemma rnd_abs: "rnd \<bar>x\<bar> = \<bar>rnd x\<bar>"
proof (cases "0 \<le> x")
  case True
  then show ?thesis by (simp add: rnd_nonneg)
next
  case False
  then have "rnd x \<le> 0" by (simp add: rnd_nonpos)
  with False show ?thesis by (simp add: rnd_minus)
qed

end

section \<open>Powers of two and round-half-even\<close>

definition pow2 :: "int \<Rightarrow> rat" where
  "pow2 k = (if 0 \<le> k then 2 ^ nat k else 1 / 2 ^ nat (- k))"

text \<open>Nearest integer, ties to the even one (\<open>ROUND_HALF_EVEN\<close>).\<close>

definition rhe :: "rat \<Rightarrow> int" where
  "rhe x = (let f = \<lfloor>x\<rfloor>; d = x - of_int f in
     if d < 1 / 2 then f else if 1 / 2 < d then f + 1 else if even f then f else f + 1)"

lemma pow2_powi: "pow2 k = 2 powi k"
  by (simp add: pow2_def power_int_def power_one_over inverse_eq_divide)

lemma pow2_pos [simp]: "0 < pow2 k"
  by (simp add: pow2_def)

lemma pow2_nonzero [simp]: "pow2 k \<noteq> 0"
  using pow2_pos [of k] by linarith

lemma pow2_add: "pow2 (a + b) = pow2 a * pow2 b"
  by (simp add: pow2_powi power_int_add)

lemma pow2_diff: "pow2 (a - b) = pow2 a / pow2 b"
  by (simp add: pow2_powi power_int_diff)

lemma pow2_nat: "pow2 (int n) = 2 ^ n"
  by (simp add: pow2_def)

lemma pow2_mono: "a \<le> b \<Longrightarrow> pow2 a \<le> pow2 b"
  unfolding pow2_powi by (rule power_int_increasing) auto

lemma pow2_strict_mono: "a < b \<Longrightarrow> pow2 a < pow2 b"
  unfolding pow2_powi by (rule power_int_strict_increasing) auto

lemma pow2_less_iff: "pow2 a < pow2 b \<longleftrightarrow> a < b"
  using pow2_strict_mono [of a b] pow2_mono [of b a] by linarith

lemma pow2_le_iff: "pow2 a \<le> pow2 b \<longleftrightarrow> a \<le> b"
  using pow2_less_iff [of b a] by linarith

lemma rhe_of_int [simp]: "rhe (of_int n) = n"
  by (simp add: rhe_def)

lemma rhe_bounds: "\<lfloor>x\<rfloor> \<le> rhe x \<and> rhe x \<le> \<lfloor>x\<rfloor> + 1"
  by (simp add: rhe_def Let_def)

lemma rhe_near: "\<bar>of_int (rhe x) - x\<bar> \<le> 1 / 2"
proof -
  have "of_int \<lfloor>x\<rfloor> \<le> x" and "x < of_int \<lfloor>x\<rfloor> + 1"
    by linarith+
  then show ?thesis
    unfolding rhe_def Let_def by (auto simp: abs_le_iff)
qed

lemma rhe_mono:
  assumes "x \<le> y"
  shows "rhe x \<le> rhe y"
proof (cases "\<lfloor>x\<rfloor> = \<lfloor>y\<rfloor>")
  case True
  with assms show ?thesis by (auto simp: rhe_def Let_def)
next
  case False
  with assms have "\<lfloor>x\<rfloor> + 1 \<le> \<lfloor>y\<rfloor>"
    using floor_mono [OF assms] by linarith
  then show ?thesis using rhe_bounds [of x] rhe_bounds [of y] by linarith
qed

lemma floor_minus_frac:
  fixes x :: rat
  assumes "x \<noteq> of_int \<lfloor>x\<rfloor>"
  shows "\<lfloor>- x\<rfloor> = - \<lfloor>x\<rfloor> - 1"
proof (rule floor_unique)
  show "of_int (- \<lfloor>x\<rfloor> - 1) \<le> - x" by simp linarith
  have "of_int \<lfloor>x\<rfloor> < x" using assms of_int_floor_le [of x] by linarith
  then show "- x < of_int (- \<lfloor>x\<rfloor> - 1) + 1" by simp
qed

lemma rhe_minus: "rhe (- x) = - rhe x"
proof (cases "x = of_int \<lfloor>x\<rfloor>")
  case True
  then have "rhe (- x) = rhe (of_int (- \<lfloor>x\<rfloor>))" by simp
  also have "\<dots> = - \<lfloor>x\<rfloor>" by (rule rhe_of_int)
  also have "\<lfloor>x\<rfloor> = rhe x" by (metis True rhe_of_int)
  finally show ?thesis .
next
  case False
  define f d where "f = \<lfloor>x\<rfloor>" and "d = x - of_int f"
  have fl: "\<lfloor>- x\<rfloor> = - f - 1" using floor_minus_frac [OF False] by (simp add: f_def)
  have d': "- x - of_int \<lfloor>- x\<rfloor> = 1 - d" by (simp add: fl d_def)
  show ?thesis
    unfolding rhe_def Let_def d' unfolding fl f_def [symmetric] d_def [symmetric]
    by (auto simp: field_simps)
qed

section \<open>Rounding to 53 significant bits\<close>

text \<open>The exponent \<open>e\<close> with \<open>2 ^ e \<le> |x| < 2 ^ (e + 1)\<close>, from the lengths of numerator and denominator.\<close>

definition expo :: "rat \<Rightarrow> int" where
  "expo x = (case quotient_of \<bar>x\<bar> of (p, q) \<Rightarrow>
     let k = bitlen p - bitlen q in if pow2 k \<le> \<bar>x\<bar> then k else k - 1)"

definition rnd64 :: "rat \<Rightarrow> rat" where
  "rnd64 x = (if x = 0 then 0 else let u = pow2 (expo x - 52) in of_int (rhe (x / u)) * u)"

lemma bitlen_pow2_bounds:
  assumes "0 < n"
  shows "pow2 (bitlen n - 1) \<le> of_int n" and "of_int n < pow2 (bitlen n)"
proof -
  have b: "0 < bitlen n" and nb: "2 ^ nat (bitlen n - 1) \<le> n \<and> n < 2 ^ nat (bitlen n)"
    using assms bitlen_bounds [of n] bitlen_nonneg [of n] bitlen_eq_zero_iff [of n] by auto
  have "pow2 (bitlen n - 1) = of_int (2 ^ nat (bitlen n - 1))"
    using b by (simp add: pow2_def)
  then show "pow2 (bitlen n - 1) \<le> of_int n" using nb by (metis of_int_le_iff)
  have "pow2 (bitlen n) = of_int (2 ^ nat (bitlen n))"
    using b by (simp add: pow2_def)
  then show "of_int n < pow2 (bitlen n)" using nb by (metis of_int_less_iff)
qed

lemma frac_bits:
  assumes "0 < p" and "0 < q"
  shows "pow2 (bitlen p - bitlen q - 1) \<le> of_int p / of_int q" and "of_int p / of_int q < pow2 (bitlen p - bitlen q + 1)"
proof -
  have "of_int p / of_int q < pow2 (bitlen p) / pow2 (bitlen q - 1)"
    using bitlen_pow2_bounds [OF assms(1)] bitlen_pow2_bounds [OF assms(2)] assms(1)
    by (intro frac_less) auto
  also have "\<dots> = pow2 (bitlen p - bitlen q + 1)" by (simp add: pow2_diff [symmetric] algebra_simps)
  finally show "of_int p / of_int q < pow2 (bitlen p - bitlen q + 1)" .
  have "pow2 (bitlen p - bitlen q - 1) = pow2 (bitlen p - 1) / pow2 (bitlen q)"
    by (simp add: pow2_diff [symmetric] algebra_simps)
  also have "\<dots> \<le> of_int p / of_int q"
    using bitlen_pow2_bounds [OF assms(1)] bitlen_pow2_bounds [OF assms(2)] assms
    by (intro frac_le) auto
  finally show "pow2 (bitlen p - bitlen q - 1) \<le> of_int p / of_int q" .
qed

lemma expo_bounds:
  assumes "x \<noteq> 0"
  shows "pow2 (expo x) \<le> \<bar>x\<bar>" and "\<bar>x\<bar> < pow2 (expo x + 1)"
proof -
  obtain p q where pq: "quotient_of \<bar>x\<bar> = (p, q)" by (cases "quotient_of \<bar>x\<bar>")
  have q: "0 < q" using quotient_of_denom_pos [OF pq] .
  have x: "\<bar>x\<bar> = of_int p / of_int q" using quotient_of_div [OF pq] .
  with assms q have "(0::rat) < of_int p / of_int q" by linarith
  with q have p: "0 < p" by (simp add: zero_less_divide_iff)
  have e: "expo x = (if pow2 (bitlen p - bitlen q) \<le> \<bar>x\<bar> then bitlen p - bitlen q else bitlen p - bitlen q - 1)"
    by (simp add: expo_def pq Let_def)
  show "pow2 (expo x) \<le> \<bar>x\<bar>" "\<bar>x\<bar> < pow2 (expo x + 1)"
    using frac_bits [OF p q] unfolding e x by auto
qed

lemma expo_unique:
  assumes "x \<noteq> 0" and "pow2 k \<le> \<bar>x\<bar>" and "\<bar>x\<bar> < pow2 (k + 1)"
  shows "expo x = k"
proof -
  have "pow2 (expo x) < pow2 (k + 1)" "pow2 k < pow2 (expo x + 1)"
    using expo_bounds [OF assms(1)] assms(2,3) by linarith+
  then show ?thesis by (simp add: pow2_less_iff)
qed

lemma expo_mono:
  assumes "x \<noteq> 0" and "\<bar>x\<bar> \<le> \<bar>y\<bar>"
  shows "expo x \<le> expo y"
proof -
  have "y \<noteq> 0" using assms by auto
  then have "pow2 (expo x) < pow2 (expo y + 1)"
    using expo_bounds [OF assms(1)] expo_bounds [of y] assms(2) by linarith
  then show ?thesis by (simp add: pow2_less_iff)
qed

lemma expo_minus [simp]: "expo (- x) = expo x"
  by (simp add: expo_def)

lemma mantissa_bounds:
  assumes "0 < x"
  shows "2 ^ 52 \<le> x / pow2 (expo x - 52)" and "x / pow2 (expo x - 52) \<le> 2 ^ 53"
proof -
  have p: "pow2 (expo x) \<le> x" "x < pow2 (expo x + 1)"
    using expo_bounds [of x] assms by auto
  have u: "pow2 (expo x) = 2 ^ 52 * pow2 (expo x - 52)" "pow2 (expo x + 1) = 2 ^ 53 * pow2 (expo x - 52)"
    using pow2_add [of 52 "expo x - 52"] pow2_add [of 53 "expo x - 52"] pow2_nat [of 52] pow2_nat [of 53]
    by (simp_all add: algebra_simps)
  show "2 ^ 52 \<le> x / pow2 (expo x - 52)" using p(1) unfolding u by (simp add: pos_le_divide_eq)
  show "x / pow2 (expo x - 52) \<le> 2 ^ 53" using p(2) unfolding u by (simp add: pos_divide_le_eq)
qed

lemma rhe_mantissa_bounds:
  assumes "0 < x"
  shows "2 ^ 52 \<le> rhe (x / pow2 (expo x - 52))" and "rhe (x / pow2 (expo x - 52)) \<le> 2 ^ 53"
proof -
  have "rhe (of_int (2 ^ 52)) \<le> rhe (x / pow2 (expo x - 52))"
    using mantissa_bounds(1) [OF assms] by (intro rhe_mono) simp
  then show "2 ^ 52 \<le> rhe (x / pow2 (expo x - 52))" by (simp only: rhe_of_int)
  have "rhe (x / pow2 (expo x - 52)) \<le> rhe (of_int (2 ^ 53))"
    using mantissa_bounds(2) [OF assms] by (intro rhe_mono) simp
  then show "rhe (x / pow2 (expo x - 52)) \<le> 2 ^ 53" by (simp only: rhe_of_int)
qed

lemma rnd64_minus: "rnd64 (- x) = - rnd64 x"
  by (simp add: rnd64_def Let_def rhe_minus)

lemma rnd64_pos_bounds:
  assumes "0 < x"
  shows "pow2 (expo x) \<le> rnd64 x" and "rnd64 x \<le> pow2 (expo x + 1)"
proof -
  let ?u = "pow2 (expo x - 52)" and ?n = "rhe (x / pow2 (expo x - 52))"
  have r: "rnd64 x = of_int ?n * ?u" using assms by (simp add: rnd64_def Let_def)
  have "of_int (2 ^ 52) \<le> (of_int ?n :: rat)" and "(of_int ?n :: rat) \<le> of_int (2 ^ 53)"
    using rhe_mantissa_bounds [OF assms] by (simp_all only: of_int_le_iff)
  then have "2 ^ 52 * ?u \<le> rnd64 x" and "rnd64 x \<le> 2 ^ 53 * ?u"
    unfolding r by (simp_all add: mult_right_mono)
  then show "pow2 (expo x) \<le> rnd64 x" and "rnd64 x \<le> pow2 (expo x + 1)"
    using pow2_add [of 52 "expo x - 52"] pow2_add [of 53 "expo x - 52"] pow2_nat [of 52] pow2_nat [of 53]
    by (simp_all add: algebra_simps)
qed

lemma rnd64_mono_pos:
  assumes "0 < x" and "x \<le> y"
  shows "rnd64 x \<le> rnd64 y"
proof -
  have y: "0 < y" using assms by simp
  have "expo x \<le> expo y" using assms by (intro expo_mono) auto
  then consider "expo x = expo y" | "expo x + 1 \<le> expo y" by linarith
  then show ?thesis
  proof cases
    case 1
    have "rhe (x / pow2 (expo y - 52)) \<le> rhe (y / pow2 (expo y - 52))"
      using assms by (intro rhe_mono divide_right_mono) (auto intro: order.strict_implies_order)
    with assms y show ?thesis
      by (simp add: rnd64_def Let_def 1)
  next
    case 2
    then have "pow2 (expo x + 1) \<le> pow2 (expo y)" by (rule pow2_mono)
    then show ?thesis
      using rnd64_pos_bounds [OF assms(1)] rnd64_pos_bounds [OF y] by linarith
  qed
qed

lemma rnd64_zero [simp]: "rnd64 0 = 0"
  by (simp add: rnd64_def)

lemma rnd64_pos: "0 < x \<Longrightarrow> 0 < rnd64 x"
  using rnd64_pos_bounds(1) [of x] pow2_pos [of "expo x"] by linarith

lemma rnd64_mono: "x \<le> y \<Longrightarrow> rnd64 x \<le> rnd64 y"
proof -
  assume xy: "x \<le> y"
  consider "0 < x" | "x \<le> 0" "0 \<le> y" | "y < 0" by linarith
  then show ?thesis
  proof cases
    case 1
    then show ?thesis using xy by (rule rnd64_mono_pos)
  next
    case 2
    have "rnd64 x \<le> 0" using 2 rnd64_pos [of "- x"] by (cases "x = 0") (auto simp: rnd64_minus)
    moreover have "0 \<le> rnd64 y" using 2 rnd64_pos [of y] by (cases "y = 0") auto
    ultimately show ?thesis by simp
  next
    case 3
    then show ?thesis using rnd64_mono_pos [of "- y" "- x"] xy by (simp add: rnd64_minus)
  qed
qed

text \<open>A number with at most 53 significant bits is a float and rounds to itself.\<close>

lemma rnd64_exact:
  assumes "\<bar>n\<bar> \<le> 2 ^ 53"
  shows "rnd64 (of_int n * pow2 k) = of_int n * pow2 k"
proof (cases "n = 0")
  case False
  define x where "x = of_int n * pow2 k"
  have x0: "x \<noteq> 0" using False by (simp add: x_def)
  have ax: "\<bar>x\<bar> = of_int \<bar>n\<bar> * pow2 k" by (simp add: x_def abs_mult abs_of_pos)
  have "of_int \<bar>n\<bar> \<le> (2 ^ 53 :: rat)" using assms by (metis of_int_le_iff of_int_numeral of_int_power)
  then have "\<bar>x\<bar> \<le> 2 ^ 53 * pow2 k" unfolding ax by (intro mult_right_mono) (auto intro: less_imp_le)
  also have "2 ^ 53 * pow2 k = pow2 (53 + k)" using pow2_add [of 53 k] pow2_nat [of 53] by simp
  finally have "pow2 (expo x) \<le> pow2 (53 + k)" using expo_bounds [OF x0] by linarith
  then have ek: "expo x \<le> 53 + k" by (simp add: pow2_le_iff)
  have q: "x / pow2 (expo x - 52) = of_int n * pow2 (k + 52 - expo x)"
    by (simp add: x_def pow2_diff pow2_add field_simps)
  have "\<exists>m. x / pow2 (expo x - 52) = of_int m"
  proof (cases "expo x \<le> k + 52")
    case True
    then have "pow2 (k + 52 - expo x) = of_int (2 ^ nat (k + 52 - expo x))" by (simp add: pow2_def)
    then show ?thesis unfolding q by (metis of_int_mult)
  next
    case e: False
    with ek have e: "expo x = 53 + k" by simp
    have "pow2 (53 + k) \<le> of_int \<bar>n\<bar> * pow2 k" using expo_bounds [OF x0] by (simp add: e ax)
    then have "(2 ^ 53 :: rat) \<le> of_int \<bar>n\<bar>"
      using pow2_add [of 53 k] pow2_nat [of 53] by simp
    then have "2 ^ 53 \<le> \<bar>n\<bar>" by (metis of_int_le_iff of_int_numeral of_int_power)
    with assms have "n = 2 * 2 ^ 52 \<or> n = 2 * (- (2 ^ 52))" by auto
    then obtain m where "n = 2 * m" by blast
    then show ?thesis unfolding q by (intro exI [of _ m]) (simp add: e pow2_def)
  qed
  then obtain m where m: "x / pow2 (expo x - 52) = of_int m" by blast
  have "rnd64 x = of_int m * pow2 (expo x - 52)" using x0 by (simp add: rnd64_def Let_def m)
  also have "\<dots> = x" using m by (simp add: field_simps)
  finally show ?thesis by (simp add: x_def)
qed simp

lemma rnd64_idem: "rnd64 (rnd64 x) = rnd64 x"
proof -
  have pos: "rnd64 (rnd64 y) = rnd64 y" if y: "0 < y" for y
  proof -
    have "\<bar>rhe (y / pow2 (expo y - 52))\<bar> \<le> 2 ^ 53" using rhe_mantissa_bounds [OF y] by auto
    then show ?thesis using y rnd64_exact by (simp add: rnd64_def [of y] Let_def)
  qed
  consider "0 < x" | "x = 0" | "0 < - x" by linarith
  then show ?thesis
    using pos [of x] pos [of "- x"] by cases (auto simp: rnd64_minus)
qed

lemma rnd64_zero_iff: "rnd64 x = 0 \<longleftrightarrow> x = 0"
  using rnd64_pos [of x] rnd64_pos [of "- x"] by (cases "0 < x"; cases "x = 0") (auto simp: rnd64_minus)

interpretation b64: float_rounding rnd64
  by unfold_locales (fact rnd64_mono rnd64_idem rnd64_minus rnd64_zero_iff)+

lemmas rnd64_signs = b64.rnd_nonneg_iff b64.rnd_pos_iff b64.rnd_zero_iff

declare rnd64_signs [float_signs] b64.rnd_mono [float_signs]

lemma rnd64_of_int: "\<bar>n\<bar> \<le> 2 ^ 53 \<Longrightarrow> rnd64 (of_int n) = of_int n"
  using rnd64_exact [of n 0] by (simp add: pow2_def)

lemma rnd64_one [simp]: "rnd64 1 = 1"
  using rnd64_of_int [of 1] by simp

lemma rnd64_numeral: "(numeral w :: int) \<le> 2 ^ 53 \<Longrightarrow> rnd64 (numeral w) = numeral w"
  using rnd64_of_int [of "numeral w"] by simp

subsection \<open>Code equations\<close>

text \<open>
  Equivalent equations for evaluation: a number that is already a float is returned as it is, and
  the integer versions fire on numerals only.
\<close>

fun is_pow2 :: "num \<Rightarrow> bool" where
  "is_pow2 num.One = True"
| "is_pow2 (num.Bit0 n) = is_pow2 n"
| "is_pow2 (num.Bit1 n) = False"

lemma is_pow2_ex: "is_pow2 n \<Longrightarrow> \<exists>k. (numeral n :: int) = 2 ^ k"
proof (induction n rule: is_pow2.induct)
  case 1
  have "(numeral num.One :: int) = 2 ^ 0" by simp
  then show ?case by blast
next
  case (2 n)
  then obtain k where k: "(numeral n :: int) = 2 ^ k" by auto
  have "(numeral (num.Bit0 n) :: int) = 2 * numeral n" by (metis numeral_Bit0 mult_2)
  also have "\<dots> = 2 ^ Suc k" by (simp only: k power_Suc)
  finally show ?case by blast
next
  case (3 n)
  then show ?case by simp
qed

definition rhe_ints :: "int \<Rightarrow> int \<Rightarrow> int" where
  "rhe_ints p q = rhe (of_int p / of_int q)"

lemma rhe_ints_code [code]:
  "rhe_ints p (Int.Pos n) =
     (let q = Int.Pos n; f = p div q; r = 2 * (p mod q)
      in if r < q then f else if q < r then f + 1 else if even f then f else f + 1)"
proof -
  let ?q = "Int.Pos n"
  have q: "0 < ?q" by simp
  have "of_int p = of_int (p div ?q) * (of_int ?q :: rat) + of_int (p mod ?q)"
    by (metis div_mult_mod_eq of_int_add of_int_mult)
  then have e: "(of_int p / of_int ?q :: rat) - of_int (p div ?q) = of_int (p mod ?q) / of_int ?q"
    using q by (simp add: field_simps)
  have fl: "\<lfloor>of_int p / of_int ?q :: rat\<rfloor> = p div ?q" by (rule floor_divide_of_int_eq)
  have "(of_int (p mod ?q) / of_int ?q < (1 / 2 :: rat)) = (2 * (p mod ?q) < ?q)"
    and "((1 / 2 :: rat) < of_int (p mod ?q) / of_int ?q) = (?q < 2 * (p mod ?q))"
    using q by (simp_all add: field_simps flip: of_int_less_iff [where ?'a = rat])
  then show ?thesis by (simp only: rhe_ints_def rhe_def Let_def fl e)
qed

lemma rhe_code [code]: "rhe x = (case quotient_of x of (p, q) \<Rightarrow> rhe_ints p q)"
  by (auto simp: rhe_ints_def dest: quotient_of_div split: prod.splits)

text \<open>A fraction over a power of two is reduced by dropping common zero bits.\<close>

fun trim :: "num \<Rightarrow> num \<Rightarrow> num \<times> num" where
  "trim (num.Bit0 m) (num.Bit0 n) = trim m n"
| "trim m n = (m, n)"

lemma odd_coprime_pow2: "is_pow2 n \<Longrightarrow> odd k \<Longrightarrow> coprime k (numeral n :: int)"
proof -
  assume "is_pow2 n" "odd k"
  then obtain j where j: "(numeral n :: int) = 2 ^ j" using is_pow2_ex by blast
  have "coprime k (2 ^ j)" using \<open>odd k\<close> by (simp add: coprime_right_2_iff_odd)
  then show "coprime k (numeral n)" by (simp only: j)
qed

lemma trim_reduces:
  assumes "is_pow2 n" and "trim m n = (a, b)"
  shows "coprime (numeral a :: int) (numeral b) \<and> (numeral m * numeral b = (numeral a * numeral n :: int))"
  using assms
proof (induction m arbitrary: n a b)
  case One
  then show ?case by auto
next
  case (Bit0 m)
  show ?case
  proof (cases n)
    case two: (Bit0 k)
    then have "coprime (numeral a :: int) (numeral b)" "numeral m * numeral b = (numeral a * numeral k :: int)"
      using Bit0.IH [of k a b] Bit0.prems by auto
    moreover have "numeral (num.Bit0 m) = 2 * (numeral m :: int)" "numeral (num.Bit0 k) = 2 * (numeral k :: int)"
      by simp_all
    ultimately show ?thesis by (simp only: two mult.left_commute [of _ 2] mult.assoc)
  qed (use Bit0.prems in auto)
next
  case (Bit1 m)
  have "odd (numeral (num.Bit1 m) :: int)" by simp
  with Bit1.prems show ?case using odd_coprime_pow2 [of n] by auto
qed

lemma quotient_of_trim:
  assumes "is_pow2 n" and "trim m n = (a, b)"
  shows "quotient_of (Fract (numeral m) (numeral n)) = (numeral a, numeral b)"
    and "quotient_of (Fract (- numeral m) (numeral n)) = (- numeral a, numeral b)"
proof -
  have c: "coprime (numeral a :: int) (numeral b)" and e: "numeral m * numeral b = (numeral a * numeral n :: int)"
    using trim_reduces [OF assms] by auto
  have "Fract (numeral m) (numeral n) = Fract (numeral a) (numeral b)"
    "Fract (- numeral m) (numeral n) = Fract (- numeral a) (numeral b)"
    using e by (subst eq_rat(1); simp)+
  then show "quotient_of (Fract (numeral m) (numeral n)) = (numeral a, numeral b)"
    "quotient_of (Fract (- numeral m) (numeral n)) = (- numeral a, numeral b)"
    using c by (simp_all only: quotient_of_Fract) (simp_all add: normalize_stable)
qed

definition dyadic :: "int \<Rightarrow> num \<Rightarrow> rat" where
  "dyadic p n = (if is_pow2 n then Fract p (numeral n) else 0)"

definition dyadic_pair :: "int \<Rightarrow> num \<Rightarrow> int \<times> int" where
  "dyadic_pair p n = quotient_of (dyadic p n)"

definition lowest :: "int \<times> num \<Rightarrow> rat" where
  "lowest pn = dyadic (fst pn) (snd pn)"

definition trimmed :: "num \<Rightarrow> num \<Rightarrow> int \<times> num" where
  "trimmed m n = (case trim m n of (a, b) \<Rightarrow> (Int.Pos a, b))"

definition dyadic_lowest :: "int \<Rightarrow> num \<Rightarrow> rat" where
  "dyadic_lowest p n = dyadic p n"

lemma trim_pow2: "is_pow2 n \<Longrightarrow> trim m n = (a, b) \<Longrightarrow> is_pow2 b"
  by (induction m n arbitrary: a b rule: trim.induct) auto

lemma dyadic_lowest_code [code]:
  "dyadic_lowest 0 n = 0"
  "dyadic_lowest (Int.Pos m) n = (if is_pow2 n then lowest (trimmed m n) else 0)"
proof -
  show "dyadic_lowest 0 n = 0" by (simp add: dyadic_lowest_def dyadic_def rat_number_collapse)
  have "Fract (numeral m) (numeral n) = Fract (numeral a) (numeral b)"
    if "is_pow2 n" "trim m n = (a, b)" for a b
    using trim_reduces [OF that] by (subst eq_rat(1)) simp_all
  then show "dyadic_lowest (Int.Pos m) n = (if is_pow2 n then lowest (trimmed m n) else 0)"
    by (cases "trim m n") (auto simp: dyadic_lowest_def trimmed_def lowest_def dyadic_def trim_pow2)
qed

lemma lowest_code [code abstract]: "quotient_of (lowest pn) = dyadic_pair (fst pn) (snd pn)"
  by (simp add: dyadic_pair_def lowest_def)

lemma dyadic_pair_code [code]:
  "dyadic_pair 0 n = (0, 1)"
  "dyadic_pair (Int.Pos m) n = (if is_pow2 n then (case trim m n of (a, b) \<Rightarrow> (Int.Pos a, Int.Pos b)) else (0, 1))"
  "dyadic_pair (Int.Neg m) n = (if is_pow2 n then (case trim m n of (a, b) \<Rightarrow> (Int.Neg a, Int.Pos b)) else (0, 1))"
  by (auto simp: dyadic_pair_def dyadic_def quotient_of_trim rat_number_collapse split: prod.splits)

fun num_len :: "num \<Rightarrow> int" where
  "num_len num.One = 1"
| "num_len (num.Bit0 n) = num_len n + 1"
| "num_len (num.Bit1 n) = num_len n + 1"

lemma bitlen_numeral: "bitlen (numeral n) = num_len n"
proof (induction n)
  case (Bit0 n)
  then show ?case by (subst compute_bitlen) simp
next
  case (Bit1 n)
  then show ?case by (subst compute_bitlen) simp
qed (simp add: compute_bitlen)

fun pow2_num :: "nat \<Rightarrow> num" where
  "pow2_num 0 = num.One"
| "pow2_num (Suc k) = num.Bit0 (pow2_num k)"

lemma pow2_num [simp]: "is_pow2 (pow2_num k)" "(numeral (pow2_num k) :: int) = 2 ^ k"
proof -
  show "is_pow2 (pow2_num k)" by (induction k) simp_all
  show "(numeral (pow2_num k) :: int) = 2 ^ k"
  proof (induction k)
    case (Suc k)
    have "(numeral (num.Bit0 (pow2_num k)) :: int) = 2 * numeral (pow2_num k)" by simp
    then have "(numeral (pow2_num (Suc k)) :: int) = 2 * numeral (pow2_num k)" by (simp only: pow2_num.simps)
    then show ?case by (simp only: Suc power_Suc)
  qed simp
qed

definition shift_pow2 :: "int \<Rightarrow> int" where
  "shift_pow2 k = Int.Pos (pow2_num (nat k))"

definition frac_expo :: "int \<Rightarrow> int \<Rightarrow> int \<Rightarrow> int" where
  "frac_expo k p q = (if q * shift_pow2 k \<le> p * shift_pow2 (- k) then k else k - 1)"

definition round_shift :: "int \<Rightarrow> int \<Rightarrow> int \<Rightarrow> rat" where
  "round_shift s p q =
     dyadic_lowest (rhe_ints (p * shift_pow2 s) (q * shift_pow2 (- s)) * shift_pow2 (- s)) (pow2_num (nat s))"

lemma shift_pow2: "(of_int (shift_pow2 k) / of_int (shift_pow2 (- k)) :: rat) = pow2 k"
  by (simp add: shift_pow2_def pow2_def)

definition rnd64_frac :: "int \<Rightarrow> int \<Rightarrow> rat" where
  "rnd64_frac p q = rnd64 (Fract p q)"

lemma round_shift_frac:
  assumes "0 < p" and "0 < q"
  shows "round_shift (52 - frac_expo (bitlen p - bitlen q) p q) p q = rnd64_frac p q"
proof -
  define k where "k = bitlen p - bitlen q"
  define x :: rat where "x = of_int p / of_int q"
  define e where "e = frac_expo k p q"
  have x: "0 < x" using assms by (simp add: x_def)
  have pos: "0 < shift_pow2 j" for j by (simp add: shift_pow2_def)
  have "(q * shift_pow2 k \<le> p * shift_pow2 (- k)) = ((of_int (q * shift_pow2 k) :: rat) \<le> of_int (p * shift_pow2 (- k)))"
    by (simp only: of_int_le_iff)
  also have "\<dots> = (pow2 k \<le> x)"
    using assms pos [of "- k"] by (simp add: x_def shift_pow2 [symmetric] field_simps)
  finally have "e = (if pow2 k \<le> x then k else k - 1)" by (simp add: e_def frac_expo_def)
  then have ex: "expo x = e"
    using frac_bits [OF assms] x by (intro expo_unique) (auto simp: x_def [symmetric] k_def [symmetric])
  define s where "s = 52 - e"
  have "x / pow2 (expo x - 52) = x * pow2 s"
    using pow2_diff [of 0 s] by (simp add: ex s_def pow2_def [of 0] field_simps)
  also have "\<dots> = of_int (p * shift_pow2 s) / of_int (q * shift_pow2 (- s))"
    by (simp add: x_def shift_pow2 [symmetric])
  finally have m: "rhe (x / pow2 (expo x - 52)) = rhe_ints (p * shift_pow2 s) (q * shift_pow2 (- s))"
    by (simp add: rhe_ints_def)
  have "rnd64 x = of_int (rhe_ints (p * shift_pow2 s) (q * shift_pow2 (- s))) * pow2 (- s)"
    using x by (simp add: rnd64_def Let_def m) (simp add: ex s_def)
  also have "\<dots> = round_shift s p q"
    by (simp add: round_shift_def dyadic_lowest_def dyadic_def Fract_of_int_quotient shift_pow2_def pow2_def)
  finally show ?thesis
    by (simp add: rnd64_frac_def Fract_of_int_quotient x_def [symmetric] s_def e_def k_def)
qed

lemma rnd64_frac_code [code]:
  "rnd64_frac 0 q = 0"
  "rnd64_frac p 0 = 0"
  "rnd64_frac (Int.Pos m) (Int.Pos n) =
     round_shift (52 - frac_expo (num_len m - num_len n) (Int.Pos m) (Int.Pos n)) (Int.Pos m) (Int.Pos n)"
  "rnd64_frac (Int.Neg m) (Int.Pos n) = - rnd64_frac (Int.Pos m) (Int.Pos n)"
  "rnd64_frac p (Int.Neg n) = rnd64_frac (- p) (Int.Pos n)"
proof -
  show "rnd64_frac 0 q = 0" "rnd64_frac p 0 = 0" by (simp_all add: rnd64_frac_def rat_number_collapse)
  show "rnd64_frac (Int.Pos m) (Int.Pos n) =
     round_shift (52 - frac_expo (num_len m - num_len n) (Int.Pos m) (Int.Pos n)) (Int.Pos m) (Int.Pos n)"
    using round_shift_frac [of "Int.Pos m" "Int.Pos n"] by (simp add: bitlen_numeral)
  show "rnd64_frac (Int.Neg m) (Int.Pos n) = - rnd64_frac (Int.Pos m) (Int.Pos n)"
    "rnd64_frac p (Int.Neg n) = rnd64_frac (- p) (Int.Pos n)"
    by (simp_all add: rnd64_frac_def Fract_of_int_quotient flip: rnd64_minus)
qed

lemma rnd64_code [code]: "rnd64 x = (case quotient_of x of (p, q) \<Rightarrow> rnd64_frac p q)"
  by (auto simp: rnd64_frac_def Fract_of_int_quotient dest: quotient_of_div split: prod.splits)

section \<open>The operations\<close>

definition fadd :: "rat \<Rightarrow> rat \<Rightarrow> rat" where "fadd x y = rnd64 (x + y)"
definition fsub :: "rat \<Rightarrow> rat \<Rightarrow> rat" where "fsub x y = rnd64 (x - y)"
definition fmul :: "rat \<Rightarrow> rat \<Rightarrow> rat" where "fmul x y = rnd64 (x * y)"
definition fdiv :: "rat \<Rightarrow> rat \<Rightarrow> rat" where "fdiv x y = rnd64 (x / y)"

text \<open>A decimal literal or \<open>float(n)\<close>: the nearest float.\<close>

definition flit :: "rat \<Rightarrow> rat" where "flit x = rnd64 x"

definition fsum :: "rat list \<Rightarrow> rat" where "fsum xs = foldl fadd 0 xs"

text \<open>\<open>round(x, k)\<close> on a float, and \<open>f"{x:.kf}"\<close>.\<close>

definition fround :: "nat \<Rightarrow> rat \<Rightarrow> rat" where
  "fround k x = rnd64 (of_int (rhe (x * 10 ^ k)) / 10 ^ k)"

text \<open>Code equations on integer fractions, as above.\<close>

definition fadd_ints :: "int \<times> int \<Rightarrow> int \<times> int \<Rightarrow> rat" where
  "fadd_ints x y = fadd (Fract (fst x) (snd x)) (Fract (fst y) (snd y))"
definition fsub_ints :: "int \<times> int \<Rightarrow> int \<times> int \<Rightarrow> rat" where
  "fsub_ints x y = fsub (Fract (fst x) (snd x)) (Fract (fst y) (snd y))"
definition fmul_ints :: "int \<times> int \<Rightarrow> int \<times> int \<Rightarrow> rat" where
  "fmul_ints x y = fmul (Fract (fst x) (snd x)) (Fract (fst y) (snd y))"
definition fdiv_ints :: "int \<times> int \<Rightarrow> int \<times> int \<Rightarrow> rat" where
  "fdiv_ints x y = fdiv (Fract (fst x) (snd x)) (Fract (fst y) (snd y))"
definition fround_ints :: "nat \<Rightarrow> int \<times> int \<Rightarrow> rat" where
  "fround_ints k x = fround k (Fract (fst x) (snd x))"

lemma rat_int_ops:
  fixes p q r s :: int
  assumes "0 < q" "0 < s"
  shows "of_int p / of_int q + of_int r / of_int s = (of_int (p * s + r * q) / of_int (q * s) :: rat)"
    and "of_int p / of_int q - of_int r / of_int s = (of_int (p * s - r * q) / of_int (q * s) :: rat)"
  using assms by (simp_all add: field_simps)

lemma float_ints_code [code]:
  "fadd_ints (p, Int.Pos q) (r, Int.Pos s) = rnd64_frac (p * Int.Pos s + r * Int.Pos q) (Int.Pos q * Int.Pos s)"
  "fsub_ints (p, Int.Pos q) (r, Int.Pos s) = rnd64_frac (p * Int.Pos s - r * Int.Pos q) (Int.Pos q * Int.Pos s)"
  "fmul_ints (p, Int.Pos q) (r, Int.Pos s) = rnd64_frac (p * r) (Int.Pos q * Int.Pos s)"
  "fdiv_ints (p, Int.Pos q) (r, Int.Pos s) = rnd64_frac (p * Int.Pos s) (Int.Pos q * r)"
  "fround_ints k (p, Int.Pos q) = rnd64_frac (rhe_ints (p * 10 ^ k) (Int.Pos q)) (10 ^ k)"
proof -
  have pos: "0 < Int.Pos q" "0 < Int.Pos s" by simp_all
  show "fadd_ints (p, Int.Pos q) (r, Int.Pos s) = rnd64_frac (p * Int.Pos s + r * Int.Pos q) (Int.Pos q * Int.Pos s)"
    "fsub_ints (p, Int.Pos q) (r, Int.Pos s) = rnd64_frac (p * Int.Pos s - r * Int.Pos q) (Int.Pos q * Int.Pos s)"
    by (simp_all only: fadd_ints_def fsub_ints_def rnd64_frac_def fadd_def fsub_def Fract_of_int_quotient
        fst_conv snd_conv rat_int_ops [OF pos])
  show "fmul_ints (p, Int.Pos q) (r, Int.Pos s) = rnd64_frac (p * r) (Int.Pos q * Int.Pos s)"
    "fdiv_ints (p, Int.Pos q) (r, Int.Pos s) = rnd64_frac (p * Int.Pos s) (Int.Pos q * r)"
    "fround_ints k (p, Int.Pos q) = rnd64_frac (rhe_ints (p * 10 ^ k) (Int.Pos q)) (10 ^ k)"
    by (simp_all add: fmul_ints_def fdiv_ints_def fround_ints_def rnd64_frac_def fmul_def fdiv_def fround_def
        rhe_ints_def Fract_of_int_quotient)
qed

lemma float_ops_code [code]:
  "fadd x y = fadd_ints (quotient_of x) (quotient_of y)"
  "fsub x y = fsub_ints (quotient_of x) (quotient_of y)"
  "fmul x y = fmul_ints (quotient_of x) (quotient_of y)"
  "fdiv x y = fdiv_ints (quotient_of x) (quotient_of y)"
  "fround k x = fround_ints k (quotient_of x)"
proof -
  have e: "Fract (fst (quotient_of z)) (snd (quotient_of z)) = z" for z
    by (cases "quotient_of z") (simp add: Fract_of_int_quotient quotient_of_div [symmetric])
  show "fadd x y = fadd_ints (quotient_of x) (quotient_of y)" "fsub x y = fsub_ints (quotient_of x) (quotient_of y)"
    "fmul x y = fmul_ints (quotient_of x) (quotient_of y)" "fdiv x y = fdiv_ints (quotient_of x) (quotient_of y)"
    "fround k x = fround_ints k (quotient_of x)"
    by (simp_all only: fadd_ints_def fsub_ints_def fmul_ints_def fdiv_ints_def fround_ints_def e)
qed

definition fmt_fixed :: "nat \<Rightarrow> rat \<Rightarrow> string" where
  "fmt_fixed k x =
     (let n = nat (rhe (\<bar>x\<bar> * 10 ^ k))
      in (if x < 0 then ''-'' else []) @ nat_dec (n div 10 ^ k) @ ''.'' @ zpad k (nat_dec (n mod 10 ^ k)))"

lemma fmt_fixed_code [code]:
  "fmt_fixed k x =
     (let n = rhe (\<bar>x\<bar> * 10 ^ k)
      in (if x < 0 then ''-'' else []) @ udec (n div 10 ^ k) @ ''.'' @ zpad k (udec (n mod 10 ^ k)))"
proof -
  have n: "0 \<le> rhe (\<bar>x\<bar> * 10 ^ k)" using rhe_mono [of 0 "\<bar>x\<bar> * 10 ^ k"] rhe_of_int [of 0] by simp
  let ?n = "rhe (\<bar>x\<bar> * 10 ^ k)"
  have "int (nat ?n div 10 ^ k) = ?n div 10 ^ k" "int (nat ?n mod 10 ^ k) = ?n mod 10 ^ k"
    using n zdiv_int [of "nat ?n" "10 ^ k"] zmod_int [of "nat ?n" "10 ^ k"] by simp_all
  then show ?thesis by (simp add: fmt_fixed_def Let_def flip: udec_nat)
qed

definition is_float :: "rat \<Rightarrow> bool" where
  "is_float x = (rnd64 x = x)"

lemma is_float_ops [simp]:
  "is_float (fadd x y)" "is_float (fsub x y)" "is_float (fmul x y)" "is_float (fdiv x y)"
  "is_float (flit x)" "is_float (fround k x)" "is_float 0" "is_float 1"
  by (simp_all add: is_float_def fadd_def fsub_def fmul_def fdiv_def flit_def fround_def rnd64_idem)

lemma is_float_min: "is_float x \<Longrightarrow> is_float y \<Longrightarrow> is_float (min x y)"
  by (simp add: min_def)

lemma fsub_signs [float_signs]:
  "0 \<le> fsub x y \<longleftrightarrow> y \<le> x"
  "0 < fsub x y \<longleftrightarrow> y < x"
  "fsub x y = 0 \<longleftrightarrow> x = y"
  "fsub x y \<le> 0 \<longleftrightarrow> x \<le> y"
proof -
  show 1: "0 \<le> fsub x y \<longleftrightarrow> y \<le> x" and 2: "0 < fsub x y \<longleftrightarrow> y < x" and 3: "fsub x y = 0 \<longleftrightarrow> x = y"
    by (simp_all add: fsub_def rnd64_signs)
  show "fsub x y \<le> 0 \<longleftrightarrow> x \<le> y" using 2 by linarith
qed

lemma fsub_le: "is_float x \<Longrightarrow> 0 \<le> y \<Longrightarrow> fsub x y \<le> x"
  unfolding fsub_def is_float_def by (rule b64.rnd_diff_le)

lemma fsub_zero: "is_float x \<Longrightarrow> fsub x 0 = x"
  by (simp add: fsub_def is_float_def)

lemma fadd_nonneg [float_signs]: "0 \<le> x \<Longrightarrow> 0 \<le> y \<Longrightarrow> 0 \<le> fadd x y"
  by (simp add: fadd_def rnd64_signs)

lemma fadd_pos [float_signs]: "0 < x \<Longrightarrow> 0 \<le> y \<Longrightarrow> 0 < fadd x y"
  by (simp add: fadd_def rnd64_signs)

lemma fadd_zero: "is_float x \<Longrightarrow> fadd 0 x = x"
  by (simp add: fadd_def is_float_def)

lemma fadd_ge: "is_float x \<Longrightarrow> 0 \<le> y \<Longrightarrow> x \<le> fadd x y"
  unfolding fadd_def is_float_def by (rule b64.fixed_le_rnd) auto

lemma fmul_nonneg [float_signs]: "0 \<le> x \<Longrightarrow> 0 \<le> y \<Longrightarrow> 0 \<le> fmul x y"
  by (simp add: fmul_def rnd64_signs)

lemma fdiv_nonneg [float_signs]: "0 \<le> x \<Longrightarrow> 0 \<le> y \<Longrightarrow> 0 \<le> fdiv x y"
  by (simp add: fdiv_def rnd64_signs)

lemma fadd_mono: "a \<le> b \<Longrightarrow> c \<le> d \<Longrightarrow> fadd a c \<le> fadd b d"
  unfolding fadd_def by (intro rnd64_mono add_mono)

lemma fmul_mono_right: "a \<le> b \<Longrightarrow> 0 \<le> c \<Longrightarrow> fmul a c \<le> fmul b c"
  unfolding fmul_def by (intro rnd64_mono mult_right_mono)

lemma foldl_fadd_nonneg: "0 \<le> a \<Longrightarrow> \<forall>x\<in>set xs. 0 \<le> x \<Longrightarrow> 0 \<le> foldl fadd a xs"
  by (induction xs arbitrary: a) (auto simp: fadd_nonneg)

lemma fsum_nonneg: "\<forall>x\<in>set xs. 0 \<le> x \<Longrightarrow> 0 \<le> fsum xs"
  unfolding fsum_def by (rule foldl_fadd_nonneg) auto

lemma foldl_fadd_ge: "is_float a \<Longrightarrow> \<forall>x\<in>set xs. 0 \<le> x \<Longrightarrow> a \<le> foldl fadd a xs"
proof (induction xs arbitrary: a)
  case (Cons x xs)
  have "a \<le> fadd a x" using Cons.prems by (intro fadd_ge) auto
  also have "\<dots> \<le> foldl fadd (fadd a x) xs" using Cons.prems by (intro Cons.IH) auto
  finally show ?case by simp
qed simp

lemma fround_mono: "x \<le> y \<Longrightarrow> fround k x \<le> fround k y"
proof -
  assume "x \<le> y"
  then have "rhe (x * 10 ^ k) \<le> rhe (y * 10 ^ k)" by (intro rhe_mono mult_right_mono) auto
  then show ?thesis unfolding fround_def by (intro rnd64_mono divide_right_mono) auto
qed

lemma fround_of_int: "\<bar>n\<bar> \<le> 2 ^ 53 \<Longrightarrow> fround k (of_int n) = of_int n"
proof -
  assume n: "\<bar>n\<bar> \<le> 2 ^ 53"
  have "of_int n * (10::rat) ^ k = of_int (n * 10 ^ k)" by simp
  then have "rhe (of_int n * (10::rat) ^ k) = n * 10 ^ k" by (simp only: rhe_of_int)
  then show ?thesis using rnd64_of_int [OF n] by (simp add: fround_def)
qed

lemma fround_01 [simp]: "fround k 0 = 0" "fround k 1 = 1"
  using fround_of_int [of 0 k] fround_of_int [of 1 k] by simp_all

lemma fround_nonneg [float_signs]: "0 \<le> x \<Longrightarrow> 0 \<le> fround k x"
  using fround_mono [of 0 x k] by simp

lemma fround_le_one: "x \<le> 1 \<Longrightarrow> fround k x \<le> 1"
  using fround_mono [of x 1 k] by simp

section \<open>Exact arithmetic on a grid\<close>

text \<open>
  Quantities and prices are usually multiples of one power of two (whole lots, half ticks) and far
  below 2 to the 53rd of them. On such a grid sums and differences are exact.
\<close>

definition on_grid :: "int \<Rightarrow> rat \<Rightarrow> bool" where
  "on_grid k x = (x / pow2 k \<in> \<int>)"

lemma on_grid_iff: "on_grid k x \<longleftrightarrow> (\<exists>n. x = of_int n * pow2 k)"
proof
  assume "on_grid k x"
  then obtain n where "x / pow2 k = of_int n" by (auto simp: on_grid_def Ints_def)
  then have "x = of_int n * pow2 k" by (simp add: field_simps)
  then show "\<exists>n. x = of_int n * pow2 k" by blast
qed (auto simp: on_grid_def)

lemma on_grid_add: "on_grid k x \<Longrightarrow> on_grid k y \<Longrightarrow> on_grid k (x + y)"
  by (simp add: on_grid_def add_divide_distrib)

lemma on_grid_diff: "on_grid k x \<Longrightarrow> on_grid k y \<Longrightarrow> on_grid k (x - y)"
  by (simp add: on_grid_def diff_divide_distrib)

lemma on_grid_zero [simp]: "on_grid k 0"
  by (simp add: on_grid_def)

lemma on_grid_min: "on_grid k x \<Longrightarrow> on_grid k y \<Longrightarrow> on_grid k (min x y)"
  by (simp add: min_def)

lemma rnd64_grid:
  assumes "on_grid k x" and "\<bar>x\<bar> \<le> 2 ^ 53 * pow2 k"
  shows "rnd64 x = x"
proof -
  obtain n where n: "x = of_int n * pow2 k" using assms(1) by (auto simp: on_grid_iff)
  have "\<bar>x\<bar> = of_int \<bar>n\<bar> * pow2 k" by (simp add: n abs_mult abs_of_pos)
  with assms(2) have "of_int \<bar>n\<bar> \<le> (2 ^ 53 :: rat)" by simp
  then have "\<bar>n\<bar> \<le> 2 ^ 53" by (metis of_int_le_iff of_int_numeral of_int_power)
  then show ?thesis unfolding n by (rule rnd64_exact)
qed

lemma fadd_grid: "on_grid k x \<Longrightarrow> on_grid k y \<Longrightarrow> \<bar>x + y\<bar> \<le> 2 ^ 53 * pow2 k \<Longrightarrow> fadd x y = x + y"
  unfolding fadd_def by (rule rnd64_grid [OF on_grid_add])

lemma fsub_grid: "on_grid k x \<Longrightarrow> on_grid k y \<Longrightarrow> \<bar>x - y\<bar> \<le> 2 ^ 53 * pow2 k \<Longrightarrow> fsub x y = x - y"
  unfolding fsub_def by (rule rnd64_grid [OF on_grid_diff])

lemma on_grid_sum_list: "\<forall>x\<in>set xs. on_grid k x \<Longrightarrow> on_grid k (sum_list xs)"
  by (induction xs) (auto intro: on_grid_add)

lemma foldl_fadd_grid:
  "on_grid k a \<Longrightarrow> 0 \<le> a \<Longrightarrow> \<forall>x\<in>set xs. on_grid k x \<and> 0 \<le> x \<Longrightarrow> a + sum_list xs \<le> 2 ^ 53 * pow2 k \<Longrightarrow>
   foldl fadd a xs = a + sum_list xs"
proof (induction xs arbitrary: a)
  case (Cons x xs)
  have s: "0 \<le> sum_list xs" using Cons.prems(3) by (intro sum_list_nonneg) auto
  have e: "fadd a x = a + x" using Cons.prems s by (intro fadd_grid) auto
  show ?case using Cons.prems s by (simp add: e, subst Cons.IH) (auto intro: on_grid_add)
qed simp

lemma fsum_grid:
  "\<forall>x\<in>set xs. on_grid k x \<and> 0 \<le> x \<Longrightarrow> sum_list xs \<le> 2 ^ 53 * pow2 k \<Longrightarrow> fsum xs = sum_list xs"
  unfolding fsum_def using foldl_fadd_grid [of k 0 xs] by simp

end
