(* ===== verification/ExchangeSchemas.thy ===== *)
theory ExchangeSchemas
  imports PyFloat
begin

text \<open>
  The exchange's data model, \<open>backend/app/exchange/schemas.py\<close>: orders, price levels, book
  snapshots and the canonical events with their validation, their dictionary form and the parser
  of that form. One record \<open>exchange_event\<close> holds the common envelope and a body with one
  constructor per event class. The dataclasses' \<open>__post_init__\<close> checks are \<open>post_init\<close>, which
  returns the event or the exception.
\<close>

section \<open>Orders, levels, snapshots\<close>

datatype side = Buy | Sell
datatype book_side = Bid | Ask
datatype order_type = LimitOrder | ModifyOrder | CancelOrder | MarketOrder
datatype event_origin = Simulation | Historical

record order =
  o_order_id :: string
  o_agent_id :: string
  o_side :: side
  o_quantity :: rat
  o_price :: "rat option"
  o_order_type :: order_type
  o_timestamp :: int
  o_scenario_id :: "string option"
  o_scenario_name :: "string option"
  o_scenario_family :: "string option"
  o_owner :: string

text \<open>The dataclass constructor with its defaults.\<close>

definition mk_order :: "string \<Rightarrow> string \<Rightarrow> side \<Rightarrow> rat \<Rightarrow> rat option \<Rightarrow> order" where
  "mk_order oid aid sd q p =
     \<lparr>o_order_id = oid, o_agent_id = aid, o_side = sd, o_quantity = q, o_price = p,
      o_order_type = LimitOrder, o_timestamp = 0, o_scenario_id = None, o_scenario_name = None,
      o_scenario_family = None, o_owner = ''normal''\<rparr>"

record price_level =
  l_price :: rat
  l_quantity :: rat
  l_owner :: "string option"

record book_snapshot =
  s_bids :: "price_level list"
  s_asks :: "price_level list"
  s_best_bid :: "rat option"
  s_best_ask :: "rat option"
  s_mid :: "rat option"
  s_spread :: "rat option"

section \<open>Canonical events\<close>

datatype event_body =
    AddBody (b_order_id: string) (b_agent_id: string) (b_side: side) (b_price: rat) (b_quantity: rat)
      (b_owner: string)
  | ModifyBody (b_order_id: string) (b_agent_id: string) (b_side: side) (b_previous_price: rat)
      (b_previous_quantity: rat) (b_price: rat) (b_quantity: rat) (b_priority_preserved: bool)
      (b_owner: string)
  | CancelBody (b_order_id: string) (b_agent_id: string) (b_side: side) (b_price: rat)
      (b_quantity: rat) (b_owner: string)
  | ExecuteBody (b_execution_id: string) (b_aggressor_order_id: string) (b_resting_order_id: string)
      (b_aggressor_agent_id: string) (b_resting_agent_id: string) (b_side: side) (b_price: rat)
      (b_quantity: rat) (b_aggressor_remaining: rat) (b_resting_remaining: rat)
  | SnapshotBody (b_depth: int) (b_book: book_snapshot)

record exchange_event =
  ev_event_id :: string
  ev_source :: event_origin
  ev_symbol :: string
  ev_venue :: string
  ev_sequence :: "int option"
  ev_source_sequence :: "int option"
  ev_tick :: "int option"
  ev_exchange_timestamp_ns :: "int option"
  ev_received_timestamp_ns :: "int option"
  ev_scenario_id :: "string option"
  ev_scenario_name :: "string option"
  ev_scenario_family :: "string option"
  ev_schema_version :: int
  ev_body :: event_body

fun event_type :: "event_body \<Rightarrow> string" where
  "event_type (AddBody _ _ _ _ _ _) = ''add''"
| "event_type (ModifyBody _ _ _ _ _ _ _ _ _) = ''modify''"
| "event_type (CancelBody _ _ _ _ _ _) = ''cancel''"
| "event_type (ExecuteBody _ _ _ _ _ _ _ _ _ _) = ''execute''"
| "event_type (SnapshotBody _ _) = ''snapshot''"

subsection \<open>Validation\<close>

definition negative :: "int option \<Rightarrow> bool" where
  "negative v = (case v of None \<Rightarrow> False | Some n \<Rightarrow> n < 0)"

definition validate_envelope :: "exchange_event \<Rightarrow> py_error + unit" where
  "validate_envelope e =
     (if ev_event_id e = [] then Inl (ValueError ''event_id must not be empty'')
      else if ev_symbol e = [] then Inl (ValueError ''symbol must not be empty'')
      else if ev_venue e = [] then Inl (ValueError ''venue must not be empty'')
      else if negative (ev_sequence e) then Inl (ValueError ''sequence must be non-negative'')
      else if negative (ev_source_sequence e) then Inl (ValueError ''source_sequence must be non-negative'')
      else if negative (ev_tick e) then Inl (ValueError ''tick must be non-negative'')
      else if negative (ev_exchange_timestamp_ns e)
        then Inl (ValueError ''exchange_timestamp_ns must be non-negative'')
      else if negative (ev_received_timestamp_ns e)
        then Inl (ValueError ''received_timestamp_ns must be non-negative'')
      else if ev_sequence e = Some 0 then Inl (ValueError ''sequence must start at 1 when assigned'')
      else if ev_schema_version e \<noteq> 1 then Inl (ValueError ''unsupported exchange event schema version'')
      else Inr ())"

definition validate_order_state :: "string \<Rightarrow> string \<Rightarrow> rat \<Rightarrow> rat \<Rightarrow> py_error + unit" where
  "validate_order_state oid aid p q =
     (if oid = [] \<or> aid = [] then Inl (ValueError ''order_id and agent_id must not be empty'')
      else if p \<le> 0 \<or> q \<le> 0 then Inl (ValueError ''order price and quantity must be positive'')
      else Inr ())"

definition validate_execution :: "event_body \<Rightarrow> py_error + unit" where
  "validate_execution b =
     (if b_execution_id b = [] then Inl (ValueError ''execution_id must not be empty'')
      else if b_aggressor_order_id b = [] then Inl (ValueError ''aggressor_order_id must not be empty'')
      else if b_resting_order_id b = [] then Inl (ValueError ''resting_order_id must not be empty'')
      else if b_aggressor_agent_id b = [] then Inl (ValueError ''aggressor_agent_id must not be empty'')
      else if b_resting_agent_id b = [] then Inl (ValueError ''resting_agent_id must not be empty'')
      else if b_price b \<le> 0 \<or> b_quantity b \<le> 0
        then Inl (ValueError ''execution price and quantity must be positive'')
      else if b_aggressor_remaining b < 0 \<or> b_resting_remaining b < 0
        then Inl (ValueError ''execution remaining quantities must be non-negative'')
      else Inr ())"

definition validate_modify :: "event_body \<Rightarrow> py_error + unit" where
  "validate_modify b =
     try_bind (validate_order_state (b_order_id b) (b_agent_id b) (b_previous_price b) (b_previous_quantity b)) (\<lambda>_.
     try_bind (validate_order_state (b_order_id b) (b_agent_id b) (b_price b) (b_quantity b)) (\<lambda>_.
     raise_if (b_priority_preserved b \<and> b_price b \<noteq> b_previous_price b)
       (ValueError ''price-changing modifications cannot preserve priority'')))"

definition validate_snapshot :: "int \<Rightarrow> book_snapshot \<Rightarrow> py_error + unit" where
  "validate_snapshot depth bk =
     (if depth \<le> 0 then Inl (ValueError ''snapshot depth must be positive'')
      else if int (length (s_bids bk)) > depth \<or> int (length (s_asks bk)) > depth
        then Inl (ValueError ''snapshot contains more levels than its declared depth'')
      else Inr ())"

definition validate_body :: "event_body \<Rightarrow> py_error + unit" where
  "validate_body b = (case b of
      AddBody oid aid _ p q _ \<Rightarrow> validate_order_state oid aid p q
    | CancelBody oid aid _ p q _ \<Rightarrow> validate_order_state oid aid p q
    | ModifyBody _ _ _ _ _ _ _ _ _ \<Rightarrow> validate_modify b
    | ExecuteBody _ _ _ _ _ _ _ _ _ _ \<Rightarrow> validate_execution b
    | SnapshotBody d bk \<Rightarrow> validate_snapshot d bk)"

definition post_init :: "exchange_event \<Rightarrow> py_error + exchange_event" where
  "post_init e = try_bind (validate_envelope e) (\<lambda>_. try_bind (validate_body (ev_body e)) (\<lambda>_. Inr e))"

lemma post_init_Inr: "post_init e = Inr e' \<longleftrightarrow> e' = e \<and> validate_envelope e = Inr () \<and> validate_body (ev_body e) = Inr ()"
  by (auto simp: post_init_def try_bind_Inr)

lemma validate_envelope_Inr:
  "validate_envelope e = Inr () \<longleftrightarrow>
     ev_event_id e \<noteq> [] \<and> ev_symbol e \<noteq> [] \<and> ev_venue e \<noteq> [] \<and> \<not> negative (ev_sequence e) \<and>
     \<not> negative (ev_source_sequence e) \<and> \<not> negative (ev_tick e) \<and>
     \<not> negative (ev_exchange_timestamp_ns e) \<and> \<not> negative (ev_received_timestamp_ns e) \<and>
     ev_sequence e \<noteq> Some 0 \<and> ev_schema_version e = 1"
  by (simp add: validate_envelope_def)

lemma validate_order_state_Inr:
  "validate_order_state oid aid p q = Inr () \<longleftrightarrow> oid \<noteq> [] \<and> aid \<noteq> [] \<and> 0 < p \<and> 0 < q"
  by (auto simp: validate_order_state_def)

lemma negative_simps [simp]: "negative None = False" "negative (Some n) = (n < 0)"
  by (simp_all add: negative_def)

section \<open>Dictionary form\<close>

datatype json =
    JNull
  | JBool bool
  | JInt int
  | JFloat rat
  | JStr string
  | JList "json list"
  | JObj "(string \<times> json) list"

type_synonym payload = "(string, json) dict"

definition json_opt_str :: "string option \<Rightarrow> json" where
  "json_opt_str v = (case v of None \<Rightarrow> JNull | Some s \<Rightarrow> JStr s)"

definition json_opt_int :: "int option \<Rightarrow> json" where
  "json_opt_int v = (case v of None \<Rightarrow> JNull | Some n \<Rightarrow> JInt n)"

definition json_opt_float :: "rat option \<Rightarrow> json" where
  "json_opt_float v = (case v of None \<Rightarrow> JNull | Some x \<Rightarrow> JFloat x)"

definition side_str :: "side \<Rightarrow> string" where
  "side_str s = (case s of Buy \<Rightarrow> ''buy'' | Sell \<Rightarrow> ''sell'')"

definition source_str :: "event_origin \<Rightarrow> string" where
  "source_str s = (case s of Simulation \<Rightarrow> ''simulation'' | Historical \<Rightarrow> ''historical'')"

definition price_level_to_dict :: "price_level \<Rightarrow> payload" where
  "price_level_to_dict l =
     [(''price'', JFloat (l_price l)), (''quantity'', JFloat (l_quantity l))] @
     (case l_owner l of None \<Rightarrow> []
      | Some ow \<Rightarrow> if ow \<noteq> [] \<and> ow \<noteq> ''normal'' then [(''owner'', JStr ow)] else [])"

definition snapshot_to_dict :: "book_snapshot \<Rightarrow> payload" where
  "snapshot_to_dict s =
     [(''bids'', JList (map (JObj \<circ> price_level_to_dict) (s_bids s))),
      (''asks'', JList (map (JObj \<circ> price_level_to_dict) (s_asks s))),
      (''best_bid'', json_opt_float (s_best_bid s)),
      (''best_ask'', json_opt_float (s_best_ask s)),
      (''mid'', json_opt_float (s_mid s)),
      (''spread'', json_opt_float (s_spread s))]"

definition envelope_to_dict :: "exchange_event \<Rightarrow> payload" where
  "envelope_to_dict e =
     [(''schema_version'', JInt (ev_schema_version e)),
      (''event_type'', JStr (event_type (ev_body e))),
      (''event_id'', JStr (ev_event_id e)),
      (''sequence'', json_opt_int (ev_sequence e)),
      (''source'', JStr (source_str (ev_source e))),
      (''source_sequence'', json_opt_int (ev_source_sequence e)),
      (''symbol'', JStr (ev_symbol e)),
      (''venue'', JStr (ev_venue e)),
      (''tick'', json_opt_int (ev_tick e)),
      (''exchange_timestamp_ns'', json_opt_int (ev_exchange_timestamp_ns e)),
      (''received_timestamp_ns'', json_opt_int (ev_received_timestamp_ns e)),
      (''scenario_id'', json_opt_str (ev_scenario_id e)),
      (''scenario_name'', json_opt_str (ev_scenario_name e)),
      (''scenario_family'', json_opt_str (ev_scenario_family e))]"

fun body_to_dict :: "event_body \<Rightarrow> payload" where
  "body_to_dict (AddBody oid aid sd p q ow) =
     [(''order_id'', JStr oid), (''agent_id'', JStr aid), (''side'', JStr (side_str sd)),
      (''price'', JFloat p), (''quantity'', JFloat q), (''owner'', JStr ow)]"
| "body_to_dict (ModifyBody oid aid sd pp pq p q pr ow) =
     [(''order_id'', JStr oid), (''agent_id'', JStr aid), (''side'', JStr (side_str sd)),
      (''previous_price'', JFloat pp), (''previous_quantity'', JFloat pq),
      (''price'', JFloat p), (''quantity'', JFloat q), (''priority_preserved'', JBool pr),
      (''owner'', JStr ow)]"
| "body_to_dict (CancelBody oid aid sd p q ow) =
     [(''order_id'', JStr oid), (''agent_id'', JStr aid), (''side'', JStr (side_str sd)),
      (''price'', JFloat p), (''quantity'', JFloat q), (''owner'', JStr ow)]"
| "body_to_dict (ExecuteBody xid aoid roid aaid raid sd p q ar rr) =
     [(''execution_id'', JStr xid), (''aggressor_order_id'', JStr aoid),
      (''resting_order_id'', JStr roid), (''aggressor_agent_id'', JStr aaid),
      (''resting_agent_id'', JStr raid), (''side'', JStr (side_str sd)),
      (''price'', JFloat p), (''quantity'', JFloat q),
      (''aggressor_remaining_quantity'', JFloat ar), (''resting_remaining_quantity'', JFloat rr)]"
| "body_to_dict (SnapshotBody d bk) =
     [(''depth'', JInt d), (''book'', JObj (snapshot_to_dict bk))]"

definition to_dict :: "exchange_event \<Rightarrow> payload" where
  "to_dict e = envelope_to_dict e @ body_to_dict (ev_body e)"

subsection \<open>Field readers\<close>

text \<open>A missing key reads as \<open>None\<close>, as \<open>payload.get\<close> gives.\<close>

definition pget :: "payload \<Rightarrow> string \<Rightarrow> json" where
  "pget d k = dget_or JNull d k"

lemma pget_simps [simp]:
  "pget [] k = JNull"
  "pget ((k', v) # d) k = (if k = k' then v else pget d k)"
  by (simp_all add: pget_def dget_or_def)

definition required_str :: "payload \<Rightarrow> string \<Rightarrow> py_error + string" where
  "required_str d k = (case pget d k of
      JStr s \<Rightarrow> if s = [] then Inl (ValueError (k @ '' must be a non-empty string'')) else Inr s
    | _ \<Rightarrow> Inl (ValueError (k @ '' must be a non-empty string'')))"

definition optional_str :: "payload \<Rightarrow> string \<Rightarrow> py_error + string option" where
  "optional_str d k = (case pget d k of
      JNull \<Rightarrow> Inr None
    | JStr s \<Rightarrow> Inr (Some s)
    | _ \<Rightarrow> Inl (ValueError (k @ '' must be a string or null'')))"

definition required_int :: "payload \<Rightarrow> string \<Rightarrow> py_error + int" where
  "required_int d k = (case pget d k of
      JInt n \<Rightarrow> Inr n
    | _ \<Rightarrow> Inl (ValueError (k @ '' must be an integer'')))"

definition optional_int :: "payload \<Rightarrow> string \<Rightarrow> py_error + int option" where
  "optional_int d k = (case pget d k of
      JNull \<Rightarrow> Inr None
    | JInt n \<Rightarrow> Inr (Some n)
    | _ \<Rightarrow> Inl (ValueError (k @ '' must be an integer or null'')))"

definition required_number :: "payload \<Rightarrow> string \<Rightarrow> py_error + rat" where
  "required_number d k = (case pget d k of
      JInt n \<Rightarrow> Inr (flit (of_int n))
    | JFloat x \<Rightarrow> Inr x
    | _ \<Rightarrow> Inl (ValueError (k @ '' must be a number'')))"

definition optional_number_value :: "json \<Rightarrow> string \<Rightarrow> py_error + rat option" where
  "optional_number_value v k = (case v of
      JNull \<Rightarrow> Inr None
    | JInt n \<Rightarrow> Inr (Some (flit (of_int n)))
    | JFloat x \<Rightarrow> Inr (Some x)
    | _ \<Rightarrow> Inl (ValueError (k @ '' must be a number or null'')))"

definition required_bool :: "payload \<Rightarrow> string \<Rightarrow> py_error + bool" where
  "required_bool d k = (case pget d k of
      JBool b \<Rightarrow> Inr b
    | _ \<Rightarrow> Inl (ValueError (k @ '' must be a boolean'')))"

definition required_choice :: "payload \<Rightarrow> string \<Rightarrow> string list \<Rightarrow> py_error + string" where
  "required_choice d k choices =
     try_bind (required_str d k) (\<lambda>v.
       if v \<in> set choices then Inr v
       else Inl (ValueError (k @ '' must be one of ['' @
              str_join '', '' (map (\<lambda>c. [CHR 0x27] @ c @ [CHR 0x27]) (sorted_set choices)) @ '']'')))"

definition required_side :: "payload \<Rightarrow> py_error + side" where
  "required_side d =
     try_bind (required_choice d ''side'' [''buy'', ''sell'']) (\<lambda>v.
       Inr (if v = ''buy'' then Buy else Sell))"

definition required_source :: "payload \<Rightarrow> py_error + event_origin" where
  "required_source d =
     try_bind (required_choice d ''source'' [''simulation'', ''historical'']) (\<lambda>v.
       Inr (if v = ''simulation'' then Simulation else Historical))"

definition owner_or_normal :: "payload \<Rightarrow> py_error + string" where
  "owner_or_normal d =
     try_bind (optional_str d ''owner'') (\<lambda>ow.
       Inr (case ow of None \<Rightarrow> ''normal'' | Some s \<Rightarrow> str_or s ''normal''))"

subsection \<open>Parsing\<close>

definition price_level_from_json :: "string \<Rightarrow> json \<Rightarrow> py_error + price_level" where
  "price_level_from_json field v = (case v of
      JObj item \<Rightarrow>
        try_bind (required_number item ''price'') (\<lambda>p.
        try_bind (required_number item ''quantity'') (\<lambda>q.
        try_bind (optional_str item ''owner'') (\<lambda>ow.
        Inr \<lparr>l_price = p, l_quantity = q, l_owner = ow\<rparr>)))
    | _ \<Rightarrow> Inl (ValueError (field @ '' entries must be objects'')))"

definition price_levels_from_payload :: "json \<Rightarrow> string \<Rightarrow> py_error + price_level list" where
  "price_levels_from_payload v field = (case v of
      JList items \<Rightarrow> try_map (price_level_from_json field) items
    | _ \<Rightarrow> Inl (ValueError (field @ '' must be a list'')))"

definition snapshot_from_dict :: "payload \<Rightarrow> py_error + book_snapshot" where
  "snapshot_from_dict d =
     try_bind (price_levels_from_payload (pget d ''bids'') ''bids'') (\<lambda>bs.
     try_bind (price_levels_from_payload (pget d ''asks'') ''asks'') (\<lambda>as.
     try_bind (optional_number_value (pget d ''best_bid'') ''best_bid'') (\<lambda>bb.
     try_bind (optional_number_value (pget d ''best_ask'') ''best_ask'') (\<lambda>ba.
     try_bind (optional_number_value (pget d ''mid'') ''mid'') (\<lambda>m.
     try_bind (optional_number_value (pget d ''spread'') ''spread'') (\<lambda>sp.
     Inr \<lparr>s_bids = bs, s_asks = as, s_best_bid = bb, s_best_ask = ba, s_mid = m, s_spread = sp\<rparr>))))))"

text \<open>The \<open>common\<close> dictionary of the parser: an event whose body is filled in afterwards.\<close>

definition common_from_dict :: "payload \<Rightarrow> py_error + (event_body \<Rightarrow> exchange_event)" where
  "common_from_dict d =
     try_bind (required_str d ''event_id'') (\<lambda>eid.
     try_bind (optional_int d ''sequence'') (\<lambda>sq.
     try_bind (required_source d) (\<lambda>src.
     try_bind (optional_int d ''source_sequence'') (\<lambda>ssq.
     try_bind (required_str d ''symbol'') (\<lambda>sym.
     try_bind (required_str d ''venue'') (\<lambda>ven.
     try_bind (optional_int d ''tick'') (\<lambda>tk.
     try_bind (optional_int d ''exchange_timestamp_ns'') (\<lambda>xts.
     try_bind (optional_int d ''received_timestamp_ns'') (\<lambda>rts.
     try_bind (optional_str d ''scenario_id'') (\<lambda>sid.
     try_bind (optional_str d ''scenario_name'') (\<lambda>snm.
     try_bind (optional_str d ''scenario_family'') (\<lambda>sfm.
     try_bind (required_int d ''schema_version'') (\<lambda>ver.
     Inr (\<lambda>b. \<lparr>ev_event_id = eid, ev_source = src, ev_symbol = sym, ev_venue = ven,
       ev_sequence = sq, ev_source_sequence = ssq, ev_tick = tk, ev_exchange_timestamp_ns = xts,
       ev_received_timestamp_ns = rts, ev_scenario_id = sid, ev_scenario_name = snm,
       ev_scenario_family = sfm, ev_schema_version = ver, ev_body = b\<rparr>))))))))))))))"

definition resting_from_dict ::
  "(string \<Rightarrow> string \<Rightarrow> side \<Rightarrow> rat \<Rightarrow> rat \<Rightarrow> string \<Rightarrow> event_body) \<Rightarrow> payload \<Rightarrow> py_error + event_body" where
  "resting_from_dict mk d =
     try_bind (required_str d ''order_id'') (\<lambda>oid.
     try_bind (required_str d ''agent_id'') (\<lambda>aid.
     try_bind (required_side d) (\<lambda>sd.
     try_bind (required_number d ''price'') (\<lambda>p.
     try_bind (required_number d ''quantity'') (\<lambda>q.
     try_bind (owner_or_normal d) (\<lambda>ow. Inr (mk oid aid sd p q ow)))))))"

definition modify_from_dict :: "payload \<Rightarrow> py_error + event_body" where
  "modify_from_dict d =
     try_bind (required_str d ''order_id'') (\<lambda>oid.
     try_bind (required_str d ''agent_id'') (\<lambda>aid.
     try_bind (required_side d) (\<lambda>sd.
     try_bind (required_number d ''previous_price'') (\<lambda>pp.
     try_bind (required_number d ''previous_quantity'') (\<lambda>pq.
     try_bind (required_number d ''price'') (\<lambda>p.
     try_bind (required_number d ''quantity'') (\<lambda>q.
     try_bind (required_bool d ''priority_preserved'') (\<lambda>pr.
     try_bind (owner_or_normal d) (\<lambda>ow. Inr (ModifyBody oid aid sd pp pq p q pr ow))))))))))"

definition execute_from_dict :: "payload \<Rightarrow> py_error + event_body" where
  "execute_from_dict d =
     try_bind (required_str d ''execution_id'') (\<lambda>xid.
     try_bind (required_str d ''aggressor_order_id'') (\<lambda>aoid.
     try_bind (required_str d ''resting_order_id'') (\<lambda>roid.
     try_bind (required_str d ''aggressor_agent_id'') (\<lambda>aaid.
     try_bind (required_str d ''resting_agent_id'') (\<lambda>raid.
     try_bind (required_side d) (\<lambda>sd.
     try_bind (required_number d ''price'') (\<lambda>p.
     try_bind (required_number d ''quantity'') (\<lambda>q.
     try_bind (required_number d ''aggressor_remaining_quantity'') (\<lambda>ar.
     try_bind (required_number d ''resting_remaining_quantity'') (\<lambda>rr.
     Inr (ExecuteBody xid aoid roid aaid raid sd p q ar rr)))))))))))"

definition body_from_dict :: "payload \<Rightarrow> py_error + event_body" where
  "body_from_dict d =
     (if pget d ''event_type'' = JStr ''add'' then resting_from_dict AddBody d
      else if pget d ''event_type'' = JStr ''modify'' then modify_from_dict d
      else if pget d ''event_type'' = JStr ''cancel'' then resting_from_dict CancelBody d
      else if pget d ''event_type'' = JStr ''execute'' then execute_from_dict d
      else if pget d ''event_type'' = JStr ''snapshot'' then
        (case pget d ''book'' of
           JObj bk \<Rightarrow>
             try_bind (required_int d ''depth'') (\<lambda>depth.
             try_bind (snapshot_from_dict bk) (\<lambda>s. Inr (SnapshotBody depth s)))
         | _ \<Rightarrow> Inl (ValueError ''book must be an object''))
      else Inl (ValueError ''unsupported exchange event type''))"

definition exchange_event_from_dict :: "payload \<Rightarrow> py_error + exchange_event" where
  "exchange_event_from_dict d =
     try_bind (common_from_dict d) (\<lambda>mk. try_bind (body_from_dict d) (\<lambda>b. post_init (mk b)))"

section \<open>Round trip\<close>

text \<open>
  \<open>PriceLevel.to_dict\<close> leaves out an owner that is empty or \<open>normal\<close>, so a parsed snapshot has
  no owner there; the parsers read an empty order owner as \<open>normal\<close>. \<open>forget_body\<close> says exactly what the
  round trip forgets.
\<close>

definition forget_level :: "price_level \<Rightarrow> price_level" where
  "forget_level l = (if l_owner l = Some [] \<or> l_owner l = Some ''normal'' then l\<lparr>l_owner := None\<rparr> else l)"

definition forget_snapshot :: "book_snapshot \<Rightarrow> book_snapshot" where
  "forget_snapshot s = s\<lparr>s_bids := map forget_level (s_bids s), s_asks := map forget_level (s_asks s)\<rparr>"

definition forget_body :: "event_body \<Rightarrow> event_body" where
  "forget_body b = (case b of
      AddBody oid aid sd p q ow \<Rightarrow> AddBody oid aid sd p q (str_or ow ''normal'')
    | ModifyBody oid aid sd pp pq p q pr ow \<Rightarrow> ModifyBody oid aid sd pp pq p q pr (str_or ow ''normal'')
    | CancelBody oid aid sd p q ow \<Rightarrow> CancelBody oid aid sd p q (str_or ow ''normal'')
    | SnapshotBody d bk \<Rightarrow> SnapshotBody d (forget_snapshot bk)
    | _ \<Rightarrow> b)"

lemmas reader_defs = required_str_def optional_str_def required_int_def optional_int_def
  required_number_def required_bool_def required_choice_def required_side_def required_source_def
  owner_or_normal_def

lemma optional_number_value_json [simp]: "optional_number_value (json_opt_float v) k = Inr v"
  by (simp add: optional_number_value_def json_opt_float_def split: option.splits)

lemma price_level_roundtrip:
  "price_level_from_json f (JObj (price_level_to_dict l)) = Inr (forget_level l)"
  by (cases l) (auto simp: price_level_from_json_def price_level_to_dict_def forget_level_def
      reader_defs split: option.splits)

lemma snapshot_roundtrip: "snapshot_from_dict (snapshot_to_dict s) = Inr (forget_snapshot s)"
proof -
  have lv: "price_levels_from_payload (JList (map (JObj \<circ> price_level_to_dict) ls)) f
      = Inr (map forget_level ls)" for ls f
    by (induction ls) (simp_all add: price_levels_from_payload_def price_level_roundtrip)
  have g: "pget (snapshot_to_dict s) ''bids'' = JList (map (JObj \<circ> price_level_to_dict) (s_bids s))"
    "pget (snapshot_to_dict s) ''asks'' = JList (map (JObj \<circ> price_level_to_dict) (s_asks s))"
    "pget (snapshot_to_dict s) ''best_bid'' = json_opt_float (s_best_bid s)"
    "pget (snapshot_to_dict s) ''best_ask'' = json_opt_float (s_best_ask s)"
    "pget (snapshot_to_dict s) ''mid'' = json_opt_float (s_mid s)"
    "pget (snapshot_to_dict s) ''spread'' = json_opt_float (s_spread s)"
    by (simp_all add: snapshot_to_dict_def)
  have "forget_snapshot s =
      \<lparr>s_bids = map forget_level (s_bids s), s_asks = map forget_level (s_asks s),
       s_best_bid = s_best_bid s, s_best_ask = s_best_ask s, s_mid = s_mid s, s_spread = s_spread s\<rparr>"
    by (cases s) (simp add: forget_snapshot_def)
  then show ?thesis by (simp add: snapshot_from_dict_def g lv)
qed

lemma pget_append_env:
  "k \<notin> set (dkeys (envelope_to_dict e)) \<Longrightarrow> pget (to_dict e) k = pget (body_to_dict (ev_body e)) k"
  unfolding pget_def dget_or_def to_dict_def
  by (simp add: map_add_def dom_map_of_conv_image_fst [symmetric] domIff split: option.splits)

lemma pget_env:
  assumes "k \<in> set (dkeys (envelope_to_dict e))"
  shows "pget (to_dict e) k = pget (envelope_to_dict e) k"
proof -
  obtain v where "dget (envelope_to_dict e) k = Some v"
    using assms unfolding dkeys_iff by blast
  then show ?thesis by (simp add: pget_def dget_or_def to_dict_def)
qed

lemma pget_env_fields:
  "pget (to_dict e) ''schema_version'' = JInt (ev_schema_version e)"
  "pget (to_dict e) ''event_type'' = JStr (event_type (ev_body e))"
  "pget (to_dict e) ''event_id'' = JStr (ev_event_id e)"
  "pget (to_dict e) ''sequence'' = json_opt_int (ev_sequence e)"
  "pget (to_dict e) ''source'' = JStr (source_str (ev_source e))"
  "pget (to_dict e) ''source_sequence'' = json_opt_int (ev_source_sequence e)"
  "pget (to_dict e) ''symbol'' = JStr (ev_symbol e)"
  "pget (to_dict e) ''venue'' = JStr (ev_venue e)"
  "pget (to_dict e) ''tick'' = json_opt_int (ev_tick e)"
  "pget (to_dict e) ''exchange_timestamp_ns'' = json_opt_int (ev_exchange_timestamp_ns e)"
  "pget (to_dict e) ''received_timestamp_ns'' = json_opt_int (ev_received_timestamp_ns e)"
  "pget (to_dict e) ''scenario_id'' = json_opt_str (ev_scenario_id e)"
  "pget (to_dict e) ''scenario_name'' = json_opt_str (ev_scenario_name e)"
  "pget (to_dict e) ''scenario_family'' = json_opt_str (ev_scenario_family e)"
  by (subst pget_env; simp add: envelope_to_dict_def)+

lemma common_roundtrip:
  assumes "validate_envelope e = Inr ()"
  shows "common_from_dict (to_dict e) = Inr (\<lambda>b. e\<lparr>ev_body := b\<rparr>)"
proof -
  have v: "ev_event_id e \<noteq> []" "ev_symbol e \<noteq> []" "ev_venue e \<noteq> []"
    using assms by (auto simp: validate_envelope_Inr)
  have r: "required_str (to_dict e) ''event_id'' = Inr (ev_event_id e)"
    "required_str (to_dict e) ''symbol'' = Inr (ev_symbol e)"
    "required_str (to_dict e) ''venue'' = Inr (ev_venue e)"
    by (simp_all add: required_str_def pget_env_fields v)
  have oi: "optional_int (to_dict e) ''sequence'' = Inr (ev_sequence e)"
    "optional_int (to_dict e) ''source_sequence'' = Inr (ev_source_sequence e)"
    "optional_int (to_dict e) ''tick'' = Inr (ev_tick e)"
    "optional_int (to_dict e) ''exchange_timestamp_ns'' = Inr (ev_exchange_timestamp_ns e)"
    "optional_int (to_dict e) ''received_timestamp_ns'' = Inr (ev_received_timestamp_ns e)"
    by (simp_all add: optional_int_def pget_env_fields json_opt_int_def split: option.splits)
  have os: "optional_str (to_dict e) ''scenario_id'' = Inr (ev_scenario_id e)"
    "optional_str (to_dict e) ''scenario_name'' = Inr (ev_scenario_name e)"
    "optional_str (to_dict e) ''scenario_family'' = Inr (ev_scenario_family e)"
    by (simp_all add: optional_str_def pget_env_fields json_opt_str_def split: option.splits)
  have sv: "required_int (to_dict e) ''schema_version'' = Inr (ev_schema_version e)"
    by (simp add: required_int_def pget_env_fields)
  have src: "required_source (to_dict e) = Inr (ev_source e)"
    by (cases "ev_source e")
      (simp_all add: required_source_def required_choice_def required_str_def pget_env_fields source_str_def)
  have "common_from_dict (to_dict e) =
    Inr (\<lambda>b. \<lparr>ev_event_id = ev_event_id e, ev_source = ev_source e, ev_symbol = ev_symbol e,
       ev_venue = ev_venue e, ev_sequence = ev_sequence e, ev_source_sequence = ev_source_sequence e,
       ev_tick = ev_tick e, ev_exchange_timestamp_ns = ev_exchange_timestamp_ns e,
       ev_received_timestamp_ns = ev_received_timestamp_ns e, ev_scenario_id = ev_scenario_id e,
       ev_scenario_name = ev_scenario_name e, ev_scenario_family = ev_scenario_family e,
       ev_schema_version = ev_schema_version e, ev_body = b\<rparr>)"
    by (simp add: common_from_dict_def r oi os sv src)
  then show ?thesis by (cases e) (simp add: fun_eq_iff)
qed

lemma pget_body:
  "k \<notin> {''schema_version'', ''event_type'', ''event_id'', ''sequence'', ''source'', ''source_sequence'',
     ''symbol'', ''venue'', ''tick'', ''exchange_timestamp_ns'', ''received_timestamp_ns'',
     ''scenario_id'', ''scenario_name'', ''scenario_family''} \<Longrightarrow>
   pget (to_dict e) k = pget (body_to_dict (ev_body e)) k"
  by (rule pget_append_env) (simp add: envelope_to_dict_def)

lemma body_roundtrip:
  assumes "validate_body (ev_body e) = Inr ()"
  shows "body_from_dict (to_dict e) = Inr (forget_body (ev_body e))"
proof (cases "ev_body e")
  case (AddBody oid aid sd p q ow)
  with assms have "oid \<noteq> []" "aid \<noteq> []"
    by (auto simp: validate_body_def validate_order_state_Inr)
  then show ?thesis
    by (cases sd) (simp_all add: AddBody body_from_dict_def pget_env_fields resting_from_dict_def
        required_str_def required_side_def required_choice_def required_number_def owner_or_normal_def
        optional_str_def pget_body side_str_def forget_body_def)
next
  case (CancelBody oid aid sd p q ow)
  with assms have "oid \<noteq> []" "aid \<noteq> []"
    by (auto simp: validate_body_def validate_order_state_Inr)
  then show ?thesis
    by (cases sd) (simp_all add: CancelBody body_from_dict_def pget_env_fields resting_from_dict_def
        required_str_def required_side_def required_choice_def required_number_def owner_or_normal_def
        optional_str_def pget_body side_str_def forget_body_def)
next
  case (ModifyBody oid aid sd pp pq p q pr ow)
  with assms have "oid \<noteq> []" "aid \<noteq> []"
    by (auto simp: validate_body_def validate_modify_def try_bind_Inr validate_order_state_Inr)
  then show ?thesis
    by (cases sd) (simp_all add: ModifyBody body_from_dict_def pget_env_fields modify_from_dict_def
        required_str_def required_side_def required_choice_def required_number_def owner_or_normal_def
        required_bool_def optional_str_def pget_body
        side_str_def forget_body_def)
next
  case (ExecuteBody xid aoid roid aaid raid sd p q ar rr)
  with assms have "xid \<noteq> []" "aoid \<noteq> []" "roid \<noteq> []" "aaid \<noteq> []" "raid \<noteq> []"
    by (auto simp: validate_body_def validate_execution_def split: if_splits)
  then show ?thesis
    by (cases sd) (simp_all add: ExecuteBody body_from_dict_def pget_env_fields execute_from_dict_def
        required_str_def required_side_def required_choice_def required_number_def
        pget_body side_str_def forget_body_def)
next
  case (SnapshotBody d bk)
  then show ?thesis
    by (simp add: body_from_dict_def pget_env_fields required_int_def pget_body
        snapshot_roundtrip forget_body_def)
qed

lemma forget_body_valid: "validate_body (forget_body b) = validate_body b"
  by (cases b) (simp_all add: validate_body_def forget_body_def validate_modify_def
      validate_snapshot_def forget_snapshot_def)

end
