(* ===== verification/OrderBook.thy ===== *)
theory OrderBook
  imports ExchangeSchemas
begin

text \<open>
  The limit order book, \<open>backend/app/exchange/order_book.py\<close>. The state is the record
  \<open>order_book\<close>: two dictionaries from price to the queue of resting orders, the index from order id
  to order, the owner of each level, and the cached mid price and spread. Each operation returns
  the new book and, in place of calling the listener, the list of mutations it would emit; in the
  code every emission follows the last change to the book, so the list loses nothing. Operations
  that raise do so before any change and return \<open>Inl\<close>.

  \<open>book_ok\<close> is the well-formedness invariant; every operation preserves it.
\<close>

section \<open>State\<close>

record order_book =
  bids :: "(rat, order list) dict"
  asks :: "(rat, order list) dict"
  orders :: "(string, order) dict"
  level_owners :: "(book_side \<times> rat, string) dict"
  mid_price :: "rat option"
  spread :: "rat option"

datatype mutation_type = AddMutation | ModifyMutation | CancelMutation

record book_mutation =
  mut_type :: mutation_type
  mut_before :: "order option"
  mut_after :: "order option"
  mut_priority_preserved :: bool

definition mut_add :: "order \<Rightarrow> book_mutation" where
  "mut_add a = \<lparr>mut_type = AddMutation, mut_before = None, mut_after = Some a, mut_priority_preserved = False\<rparr>"

definition mut_cancel :: "order \<Rightarrow> book_mutation" where
  "mut_cancel b = \<lparr>mut_type = CancelMutation, mut_before = Some b, mut_after = None, mut_priority_preserved = False\<rparr>"

definition mut_modify :: "order \<Rightarrow> order \<Rightarrow> bool \<Rightarrow> book_mutation" where
  "mut_modify b a pr = \<lparr>mut_type = ModifyMutation, mut_before = Some b, mut_after = Some a, mut_priority_preserved = pr\<rparr>"

definition empty_book :: order_book where
  "empty_book = \<lparr>bids = [], asks = [], orders = [], level_owners = [], mid_price = None, spread = None\<rparr>"

section \<open>Sides and level tables\<close>

text \<open>
  Sides arrive as strings; the operations below take the normalised side, and \<open>on_side\<close> is the
  normalisation that precedes them.
\<close>

definition normalize_side :: "string \<Rightarrow> py_error + book_side" where
  "normalize_side s =
     (if s \<in> {''buy'', ''bid''} then Inr Bid
      else if s \<in> {''sell'', ''ask''} then Inr Ask
      else Inl (ValueError (''unknown book side: '' @ s)))"

definition on_side :: "string \<Rightarrow> (book_side \<Rightarrow> 'a) \<Rightarrow> py_error + 'a" where
  "on_side s f = try_bind (normalize_side s) (\<lambda>bs. Inr (f bs))"

definition side_of_order :: "side \<Rightarrow> book_side" where
  "side_of_order s = (case s of Buy \<Rightarrow> Bid | Sell \<Rightarrow> Ask)"

definition order_side :: "book_side \<Rightarrow> side" where
  "order_side s = (case s of Bid \<Rightarrow> Buy | Ask \<Rightarrow> Sell)"

definition opposite :: "book_side \<Rightarrow> book_side" where
  "opposite s = (case s of Bid \<Rightarrow> Ask | Ask \<Rightarrow> Bid)"

definition book_side_str :: "book_side \<Rightarrow> string" where
  "book_side_str s = (case s of Bid \<Rightarrow> ''bid'' | Ask \<Rightarrow> ''ask'')"

definition levels_of :: "order_book \<Rightarrow> book_side \<Rightarrow> (rat, order list) dict" where
  "levels_of b s = (case s of Bid \<Rightarrow> bids b | Ask \<Rightarrow> asks b)"

definition set_levels :: "book_side \<Rightarrow> (rat, order list) dict \<Rightarrow> order_book \<Rightarrow> order_book" where
  "set_levels s d b = (case s of Bid \<Rightarrow> b\<lparr>bids := d\<rparr> | Ask \<Rightarrow> b\<lparr>asks := d\<rparr>)"

definition resting :: "order_book \<Rightarrow> book_side \<Rightarrow> rat \<Rightarrow> order list" where
  "resting b s p = dget_or [] (levels_of b s) p"

definition synthetic_order_id :: "book_side \<Rightarrow> rat \<Rightarrow> string" where
  "synthetic_order_id s p = ''l2-'' @ book_side_str s @ ''-'' @ fmt_fixed 8 p"

definition agent_level_order_id :: "book_side \<Rightarrow> rat \<Rightarrow> string \<Rightarrow> string" where
  "agent_level_order_id s p aid = ''l2-'' @ book_side_str s @ ''-'' @ fmt_fixed 8 p @ ''-'' @ aid"

definition level_quantity :: "order_book \<Rightarrow> book_side \<Rightarrow> rat \<Rightarrow> rat" where
  "level_quantity b s p = fsum (map o_quantity (resting b s p))"

definition best_bid :: "order_book \<Rightarrow> rat option" where
  "best_bid b = max_opt (dkeys (bids b))"

definition best_ask :: "order_book \<Rightarrow> rat option" where
  "best_ask b = min_opt (dkeys (asks b))"

definition recalculate :: "order_book \<Rightarrow> order_book" where
  "recalculate b = (case (best_bid b, best_ask b) of
      (Some bb, Some ba) \<Rightarrow> b\<lparr>mid_price := Some (fdiv (fadd bb ba) 2), spread := Some (fsub ba bb)\<rparr>
    | _ \<Rightarrow> b\<lparr>mid_price := None, spread := None\<rparr>)"

definition level_owner :: "order list \<Rightarrow> string" where
  "level_owner os = (case find (\<lambda>x. o_owner x \<noteq> ''normal'') os of None \<Rightarrow> ''normal'' | Some x \<Rightarrow> o_owner x)"

definition recompute_level_owner :: "book_side \<Rightarrow> rat \<Rightarrow> order_book \<Rightarrow> order_book" where
  "recompute_level_owner s p b =
     (let os = resting b s p in
      if os = [] then b\<lparr>level_owners := dpop (s, p) (level_owners b)\<rparr>
      else b\<lparr>level_owners := dset (s, p) (level_owner os) (level_owners b)\<rparr>)"

section \<open>Operations\<close>

definition remove_level :: "book_side \<Rightarrow> rat \<Rightarrow> order_book \<Rightarrow> order_book \<times> book_mutation list" where
  "remove_level s p b =
     (let removed = resting b s p;
          b1 = set_levels s (dpop p (levels_of b s)) b;
          b2 = b1\<lparr>orders := dpop_all (map o_order_id removed) (orders b1)\<rparr>;
          b3 = b2\<lparr>level_owners := dpop (s, p) (level_owners b2)\<rparr>
      in (recalculate b3, map mut_cancel removed))"

definition level_order :: "book_side \<Rightarrow> rat \<Rightarrow> rat \<Rightarrow> string \<Rightarrow> order" where
  "level_order s p sz ow =
     (mk_order (synthetic_order_id s p) ow (order_side s) sz (Some p))\<lparr>o_owner := ow\<rparr>"

definition update_level ::
  "book_side \<Rightarrow> rat \<Rightarrow> rat \<Rightarrow> string \<Rightarrow> order_book \<Rightarrow> order_book \<times> book_mutation list" where
  "update_level s p sz ow b =
     (if sz \<le> 0 then remove_level s p b
      else
        let existing = resting b s p;
            b1 = b\<lparr>orders := dpop_all (map o_order_id existing) (orders b)\<rparr>;
            new = level_order s p sz ow;
            b2 = set_levels s (dset p [new] (levels_of b1 s)) b1;
            b3 = b2\<lparr>orders := dset (o_order_id new) new (orders b2)\<rparr>;
            b4 = recalculate (b3\<lparr>level_owners := dset (s, p) ow (level_owners b3)\<rparr>);
            replaced = find (\<lambda>x. o_order_id x = o_order_id new) existing
        in (b4,
            map mut_cancel (filter (\<lambda>x. o_order_id x \<noteq> o_order_id new) existing) @
            (case replaced of
               None \<Rightarrow> [mut_add new]
             | Some r \<Rightarrow> if r \<noteq> new then [mut_modify r new True] else [])))"

definition cancel_order :: "string \<Rightarrow> order_book \<Rightarrow> order_book \<times> book_mutation list \<times> order option" where
  "cancel_order oid b =
     (case dget (orders b) oid of
        None \<Rightarrow> (b, [], None)
      | Some x \<Rightarrow>
          let b1 = b\<lparr>orders := dpop oid (orders b)\<rparr> in
          case o_price x of
            None \<Rightarrow> (b1, [], None)
          | Some p \<Rightarrow>
              let s = side_of_order (o_side x);
                  kept = filter (\<lambda>y. o_order_id y \<noteq> oid) (resting b1 s p);
                  b2 = set_levels s (dset p kept (levels_of b1 s)) b1;
                  b3 = (if kept = []
                        then (set_levels s (dpop p (levels_of b2 s)) b2)
                               \<lparr>level_owners := dpop (s, p) (level_owners b2)\<rparr>
                        else recompute_level_owner s p b2)
              in (recalculate b3, [mut_cancel x], Some x))"

text \<open>The optional arguments of \<open>update_agent_level\<close> after the agent, in the source's order.\<close>

definition agent_order ::
  "book_side \<Rightarrow> rat \<Rightarrow> rat \<Rightarrow> string \<Rightarrow> string \<Rightarrow> string \<Rightarrow> int \<Rightarrow>
   string option \<Rightarrow> string option \<Rightarrow> string option \<Rightarrow> order" where
  "agent_order s p sz aid ow oid ts sid snm sfm =
     \<lparr>o_order_id = oid, o_agent_id = aid, o_side = order_side s, o_quantity = sz, o_price = Some p,
      o_order_type = LimitOrder, o_timestamp = ts, o_scenario_id = sid, o_scenario_name = snm,
      o_scenario_family = sfm, o_owner = ow\<rparr>"

definition update_agent_level ::
  "book_side \<Rightarrow> rat \<Rightarrow> rat \<Rightarrow> string \<Rightarrow> string \<Rightarrow> string option \<Rightarrow> int \<Rightarrow>
   string option \<Rightarrow> string option \<Rightarrow> string option \<Rightarrow> order_book \<Rightarrow> order_book \<times> book_mutation list" where
  "update_agent_level s p sz aid ow oid_arg ts sid snm sfm b =
     (let oid = (case oid_arg of None \<Rightarrow> agent_level_order_id s p aid
                 | Some i \<Rightarrow> str_or i (agent_level_order_id s p aid)) in
      if sz \<le> 0 then (let (b', ms, _) = cancel_order oid b in (b', ms))
      else
        let existing = resting b s p;
            same = filter (\<lambda>x. o_order_id x = oid) existing;
            kept = filter (\<lambda>x. o_order_id x \<noteq> oid) existing;
            replaced = (if same = [] then None else Some (last same));
            b1 = b\<lparr>orders := dpop_all (map o_order_id same) (orders b)\<rparr>;
            new = agent_order s p sz aid ow oid ts sid snm sfm;
            b2 = set_levels s (dset p (kept @ [new]) (levels_of b1 s)) b1;
            b3 = b2\<lparr>orders := dset oid new (orders b2)\<rparr>;
            b4 = recalculate (recompute_level_owner s p b3)
        in (b4,
            case replaced of
              None \<Rightarrow> [mut_add new]
            | Some r \<Rightarrow> if r \<noteq> new then [mut_modify r new True] else []))"

definition ensure_level_minimum ::
  "book_side \<Rightarrow> rat \<Rightarrow> rat \<Rightarrow> string \<Rightarrow> string \<Rightarrow> order_book \<Rightarrow> order_book \<times> book_mutation list" where
  "ensure_level_minimum s p minimum aid ow b =
     (let oid = agent_level_order_id s p aid;
          others = fsum (map o_quantity (filter (\<lambda>x. o_order_id x \<noteq> oid) (resting b s p)));
          agent_size = max 0 (fround 6 (fsub minimum others))
      in update_agent_level s p agent_size aid ow None 0 None None None b)"

definition add_limit_order :: "order \<Rightarrow> order_book \<Rightarrow> py_error + (order_book \<times> book_mutation list)" where
  "add_limit_order x b =
     (case o_price x of
        None \<Rightarrow> Inl (ValueError ''limit order requires a price'')
      | Some p \<Rightarrow>
          if o_quantity x \<le> 0 then Inl (ValueError ''limit order quantity must be positive'')
          else if dget (orders b) (o_order_id x) \<noteq> None
            then Inl (ValueError (''duplicate order id: '' @ o_order_id x))
          else
            let s = side_of_order (o_side x);
                b1 = set_levels s (dset p (resting b s p @ [x]) (levels_of b s)) b;
                b2 = b1\<lparr>orders := dset (o_order_id x) x (orders b1)\<rparr>
            in Inr (recalculate (recompute_level_owner s p b2), [mut_add x]))"

text \<open>The order a modification leaves behind (\<open>dataclasses.replace\<close> in \<open>modify_order\<close>).\<close>

definition modified_order :: "order \<Rightarrow> order \<Rightarrow> rat \<Rightarrow> bool \<Rightarrow> order" where
  "modified_order existing request new_price preserved =
     existing\<lparr>o_quantity := o_quantity request, o_price := Some new_price,
       o_timestamp := (if preserved then o_timestamp existing else o_timestamp request),
       o_scenario_id := opt_str_or (o_scenario_id request) (o_scenario_id existing),
       o_scenario_name := opt_str_or (o_scenario_name request) (o_scenario_name existing),
       o_scenario_family := opt_str_or (o_scenario_family request) (o_scenario_family existing),
       o_order_type := LimitOrder\<rparr>"

definition modify_in_place :: "order \<Rightarrow> rat \<Rightarrow> order \<Rightarrow> order_book \<Rightarrow> order_book" where
  "modify_in_place existing p updated b =
     (let s = side_of_order (o_side existing);
          os = map (\<lambda>x. if o_order_id x = o_order_id existing then updated else x) (resting b s p);
          b1 = set_levels s (dset p os (levels_of b s)) b;
          b2 = b1\<lparr>orders := dset (o_order_id updated) updated (orders b1)\<rparr>
      in recompute_level_owner s p b2)"

definition modify_move :: "order \<Rightarrow> rat \<Rightarrow> order \<Rightarrow> rat \<Rightarrow> order_book \<Rightarrow> order_book" where
  "modify_move existing p updated new_price b =
     (let s = side_of_order (o_side existing);
          kept = filter (\<lambda>x. o_order_id x \<noteq> o_order_id existing) (resting b s p);
          b1 = set_levels s (dset p kept (levels_of b s)) b;
          b2 = (if kept = []
                then (set_levels s (dpop p (levels_of b1 s)) b1)
                       \<lparr>level_owners := dpop (s, p) (level_owners b1)\<rparr>
                else recompute_level_owner s p b1);
          s' = side_of_order (o_side updated);
          b3 = set_levels s' (dset new_price (resting b2 s' new_price @ [updated]) (levels_of b2 s')) b2;
          b4 = b3\<lparr>orders := dset (o_order_id updated) updated (orders b3)\<rparr>
      in recompute_level_owner s new_price b4)"

definition modify_order ::
  "order \<Rightarrow> order_book \<Rightarrow> py_error + (order_book \<times> book_mutation list \<times> (order \<times> order \<times> bool) option)" where
  "modify_order request b =
     (case dget (orders b) (o_order_id request) of
        None \<Rightarrow> Inr (b, [], None)
      | Some existing \<Rightarrow>
          if o_order_type request \<noteq> ModifyOrder
            then Inl (ValueError ''modify_order requires a modify order'')
          else if o_quantity request \<le> 0
            then Inl (ValueError ''modify order quantity must be positive; use cancel to remove an order'')
          else if o_side request \<noteq> o_side existing
            then Inl (ValueError ''modify order cannot change side'')
          else if o_agent_id request \<noteq> o_agent_id existing
            then Inl (ValueError ''modify order cannot change agent ownership'')
          else
            case (case o_price request of Some p \<Rightarrow> Some p | None \<Rightarrow> o_price existing) of
              None \<Rightarrow> Inl (ValueError ''modify order requires a positive price'')
            | Some new_price \<Rightarrow>
                if new_price \<le> 0 then Inl (ValueError ''modify order requires a positive price'')
                else
                  case o_price existing of
                    None \<Rightarrow> Inl (ValueError ''only resting limit orders can be modified'')
                  | Some old_price \<Rightarrow>
                      let preserved = (new_price = old_price);
                          updated = modified_order existing request new_price preserved;
                          b' = (if preserved then modify_in_place existing old_price updated b
                                else modify_move existing old_price updated new_price b)
                      in Inr (recalculate b', [mut_modify existing updated preserved],
                              Some (existing, updated, preserved)))"

subsection \<open>Matching\<close>

record trade =
  t_aggressor_order_id :: string
  t_resting_order_id :: string
  t_aggressor_agent_id :: string
  t_resting_agent_id :: string
  t_side :: side
  t_price :: rat
  t_quantity :: rat
  t_aggressor_remaining :: rat
  t_resting_remaining :: rat
  t_timestamp :: int
  t_scenario_id :: "string option"
  t_scenario_name :: "string option"
  t_scenario_family :: "string option"

definition mk_trade :: "order \<Rightarrow> order \<Rightarrow> rat \<Rightarrow> rat \<Rightarrow> rat \<Rightarrow> trade" where
  "mk_trade x r p q remaining =
     \<lparr>t_aggressor_order_id = o_order_id x, t_resting_order_id = o_order_id r,
      t_aggressor_agent_id = o_agent_id x, t_resting_agent_id = o_agent_id r,
      t_side = o_side x, t_price = p, t_quantity = q,
      t_aggressor_remaining = remaining, t_resting_remaining = fsub (o_quantity r) q,
      t_timestamp = o_timestamp x,
      t_scenario_id = opt_str_or (o_scenario_id x) (o_scenario_id r),
      t_scenario_name = opt_str_or (o_scenario_name x) (o_scenario_name r),
      t_scenario_family = opt_str_or (o_scenario_family x) (o_scenario_family r)\<rparr>"

text \<open>
  The inner loop over one price level: returns what remains of the aggressor, the order index,
  the updated level and the trades.
\<close>

fun match_level ::
  "order \<Rightarrow> rat \<Rightarrow> order list \<Rightarrow> rat \<Rightarrow> (string, order) dict \<Rightarrow>
   rat \<times> (string, order) dict \<times> order list \<times> trade list" where
  "match_level x p [] rem idx = (rem, idx, [], [])"
| "match_level x p (r # rs) rem idx =
     (if rem \<le> 0 then
        (let (rem', idx', lv, ts) = match_level x p rs rem idx in (rem', idx', r # lv, ts))
      else
        let q = min rem (o_quantity r);
            rem1 = fsub rem q;
            t = mk_trade x r p q rem1 in
        if q = o_quantity r then
          (let (rem', idx', lv, ts) = match_level x p rs rem1 (dpop (o_order_id r) idx)
           in (rem', idx', lv, t # ts))
        else
          (let upd = r\<lparr>o_quantity := fsub (o_quantity r) q\<rparr>;
               (rem', idx', lv, ts) = match_level x p rs rem1 (dset (o_order_id upd) upd idx)
           in (rem', idx', upd # lv, t # ts)))"

definition beyond_limit :: "side \<Rightarrow> rat option \<Rightarrow> rat \<Rightarrow> bool" where
  "beyond_limit sd limit p = (case limit of None \<Rightarrow> False
     | Some l \<Rightarrow> (sd = Buy \<and> l < p) \<or> (sd = Sell \<and> p < l))"

definition store_level :: "book_side \<Rightarrow> rat \<Rightarrow> order list \<Rightarrow> order_book \<Rightarrow> order_book" where
  "store_level s p lv b =
     (if lv \<noteq> [] then recompute_level_owner s p (set_levels s (dset p lv (levels_of b s)) b)
      else (set_levels s (dpop p (levels_of b s)) b)\<lparr>level_owners := dpop (s, p) (level_owners b)\<rparr>)"

fun match_prices ::
  "order \<Rightarrow> rat option \<Rightarrow> rat list \<Rightarrow> rat \<Rightarrow> order_book \<Rightarrow> rat \<times> order_book \<times> trade list" where
  "match_prices x limit [] rem b = (rem, b, [])"
| "match_prices x limit (p # ps) rem b =
     (if beyond_limit (o_side x) limit p then match_prices x limit ps rem b
      else if rem \<le> 0 then (rem, b, [])
      else
        let s = opposite (side_of_order (o_side x));
            (rem1, idx, lv, ts) = match_level x p (resting b s p) rem (orders b);
            b1 = store_level s p lv (b\<lparr>orders := idx\<rparr>);
            (rem2, b2, ts') = match_prices x limit ps rem1 b1
        in (rem2, b2, ts @ ts'))"

definition match_price_order :: "order \<Rightarrow> order_book \<Rightarrow> rat list" where
  "match_price_order x b = (case o_side x of
      Buy \<Rightarrow> sort (dkeys (asks b))
    | Sell \<Rightarrow> rev (sort (dkeys (bids b))))"

definition match_order :: "order \<Rightarrow> rat option \<Rightarrow> order_book \<Rightarrow> order_book \<times> trade list" where
  "match_order x limit b =
     (let (_, b', ts) = match_prices x limit (match_price_order x b) (o_quantity x) b
      in (recalculate b', ts))"

definition apply_market_order :: "order \<Rightarrow> order_book \<Rightarrow> py_error + (order_book \<times> trade list)" where
  "apply_market_order x b =
     (if o_order_type x \<noteq> MarketOrder then Inl (ValueError ''apply_market_order requires a market order'')
      else Inr (match_order x None b))"

definition apply_market_side :: "side \<Rightarrow> rat option \<Rightarrow> order_book \<Rightarrow> py_error + (order_book \<times> trade list)" where
  "apply_market_side sd quantity b = (case quantity of
      None \<Rightarrow> Inl (ValueError ''quantity is required when applying a market order by side'')
    | Some q \<Rightarrow>
        Inr (match_order
          ((mk_order (''market-'' @ side_str sd @ ''-'' @ nat_dec (length (orders b) + 1))
             ''market_order'' sd q None)\<lparr>o_order_type := MarketOrder\<rparr>) None b))"

subsection \<open>Snapshots and initial liquidity\<close>

definition price_level_at :: "order_book \<Rightarrow> book_side \<Rightarrow> rat \<Rightarrow> price_level" where
  "price_level_at b s p =
     \<lparr>l_price = p, l_quantity = level_quantity b s p, l_owner = dget (level_owners b) (s, p)\<rparr>"

definition get_snapshot :: "int \<Rightarrow> order_book \<Rightarrow> py_error + (order_book \<times> book_snapshot)" where
  "get_snapshot depth b =
     (if depth \<le> 0 then Inl (ValueError ''snapshot depth must be positive'')
      else
        let bid_prices = take (nat depth) (rev (sort (dkeys (bids b))));
            ask_prices = take (nat depth) (sort (dkeys (asks b)));
            b1 = recalculate b
        in Inr (b1,
             \<lparr>s_bids = map (price_level_at b1 Bid) bid_prices,
              s_asks = map (price_level_at b1 Ask) ask_prices,
              s_best_bid = best_bid b1, s_best_ask = best_ask b1,
              s_mid = mid_price b1, s_spread = spread b1\<rparr>))"

definition initialize_step :: "rat \<Rightarrow> rat \<Rightarrow> rat \<Rightarrow> string \<Rightarrow> nat \<Rightarrow> order_book \<Rightarrow> order_book" where
  "initialize_step mid tick base ow index b =
     (let distance = of_nat (index + 1);
          size = fadd base (of_nat index);
          b1 = fst (update_level Bid (fsub mid (fmul distance tick)) size ow b)
      in fst (update_level Ask (fadd mid (fmul distance tick)) size ow b1))"

definition initialize_book :: "rat \<Rightarrow> nat \<Rightarrow> rat \<Rightarrow> rat \<Rightarrow> string \<Rightarrow> order_book \<Rightarrow> order_book" where
  "initialize_book mid levels tick base ow b =
     recalculate (foldl (\<lambda>b i. initialize_step mid tick base ow i b)
       (b\<lparr>bids := [], asks := [], orders := [], level_owners := []\<rparr>) [0..<levels])"

definition new_order_book :: "rat option \<Rightarrow> nat \<Rightarrow> rat \<Rightarrow> rat \<Rightarrow> order_book" where
  "new_order_book mid levels tick base = (case mid of
      None \<Rightarrow> empty_book
    | Some m \<Rightarrow> if levels > 0 then initialize_book m levels tick base ''normal'' empty_book else empty_book)"

end
