(* ===== verification/OrderBookInvariant.thy ===== *)
theory OrderBookInvariant
  imports OrderBook
begin

section \<open>Projections\<close>

lemma levels_of_set_levels [simp]:
  "levels_of (set_levels s d b) s' = (if s' = s then d else levels_of b s')"
  by (cases s; cases s') (simp_all add: levels_of_def set_levels_def)

lemma set_levels_frame [simp]:
  "orders (set_levels s d b) = orders b"
  "level_owners (set_levels s d b) = level_owners b"
  "mid_price (set_levels s d b) = mid_price b"
  "spread (set_levels s d b) = spread b"
  by (cases s; simp add: set_levels_def)+

lemma levels_of_updates [simp]:
  "levels_of (b\<lparr>orders := d\<rparr>) s = levels_of b s"
  "levels_of (b\<lparr>level_owners := w\<rparr>) s = levels_of b s"
  "levels_of (b\<lparr>mid_price := m\<rparr>) s = levels_of b s"
  "levels_of (b\<lparr>spread := x\<rparr>) s = levels_of b s"
  by (cases s; simp add: levels_of_def)+

lemma resting_updates [simp]:
  "resting (b\<lparr>orders := d\<rparr>) s p = resting b s p"
  "resting (b\<lparr>level_owners := w\<rparr>) s p = resting b s p"
  by (simp_all add: resting_def)

lemma bids_levels: "bids b = levels_of b Bid"
  by (simp add: levels_of_def)

lemma asks_levels: "asks b = levels_of b Ask"
  by (simp add: levels_of_def)

lemma side_conv [simp]:
  "order_side (side_of_order sd) = sd"
  "side_of_order (order_side s) = s"
  by (cases sd; simp add: order_side_def side_of_order_def)
    (cases s; simp add: order_side_def side_of_order_def)

lemma recompute_owner_frame [simp]:
  "levels_of (recompute_level_owner s p b) s' = levels_of b s'"
  "orders (recompute_level_owner s p b) = orders b"
  by (simp_all add: recompute_level_owner_def Let_def)

lemma resting_recompute [simp]: "resting (recompute_level_owner s p b) s' p' = resting b s' p'"
  by (simp add: resting_def)

lemma owners_recompute:
  "dget (level_owners (recompute_level_owner s p b)) k =
     (if k = (s, p) then (if resting b s p = [] then None else Some (level_owner (resting b s p)))
      else dget (level_owners b) k)"
  by (simp add: recompute_level_owner_def Let_def dict_simps)

lemma recalculate_cases:
  obtains m x where "recalculate b = b\<lparr>mid_price := m, spread := x\<rparr>"
  by (cases "best_bid b"; cases "best_ask b") (auto simp: recalculate_def)

lemma recalculate_frame [simp]:
  "levels_of (recalculate b) s = levels_of b s"
  "orders (recalculate b) = orders b"
  "level_owners (recalculate b) = level_owners b"
  "bids (recalculate b) = bids b"
  "asks (recalculate b) = asks b"
  by (rule recalculate_cases [of b]; simp)+

lemma resting_recalculate [simp]: "resting (recalculate b) s p = resting b s p"
  by (simp add: resting_def)

lemma best_recalculate [simp]:
  "best_bid (recalculate b) = best_bid b"
  "best_ask (recalculate b) = best_ask b"
  by (simp_all add: best_bid_def best_ask_def)

definition quoted :: "order_book \<Rightarrow> bool" where
  "quoted b = (recalculate b = b)"

lemma quoted_recalculate [simp]: "quoted (recalculate b)"
proof -
  have "best_bid (recalculate b) = best_bid b" "best_ask (recalculate b) = best_ask b" by simp_all
  then show ?thesis
    unfolding quoted_def recalculate_def [of "recalculate b"]
    by (cases "best_bid b"; cases "best_ask b") (auto simp: recalculate_def)
qed

section \<open>The invariant\<close>

text \<open>
  A level is well formed when it is not empty, no order id occurs twice in it, and every order is
  on the level's side and price with a positive quantity. A book is well formed when its
  dictionaries have distinct keys, its levels are well formed, the index holds exactly the resting
  orders, and every level (and nothing else) has its computed owner.
\<close>

definition level_ok :: "book_side \<Rightarrow> rat \<Rightarrow> order list \<Rightarrow> bool" where
  "level_ok s p os = (os \<noteq> [] \<and> distinct (map o_order_id os) \<and>
     (\<forall>x\<in>set os. o_side x = order_side s \<and> o_price x = Some p \<and> 0 < o_quantity x))"

definition levels_ok :: "book_side \<Rightarrow> order_book \<Rightarrow> bool" where
  "levels_ok s b = (\<forall>(p, os)\<in>set (levels_of b s).
     level_ok s p os \<and> (\<forall>x\<in>set os. dget (orders b) (o_order_id x) = Some x) \<and>
     dget (level_owners b) (s, p) = Some (level_owner os))"

definition index_ok :: "order_book \<Rightarrow> bool" where
  "index_ok b = (\<forall>(i, x)\<in>set (orders b). o_order_id x = i \<and>
     (case o_price x of None \<Rightarrow> False | Some p \<Rightarrow> x \<in> set (resting b (side_of_order (o_side x)) p)))"

definition book_ok :: "order_book \<Rightarrow> bool" where
  "book_ok b = (dict_ok (bids b) \<and> dict_ok (asks b) \<and> dict_ok (orders b) \<and> dict_ok (level_owners b) \<and>
     levels_ok Bid b \<and> levels_ok Ask b \<and> index_ok b \<and>
     (\<forall>((s, p), _)\<in>set (level_owners b). dget (levels_of b s) p \<noteq> None))"

definition dicts_ok :: "order_book \<Rightarrow> bool" where
  "dicts_ok b = ((\<forall>s. dict_ok (levels_of b s)) \<and> dict_ok (orders b) \<and> dict_ok (level_owners b))"

lemma dicts_ok_iff:
  "dicts_ok b \<longleftrightarrow> dict_ok (bids b) \<and> dict_ok (asks b) \<and> dict_ok (orders b) \<and> dict_ok (level_owners b)"
  unfolding dicts_ok_def bids_levels asks_levels by (metis (full_types) book_side.exhaust)

text \<open>The invariant read through lookups, the form the proofs use.\<close>

lemma book_ok_iff:
  "book_ok b \<longleftrightarrow> dicts_ok b \<and>
     (\<forall>s p os. dget (levels_of b s) p = Some os \<longrightarrow> level_ok s p os) \<and>
     (\<forall>s p. \<forall>x\<in>set (resting b s p). dget (orders b) (o_order_id x) = Some x) \<and>
     (\<forall>i x. dget (orders b) i = Some x \<longrightarrow> o_order_id x = i \<and> (\<exists>s p. x \<in> set (resting b s p))) \<and>
     (\<forall>s p. dget (level_owners b) (s, p) = map_option level_owner (dget (levels_of b s) p))"
  (is "?L \<longleftrightarrow> ?R")
proof
  assume L: ?L
  have d: "dicts_ok b" using L by (simp add: book_ok_def dicts_ok_iff)
  have lv: "levels_ok s b" for s using L by (cases s) (simp_all add: book_ok_def)
  have look: "(p, os) \<in> set (levels_of b s) \<longleftrightarrow> dget (levels_of b s) p = Some os" for s p os
    using d by (intro dget_in_set) (simp add: dicts_ok_def)
  have 1: "level_ok s p os \<and> (\<forall>x\<in>set os. dget (orders b) (o_order_id x) = Some x) \<and>
      dget (level_owners b) (s, p) = Some (level_owner os)" if "dget (levels_of b s) p = Some os" for s p os
    using lv [of s] that unfolding levels_ok_def look [symmetric] by auto
  have 2: "o_order_id x = i \<and> (\<exists>s p. x \<in> set (resting b s p))" if "dget (orders b) i = Some x" for i x
  proof -
    have "(i, x) \<in> set (orders b)" using d that by (simp add: dicts_ok_def dget_in_set)
    moreover have "index_ok b" using L by (simp add: book_ok_def)
    ultimately show ?thesis unfolding index_ok_def by (fastforce split: option.splits)
  qed
  have 3: "dget (level_owners b) (s, p) = map_option level_owner (dget (levels_of b s) p)" for s p
  proof (cases "dget (levels_of b s) p")
    case None
    have "dget (level_owners b) (s, p) = None"
    proof (rule ccontr)
      assume "dget (level_owners b) (s, p) \<noteq> None"
      then obtain w where "((s, p), w) \<in> set (level_owners b)" by (auto dest: map_of_SomeD)
      then show False using L None unfolding book_ok_def by fastforce
    qed
    with None show ?thesis by simp
  next
    case (Some os)
    then show ?thesis using 1 by simp
  qed
  have 4: "\<forall>x\<in>set (resting b s p). dget (orders b) (o_order_id x) = Some x" for s p
    using 1 by (cases "dget (levels_of b s) p") (auto simp: resting_def dict_simps)
  show ?R using d 1 2 3 4 by blast
next
  assume R: ?R
  then have d: "dicts_ok b" by simp
  have look: "(p, os) \<in> set (levels_of b s) \<Longrightarrow> dget (levels_of b s) p = Some os" for s p os
    using d by (simp add: dicts_ok_def dget_in_set)
  have lv: "levels_ok s b" for s
    unfolding levels_ok_def
  proof (clarify)
    fix p os assume "(p, os) \<in> set (levels_of b s)"
    then have l: "dget (levels_of b s) p = Some os" by (rule look)
    then have r: "resting b s p = os" by (simp add: resting_def dict_simps)
    show "level_ok s p os \<and> (\<forall>x\<in>set os. dget (orders b) (o_order_id x) = Some x) \<and>
      dget (level_owners b) (s, p) = Some (level_owner os)"
      using R l r by fastforce
  qed
  have ix: "index_ok b"
    unfolding index_ok_def
  proof (clarify)
    fix i x assume "(i, x) \<in> set (orders b)"
    then have "dget (orders b) i = Some x" using d by (simp add: dicts_ok_def dget_in_set)
    with R obtain s p where i: "o_order_id x = i" and x: "x \<in> set (resting b s p)" by blast
    from x obtain os where os: "dget (levels_of b s) p = Some os" "x \<in> set os"
      by (cases "dget (levels_of b s) p") (auto simp: resting_def dict_simps)
    with R have "level_ok s p os" by blast
    with os(2) have "o_price x = Some p" "side_of_order (o_side x) = s" by (auto simp: level_ok_def)
    with i x show "o_order_id x = i \<and>
      (case o_price x of None \<Rightarrow> False | Some p \<Rightarrow> x \<in> set (resting b (side_of_order (o_side x)) p))"
      by simp
  qed
  have ow: "\<forall>((s, p), _)\<in>set (level_owners b). dget (levels_of b s) p \<noteq> None"
  proof -
    have "dget (levels_of b s) p \<noteq> None" if "((s, p), w) \<in> set (level_owners b)" for s p w
    proof -
      have "dget (level_owners b) (s, p) = Some w" using d that by (simp add: dicts_ok_def dget_in_set)
      with R show ?thesis by auto
    qed
    then show ?thesis by fast
  qed
  show ?L using d lv ix ow by (simp add: book_ok_def dicts_ok_iff)
qed

lemma book_okD:
  assumes "book_ok b"
  shows "dicts_ok b"
    and "dget (levels_of b s) p = Some os \<Longrightarrow> level_ok s p os"
    and "x \<in> set (resting b s p) \<Longrightarrow> dget (orders b) (o_order_id x) = Some x"
    and "dget (orders b) i = Some x \<Longrightarrow> o_order_id x = i"
    and "dget (orders b) i = Some x \<Longrightarrow> \<exists>s p. x \<in> set (resting b s p)"
    and "dget (level_owners b) (s, p) = map_option level_owner (dget (levels_of b s) p)"
  using assms unfolding book_ok_iff by blast+

lemma resting_level_ok: "book_ok b \<Longrightarrow> resting b s p \<noteq> [] \<Longrightarrow> level_ok s p (resting b s p)"
  by (cases "dget (levels_of b s) p") (auto simp: resting_def dict_simps dest: book_okD(2))

lemma resting_order:
  assumes "book_ok b" and "x \<in> set (resting b s p)"
  shows "o_side x = order_side s" and "o_price x = Some p" and "0 < o_quantity x"
proof -
  have "resting b s p \<noteq> []" using assms(2) by auto
  from resting_level_ok [OF assms(1) this] assms(2)
  show "o_side x = order_side s" and "o_price x = Some p" and "0 < o_quantity x"
    by (simp_all add: level_ok_def)
qed

lemma resting_distinct: "book_ok b \<Longrightarrow> distinct (map o_order_id (resting b s p))"
  using resting_level_ok [of b s p] by (cases "resting b s p = []") (auto simp: level_ok_def)

lemma indexed_order_rests:
  assumes "book_ok b" and "dget (orders b) i = Some x"
  shows "\<exists>p. o_price x = Some p \<and> x \<in> set (resting b (side_of_order (o_side x)) p)"
proof -
  obtain s p where "x \<in> set (resting b s p)" using book_okD(5) [OF assms] by blast
  then show ?thesis using resting_order [OF assms(1), of x s p] by auto
qed

lemma empty_book_ok: "book_ok empty_book"
  by (simp add: book_ok_def empty_book_def levels_ok_def levels_of_def index_ok_def)

section \<open>Replacing one level\<close>

text \<open>
  Every operation is a replacement of one level: the queue at \<open>(s, p)\<close> becomes \<open>os'\<close>, the index
  forgets the old queue and learns the new one, the owner table follows. This lemma is the
  invariant's preservation for all of them.
\<close>

definition in_queue :: "order list \<Rightarrow> string \<Rightarrow> order option" where
  "in_queue os i = find (\<lambda>x. o_order_id x = i) os"

lemma in_queue_Some: "in_queue os i = Some x \<Longrightarrow> x \<in> set os \<and> o_order_id x = i"
  by (auto simp: in_queue_def find_Some_iff)

lemma in_queue_None: "in_queue os i = None \<longleftrightarrow> i \<notin> o_order_id ` set os"
  by (auto simp: in_queue_def find_None_iff)

lemma in_queue_member:
  "distinct (map o_order_id os) \<Longrightarrow> x \<in> set os \<Longrightarrow> in_queue os (o_order_id x) = Some x"
proof -
  assume d: "distinct (map o_order_id os)" and x: "x \<in> set os"
  then obtain y where y: "in_queue os (o_order_id x) = Some y"
    using in_queue_None [of os "o_order_id x"] by (cases "in_queue os (o_order_id x)") auto
  from in_queue_Some [OF y] x d have "y = x" by (auto simp: distinct_map inj_on_def)
  with y show ?thesis by simp
qed

lemma in_queue_simps [simp]:
  "in_queue [] i = None"
  "in_queue (x # xs) i = (if o_order_id x = i then Some x else in_queue xs i)"
  by (simp_all add: in_queue_def)

lemma in_queue_append:
  "in_queue (xs @ ys) i = (case in_queue xs i of None \<Rightarrow> in_queue ys i | Some x \<Rightarrow> Some x)"
  by (induction xs) auto

lemma in_queue_filter:
  "in_queue (filter (\<lambda>x. o_order_id x \<noteq> j) os) i = (if i = j then None else in_queue os i)"
  by (induction os) auto

definition replaces ::
  "book_side \<Rightarrow> rat \<Rightarrow> order list \<Rightarrow> order_book \<Rightarrow> order_book \<Rightarrow> bool" where
  "replaces s p os' b b' \<longleftrightarrow>
     dicts_ok b' \<and>
     (\<forall>s' p'. dget (levels_of b' s') p' =
        (if s' = s \<and> p' = p then (if os' = [] then None else Some os') else dget (levels_of b s') p')) \<and>
     (\<forall>k. dget (level_owners b') k =
        (if k = (s, p) then (if os' = [] then None else Some (level_owner os'))
         else dget (level_owners b) k)) \<and>
     (\<forall>i. dget (orders b') i =
        (case in_queue os' i of Some x \<Rightarrow> Some x
         | None \<Rightarrow> if i \<in> o_order_id ` set (resting b s p) then None else dget (orders b) i))"

lemma replacesD:
  assumes "replaces s p os' b b'"
  shows "dicts_ok b'"
    and "dget (levels_of b' s') p' =
        (if s' = s \<and> p' = p then (if os' = [] then None else Some os') else dget (levels_of b s') p')"
    and "dget (level_owners b') k =
        (if k = (s, p) then (if os' = [] then None else Some (level_owner os'))
         else dget (level_owners b) k)"
    and "dget (orders b') i =
        (case in_queue os' i of Some x \<Rightarrow> Some x
         | None \<Rightarrow> if i \<in> o_order_id ` set (resting b s p) then None else dget (orders b) i)"
  using assms unfolding replaces_def by blast+

lemma replaces_resting:
  assumes "replaces s p os' b b'"
  shows "resting b' s' p' = (if s' = s \<and> p' = p then os' else resting b s' p')"
  by (simp add: resting_def dget_or_def replacesD(2) [OF assms])

lemma replaces_ok:
  assumes ok: "book_ok b" and rep: "replaces s p os' b b'"
    and lv: "os' \<noteq> [] \<Longrightarrow> level_ok s p os'"
    and fresh: "\<And>x. x \<in> set os' \<Longrightarrow>
      dget (orders b) (o_order_id x) = None \<or> o_order_id x \<in> o_order_id ` set (resting b s p)"
  shows "book_ok b'"
proof -
  note rest = replaces_resting [OF rep]
  have dist: "distinct (map o_order_id os')" using lv by (cases "os' = []") (auto simp: level_ok_def)
  have away: "o_order_id x \<notin> o_order_id ` set (resting b s p)"
    if x: "x \<in> set (resting b s' p')" and ne: "\<not> (s' = s \<and> p' = p)" for x s' p'
  proof
    assume "o_order_id x \<in> o_order_id ` set (resting b s p)"
    then obtain y where y: "y \<in> set (resting b s p)" "o_order_id y = o_order_id x" by auto
    have "dget (orders b) (o_order_id x) = Some x" using book_okD(3) [OF ok x] .
    moreover have "dget (orders b) (o_order_id x) = Some y" using book_okD(3) [OF ok y(1)] y(2) by simp
    ultimately have "x = y" by simp
    then have "order_side s' = order_side s" "p' = p"
      using resting_order(1,2) [OF ok x] resting_order(1,2) [OF ok y(1)] by auto
    then show False using ne by (metis side_conv(2))
  qed
  have A: "dget (orders b') (o_order_id x) = Some x" if x: "x \<in> set (resting b' s' p')" for x s' p'
  proof (cases "s' = s \<and> p' = p")
    case True
    with x rest have "x \<in> set os'" by simp
    then have "in_queue os' (o_order_id x) = Some x" by (rule in_queue_member [OF dist])
    then show ?thesis by (simp add: replacesD(4) [OF rep])
  next
    case False
    with x rest have xb: "x \<in> set (resting b s' p')" by (simp split: if_splits)
    have ox: "dget (orders b) (o_order_id x) = Some x" by (rule book_okD(3) [OF ok xb])
    have na: "o_order_id x \<notin> o_order_id ` set (resting b s p)" by (rule away [OF xb False])
    have "in_queue os' (o_order_id x) = None"
      unfolding in_queue_None using fresh na ox by (metis image_iff option.distinct(1))
    with ox na show ?thesis by (simp add: replacesD(4) [OF rep])
  qed
  have B: "o_order_id x = i \<and> (\<exists>s p. x \<in> set (resting b' s p))" if x: "dget (orders b') i = Some x" for i x
  proof (cases "in_queue os' i")
    case (Some y)
    with x have "y = x" by (simp add: replacesD(4) [OF rep])
    with in_queue_Some [OF Some] rest show ?thesis by metis
  next
    case None
    with x have ox: "dget (orders b) i = Some x" and na: "i \<notin> o_order_id ` set (resting b s p)"
      by (simp_all add: replacesD(4) [OF rep] split: if_splits)
    have i: "o_order_id x = i" by (rule book_okD(4) [OF ok ox])
    obtain s' p' where r: "x \<in> set (resting b s' p')" using book_okD(5) [OF ok ox] by blast
    with na i have "\<not> (s' = s \<and> p' = p)" by auto
    then have "resting b' s' p' = resting b s' p'" by (auto simp: rest)
    with r i show ?thesis by metis
  qed
  have C: "level_ok s' p' os" if "dget (levels_of b' s') p' = Some os" for s' p' os
    using that lv book_okD(2) [OF ok, of s' p' os] by (auto simp: replacesD(2) [OF rep] split: if_splits)
  have D: "dget (level_owners b') (s', p') = map_option level_owner (dget (levels_of b' s') p')" for s' p'
    using book_okD(6) [OF ok, of s' p'] by (simp add: replacesD(2,3) [OF rep])
  show ?thesis
    unfolding book_ok_iff using replacesD(1) [OF rep] A B C D by blast
qed

lemma replaces_recalculate [simp]: "replaces s p os' b (recalculate b') = replaces s p os' b b'"
  by (simp add: replaces_def dicts_ok_def)

lemma book_ok_recalculate [simp]: "book_ok (recalculate b) = book_ok b"
  unfolding book_ok_iff by (simp add: dicts_ok_def)

lemma dicts_ok_recalculate [simp]: "dicts_ok (recalculate b) = dicts_ok b"
  by (simp add: dicts_ok_def)

lemma dicts_ok_steps [inv_intros]:
  "dicts_ok b \<Longrightarrow> dict_ok d \<Longrightarrow> dicts_ok (set_levels s d b)"
  "dicts_ok b \<Longrightarrow> dict_ok i \<Longrightarrow> dicts_ok (b\<lparr>orders := i\<rparr>)"
  "dicts_ok b \<Longrightarrow> dict_ok w \<Longrightarrow> dicts_ok (b\<lparr>level_owners := w\<rparr>)"
  "dicts_ok b \<Longrightarrow> dicts_ok (recompute_level_owner s p b)"
  by (auto simp: dicts_ok_def recompute_level_owner_def Let_def dict_laws)

lemma dicts_ok_parts [inv_intros]:
  "dicts_ok b \<Longrightarrow> dict_ok (levels_of b s)"
  "dicts_ok b \<Longrightarrow> dict_ok (orders b)"
  "dicts_ok b \<Longrightarrow> dict_ok (level_owners b)"
  by (auto simp: dicts_ok_def)

lemmas dict_oks [inv_intros] = pd.ok_put pd.ok_drop dict_ok_pop_all

lemma in_queue_indexed:
  assumes "book_ok b" and "in_queue (resting b s p) i = Some y"
  shows "dget (orders b) i = Some y"
  using in_queue_Some [OF assms(2)] book_okD(3) [OF assms(1)] by blast

text \<open>An order id may be placed at a level when it rests there already or nowhere.\<close>

definition id_free_at :: "order_book \<Rightarrow> book_side \<Rightarrow> rat \<Rightarrow> string \<Rightarrow> bool" where
  "id_free_at b s p i = (dget (orders b) i = None \<or> i \<in> o_order_id ` set (resting b s p))"

lemma level_ok_single:
  "o_side x = order_side s \<Longrightarrow> o_price x = Some p \<Longrightarrow> 0 < o_quantity x \<Longrightarrow> level_ok s p [x]"
  by (simp add: level_ok_def)

lemma level_owner_single [simp]: "level_owner [x] = o_owner x"
  by (simp add: level_owner_def)

lemma dget_empty_level: "book_ok b \<Longrightarrow> resting b s p = [] \<longleftrightarrow> dget (levels_of b s) p = None"
  by (cases "dget (levels_of b s) p") (auto simp: resting_def dict_simps level_ok_def dest: book_okD(2))

subsection \<open>remove\_level and update\_level\<close>

lemma remove_level_replaces:
  assumes "book_ok b"
  shows "replaces s p [] b (fst (remove_level s p b))"
proof -
  have "dicts_ok b" using assms by (rule book_okD(1))
  then show ?thesis
    unfolding replaces_def
    by (auto simp: remove_level_def Let_def dict_simps intro!: inv_intros)
qed

lemma level_order_fields [simp]:
  "o_order_id (level_order s p sz ow) = synthetic_order_id s p"
  "o_side (level_order s p sz ow) = order_side s"
  "o_price (level_order s p sz ow) = Some p"
  "o_quantity (level_order s p sz ow) = sz"
  "o_owner (level_order s p sz ow) = ow"
  by (simp_all add: level_order_def mk_order_def)

lemma update_level_replaces:
  assumes "book_ok b" and "0 < sz"
  shows "replaces s p [level_order s p sz ow] b (fst (update_level s p sz ow b))"
proof -
  have "dicts_ok b" using assms(1) by (rule book_okD(1))
  then show ?thesis
    using assms(2) unfolding replaces_def
    by (auto simp: update_level_def Let_def dict_simps intro!: inv_intros split: option.splits)
qed

lemma remove_level_ok: "book_ok b \<Longrightarrow> book_ok (fst (remove_level s p b))"
  by (rule replaces_ok [OF _ remove_level_replaces]) auto

lemma update_level_ok:
  assumes "book_ok b" and "0 < sz \<Longrightarrow> id_free_at b s p (synthetic_order_id s p)"
  shows "book_ok (fst (update_level s p sz ow b))"
proof (cases "0 < sz")
  case True
  show ?thesis
    using assms(2) [OF True] True
    by (intro replaces_ok [OF assms(1) update_level_replaces [OF assms(1) True]])
      (auto simp: id_free_at_def intro: level_ok_single)
next
  case False
  then have "update_level s p sz ow b = remove_level s p b" by (simp add: update_level_def)
  then show ?thesis using remove_level_ok [OF assms(1)] by simp
qed

subsection \<open>cancel\_order\<close>

lemma cancel_order_replaces:
  assumes ok: "book_ok b" and x: "dget (orders b) oid = Some x" and p: "o_price x = Some p"
  shows "replaces (side_of_order (o_side x)) p
    (filter (\<lambda>y. o_order_id y \<noteq> oid) (resting b (side_of_order (o_side x)) p)) b
    (fst (cancel_order oid b))"
proof -
  let ?s = "side_of_order (o_side x)"
  let ?kept = "filter (\<lambda>y. o_order_id y \<noteq> oid) (resting b ?s p)"
  have d: "dicts_ok b" using ok by (rule book_okD(1))
  have mem: "oid \<in> o_order_id ` set (resting b ?s p)"
    using indexed_order_rests [OF ok x] p book_okD(4) [OF ok x] by force
  have idx: "dget (dpop oid (orders b)) i =
      (case in_queue ?kept i of Some y \<Rightarrow> Some y
       | None \<Rightarrow> if i \<in> o_order_id ` set (resting b ?s p) then None else dget (orders b) i)" for i
  proof (cases "i = oid")
    case True
    with mem show ?thesis by (simp add: dict_simps in_queue_filter)
  next
    case False
    then show ?thesis
      using in_queue_indexed [OF ok, of ?s p i] in_queue_None [of "resting b ?s p" i]
      by (cases "in_queue (resting b ?s p) i") (simp_all add: dict_simps in_queue_filter)
  qed
  define b' where "b' = fst (cancel_order oid b)"
  have b': "b' = recalculate (let b1 = b\<lparr>orders := dpop oid (orders b)\<rparr>;
      b2 = set_levels ?s (dset p ?kept (levels_of b1 ?s)) b1
      in if ?kept = [] then (set_levels ?s (dpop p (levels_of b2 ?s)) b2)\<lparr>level_owners := dpop (?s, p) (level_owners b2)\<rparr>
         else recompute_level_owner ?s p b2)"
    by (simp add: b'_def cancel_order_def x p Let_def)
  have r: "resting (set_levels ?s (dset p ?kept (levels_of b ?s)) (b\<lparr>orders := i\<rparr>)) ?s p = ?kept" for i
    by (simp add: resting_def dict_simps)
  show ?thesis
    unfolding b'_def [symmetric] replaces_def b'
  proof (intro conjI allI)
    show "dget (orders (recalculate (let b1 = b\<lparr>orders := dpop oid (orders b)\<rparr>;
        b2 = set_levels ?s (dset p ?kept (levels_of b1 ?s)) b1
        in if ?kept = [] then (set_levels ?s (dpop p (levels_of b2 ?s)) b2)\<lparr>level_owners := dpop (?s, p) (level_owners b2)\<rparr>
           else recompute_level_owner ?s p b2))) i =
      (case in_queue ?kept i of Some y \<Rightarrow> Some y
       | None \<Rightarrow> if i \<in> o_order_id ` set (resting b ?s p) then None else dget (orders b) i)" for i
      using idx [of i] by (simp add: Let_def)
  qed (use d r in \<open>auto simp: Let_def dict_simps owners_recompute intro!: inv_intros\<close>)
qed

lemma level_ok_filter: "level_ok s p os \<Longrightarrow> filter P os \<noteq> [] \<Longrightarrow> level_ok s p (filter P os)"
  by (auto simp: level_ok_def distinct_map_filter)

lemma cancel_order_ok:
  assumes ok: "book_ok b"
  shows "book_ok (fst (cancel_order oid b))"
proof (cases "dget (orders b) oid")
  case None
  then show ?thesis using ok by (simp add: cancel_order_def)
next
  case (Some x)
  then obtain p where p: "o_price x = Some p" and r: "x \<in> set (resting b (side_of_order (o_side x)) p)"
    using indexed_order_rests [OF ok] by blast
  have "level_ok (side_of_order (o_side x)) p (resting b (side_of_order (o_side x)) p)"
    using r by (intro resting_level_ok [OF ok]) auto
  then show ?thesis
    by (intro replaces_ok [OF ok cancel_order_replaces [OF ok Some p]]) (auto intro: level_ok_filter)
qed

subsection \<open>Appending to a level: add\_limit\_order and update\_agent\_level\<close>

lemma resting_set_level [simp]:
  "resting (set_levels s (dset p os (levels_of b s)) b0) s' p' =
     (if s' = s then (if p' = p then os else resting b s p') else resting b0 s' p')"
  by (simp add: resting_def dget_or_def dict_simps)

lemma add_limit_order_replaces:
  assumes ok: "book_ok b" and add: "add_limit_order x b = Inr (b', ms)" and p: "o_price x = Some p"
  shows "replaces (side_of_order (o_side x)) p (resting b (side_of_order (o_side x)) p @ [x]) b b'"
proof -
  let ?s = "side_of_order (o_side x)"
  have d: "dicts_ok b" using ok by (rule book_okD(1))
  have free: "dget (orders b) (o_order_id x) = None"
    and b': "b' = recalculate (recompute_level_owner ?s p
      ((set_levels ?s (dset p (resting b ?s p @ [x]) (levels_of b ?s)) b)
        \<lparr>orders := dset (o_order_id x) x (orders b)\<rparr>))"
    using add by (auto simp: add_limit_order_def p Let_def split: if_splits)
  have idx: "dget (dset (o_order_id x) x (orders b)) i =
      (case in_queue (resting b ?s p @ [x]) i of Some y \<Rightarrow> Some y
       | None \<Rightarrow> if i \<in> o_order_id ` set (resting b ?s p) then None else dget (orders b) i)" for i
    using in_queue_indexed [OF ok, of ?s p i] in_queue_None [of "resting b ?s p" i] free
    by (cases "in_queue (resting b ?s p) i") (auto simp: dict_simps in_queue_append)
  show ?thesis
    unfolding replaces_def b'
    using d idx by (auto simp: dict_simps owners_recompute intro!: inv_intros)
qed

lemma level_ok_snoc:
  assumes "book_ok b" and "o_side x = order_side s" and "o_price x = Some p" and "0 < o_quantity x"
    and "o_order_id x \<notin> o_order_id ` set os"
    and "os = filter P (resting b s p)"
  shows "level_ok s p (os @ [x])"
proof (cases "os = []")
  case True
  with assms show ?thesis by (simp add: level_ok_single)
next
  case False
  then have "resting b s p \<noteq> []" using assms(6) by auto
  from level_ok_filter [OF resting_level_ok [OF assms(1) this], of P] False assms
  show ?thesis by (auto simp: level_ok_def)
qed

lemma add_limit_order_Inr:
  assumes "add_limit_order x b = Inr (b', ms)"
  obtains p where "o_price x = Some p" and "0 < o_quantity x" and "dget (orders b) (o_order_id x) = None"
    and "ms = [mut_add x]"
  using assms by (auto simp: add_limit_order_def Let_def split: option.splits if_splits)

lemma add_limit_order_ok:
  assumes ok: "book_ok b" and add: "add_limit_order x b = Inr (b', ms)"
  shows "book_ok b'"
proof -
  obtain p where p: "o_price x = Some p" and q: "0 < o_quantity x"
    and free: "dget (orders b) (o_order_id x) = None"
    using add by (rule add_limit_order_Inr)
  let ?s = "side_of_order (o_side x)"
  have "o_order_id x \<notin> o_order_id ` set (resting b ?s p)"
    using free book_okD(3) [OF ok, of _ ?s p] by force
  then have lv: "level_ok ?s p (resting b ?s p @ [x])"
    using p q by (intro level_ok_snoc [OF ok, where P = "\<lambda>_. True"]) auto
  show ?thesis
    using lv free
    by (intro replaces_ok [OF ok add_limit_order_replaces [OF ok add p]]) auto
qed

definition agent_oid :: "book_side \<Rightarrow> rat \<Rightarrow> string \<Rightarrow> string option \<Rightarrow> string" where
  "agent_oid s p aid oid_arg = (case oid_arg of None \<Rightarrow> agent_level_order_id s p aid
                 | Some i \<Rightarrow> str_or i (agent_level_order_id s p aid))"

lemma agent_order_fields [simp]:
  "o_order_id (agent_order s p sz aid ow oid ts sid snm sfm) = oid"
  "o_side (agent_order s p sz aid ow oid ts sid snm sfm) = order_side s"
  "o_price (agent_order s p sz aid ow oid ts sid snm sfm) = Some p"
  "o_quantity (agent_order s p sz aid ow oid ts sid snm sfm) = sz"
  by (simp_all add: agent_order_def)

lemma update_agent_level_replaces:
  fixes s p sz aid ow oid_arg ts sid snm sfm
  defines "oid \<equiv> agent_oid s p aid oid_arg"
  assumes ok: "book_ok b" and sz: "0 < sz"
  shows "replaces s p (filter (\<lambda>x. o_order_id x \<noteq> oid) (resting b s p) @
      [agent_order s p sz aid ow oid ts sid snm sfm]) b
    (fst (update_agent_level s p sz aid ow oid_arg ts sid snm sfm b))"
proof -
  let ?same = "filter (\<lambda>x. o_order_id x = oid) (resting b s p)"
  let ?kept = "filter (\<lambda>x. o_order_id x \<noteq> oid) (resting b s p)"
  let ?new = "agent_order s p sz aid ow oid ts sid snm sfm"
  have d: "dicts_ok b" using ok by (rule book_okD(1))
  have b': "fst (update_agent_level s p sz aid ow oid_arg ts sid snm sfm b) =
    recalculate (recompute_level_owner s p
      ((set_levels s (dset p (?kept @ [?new]) (levels_of b s)) (b\<lparr>orders := dpop_all (map o_order_id ?same) (orders b)\<rparr>))
        \<lparr>orders := dset oid ?new (dpop_all (map o_order_id ?same) (orders b))\<rparr>))"
    using sz by (simp add: update_agent_level_def Let_def oid_def agent_oid_def)
  have idx: "dget (dset oid ?new (dpop_all (map o_order_id ?same) (orders b))) i =
      (case in_queue (?kept @ [?new]) i of Some y \<Rightarrow> Some y
       | None \<Rightarrow> if i \<in> o_order_id ` set (resting b s p) then None else dget (orders b) i)" for i
  proof (cases "i = oid")
    case True
    then show ?thesis by (simp add: dict_simps in_queue_append in_queue_filter)
  next
    case False
    then have "i \<notin> set (map o_order_id ?same)" by auto
    with False show ?thesis
      using in_queue_indexed [OF ok, of s p i] in_queue_None [of "resting b s p" i]
      by (cases "in_queue (resting b s p) i") (auto simp: dict_simps in_queue_append in_queue_filter)
  qed
  show ?thesis
    unfolding replaces_def b'
    using d idx by (auto simp: dict_simps owners_recompute intro!: inv_intros)
qed

lemma update_agent_level_nonpos:
  "sz \<le> 0 \<Longrightarrow> fst (update_agent_level s p sz aid ow oid_arg ts sid snm sfm b) =
     fst (cancel_order (agent_oid s p aid oid_arg) b)"
  by (simp add: update_agent_level_def agent_oid_def Let_def split: prod.splits)

lemma update_agent_level_ok:
  assumes ok: "book_ok b" and free: "0 < sz \<Longrightarrow> id_free_at b s p (agent_oid s p aid oid_arg)"
  shows "book_ok (fst (update_agent_level s p sz aid ow oid_arg ts sid snm sfm b))"
proof (cases "0 < sz")
  case True
  let ?oid = "agent_oid s p aid oid_arg"
  have lv: "level_ok s p (filter (\<lambda>x. o_order_id x \<noteq> ?oid) (resting b s p) @
      [agent_order s p sz aid ow ?oid ts sid snm sfm])"
    using True by (intro level_ok_snoc [OF ok, where P = "\<lambda>x. o_order_id x \<noteq> ?oid"]) auto
  show ?thesis
    using lv free [OF True]
    by (intro replaces_ok [OF ok update_agent_level_replaces [OF ok True]])
      (auto simp: id_free_at_def)
next
  case False
  then show ?thesis by (simp add: update_agent_level_nonpos cancel_order_ok [OF ok])
qed

lemma ensure_level_minimum_ok:
  assumes "book_ok b" and "id_free_at b s p (agent_level_order_id s p aid)"
  shows "book_ok (fst (ensure_level_minimum s p minimum aid ow b))"
  unfolding ensure_level_minimum_def Let_def
  using assms by (intro update_agent_level_ok) (auto simp: agent_oid_def)

subsection \<open>modify\_order\<close>

lemma modified_order_fields [simp]:
  "o_order_id (modified_order e r np pr) = o_order_id e"
  "o_side (modified_order e r np pr) = o_side e"
  "o_price (modified_order e r np pr) = Some np"
  "o_quantity (modified_order e r np pr) = o_quantity r"
  "o_agent_id (modified_order e r np pr) = o_agent_id e"
  "o_owner (modified_order e r np pr) = o_owner e"
  by (simp_all add: modified_order_def)

lemma in_queue_map_update:
  "o_order_id u = j \<Longrightarrow> in_queue (map (\<lambda>x. if o_order_id x = j then u else x) os) i =
     (if i = j then (if j \<in> o_order_id ` set os then Some u else None) else in_queue os i)"
  by (induction os) auto

lemma modify_in_place_ok:
  assumes ok: "book_ok b" and e: "dget (orders b) (o_order_id e) = Some e" and p: "o_price e = Some p"
    and u: "o_order_id u = o_order_id e" "o_side u = o_side e" "o_price u = Some p" "0 < o_quantity u"
  shows "book_ok (modify_in_place e p u b)"
proof -
  let ?s = "side_of_order (o_side e)"
  let ?os = "map (\<lambda>x. if o_order_id x = o_order_id e then u else x) (resting b ?s p)"
  have d: "dicts_ok b" using ok by (rule book_okD(1))
  have mem: "e \<in> set (resting b ?s p)" using indexed_order_rests [OF ok e] p by auto
  then have imem: "o_order_id e \<in> o_order_id ` set (resting b ?s p)" by blast
  have ids: "map o_order_id ?os = map o_order_id (resting b ?s p)" using u(1) by auto
  have "dget (dset (o_order_id u) u (orders b)) i =
      (case in_queue ?os i of Some y \<Rightarrow> Some y
       | None \<Rightarrow> if i \<in> o_order_id ` set (resting b ?s p) then None else dget (orders b) i)" for i
    using in_queue_indexed [OF ok, of ?s p i] in_queue_None [of "resting b ?s p" i] imem
    by (cases "in_queue (resting b ?s p) i") (auto simp: dict_simps in_queue_map_update [OF u(1)] u(1))
  then have rep: "replaces ?s p ?os b (modify_in_place e p u b)"
    unfolding replaces_def modify_in_place_def Let_def
    using d mem by (auto simp: dict_simps owners_recompute intro!: inv_intros)
  have lv: "level_ok ?s p ?os"
  proof -
    have "level_ok ?s p (resting b ?s p)" using mem by (intro resting_level_ok [OF ok]) auto
    then have "distinct (map o_order_id ?os)" unfolding ids by (simp add: level_ok_def)
    with \<open>level_ok ?s p (resting b ?s p)\<close> u show ?thesis
      by (auto simp: level_ok_def simp del: map_map)
  qed
  show ?thesis
    using lv u(1) imem by (intro replaces_ok [OF ok rep]) (auto split: if_splits)
qed

lemma modify_move_ok:
  assumes ok: "book_ok b" and e: "dget (orders b) (o_order_id e) = Some e" and p: "o_price e = Some p"
    and np: "np \<noteq> p"
    and u: "o_order_id u = o_order_id e" "o_side u = o_side e" "o_price u = Some np" "0 < o_quantity u"
  shows "book_ok (modify_move e p u np b)"
proof -
  let ?s = "side_of_order (o_side e)"
  let ?kept = "filter (\<lambda>x. o_order_id x \<noteq> o_order_id e) (resting b ?s p)"
  define b1 where "b1 = fst (cancel_order (o_order_id e) b)"
  have ok1: "book_ok b1" unfolding b1_def by (rule cancel_order_ok [OF ok])
  have rep1: "replaces ?s p ?kept b b1"
    unfolding b1_def by (rule cancel_order_replaces [OF ok e p])
  have mem: "o_order_id e \<in> o_order_id ` set (resting b ?s p)"
    using indexed_order_rests [OF ok e] p by force
  have idx1: "dget (orders b1) i = (if i = o_order_id e then None else dget (orders b) i)" for i
  proof (cases "i = o_order_id e")
    case True
    with mem show ?thesis by (simp add: replacesD(4) [OF rep1] in_queue_filter)
  next
    case False
    then show ?thesis
      using in_queue_indexed [OF ok, of ?s p i] in_queue_None [of "resting b ?s p" i]
      by (cases "in_queue (resting b ?s p) i") (auto simp: replacesD(4) [OF rep1] in_queue_filter)
  qed
  define lo where "lo = resting b1 ?s np"
  have lo: "lo = resting b ?s np" using np by (simp add: lo_def replaces_resting [OF rep1])
  define b2 where "b2 = (if ?kept = []
      then (set_levels ?s (dpop p (levels_of (set_levels ?s (dset p ?kept (levels_of b ?s)) b) ?s))
              (set_levels ?s (dset p ?kept (levels_of b ?s)) b))
             \<lparr>level_owners := dpop (?s, p) (level_owners (set_levels ?s (dset p ?kept (levels_of b ?s)) b))\<rparr>
      else recompute_level_owner ?s p (set_levels ?s (dset p ?kept (levels_of b ?s)) b))"
  have d: "dicts_ok b" using ok by (rule book_okD(1))
  have d2: "dicts_ok b2" and o2: "orders b2 = orders b"
    and l2: "\<And>s' p'. dget (levels_of b2 s') p' = dget (levels_of b1 s') p'"
    and w2: "\<And>k. dget (level_owners b2) k = dget (level_owners b1) k"
    using d by (auto simp: b2_def replacesD(2,3) [OF rep1] dict_simps owners_recompute intro!: inv_intros)
  have r2: "resting b2 s' p' = resting b1 s' p'" for s' p' by (simp add: resting_def dget_or_def l2)
  have mm: "modify_move e p u np b = recompute_level_owner ?s np
      ((set_levels ?s (dset np (lo @ [u]) (levels_of b2 ?s)) b2)
        \<lparr>orders := dset (o_order_id u) u (orders b2)\<rparr>)"
    unfolding modify_move_def Let_def u(2) b2_def [symmetric] by (simp add: r2 lo_def)
  have "dget (dset (o_order_id u) u (orders b2)) i =
      (case in_queue (lo @ [u]) i of Some y \<Rightarrow> Some y
       | None \<Rightarrow> if i \<in> o_order_id ` set (resting b1 ?s np) then None else dget (orders b1) i)" for i
    using in_queue_indexed [OF ok1, of ?s np i] in_queue_None [of "resting b1 ?s np" i]
    unfolding lo_def o2 idx1 u(1)
    by (cases "in_queue (resting b1 ?s np) i") (auto simp: dict_simps in_queue_append u(1) idx1)
  then have rep2: "replaces ?s np (lo @ [u]) b1 (modify_move e p u np b)"
    unfolding replaces_def mm
    using d2 by (auto simp: dict_simps owners_recompute l2 w2 intro!: inv_intros)
  have free1: "dget (orders b1) (o_order_id u) = None" by (simp add: idx1 u(1))
  then have "o_order_id u \<notin> o_order_id ` set lo"
    using book_okD(3) [OF ok1, of _ ?s np] unfolding lo_def by force
  then have lv: "level_ok ?s np (lo @ [u])"
    using u by (intro level_ok_snoc [OF ok1, where P = "\<lambda>_. True"]) (auto simp: lo_def)
  show ?thesis
    using lv free1 by (intro replaces_ok [OF ok1 rep2]) (auto simp: lo_def)
qed

lemma modify_order_ok:
  assumes ok: "book_ok b" and m: "modify_order r b = Inr (b', ms, res)"
  shows "book_ok b'"
proof (cases "dget (orders b) (o_order_id r)")
  case None
  with m ok show ?thesis by (simp add: modify_order_def)
next
  case (Some e)
  have ide: "o_order_id e = o_order_id r" by (rule book_okD(4) [OF ok Some])
  obtain p where p: "o_price e = Some p" using indexed_order_rests [OF ok Some] by blast
  define np where "np = (case o_price r of Some q \<Rightarrow> q | None \<Rightarrow> p)"
  from m Some p have q: "0 < o_quantity r" and
    b': "b' = recalculate (if np = p then modify_in_place e p (modified_order e r np True) b
                  else modify_move e p (modified_order e r np False) np b)"
    by (auto simp: modify_order_def Let_def np_def split: if_splits option.splits)
  have e: "dget (orders b) (o_order_id e) = Some e" using Some ide by simp
  show ?thesis
    unfolding b' book_ok_recalculate
    using modify_in_place_ok [OF ok e p] modify_move_ok [OF ok e p] q by simp
qed

end
