(* ===== verification/OrderMatching.thy ===== *)
theory OrderMatching
  imports OrderBookInvariant
begin

text \<open>
  Matching, seen from the invariant: what the walk over one level does to its queue and to the index,
  what the walk over the prices does to the book, and that \<open>match_order\<close> keeps a well-formed book well formed.
\<close>

section \<open>One level\<close>

definition queue_in_index :: "order list \<Rightarrow> (string, order) dict \<Rightarrow> bool" where
  "queue_in_index os idx = (\<forall>r\<in>set os. dget idx (o_order_id r) = Some r)"

lemma match_level_stop: "rem \<le> 0 \<Longrightarrow> match_level x p os rem idx = (rem, idx, os, [])"
  by (induction os) auto

text \<open>The three ways the head of a queue is treated.\<close>

lemma match_level_Cons:
  assumes "match_level x p (r # rs) rem idx = (rem', idx', lv, ts)"
  obtains (stop) "rem \<le> 0" "rem' = rem" "idx' = idx" "lv = r # rs" "ts = []"
  | (fill) ts' where "0 < rem" "o_quantity r \<le> rem"
      "match_level x p rs (fsub rem (o_quantity r)) (dpop (o_order_id r) idx) = (rem', idx', lv, ts')"
      "ts = mk_trade x r p (o_quantity r) (fsub rem (o_quantity r)) # ts'"
  | (partial) "0 < rem" "rem < o_quantity r" "rem' = 0"
      "idx' = dset (o_order_id r) (r\<lparr>o_quantity := fsub (o_quantity r) rem\<rparr>) idx"
      "lv = r\<lparr>o_quantity := fsub (o_quantity r) rem\<rparr> # rs"
      "ts = [mk_trade x r p rem 0]"
proof (cases "rem \<le> 0")
  case True
  then have "(rem', idx', lv, ts) = (rem, idx, r # rs, [])"
    using assms match_level_stop by metis
  then show ?thesis using True by (intro stop) auto
next
  case False
  show ?thesis
  proof (cases "o_quantity r \<le> rem")
    case True
    then have m: "min rem (o_quantity r) = o_quantity r" by simp
    obtain a1 a2 a3 a4 where t:
      "match_level x p rs (fsub rem (o_quantity r)) (dpop (o_order_id r) idx) = (a1, a2, a3, a4)"
      by (metis prod_cases4)
    have "(rem', idx', lv, ts) = (a1, a2, a3, mk_trade x r p (o_quantity r) (fsub rem (o_quantity r)) # a4)"
      using assms False by (simp add: Let_def m t)
    then show ?thesis using False True t by (intro fill [of a4]) auto
  next
    case F: False
    then have m: "min rem (o_quantity r) = rem" "rem \<noteq> o_quantity r" by auto
    have z: "fsub rem rem = 0" by (simp add: float_signs)
    have "(rem', idx', lv, ts) = (0, dset (o_order_id r) (r\<lparr>o_quantity := fsub (o_quantity r) rem\<rparr>) idx,
        r\<lparr>o_quantity := fsub (o_quantity r) rem\<rparr> # rs, [mk_trade x r p rem 0])"
      using assms False by (simp add: Let_def m z match_level_stop)
    then show ?thesis using False F by (intro partial) auto
  qed
qed

lemma match_level_rem_nonneg:
  "match_level x p os rem idx = (rem', idx', lv, ts) \<Longrightarrow> 0 \<le> rem \<Longrightarrow> 0 \<le> rem'"
proof (induction os arbitrary: rem idx rem' idx' lv ts)
  case (Cons r rs)
  from Cons.prems(1) show ?case
    by (cases rule: match_level_Cons) (use Cons in \<open>auto simp: float_signs\<close>)
qed simp

lemma match_level_exhausts:
  "match_level x p os rem idx = (rem', idx', lv, ts) \<Longrightarrow> 0 < rem' \<Longrightarrow> lv = []"
proof (induction os arbitrary: rem idx rem' idx' lv ts)
  case (Cons r rs)
  from Cons.prems(1) show ?case
    by (cases rule: match_level_Cons) (use Cons in auto)
qed simp

text \<open>
  The updated level holds the unfilled tail of the queue, its head possibly reduced; each order
  keeps its id, side and price.
\<close>

lemma match_level_orders:
  "match_level x p os rem idx = (rem', idx', lv, ts) \<Longrightarrow>
   \<forall>r\<in>set os. 0 < o_quantity r \<Longrightarrow>
   (\<exists>k. map o_order_id lv = drop k (map o_order_id os)) \<and>
   (\<forall>y\<in>set lv. \<exists>r\<in>set os. o_order_id y = o_order_id r \<and> o_side y = o_side r \<and>
      o_price y = o_price r \<and> 0 < o_quantity y \<and> (y \<noteq> r \<longrightarrow> y = r\<lparr>o_quantity := o_quantity y\<rparr>))"
proof (induction os arbitrary: rem idx rem' idx' lv ts)
  case (Cons r rs)
  from Cons.prems(1) show ?case
  proof (cases rule: match_level_Cons)
    case stop
    then show ?thesis using Cons.prems(2) by (intro conjI exI [of _ 0]) auto
  next
    case (fill ts')
    from Cons.IH [OF fill(3)] Cons.prems(2) obtain k
      where "map o_order_id lv = drop k (map o_order_id rs)"
      and "\<forall>y\<in>set lv. \<exists>r\<in>set rs. o_order_id y = o_order_id r \<and> o_side y = o_side r \<and>
        o_price y = o_price r \<and> 0 < o_quantity y \<and> (y \<noteq> r \<longrightarrow> y = r\<lparr>o_quantity := o_quantity y\<rparr>)"
      by auto
    then show ?thesis by (intro conjI exI [of _ "Suc k"]) auto
  next
    case partial
    have "0 < fsub (o_quantity r) rem" using partial by (simp add: float_signs)
    then show ?thesis using partial Cons.prems(2)
      by (intro conjI exI [of _ 0]) auto
  qed
qed simp

lemma match_level_ids:
  assumes "match_level x p os rem idx = (rem', idx', lv, ts)" and "\<forall>r\<in>set os. 0 < o_quantity r"
  shows "distinct (map o_order_id os) \<Longrightarrow> distinct (map o_order_id lv)"
    and "o_order_id ` set lv \<subseteq> o_order_id ` set os"
proof -
  obtain k where k: "map o_order_id lv = drop k (map o_order_id os)"
    using match_level_orders [OF assms] by blast
  then show "distinct (map o_order_id os) \<Longrightarrow> distinct (map o_order_id lv)" by simp
  have "set (map o_order_id lv) \<subseteq> set (map o_order_id os)" unfolding k by (rule set_drop_subset)
  then show "o_order_id ` set lv \<subseteq> o_order_id ` set os" by simp
qed

lemma match_level_level_ok:
  assumes "match_level x p os rem idx = (rem', idx', lv, ts)" and "level_ok s p os" and "lv \<noteq> []"
  shows "level_ok s p lv"
proof -
  have q: "\<forall>r\<in>set os. 0 < o_quantity r" using assms(2) by (auto simp: level_ok_def)
  have "distinct (map o_order_id lv)"
    using match_level_ids(1) [OF assms(1) q] assms(2) by (simp add: level_ok_def)
  moreover have "\<forall>y\<in>set lv. o_side y = order_side s \<and> o_price y = Some p \<and> 0 < o_quantity y"
    using match_level_orders [OF assms(1) q] assms(2) by (fastforce simp: level_ok_def)
  ultimately show ?thesis using assms(3) by (simp add: level_ok_def)
qed

lemma queue_lookup:
  assumes "queue_in_index os idx"
  shows "dget idx i = (case in_queue os i of Some y \<Rightarrow> Some y
    | None \<Rightarrow> if i \<in> o_order_id ` set os then None else dget idx i)"
proof (cases "in_queue os i")
  case None
  then have "i \<notin> o_order_id ` set os" using in_queue_None by blast
  with None show ?thesis by (simp only: option.case if_False)
next
  case (Some y)
  have "dget idx i = Some y"
    using in_queue_Some [OF Some] assms unfolding queue_in_index_def by metis
  with Some show ?thesis by simp
qed

lemma match_level_index:
  "match_level x p os rem idx = (rem', idx', lv, ts) \<Longrightarrow> queue_in_index os idx \<Longrightarrow>
   distinct (map o_order_id os) \<Longrightarrow> dict_ok idx \<Longrightarrow>
   dict_ok idx' \<and> (\<forall>i. dget idx' i = (case in_queue lv i of Some y \<Rightarrow> Some y
      | None \<Rightarrow> if i \<in> o_order_id ` set os then None else dget idx i))"
proof (induction os arbitrary: rem idx rem' idx' lv ts)
  case Nil
  then show ?case by simp
next
  case (Cons r rs)
  have rs: "queue_in_index rs idx" and nr: "o_order_id r \<notin> o_order_id ` set rs"
    using Cons.prems(2,3) by (auto simp: queue_in_index_def)
  from Cons.prems(1) show ?case
  proof (cases rule: match_level_Cons)
    case stop
    show ?thesis
      unfolding stop(3,4) using queue_lookup [OF Cons.prems(2)] Cons.prems(4) by blast
  next
    case (fill ts')
    have "queue_in_index rs (dpop (o_order_id r) idx)"
      using rs nr unfolding queue_in_index_def pd.look_drop by (metis image_eqI)
    moreover have "distinct (map o_order_id rs)" using Cons.prems(3) by simp
    moreover have "dict_ok (dpop (o_order_id r) idx)" using Cons.prems(4) by (rule pd.ok_drop)
    ultimately have d: "dict_ok idx'" and i: "\<And>i. dget idx' i = (case in_queue lv i of Some y \<Rightarrow> Some y
        | None \<Rightarrow> if i \<in> o_order_id ` set rs then None else dget (dpop (o_order_id r) idx) i)"
      using Cons.IH [OF fill(3)] by blast+
    have "dget idx' j = (case in_queue lv j of Some y \<Rightarrow> Some y
      | None \<Rightarrow> if j \<in> o_order_id ` set (r # rs) then None else dget idx j)" for j
      unfolding i [of j] pd.look_drop by (cases "in_queue lv j") auto
    with d show ?thesis by blast
  next
    case partial
    let ?u = "r\<lparr>o_quantity := fsub (o_quantity r) rem\<rparr>"
    have "dget idx' j = (case in_queue lv j of Some y \<Rightarrow> Some y
      | None \<Rightarrow> if j \<in> o_order_id ` set (r # rs) then None else dget idx j)" for j
    proof (cases "j = o_order_id r")
      case True
      then show ?thesis by (simp add: partial(4,5) dict_simps)
    next
      case False
      then show ?thesis
        using queue_lookup [OF rs, of j] by (cases "in_queue rs j") (auto simp: partial(4,5) dict_simps)
    qed
    moreover have "dict_ok idx'" unfolding partial(4) using Cons.prems(4) by (rule pd.ok_put)
    ultimately show ?thesis by blast
  qed
qed

text \<open>The trades of a level: at its price, positive, in queue order, never beyond an order's size.\<close>

lemma match_level_trades:
  "match_level x p os rem idx = (rem', idx', lv, ts) \<Longrightarrow> \<forall>r\<in>set os. 0 < o_quantity r \<Longrightarrow>
   (\<forall>t\<in>set ts. t_price t = p \<and> 0 < t_quantity t \<and> t_side t = o_side x \<and>
      t_aggressor_order_id t = o_order_id x \<and> t_aggressor_agent_id t = o_agent_id x \<and>
      0 \<le> t_aggressor_remaining t \<and> 0 \<le> t_resting_remaining t) \<and>
   (\<exists>n. map t_resting_order_id ts = take n (map o_order_id os)) \<and>
   (\<exists>n. list_all2 (\<lambda>t r. t_resting_order_id t = o_order_id r \<and> t_resting_agent_id t = o_agent_id r \<and>
      t_quantity t \<le> o_quantity r) ts (take n os))"
proof (induction os arbitrary: rem idx rem' idx' lv ts)
  case (Cons r rs)
  have mk: "t_price (mk_trade x r p q m) = p" "t_quantity (mk_trade x r p q m) = q"
    "t_side (mk_trade x r p q m) = o_side x" "t_resting_order_id (mk_trade x r p q m) = o_order_id r"
    "t_aggressor_order_id (mk_trade x r p q m) = o_order_id x"
    "t_aggressor_agent_id (mk_trade x r p q m) = o_agent_id x"
    "t_resting_agent_id (mk_trade x r p q m) = o_agent_id r"
    "t_aggressor_remaining (mk_trade x r p q m) = m"
    "t_resting_remaining (mk_trade x r p q m) = fsub (o_quantity r) q" for q m
    by (simp_all add: mk_trade_def)
  from Cons.prems(1) show ?case
  proof (cases rule: match_level_Cons)
    case stop
    then show ?thesis by (auto intro: exI [of _ 0])
  next
    case (fill ts')
    from Cons.IH [OF fill(3)] Cons.prems(2) obtain n m where
      t: "\<forall>t\<in>set ts'. t_price t = p \<and> 0 < t_quantity t \<and> t_side t = o_side x \<and>
        t_aggressor_order_id t = o_order_id x \<and> t_aggressor_agent_id t = o_agent_id x \<and>
        0 \<le> t_aggressor_remaining t \<and> 0 \<le> t_resting_remaining t"
      and n: "map t_resting_order_id ts' = take n (map o_order_id rs)"
      and m: "list_all2 (\<lambda>t r. t_resting_order_id t = o_order_id r \<and> t_resting_agent_id t = o_agent_id r \<and>
        t_quantity t \<le> o_quantity r) ts' (take m rs)"
      by auto
    show ?thesis
      using t n m fill(1,2,4) Cons.prems(2)
      by (intro conjI exI [of _ "Suc n"] exI [of _ "Suc m"]) (auto simp: mk float_signs)
  next
    case partial
    then show ?thesis
      by (intro conjI exI [of _ 1]) (auto simp: mk float_signs)
  qed
qed simp

text \<open>On the grid nothing is lost: what the aggressor gave away is what the level lost.\<close>

lemma match_level_conserves:
  "match_level x p os rem idx = (rem', idx', lv, ts) \<Longrightarrow>
   \<forall>r\<in>set os. 0 < o_quantity r \<and> on_grid k (o_quantity r) \<and> o_quantity r \<le> 2 ^ 53 * pow2 k \<Longrightarrow>
   on_grid k rem \<Longrightarrow> 0 \<le> rem \<Longrightarrow> rem \<le> 2 ^ 53 * pow2 k \<Longrightarrow>
   sum_list (map t_quantity ts) + rem' = rem \<and>
   sum_list (map o_quantity lv) + sum_list (map t_quantity ts) = sum_list (map o_quantity os) \<and>
   on_grid k rem' \<and> (\<forall>y\<in>set lv. on_grid k (o_quantity y) \<and> o_quantity y \<le> 2 ^ 53 * pow2 k) \<and>
   (\<forall>t\<in>set ts. on_grid k (t_quantity t))"
proof (induction os arbitrary: rem idx rem' idx' lv ts)
  case (Cons r rs)
  have mk: "t_quantity (mk_trade x r p q m) = q" for q m
    by (simp add: mk_trade_def)
  from Cons.prems(1) show ?case
  proof (cases rule: match_level_Cons)
    case stop
    then show ?thesis using Cons.prems by auto
  next
    case (fill ts')
    have e: "fsub rem (o_quantity r) = rem - o_quantity r"
      using fill(2) Cons.prems by (intro fsub_grid [of k]) auto
    have g: "on_grid k (rem - o_quantity r)" using Cons.prems by (auto intro: on_grid_diff)
    have "rem - o_quantity r \<le> 2 ^ 53 * pow2 k" using Cons.prems by (auto intro: order_trans [rotated])
    with Cons.IH [OF fill(3)] g fill(2) Cons.prems(2) show ?thesis
      by (auto simp: e mk fill(4))
  next
    case partial
    have e: "fsub (o_quantity r) rem = o_quantity r - rem"
      using partial(1,2) Cons.prems by (intro fsub_grid [of k]) auto
    have "on_grid k (o_quantity r - rem)" using Cons.prems by (auto intro: on_grid_diff)
    moreover have "o_quantity r - rem \<le> 2 ^ 53 * pow2 k" using partial(1) Cons.prems by (auto intro: order_trans [rotated])
    ultimately show ?thesis using partial Cons.prems by (auto simp: e mk)
  qed
qed simp

section \<open>The sweep over prices\<close>

definition opp_side :: "order \<Rightarrow> book_side" where
  "opp_side x = opposite (side_of_order (o_side x))"

lemma opposite_neq [simp]: "opposite s \<noteq> s" "s \<noteq> opposite s"
  by (cases s; simp add: opposite_def)+

text \<open>The three ways the head of the price list is treated.\<close>

lemma match_prices_Cons:
  assumes "match_prices x limit (p # ps) rem b = (rem', b', ts)"
  obtains (skip) "beyond_limit (o_side x) limit p" "match_prices x limit ps rem b = (rem', b', ts)"
  | (finished) "\<not> beyond_limit (o_side x) limit p" "rem \<le> 0" "rem' = rem" "b' = b" "ts = []"
  | (sweep) rem1 idx lv ts1 ts2 where "\<not> beyond_limit (o_side x) limit p" "0 < rem"
      "match_level x p (resting b (opp_side x) p) rem (orders b) = (rem1, idx, lv, ts1)"
      "match_prices x limit ps rem1 (store_level (opp_side x) p lv (b\<lparr>orders := idx\<rparr>)) = (rem', b', ts2)"
      "ts = ts1 @ ts2"
proof (cases "beyond_limit (o_side x) limit p")
  case True
  then show ?thesis using assms by (intro skip) auto
next
  case nb: False
  show ?thesis
  proof (cases "rem \<le> 0")
    case True
    then have "(rem', b', ts) = (rem, b, [])" using assms nb by simp
    then show ?thesis using nb True by (intro finished) auto
  next
    case False
    obtain rem1 idx lv ts1 where l:
      "match_level x p (resting b (opp_side x) p) rem (orders b) = (rem1, idx, lv, ts1)"
      by (metis prod_cases4)
    obtain r2 b2 ts2 where m:
      "match_prices x limit ps rem1 (store_level (opp_side x) p lv (b\<lparr>orders := idx\<rparr>)) = (r2, b2, ts2)"
      by (metis prod_cases3)
    have "(rem', b', ts) = (r2, b2, ts1 @ ts2)"
      using assms nb False l m by (simp add: Let_def opp_side_def [symmetric])
    then show ?thesis using nb False l m by (intro sweep [of rem1 idx lv ts1 ts2]) auto
  qed
qed

lemma queue_in_index_resting: "book_ok b \<Longrightarrow> queue_in_index (resting b s p) (orders b)"
  by (simp add: queue_in_index_def book_okD(3))

lemma positive_resting: "book_ok b \<Longrightarrow> \<forall>r\<in>set (resting b s p). 0 < o_quantity r"
  using resting_order(3) by blast

lemma store_level_levels:
  "dget (levels_of (store_level s p lv b) s') p' =
     (if s' = s \<and> p' = p then (if lv = [] then None else Some lv) else dget (levels_of b s') p')"
  by (simp add: store_level_def dict_simps)

lemma store_level_replaces:
  assumes ok: "book_ok b"
    and m: "match_level x p (resting b s p) rem (orders b) = (rem', idx, lv, ts)"
  shows "replaces s p lv b (store_level s p lv (b\<lparr>orders := idx\<rparr>))"
proof -
  have d: "dicts_ok b" using ok by (rule book_okD(1))
  have ix: "dict_ok idx \<and> (\<forall>i. dget idx i = (case in_queue lv i of Some y \<Rightarrow> Some y
      | None \<Rightarrow> if i \<in> o_order_id ` set (resting b s p) then None else dget (orders b) i))"
    using m queue_in_index_resting [OF ok] resting_distinct [OF ok] d
    by (intro match_level_index) (auto intro: inv_intros)
  have o: "orders (store_level s p lv (b\<lparr>orders := idx\<rparr>)) = idx"
    by (simp add: store_level_def)
  have w: "dget (level_owners (store_level s p lv (b\<lparr>orders := idx\<rparr>))) k =
      (if k = (s, p) then (if lv = [] then None else Some (level_owner lv)) else dget (level_owners b) k)" for k
    by (simp add: store_level_def dict_simps owners_recompute)
  have dk: "dicts_ok (store_level s p lv (b\<lparr>orders := idx\<rparr>))"
    using d ix by (auto simp: store_level_def intro!: inv_intros)
  show ?thesis
    unfolding replaces_def o using ix w dk by (simp add: store_level_levels)
qed

lemma store_level_ok:
  assumes ok: "book_ok b"
    and m: "match_level x p (resting b s p) rem (orders b) = (rem', idx, lv, ts)"
  shows "book_ok (store_level s p lv (b\<lparr>orders := idx\<rparr>))"
proof (rule replaces_ok [OF ok store_level_replaces [OF ok m]])
  show "level_ok s p lv" if "lv \<noteq> []"
  proof (cases "resting b s p = []")
    case True
    with m that show ?thesis by simp
  next
    case False
    show ?thesis using match_level_level_ok [OF m resting_level_ok [OF ok False] that] .
  qed
  show "dget (orders b) (o_order_id y) = None \<or> o_order_id y \<in> o_order_id ` set (resting b s p)"
    if "y \<in> set lv" for y
    using match_level_ids(2) [OF m positive_resting [OF ok]] that by blast
qed

lemma match_prices_ok: "match_prices x limit ps rem b = (rem', b', ts) \<Longrightarrow> book_ok b \<Longrightarrow> book_ok b'"
proof (induction ps arbitrary: rem b ts)
  case (Cons p ps)
  from Cons.prems(1) show ?case
  proof (cases rule: match_prices_Cons)
    case (sweep rem1 idx lv ts1 ts2)
    show ?thesis by (rule Cons.IH [OF sweep(4) store_level_ok [OF Cons.prems(2) sweep(3)]])
  qed (use Cons in auto)
qed simp

lemma match_prices_rem_nonneg:
  "match_prices x limit ps rem b = (rem', b', ts) \<Longrightarrow> 0 \<le> rem \<Longrightarrow> 0 \<le> rem'"
proof (induction ps arbitrary: rem b ts)
  case (Cons p ps)
  from Cons.prems(1) show ?case
  proof (cases rule: match_prices_Cons)
    case (sweep rem1 idx lv ts1 ts2)
    show ?thesis by (rule Cons.IH [OF sweep(4) match_level_rem_nonneg [OF sweep(3)]]) (use Cons.prems in simp)
  qed (use Cons in auto)
qed simp

text \<open>A sweep touches only the opposite side, adds no price there, and never trades past the limit.\<close>

lemma match_prices_frame:
  "match_prices x limit ps rem b = (rem', b', ts) \<Longrightarrow>
   levels_of b' (side_of_order (o_side x)) = levels_of b (side_of_order (o_side x)) \<and>
   (\<forall>p. dget (levels_of b' (opp_side x)) p \<noteq> None \<longrightarrow> dget (levels_of b (opp_side x)) p \<noteq> None)"
proof (induction ps arbitrary: rem b ts)
  case (Cons p ps)
  from Cons.prems(1) show ?case
  proof (cases rule: match_prices_Cons)
    case (sweep rem1 idx lv ts1 ts2)
    let ?b = "store_level (opp_side x) p lv (b\<lparr>orders := idx\<rparr>)"
    have "levels_of ?b (side_of_order (o_side x)) = levels_of b (side_of_order (o_side x))"
      by (simp add: store_level_def opp_side_def)
    moreover have "dget (levels_of b (opp_side x)) p' \<noteq> None"
      if "dget (levels_of ?b (opp_side x)) p' \<noteq> None" for p'
    proof (cases "p' = p")
      case True
      with that have "lv \<noteq> []" by (auto simp: store_level_levels)
      with sweep(3) have "resting b (opp_side x) p \<noteq> []" by auto
      with True show ?thesis by (auto simp: resting_def dget_or_def split: option.splits)
    next
      case False
      with that show ?thesis by (simp add: store_level_levels)
    qed
    ultimately show ?thesis using Cons.IH [OF sweep(4)] by metis
  qed (use Cons in auto)
qed simp

lemma match_prices_exhausts:
  "match_prices x limit ps rem b = (rem', b', ts) \<Longrightarrow> 0 < rem' \<Longrightarrow> p \<in> set ps \<Longrightarrow>
   \<not> beyond_limit (o_side x) limit p \<Longrightarrow> dget (levels_of b' (opp_side x)) p = None"
proof (induction ps arbitrary: rem b ts)
  case (Cons p' ps)
  from Cons.prems(1) show ?case
  proof (cases rule: match_prices_Cons)
    case skip
    then show ?thesis using Cons by auto
  next
    case finished
    then show ?thesis using Cons.prems(2) by simp
  next
    case (sweep rem1 idx lv ts1 ts2)
    show ?thesis
    proof (cases "p \<in> set ps")
      case True
      then show ?thesis using Cons.IH [OF sweep(4)] Cons.prems by blast
    next
      case False
      then have p: "p' = p" using Cons.prems(3) by simp
      have r1: "0 < rem1"
      proof (rule ccontr)
        assume n: "\<not> 0 < rem1"
        have "match_prices x limit qs r c = (r', c', us) \<Longrightarrow> r \<le> 0 \<Longrightarrow> r' = r" for qs r c r' c' us
        proof (induction qs arbitrary: c us)
          case (Cons q qs)
          from Cons.prems(1) show ?case
            by (cases rule: match_prices_Cons) (use Cons in auto)
        qed simp
        from this [OF sweep(4)] n Cons.prems(2) show False by simp
      qed
      then have "lv = []" by (rule match_level_exhausts [OF sweep(3)])
      then have "dget (levels_of (store_level (opp_side x) p' lv (b\<lparr>orders := idx\<rparr>)) (opp_side x)) p = None"
        by (simp add: store_level_levels p)
      then show ?thesis using match_prices_frame [OF sweep(4)] by blast
    qed
  qed
qed simp

lemma match_prices_trades:
  "match_prices x limit ps rem b = (rem', b', ts) \<Longrightarrow> book_ok b \<Longrightarrow>
   \<forall>t\<in>set ts. t_price t \<in> set ps \<and> \<not> beyond_limit (o_side x) limit (t_price t) \<and> 0 < t_quantity t \<and>
     t_side t = o_side x \<and> t_aggressor_order_id t = o_order_id x \<and> t_aggressor_agent_id t = o_agent_id x \<and>
     0 \<le> t_aggressor_remaining t \<and> 0 \<le> t_resting_remaining t"
proof (induction ps arbitrary: rem b ts)
  case (Cons p ps)
  from Cons.prems(1) show ?case
  proof (cases rule: match_prices_Cons)
    case skip
    then show ?thesis using Cons by auto
  next
    case (sweep rem1 idx lv ts1 ts2)
    have "\<forall>t\<in>set ts1. t_price t = p \<and> 0 < t_quantity t \<and> t_side t = o_side x \<and>
      t_aggressor_order_id t = o_order_id x \<and> t_aggressor_agent_id t = o_agent_id x \<and>
      0 \<le> t_aggressor_remaining t \<and> 0 \<le> t_resting_remaining t"
      using match_level_trades [OF sweep(3) positive_resting [OF Cons.prems(2)]] by blast
    then show ?thesis
      using Cons.IH [OF sweep(4) store_level_ok [OF Cons.prems(2) sweep(3)]] sweep(1) by (auto simp: sweep(5))
  qed simp
qed simp

text \<open>Prices are visited in order, so trades come out in price order.\<close>

lemma match_prices_sorted:
  "match_prices x limit ps rem b = (rem', b', ts) \<Longrightarrow> book_ok b \<Longrightarrow> sorted_wrt R ps \<Longrightarrow>
   (\<And>p. R p p) \<Longrightarrow> sorted_wrt R (map t_price ts)"
proof (induction ps arbitrary: rem b ts)
  case (Cons p ps)
  from Cons.prems(1) show ?case
  proof (cases rule: match_prices_Cons)
    case skip
    then show ?thesis using Cons by auto
  next
    case (sweep rem1 idx lv ts1 ts2)
    have ok: "book_ok (store_level (opp_side x) p lv (b\<lparr>orders := idx\<rparr>))"
      by (rule store_level_ok [OF Cons.prems(2) sweep(3)])
    have s1: "\<forall>t\<in>set ts1. t_price t = p"
      using match_level_trades [OF sweep(3) positive_resting [OF Cons.prems(2)]] by blast
    then have e1: "map t_price ts1 = replicate (length ts1) p"
      by (simp add: map_replicate_const [symmetric] cong: map_cong)
    have "sorted_wrt R (map t_price ts1)"
      unfolding e1 using Cons.prems(4) by (induction "length ts1") (auto simp: sorted_wrt_iff_nth_less)
    moreover have "sorted_wrt R (map t_price ts2)"
      using Cons.IH [OF sweep(4) ok] Cons.prems(3,4) by simp
    moreover have "\<forall>t\<in>set ts2. R p (t_price t)"
      using match_prices_trades [OF sweep(4) ok] Cons.prems(3) by auto
    ultimately show ?thesis using s1 by (auto simp: sweep(5) sorted_wrt_append)
  qed simp
qed simp

end
