(* ===== verification/BookReplay.thy ===== *)
theory BookReplay
  imports OrderMatching
begin

text \<open>
  What the book's listener is told. \<open>book_view\<close> is the abstract book: which order rests, whose it
  is, on which side, at which price and for how much. Replaying the mutations an operation emits
  (and the trades a match returns) on the abstract book before gives the abstract book after. The
  last section holds the priority and conservation properties of matching.
\<close>

section \<open>The abstract book\<close>

record view_entry =
  ve_agent :: string
  ve_side :: side
  ve_price :: "rat option"
  ve_quantity :: rat
  ve_owner :: string

type_synonym book_map = "string \<Rightarrow> view_entry option"

definition view_of :: "order \<Rightarrow> view_entry" where
  "view_of x = \<lparr>ve_agent = o_agent_id x, ve_side = o_side x, ve_price = o_price x,
     ve_quantity = o_quantity x, ve_owner = o_owner x\<rparr>"

definition book_view :: "order_book \<Rightarrow> book_map" where
  "book_view b i = map_option view_of (dget (orders b) i)"

lemma view_of_eq_quantity [simp]: "view_of (r\<lparr>o_quantity := q\<rparr>) = (view_of r)\<lparr>ve_quantity := q\<rparr>"
  by (simp add: view_of_def)

definition index_view :: "(string, order) dict \<Rightarrow> book_map" where
  "index_view d i = map_option view_of (dget d i)"

lemma index_view_simps [simp]:
  "index_view (dset i x d) = (index_view d)(i := Some (view_of x))"
  "index_view (dpop i d) = (index_view d)(i := None)"
  "index_view (dpop_all ks d) = (\<lambda>i. if i \<in> set ks then None else index_view d i)"
  by (auto simp: index_view_def fun_eq_iff dict_simps)

lemma book_view_index: "book_view b = index_view (orders b)"
  by (simp add: book_view_def index_view_def fun_eq_iff)

lemma book_view_recalculate [simp]: "book_view (recalculate b) = book_view b"
  by (simp add: book_view_index)

section \<open>Mutations explain the book\<close>

definition apply_mutation :: "book_map \<Rightarrow> book_mutation \<Rightarrow> book_map" where
  "apply_mutation m u = (case (mut_before u, mut_after u) of
      (_, Some a) \<Rightarrow> m(o_order_id a := Some (view_of a))
    | (Some b, None) \<Rightarrow> m(o_order_id b := None)
    | _ \<Rightarrow> m)"

lemma apply_mutation_simps [simp]:
  "apply_mutation m (mut_add a) = m(o_order_id a := Some (view_of a))"
  "apply_mutation m (mut_modify b a pr) = m(o_order_id a := Some (view_of a))"
  "apply_mutation m (mut_cancel b) = m(o_order_id b := None)"
  by (simp_all add: apply_mutation_def mut_add_def mut_modify_def mut_cancel_def)

lemma apply_cancels:
  "foldl apply_mutation m (map mut_cancel xs) = (\<lambda>i. if i \<in> o_order_id ` set xs then None else m i)"
  by (induction xs arbitrary: m) (auto simp: fun_eq_iff)

definition explains :: "order_book \<Rightarrow> book_mutation list \<Rightarrow> order_book \<Rightarrow> bool" where
  "explains b ms b' = (book_view b' = foldl apply_mutation (book_view b) ms)"

lemma remove_level_explained: "remove_level s p b = (b', ms) \<Longrightarrow> explains b ms b'"
  by (auto simp: remove_level_def Let_def explains_def apply_cancels book_view_index fun_eq_iff)

lemma cancel_order_explained:
  assumes "book_ok b" and "cancel_order oid b = (b', ms, r)"
  shows "explains b ms b'"
proof (cases "dget (orders b) oid")
  case None
  then show ?thesis using assms by (simp add: cancel_order_def explains_def)
next
  case (Some x)
  with indexed_order_rests [OF assms(1) Some] obtain p where p: "o_price x = Some p" by blast
  have "o_order_id x = oid" using book_okD(4) [OF assms(1) Some] by simp
  with assms(2) Some p show ?thesis
    by (auto simp: cancel_order_def explains_def Let_def book_view_index split: if_splits)
qed

lemma update_level_explained:
  assumes "book_ok b" and u: "update_level s p sz ow b = (b', ms)"
  shows "explains b ms b'"
proof (cases "sz \<le> 0")
  case True
  then show ?thesis using u by (auto simp: update_level_def intro: remove_level_explained)
next
  case False
  let ?e = "resting b s p" and ?n = "level_order s p sz ow"
  let ?keep = "filter (\<lambda>x. o_order_id x \<noteq> o_order_id ?n) ?e"
  have v: "index_view (orders b') = (\<lambda>i. if i \<in> o_order_id ` set ?e then None else index_view (orders b) i)(o_order_id ?n := Some (view_of ?n))"
    using u False by (auto simp: update_level_def Let_def book_view_index fun_eq_iff)
  have ids: "o_order_id ` set ?keep = o_order_id ` set ?e - {o_order_id ?n}" by auto
  show ?thesis
  proof (cases "find (\<lambda>x. o_order_id x = o_order_id ?n) ?e")
    case None
    then have "ms = map mut_cancel ?keep @ [mut_add ?n]"
      using u False by (auto simp: update_level_def Let_def)
    then show ?thesis by (auto simp: explains_def apply_cancels book_view_index v ids fun_eq_iff)
  next
    case (Some r)
    then have r: "r \<in> set ?e" "o_order_id r = o_order_id ?n" by (auto simp: find_Some_iff)
    have m: "ms = map mut_cancel ?keep @ (if r \<noteq> ?n then [mut_modify r ?n True] else [])"
      using u False Some by (auto simp: update_level_def Let_def)
    have "r = ?n \<Longrightarrow> index_view (orders b) (o_order_id ?n) = Some (view_of ?n)"
      using book_okD(3) [OF assms(1) r(1)] r(2) by (simp add: index_view_def)
    then show ?thesis by (auto simp: m explains_def apply_cancels book_view_index v ids fun_eq_iff)
  qed
qed

lemma add_limit_order_explained: "add_limit_order x b = Inr (b', ms) \<Longrightarrow> explains b ms b'"
  by (auto simp: add_limit_order_def explains_def Let_def book_view_index split: option.splits if_splits)

lemma modify_order_explained:
  assumes "book_ok b" and "modify_order r b = Inr (b', ms, res)"
  shows "explains b ms b'"
proof -
  have "o_order_id e = o_order_id r" if "dget (orders b) (o_order_id r) = Some e" for e
    using book_okD(4) [OF assms(1) that] by simp
  with assms(2) show ?thesis
    by (auto simp: modify_order_def explains_def Let_def modify_in_place_def modify_move_def
        book_view_index split: option.splits if_splits)
qed

lemma update_agent_level_explained:
  assumes "book_ok b" and u: "update_agent_level s p sz aid ow oid_arg ts sid snm sfm b = (b', ms)"
  shows "explains b ms b'"
proof (cases "sz \<le> 0")
  case True
  then show ?thesis
    using u cancel_order_explained [OF assms(1)] by (auto simp: update_agent_level_def Let_def split: prod.splits)
next
  case False
  let ?oid = "agent_oid s p aid oid_arg"
  let ?n = "agent_order s p sz aid ow ?oid ts sid snm sfm"
  let ?same = "filter (\<lambda>x. o_order_id x = ?oid) (resting b s p)"
  have v: "index_view (orders b') = (index_view (orders b))(?oid := Some (view_of ?n))"
    using u False by (auto simp: update_agent_level_def Let_def agent_oid_def [symmetric] book_view_index fun_eq_iff)
  have m: "ms = (case (if ?same = [] then None else Some (last ?same)) of
              None \<Rightarrow> [mut_add ?n]
            | Some r \<Rightarrow> if r \<noteq> ?n then [mut_modify r ?n True] else [])"
    using u False by (auto simp: update_agent_level_def Let_def agent_oid_def [symmetric])
  have "last ?same = ?n \<Longrightarrow> index_view (orders b) ?oid = Some (view_of ?n)" if "?same \<noteq> []"
  proof -
    assume "last ?same = ?n"
    with last_in_set [OF that] have "?n \<in> set (resting b s p)" by simp
    then show ?thesis using book_okD(3) [OF assms(1)] by (fastforce simp: index_view_def)
  qed
  then show ?thesis by (auto simp: m explains_def book_view_index v fun_eq_iff)
qed

lemma ensure_level_minimum_explained:
  "book_ok b \<Longrightarrow> ensure_level_minimum s p mn aid ow b = (b', ms) \<Longrightarrow> explains b ms b'"
  unfolding ensure_level_minimum_def Let_def by (rule update_agent_level_explained)

section \<open>Trades explain the book\<close>

definition apply_trade :: "book_map \<Rightarrow> trade \<Rightarrow> book_map" where
  "apply_trade m t =
     (if t_resting_remaining t = 0 then m(t_resting_order_id t := None)
      else m(t_resting_order_id t := map_option (ve_quantity_update (\<lambda>_. t_resting_remaining t)) (m (t_resting_order_id t))))"

lemma apply_trade_mk:
  "apply_trade m (mk_trade x r p q rem) =
     (if o_quantity r = q then m(o_order_id r := None)
      else m(o_order_id r := map_option (ve_quantity_update (\<lambda>_. fsub (o_quantity r) q)) (m (o_order_id r))))"
  by (simp add: apply_trade_def mk_trade_def float_signs)

lemma match_level_explained:
  "match_level x p os rem idx = (rem', idx', lv, ts) \<Longrightarrow> queue_in_index os idx \<Longrightarrow>
   distinct (map o_order_id os) \<Longrightarrow> index_view idx' = foldl apply_trade (index_view idx) ts"
proof (induction os arbitrary: rem idx rem' idx' lv ts)
  case (Cons r rs)
  have look: "index_view idx (o_order_id r) = Some (view_of r)"
    using Cons.prems(2) by (simp add: index_view_def queue_in_index_def)
  from Cons.prems(1) show ?case
  proof (cases rule: match_level_Cons)
    case (fill ts')
    have "queue_in_index rs (dpop (o_order_id r) idx)"
      unfolding queue_in_index_def
    proof
      fix y assume y: "y \<in> set rs"
      then have "o_order_id y \<noteq> o_order_id r" using Cons.prems(3) by (metis distinct.simps(2) imageI list.simps(9) list.set_map)
      then show "dget (dpop (o_order_id r) idx) (o_order_id y) = Some y"
        using y Cons.prems(2) by (simp add: queue_in_index_def dict_simps)
    qed
    then have "index_view idx' = foldl apply_trade (index_view (dpop (o_order_id r) idx)) ts'"
      using Cons.prems(3) by (intro Cons.IH [OF fill(3)]) auto
    then show ?thesis by (simp add: fill(4) apply_trade_mk)
  next
    case partial
    then show ?thesis by (simp add: apply_trade_mk look)
  qed simp
qed simp

lemma store_level_orders [simp]: "orders (store_level s p lv b) = orders b"
  by (simp add: store_level_def)

lemma match_prices_explained:
  "match_prices x limit ps rem b = (rem', b', ts) \<Longrightarrow> book_ok b \<Longrightarrow>
   book_view b' = foldl apply_trade (book_view b) ts"
proof (induction ps arbitrary: rem b ts)
  case (Cons p ps)
  from Cons.prems(1) show ?case
  proof (cases rule: match_prices_Cons)
    case (sweep rem1 idx lv ts1 ts2)
    have 1: "index_view idx = foldl apply_trade (index_view (orders b)) ts1"
      by (rule match_level_explained [OF sweep(3) queue_in_index_resting resting_distinct])
        (use Cons.prems in auto)
    have "book_view b' = foldl apply_trade (book_view (store_level (opp_side x) p lv (b\<lparr>orders := idx\<rparr>))) ts2"
      by (rule Cons.IH [OF sweep(4) store_level_ok [OF Cons.prems(2) sweep(3)]])
    then show ?thesis by (simp add: book_view_index 1 sweep(5))
  qed (use Cons in auto)
qed simp

lemma match_order_ok: "book_ok b \<Longrightarrow> match_order x limit b = (b', ts) \<Longrightarrow> book_ok b'"
  by (auto simp: match_order_def split: prod.splits dest: match_prices_ok)

lemma match_order_explained:
  assumes "book_ok b" and "match_order x limit b = (b', ts)"
  shows "book_view b' = foldl apply_trade (book_view b) ts"
  using assms by (auto simp: match_order_def split: prod.splits dest: match_prices_explained)

section \<open>Priority\<close>

text \<open>The resting orders in the order in which an aggressor may hit them.\<close>

definition priority_queue :: "order \<Rightarrow> rat option \<Rightarrow> rat list \<Rightarrow> order_book \<Rightarrow> (rat \<times> string) list" where
  "priority_queue x limit ps b =
     concat (map (\<lambda>p. map (\<lambda>r. (p, o_order_id r)) (resting b (opp_side x) p))
       (filter (\<lambda>p. \<not> beyond_limit (o_side x) limit p) ps))"

definition trade_key :: "trade \<Rightarrow> rat \<times> string" where
  "trade_key t = (t_price t, t_resting_order_id t)"

lemma trade_key_mk [simp]: "trade_key (mk_trade x r p q rem) = (p, o_order_id r)"
  by (simp add: trade_key_def mk_trade_def)

lemma match_level_priority:
  "match_level x p os rem idx = (rem', idx', lv, ts) \<Longrightarrow>
   (\<exists>n. map trade_key ts = take n (map (\<lambda>r. (p, o_order_id r)) os)) \<and>
   (0 < rem' \<longrightarrow> map trade_key ts = map (\<lambda>r. (p, o_order_id r)) os)"
proof (induction os arbitrary: rem idx rem' idx' lv ts)
  case (Cons r rs)
  from Cons.prems show ?case
  proof (cases rule: match_level_Cons)
    case stop
    then show ?thesis by (auto intro: exI [of _ 0])
  next
    case (fill ts')
    from Cons.IH [OF fill(3)] obtain n where
      "map trade_key ts' = take n (map (\<lambda>r. (p, o_order_id r)) rs)"
      "0 < rem' \<longrightarrow> map trade_key ts' = map (\<lambda>r. (p, o_order_id r)) rs" by blast
    then show ?thesis by (intro conjI exI [of _ "Suc n"]) (auto simp: fill(4))
  next
    case partial
    then show ?thesis by (intro conjI exI [of _ 1]) auto
  qed
qed simp

lemma match_prices_stop: "rem \<le> 0 \<Longrightarrow> match_prices x limit ps rem b = (rem, b, [])"
  by (induction ps) auto

lemma resting_store_level:
  "resting (store_level s p lv b) s' p' = (if s' = s \<and> p' = p then lv else resting b s' p')"
  by (simp add: resting_def dget_or_def store_level_levels)

lemma match_prices_priority:
  "match_prices x limit ps rem b = (rem', b', ts) \<Longrightarrow> distinct ps \<Longrightarrow>
   \<exists>n. map trade_key ts = take n (priority_queue x limit ps b)"
proof (induction ps arbitrary: rem b ts)
  case (Cons p ps)
  from Cons.prems(1) show ?case
  proof (cases rule: match_prices_Cons)
    case skip
    then show ?thesis using Cons by (auto simp: priority_queue_def)
  next
    case finished
    then show ?thesis by (auto intro: exI [of _ 0])
  next
    case (sweep rem1 idx lv ts1 ts2)
    let ?b = "store_level (opp_side x) p lv (b\<lparr>orders := idx\<rparr>)"
    let ?k = "map (\<lambda>r. (p, o_order_id r)) (resting b (opp_side x) p)"
    have q: "priority_queue x limit (p # ps) b = ?k @ priority_queue x limit ps b"
      using sweep(1) by (simp add: priority_queue_def)
    have same: "priority_queue x limit ps ?b = priority_queue x limit ps b"
      unfolding priority_queue_def using Cons.prems(2)
      by (intro arg_cong [where f = concat] map_cong refl) (auto simp: resting_store_level)
    from match_level_priority [OF sweep(3)] obtain n where
      n: "map trade_key ts1 = take n ?k" and all: "0 < rem1 \<Longrightarrow> map trade_key ts1 = ?k" by blast
    show ?thesis
    proof (cases "0 < rem1")
      case True
      from Cons.IH [OF sweep(4)] Cons.prems(2) obtain m where
        "map trade_key ts2 = take m (priority_queue x limit ps b)" by (auto simp: same)
      with all [OF True] show ?thesis
        by (intro exI [of _ "length ?k + m"]) (simp add: sweep(5) q)
    next
      case False
      then have "ts2 = []" using sweep(4) by (simp add: match_prices_stop)
      with n show ?thesis
        by (intro exI [of _ "min n (length ?k)"]) (simp add: sweep(5) q min_def take_all_iff)
    qed
  qed
qed simp

lemma distinct_match_price_order: "book_ok b \<Longrightarrow> distinct (match_price_order x b)"
  by (auto simp: match_price_order_def book_ok_def dict_ok_def split: side.splits)

lemma set_match_price_order:
  "p \<in> set (match_price_order x b) \<longleftrightarrow> dget (levels_of b (opp_side x)) p \<noteq> None"
  by (cases "o_side x")
    (simp_all add: match_price_order_def opp_side_def side_of_order_def opposite_def levels_of_def dkeys_iff del: set_map)

section \<open>Conservation on the grid\<close>

definition grid_orders :: "int \<Rightarrow> order list \<Rightarrow> bool" where
  "grid_orders k os = (\<forall>r\<in>set os. 0 < o_quantity r \<and> on_grid k (o_quantity r) \<and> o_quantity r \<le> 2 ^ 53 * pow2 k)"

definition grid_book :: "int \<Rightarrow> order_book \<Rightarrow> bool" where
  "grid_book k b = (\<forall>s p. grid_orders k (resting b s p))"

definition queue_total :: "order list \<Rightarrow> rat" where
  "queue_total os = sum_list (map o_quantity os)"

definition traded :: "trade list \<Rightarrow> rat" where
  "traded ts = sum_list (map t_quantity ts)"

lemma traded_simps [simp]: "traded [] = 0" "traded (ts @ us) = traded ts + traded us"
  by (simp_all add: traded_def)

lemma match_prices_conserves:
  "match_prices x limit ps rem b = (rem', b', ts) \<Longrightarrow> grid_book k b \<Longrightarrow> book_ok b \<Longrightarrow>
   on_grid k rem \<Longrightarrow> 0 \<le> rem \<Longrightarrow> rem \<le> 2 ^ 53 * pow2 k \<Longrightarrow> distinct ps \<Longrightarrow>
   traded ts + rem' = rem \<and> on_grid k rem' \<and> grid_book k b' \<and> (\<forall>t\<in>set ts. on_grid k (t_quantity t)) \<and>
   (\<forall>p\<in>set ps. queue_total (resting b' (opp_side x) p) + traded (filter (\<lambda>t. t_price t = p) ts)
      = queue_total (resting b (opp_side x) p)) \<and>
   (\<forall>p. p \<notin> set ps \<longrightarrow> resting b' (opp_side x) p = resting b (opp_side x) p)"
proof (induction ps arbitrary: rem b ts)
  case (Cons p ps)
  from Cons.prems(1) show ?case
  proof (cases rule: match_prices_Cons)
    case skip
    note tr = match_prices_trades [OF skip(2) Cons.prems(3)]
    have "filter (\<lambda>t. t_price t = p) ts = []" using tr skip(1) by (auto simp: filter_empty_conv)
    with Cons.IH [OF skip(2)] Cons.prems show ?thesis by auto
  next
    case finished
    then show ?thesis using Cons.prems by auto
  next
    case (sweep rem1 idx lv ts1 ts2)
    let ?b = "store_level (opp_side x) p lv (b\<lparr>orders := idx\<rparr>)"
    have g: "grid_orders k (resting b s p)" for s p using Cons.prems(2) by (simp add: grid_book_def)
    have ok: "book_ok ?b" by (rule store_level_ok [OF Cons.prems(3) sweep(3)])
    note lev = match_level_conserves [OF sweep(3) g [unfolded grid_orders_def] Cons.prems(4-6)]
    have pos: "\<forall>y\<in>set lv. 0 < o_quantity y"
      using match_level_orders [OF sweep(3) positive_resting [OF Cons.prems(3)]] by blast
    have gb: "grid_book k ?b"
      using g lev pos by (simp add: grid_book_def resting_store_level grid_orders_def)
    have r1: "0 \<le> rem1" by (rule match_level_rem_nonneg [OF sweep(3) Cons.prems(5)])
    have t1: "\<forall>t\<in>set ts1. t_price t = p \<and> 0 < t_quantity t"
      using match_level_trades [OF sweep(3) positive_resting [OF Cons.prems(3)]] by blast
    have "0 \<le> traded ts1" using t1 unfolding traded_def by (intro sum_list_nonneg) auto
    then have r2: "rem1 \<le> 2 ^ 53 * pow2 k" using lev Cons.prems(6) unfolding traded_def by linarith
    note ih = Cons.IH [OF sweep(4) gb ok _ r1 r2]
    have ih: "traded ts2 + rem' = rem1" "on_grid k rem'" "grid_book k b'" "\<forall>t\<in>set ts2. on_grid k (t_quantity t)"
      "\<forall>p\<in>set ps. queue_total (resting b' (opp_side x) p) + traded (filter (\<lambda>t. t_price t = p) ts2)
        = queue_total (resting ?b (opp_side x) p)"
      "\<forall>p. p \<notin> set ps \<longrightarrow> resting b' (opp_side x) p = resting ?b (opp_side x) p"
      using Cons.IH [OF sweep(4) gb ok _ r1 r2] lev Cons.prems(7) by simp_all
    have f1: "filter (\<lambda>t. t_price t = p) ts1 = ts1" using t1 by (simp add: filter_id_conv)
    have f2: "filter (\<lambda>t. t_price t = p) ts2 = []"
      using match_prices_trades [OF sweep(4) ok] Cons.prems(7) by (auto simp: filter_empty_conv)
    have f3: "filter (\<lambda>t. t_price t = q) ts1 = []" if "q \<noteq> p" for q
      using t1 that by (auto simp: filter_empty_conv)
    have tot: "queue_total lv + traded ts1 = queue_total (resting b (opp_side x) p)"
      using lev by (simp add: queue_total_def traded_def)
    show ?thesis
    proof (intro conjI ballI allI impI)
      show "traded ts + rem' = rem" using ih(1) lev by (simp add: sweep(5) traded_def)
      show "queue_total (resting b' (opp_side x) q) + traded (filter (\<lambda>t. t_price t = q) ts)
        = queue_total (resting b (opp_side x) q)" if "q \<in> set (p # ps)" for q
      proof (cases "q = p")
        case True
        then have "resting b' (opp_side x) q = lv" using ih(6) Cons.prems(7) by (simp add: resting_store_level)
        then show ?thesis using tot by (simp add: sweep(5) True f1 f2)
      next
        case False
        then show ?thesis using ih(5) that by (simp add: sweep(5) f3 resting_store_level)
      qed
    qed (use ih lev Cons.prems(7) in \<open>auto simp: sweep(5) resting_store_level\<close>)
  qed
qed simp

end
