(* ===== verification/EventLog.thy ===== *)
theory EventLog
  imports ExchangeSchemas
begin

text \<open>
  The append-only event log and the sources that read it: \<open>backend/app/exchange/event_log.py\<close>,
  \<open>sources.py\<close> and \<open>stream_validation.py\<close>. File access and JSON text are outside: a JSONL file is
  the list of its lines, each blank, undecodable, or decoded to a JSON value. The locale
  \<open>sequenced_log\<close> is what readers of a log rely on; the log below is its instance.
\<close>

section \<open>The log\<close>

record event_log =
  log_events :: "exchange_event list"
  log_ids :: "string set"

definition empty_log :: event_log where
  "empty_log = \<lparr>log_events = [], log_ids = {}\<rparr>"

definition next_sequence :: "event_log \<Rightarrow> int" where
  "next_sequence l = int (length (log_events l)) + 1"

definition append_event :: "exchange_event \<Rightarrow> event_log \<Rightarrow> py_error + (event_log \<times> exchange_event)" where
  "append_event e l =
     (if ev_event_id e \<in> log_ids l
        then Inl (ValueError (''duplicate exchange event id: '' @ ev_event_id e))
      else
        let sq = next_sequence l in
        case ev_sequence e of
          Some n \<Rightarrow>
            if n \<noteq> sq
            then Inl (ValueError (''expected exchange event sequence '' @ int_dec sq @ '', got '' @ int_dec n))
            else Inr (\<lparr>log_events = log_events l @ [e], log_ids = insert (ev_event_id e) (log_ids l)\<rparr>, e)
        | None \<Rightarrow>
            try_bind (post_init (e\<lparr>ev_sequence := Some sq\<rparr>)) (\<lambda>e'.
              Inr (\<lparr>log_events = log_events l @ [e'], log_ids = insert (ev_event_id e') (log_ids l)\<rparr>, e')))"

text \<open>\<open>extend\<close>: the log after the failing append is kept, as the code keeps it.\<close>

fun extend_log :: "exchange_event list \<Rightarrow> event_log \<Rightarrow> event_log \<times> (py_error + exchange_event list)" where
  "extend_log [] l = (l, Inr [])"
| "extend_log (e # es) l =
     (case append_event e l of
        Inl err \<Rightarrow> (l, Inl err)
      | Inr (l', e') \<Rightarrow> (case extend_log es l' of
            (l'', Inl err) \<Rightarrow> (l'', Inl err)
          | (l'', Inr es') \<Rightarrow> (l'', Inr (e' # es'))))"

definition log_tail :: "int \<Rightarrow> event_log \<Rightarrow> py_error + exchange_event list" where
  "log_tail limit l =
     (if limit < 0 then Inl (ValueError ''tail limit must be non-negative'')
      else if limit = 0 then Inr []
      else Inr (drop (length (log_events l) - nat limit) (log_events l)))"

definition replay_events :: "int \<Rightarrow> int option \<Rightarrow> event_log \<Rightarrow> py_error + exchange_event list" where
  "replay_events after limit l =
     (if after < 0 then Inl (ValueError ''after_sequence must be non-negative'')
      else if negative limit then Inl (ValueError ''replay limit must be non-negative'')
      else
        let replay = filter (\<lambda>e. case ev_sequence e of None \<Rightarrow> False | Some n \<Rightarrow> n \<noteq> 0 \<and> after < n) (log_events l)
        in Inr (case limit of None \<Rightarrow> replay | Some n \<Rightarrow> take (nat n) replay))"

section \<open>JSONL\<close>

datatype jsonl_line = BlankLine | BadJson string | Decoded json

definition error_text :: "py_error \<Rightarrow> string" where
  "error_text e = (case e of
      ValueError m \<Rightarrow> m | KeyError m \<Rightarrow> m | TypeError m \<Rightarrow> m | OverflowError m \<Rightarrow> m
    | RuntimeError m \<Rightarrow> m | IndexError \<Rightarrow> ''index out of range'' | ZeroDivisionError \<Rightarrow> ''division by zero'')"

definition jsonl_of_log :: "event_log \<Rightarrow> jsonl_line list" where
  "jsonl_of_log l = map (\<lambda>e. Decoded (JObj (to_dict e))) (log_events l)"

definition append_line :: "jsonl_line \<Rightarrow> event_log \<Rightarrow> py_error + event_log" where
  "append_line line l = (case line of
      BlankLine \<Rightarrow> Inr l
    | BadJson m \<Rightarrow> Inl (ValueError m)
    | Decoded (JObj d) \<Rightarrow>
        try_bind (exchange_event_from_dict d) (\<lambda>e. try_bind (append_event e l) (\<lambda>r. Inr (fst r)))
    | Decoded _ \<Rightarrow> Inl (ValueError ''event must be a JSON object''))"

fun load_lines :: "string \<Rightarrow> (jsonl_line \<Rightarrow> event_log \<Rightarrow> py_error + event_log) \<Rightarrow> nat \<Rightarrow>
    jsonl_line list \<Rightarrow> event_log \<Rightarrow> py_error + event_log" where
  "load_lines what step n [] l = Inr l"
| "load_lines what step n (line # lns) l =
     (case step line l of
        Inl e \<Rightarrow> Inl (ValueError (what @ nat_dec n @ '': '' @ error_text e))
      | Inr l' \<Rightarrow> load_lines what step (Suc n) lns l')"

definition log_from_jsonl :: "jsonl_line list \<Rightarrow> py_error + event_log" where
  "log_from_jsonl lns = load_lines ''invalid exchange event JSONL at line '' append_line 1 lns empty_log"

section \<open>Sources\<close>

record event_batch =
  bt_events :: "exchange_event list"
  bt_after_sequence :: int
  bt_next_after_sequence :: int
  bt_latest_sequence :: int
  bt_has_more :: bool

definition read_log :: "event_log \<Rightarrow> int \<Rightarrow> int \<Rightarrow> py_error + event_batch" where
  "read_log l after limit =
     (if after < 0 then Inl (ValueError ''after_sequence must be non-negative'')
      else if limit \<le> 0 then Inl (ValueError ''limit must be positive'')
      else
        try_bind (replay_events after (Some (limit + 1)) l) (\<lambda>requested.
          let more = (int (length requested) > limit);
              es = take (nat limit) requested;
              nxt = (if es = [] then Some after else ev_sequence (last es))
          in Inr \<lparr>bt_events = es, bt_after_sequence = after,
               bt_next_after_sequence = (case nxt of None \<Rightarrow> after | Some n \<Rightarrow> if n = 0 then after else n),
               bt_latest_sequence = next_sequence l - 1, bt_has_more = more\<rparr>))"

text \<open>
  A persisted multi-stream file: lines of other streams are skipped, a line without an object is
  an error before its stream is looked at.
\<close>

definition stream_line :: "string \<Rightarrow> jsonl_line \<Rightarrow> event_log \<Rightarrow> py_error + event_log" where
  "stream_line stream line l = (case line of
      Decoded (JObj d) \<Rightarrow> if pget d ''stream_id'' \<noteq> JStr stream then Inr l else append_line line l
    | _ \<Rightarrow> append_line line l)"

definition load_stream :: "string \<Rightarrow> jsonl_line list \<Rightarrow> py_error + event_log" where
  "load_stream stream lns =
     load_lines ''invalid persisted exchange stream at line '' (stream_line stream) 1 lns empty_log"

text \<open>
  The lazily loaded sources keep the log after the first successful read; the file's lines stand
  for its content at that time.
\<close>

definition lazy_read ::
  "(unit \<Rightarrow> py_error + event_log) \<Rightarrow> event_log option \<Rightarrow> int \<Rightarrow> int \<Rightarrow> event_log option \<times> (py_error + event_batch)" where
  "lazy_read load cached after limit =
     (case cached of
        Some l \<Rightarrow> (Some l, read_log l after limit)
      | None \<Rightarrow> (case load () of
            Inl e \<Rightarrow> (None, Inl e)
          | Inr l \<Rightarrow> (Some l, read_log l after limit)))"

definition canonical_jsonl_read :: "jsonl_line list \<Rightarrow> event_log option \<Rightarrow> int \<Rightarrow> int \<Rightarrow>
    event_log option \<times> (py_error + event_batch)" where
  "canonical_jsonl_read lns = lazy_read (\<lambda>_. log_from_jsonl lns)"

definition persisted_stream_read :: "string \<Rightarrow> jsonl_line list \<Rightarrow> event_log option \<Rightarrow> int \<Rightarrow> int \<Rightarrow>
    event_log option \<times> (py_error + event_batch)" where
  "persisted_stream_read stream lns = lazy_read (\<lambda>_. load_stream stream lns)"

text \<open>Historical records: the vendor's normaliser is a parameter, as it is in the code.\<close>

fun append_historical :: "exchange_event list \<Rightarrow> event_log \<Rightarrow> py_error + event_log" where
  "append_historical [] l = Inr l"
| "append_historical (e # es) l =
     (if ev_source e \<noteq> Historical
        then Inl (ValueError (''historical normalizers must emit source='' @ [CHR 0x27] @ ''historical'' @ [CHR 0x27]))
      else try_bind (append_event e l) (\<lambda>r. append_historical es (fst r)))"

fun historical_log :: "('r \<Rightarrow> exchange_event list) \<Rightarrow> 'r list \<Rightarrow> event_log \<Rightarrow> py_error + event_log" where
  "historical_log normaliser [] l = Inr l"
| "historical_log normaliser (r # rs) l =
     try_bind (append_historical (normaliser r) l) (historical_log normaliser rs)"

section \<open>Disk-backed unique ids\<close>

record unique_ids =
  uq_ids :: "string set"
  uq_closed :: bool

definition unique_ids_new :: unique_ids where
  "unique_ids_new = \<lparr>uq_ids = {}, uq_closed = False\<rparr>"

definition unique_ids_add :: "string \<Rightarrow> unique_ids \<Rightarrow> py_error + unique_ids" where
  "unique_ids_add i u =
     (if uq_closed u then Inl (RuntimeError ''event ID validator is closed'')
      else if i \<in> uq_ids u then Inl (ValueError ''canonical event IDs must be unique'')
      else Inr (u\<lparr>uq_ids := insert i (uq_ids u)\<rparr>))"

definition unique_ids_close :: "unique_ids \<Rightarrow> unique_ids" where
  "unique_ids_close u = (if uq_closed u then u else u\<lparr>uq_ids := {}, uq_closed := True\<rparr>)"

section \<open>What readers rely on\<close>

text \<open>
  A sequenced log: position \<open>i\<close> holds sequence number \<open>i + 1\<close>, identifiers do not repeat, and
  appending a valid entry adds exactly one entry at the end and keeps this.
\<close>

locale sequenced_log =
  fixes entries :: "'l \<Rightarrow> 'e list"
    and seq_of :: "'e \<Rightarrow> int option"
    and key_of :: "'e \<Rightarrow> string"
    and valid :: "'e \<Rightarrow> bool"
    and good :: "'l \<Rightarrow> bool"
    and app :: "'e \<Rightarrow> 'l \<Rightarrow> 'x + ('l \<times> 'e)"
  assumes good_seq: "good l \<Longrightarrow> i < length (entries l) \<Longrightarrow> seq_of (entries l ! i) = Some (int i + 1)"
    and good_keys: "good l \<Longrightarrow> distinct (map key_of (entries l))"
    and app_entries: "app e l = Inr (l', e') \<Longrightarrow> entries l' = entries l @ [e']"
    and app_good: "good l \<Longrightarrow> valid e \<Longrightarrow> app e l = Inr (l', e') \<Longrightarrow> good l'"
begin

lemma cursor_nth:
  assumes "good l" and "i < length (entries l)" and "0 \<le> a"
  shows "(case seq_of (entries l ! i) of None \<Rightarrow> False | Some n \<Rightarrow> n \<noteq> 0 \<and> a < n) \<longleftrightarrow> nat a \<le> i"
  using assms by (auto simp: good_seq)

lemma filter_by_index:
  "(\<And>i. i < length xs \<Longrightarrow> P (xs ! i) \<longleftrightarrow> k \<le> i) \<Longrightarrow> filter P xs = drop k xs"
proof (induction xs arbitrary: k)
  case (Cons x xs)
  have tl: "filter P xs = drop (k - 1) xs"
    by (rule Cons.IH) (use Cons.prems [of "Suc i" for i] in \<open>auto simp: le_diff_conv\<close>)
  have hd: "P x \<longleftrightarrow> k = 0" using Cons.prems [of 0] by simp
  show ?case using tl hd by (cases k) auto
qed simp

lemma replay_is_drop: "good l \<Longrightarrow> 0 \<le> a \<Longrightarrow> 
   filter (\<lambda>e. case seq_of e of None \<Rightarrow> False | Some n \<Rightarrow> n \<noteq> 0 \<and> a < n) (entries l) = drop (nat a) (entries l)"
  by (intro filter_by_index cursor_nth)

lemma seq_identifies:
  assumes "good l" and "x \<in> set (entries l)" and "y \<in> set (entries l)" and "seq_of x = seq_of y"
  shows "x = y"
proof -
  obtain i j where i: "i < length (entries l)" "x = entries l ! i"
    and j: "j < length (entries l)" "y = entries l ! j"
    using assms(2,3) by (auto simp: in_set_conv_nth)
  with assms(1,4) have "i = j" by (simp add: good_seq)
  with i j show ?thesis by simp
qed

lemma app_last: "app e l = Inr (l', e') \<Longrightarrow> last (entries l') = e' \<and> length (entries l') = Suc (length (entries l))"
  by (simp add: app_entries)

lemma app_fresh: "good l \<Longrightarrow> valid e \<Longrightarrow> app e l = Inr (l', e') \<Longrightarrow> key_of e' \<notin> key_of ` set (entries l)"
  using good_keys [OF app_good] app_entries by fastforce

lemma app_prefix: "app e l = Inr (l', e') \<Longrightarrow> prefix (entries l) (entries l')"
  by (simp add: app_entries)

end

section \<open>The log invariant\<close>

definition valid_event :: "exchange_event \<Rightarrow> bool" where
  "valid_event e = (post_init e = Inr e)"

definition log_ok :: "event_log \<Rightarrow> bool" where
  "log_ok l = (map ev_sequence (log_events l) = map (\<lambda>i. Some (int i + 1)) [0..<length (log_events l)] \<and>
     distinct (map ev_event_id (log_events l)) \<and> log_ids l = set (map ev_event_id (log_events l)) \<and>
     list_all valid_event (log_events l))"

lemma valid_event_iff: "valid_event e \<longleftrightarrow> validate_envelope e = Inr () \<and> validate_body (ev_body e) = Inr ()"
  by (simp add: valid_event_def post_init_Inr)

lemma post_init_valid: "post_init e = Inr e' \<longleftrightarrow> e' = e \<and> valid_event e"
  by (auto simp: valid_event_def post_init_Inr)

lemma empty_log_ok [simp]: "log_ok empty_log"
  by (simp add: log_ok_def empty_log_def)

lemma log_ok_seq:
  assumes "log_ok l" and "i < length (log_events l)"
  shows "ev_sequence (log_events l ! i) = Some (int i + 1)"
proof -
  have "map ev_sequence (log_events l) ! i = map (\<lambda>i. Some (int i + 1)) [0..<length (log_events l)] ! i"
    using assms(1) by (simp only: log_ok_def)
  then show ?thesis using assms(2) by simp
qed

text \<open>What a successful append stores.\<close>

definition stamped :: "event_log \<Rightarrow> exchange_event \<Rightarrow> exchange_event" where
  "stamped l e = e\<lparr>ev_sequence := Some (next_sequence l)\<rparr>"

lemma append_event_Inr:
  assumes "append_event e l = Inr (l', e')"
  shows "e' = stamped l e" and "ev_event_id e \<notin> log_ids l"
    and "l' = \<lparr>log_events = log_events l @ [e'], log_ids = insert (ev_event_id e) (log_ids l)\<rparr>"
  using assms
  by (auto simp: append_event_def Let_def stamped_def try_bind_Inr post_init_valid split: if_splits option.splits)

lemma append_event_sequence:
  "append_event e l = Inr r \<Longrightarrow> ev_sequence e \<in> {None, Some (next_sequence l)}"
  by (auto simp: append_event_def Let_def split: if_splits option.splits)

lemma stamped_fields [simp]:
  "ev_event_id (stamped l e) = ev_event_id e"
  "ev_sequence (stamped l e) = Some (next_sequence l)"
  "ev_body (stamped l e) = ev_body e"
  by (simp_all add: stamped_def)

lemma stamped_valid: "valid_event e \<Longrightarrow> valid_event (stamped l e)"
  by (auto simp: valid_event_iff validate_envelope_Inr stamped_def next_sequence_def)

lemma append_event_ok:
  assumes "log_ok l" and "valid_event e" and "append_event e l = Inr (l', e')"
  shows "log_ok l'"
  using assms(1) append_event_Inr [OF assms(3)] stamped_valid [OF assms(2), of l]
  by (auto simp: log_ok_def next_sequence_def)

lemma append_event_total:
  assumes "valid_event e" and "ev_event_id e \<notin> log_ids l" and "ev_sequence e \<in> {None, Some (next_sequence l)}"
  shows "append_event e l =
    Inr (\<lparr>log_events = log_events l @ [stamped l e], log_ids = insert (ev_event_id e) (log_ids l)\<rparr>, stamped l e)"
  using assms stamped_valid [OF assms(1), of l]
  by (auto simp: append_event_def Let_def valid_event_def stamped_def split: option.splits)

interpretation el: sequenced_log log_events ev_sequence ev_event_id valid_event log_ok append_event
proof unfold_locales
  show "ev_sequence (log_events l ! i) = Some (int i + 1)" if "log_ok l" "i < length (log_events l)" for l i
    using that by (rule log_ok_seq)
  show "distinct (map ev_event_id (log_events l))" if "log_ok l" for l
    using that by (simp add: log_ok_def)
  show "log_events l' = log_events l @ [e']" if "append_event e l = Inr (l', e')" for e l l' e'
    using append_event_Inr(3) [OF that] by simp
  show "log_ok l'" if "log_ok l" "valid_event e" "append_event e l = Inr (l', e')" for l e l' e'
    using that by (rule append_event_ok)
qed

section \<open>Reading a log page by page\<close>

lemma replay_events_drop:
  assumes "log_ok l" and "0 \<le> a" and "\<not> negative lmt"
  shows "replay_events a lmt l = Inr (case lmt of None \<Rightarrow> drop (nat a) (log_events l)
    | Some n \<Rightarrow> take (nat n) (drop (nat a) (log_events l)))"
  using assms by (simp add: replay_events_def el.replay_is_drop Let_def)

lemma read_log_page:
  assumes ok: "log_ok l" and a: "0 \<le> a" and lmt: "0 < limit"
  defines "page \<equiv> take (nat limit) (drop (nat a) (log_events l))"
  shows "read_log l a limit = Inr \<lparr>bt_events = page, bt_after_sequence = a,
    bt_next_after_sequence = a + int (length page), bt_latest_sequence = int (length (log_events l)),
    bt_has_more = (a + limit < int (length (log_events l)))\<rparr>"
proof -
  have r: "replay_events a (Some (limit + 1)) l = Inr (take (nat (limit + 1)) (drop (nat a) (log_events l)))"
    using assms by (simp add: replay_events_drop)
  have p: "take (nat limit) (take (nat (limit + 1)) (drop (nat a) (log_events l))) = page"
    using lmt by (simp add: page_def min_def)
  have m: "int (length (take (nat (limit + 1)) (drop (nat a) (log_events l)))) > limit
      \<longleftrightarrow> a + limit < int (length (log_events l))"
    using a lmt by auto
  have nx: "ev_sequence (last page) = Some (a + int (length page))" if "page \<noteq> []"
  proof -
    have len: "length page \<noteq> 0" "nat a + length page \<le> length (log_events l)"
      using that by (auto simp: page_def)
    have "last page = page ! (length page - 1)" using that by (rule last_conv_nth)
    also have "\<dots> = log_events l ! (nat a + (length page - 1))"
    proof -
      have "nth (take n xs) i = xs ! i" if "i < n" for n i and xs :: "exchange_event list"
        using that by simp
      then show ?thesis using len by (simp add: page_def less_diff_conv min_def split: if_splits)
    qed
    finally have lst: "last page = log_events l ! (nat a + (length page - 1))" .
    have "ev_sequence (last page) = Some (int (nat a + (length page - 1)) + 1)"
      unfolding lst using len by (intro log_ok_seq [OF ok]) linarith
    then show ?thesis using len a by (simp add: of_nat_diff)
  qed
  show ?thesis
  proof (cases "page = []")
    case True
    then have "length (log_events l) \<le> nat a" using lmt by (simp add: page_def)
    with True show ?thesis using assms(2,3) by (auto simp: read_log_def r p next_sequence_def Let_def)
  next
    case False
    then have "a + int (length page) \<noteq> 0" using a by (cases page) auto
    moreover have "nat a < length (log_events l)" using False by (simp add: page_def)
    ultimately show ?thesis
      using assms(2,3) nx [OF False] by (auto simp: read_log_def r next_sequence_def Let_def page_def)
  qed
qed

text \<open>A reader that follows \<open>next_after_sequence\<close> while there is more; the fuel bounds the pages.\<close>

fun read_pages :: "nat \<Rightarrow> event_log \<Rightarrow> int \<Rightarrow> int \<Rightarrow> (py_error + exchange_event list) option" where
  "read_pages 0 l a limit = None"
| "read_pages (Suc n) l a limit = (case read_log l a limit of
      Inl e \<Rightarrow> Some (Inl e)
    | Inr b \<Rightarrow> (if bt_has_more b
        then map_option (map_sum id (\<lambda>es. bt_events b @ es)) (read_pages n l (bt_next_after_sequence b) limit)
        else Some (Inr (bt_events b))))"

lemma read_pages_drop:
  assumes "log_ok l" and "0 \<le> a" and "0 < limit" and "length (log_events l) - nat a < n"
  shows "read_pages n l a limit = Some (Inr (drop (nat a) (log_events l)))"
  using assms
proof (induction n arbitrary: a)
  case (Suc n)
  note pg = read_log_page [OF Suc.prems(1-3)]
  let ?page = "take (nat limit) (drop (nat a) (log_events l))"
  show ?case
  proof (cases "a + limit < int (length (log_events l))")
    case True
    have len: "int (min (length (log_events l) - nat a) (nat limit)) = limit" using True Suc.prems by auto
    have "read_pages n l (a + limit) limit = Some (Inr (drop (nat (a + limit)) (log_events l)))"
      using True Suc.prems by (intro Suc.IH) auto
    moreover have "?page @ drop (nat (a + limit)) (log_events l) = drop (nat a) (log_events l)"
      using Suc.prems by (simp add: nat_add_distrib add.commute [of "nat a"] flip: drop_drop)
    ultimately show ?thesis using True by (simp add: pg len)
  next
    case False
    then show ?thesis using Suc.prems by (simp add: pg)
  qed
qed simp

section \<open>JSONL round trip\<close>

definition forget_event :: "exchange_event \<Rightarrow> exchange_event" where
  "forget_event e = e\<lparr>ev_body := forget_body (ev_body e)\<rparr>"

text \<open>The bodies whose owners survive the dictionary form.\<close>

definition owners_kept :: "event_body \<Rightarrow> bool" where
  "owners_kept b = (case b of
      AddBody _ _ _ _ _ ow \<Rightarrow> ow \<noteq> []
    | ModifyBody _ _ _ _ _ _ _ _ ow \<Rightarrow> ow \<noteq> []
    | CancelBody _ _ _ _ _ ow \<Rightarrow> ow \<noteq> []
    | SnapshotBody _ bk \<Rightarrow>
        list_all (\<lambda>l. l_owner l \<noteq> Some [] \<and> l_owner l \<noteq> Some ''normal'') (s_bids bk @ s_asks bk)
    | _ \<Rightarrow> True)"

lemma map_same: "map f xs = xs \<longleftrightarrow> (\<forall>x\<in>set xs. f x = x)"
  by (induction xs) auto

lemma forget_level_same: "forget_level l = l \<longleftrightarrow> l_owner l \<noteq> Some [] \<and> l_owner l \<noteq> Some ''normal''"
  by (cases l) (auto simp: forget_level_def)

lemma forget_snapshot_same:
  "forget_snapshot s = s \<longleftrightarrow> (\<forall>l\<in>set (s_bids s) \<union> set (s_asks s). forget_level l = l)"
  by (cases s) (auto simp: forget_snapshot_def map_same)

lemma forget_body_same: "forget_body b = b \<longleftrightarrow> owners_kept b"
  by (cases b) (auto simp: forget_body_def owners_kept_def forget_snapshot_same forget_level_same list_all_iff str_or_def)

lemma body_update_same: "e\<lparr>ev_body := b\<rparr> = e \<longleftrightarrow> b = ev_body e"
  by (cases e) auto

lemma forget_event_fields [simp]:
  "ev_event_id (forget_event e) = ev_event_id e"
  "ev_sequence (forget_event e) = ev_sequence e"
  by (simp_all add: forget_event_def)

lemma event_dict_roundtrip:
  assumes "valid_event e"
  shows "exchange_event_from_dict (to_dict e) = Inr (forget_event e)"
    and "valid_event (forget_event e)"
proof -
  have v: "validate_envelope e = Inr ()" "validate_body (ev_body e) = Inr ()"
    using assms by (simp_all add: valid_event_iff)
  have "validate_envelope (forget_event e) = Inr ()"
    using v(1) by (simp add: validate_envelope_Inr forget_event_def)
  then show f: "valid_event (forget_event e)"
    using v(2) by (simp add: valid_event_iff forget_event_def forget_body_valid)
  have "exchange_event_from_dict (to_dict e) = post_init (forget_event e)"
    by (simp add: exchange_event_from_dict_def common_roundtrip [OF v(1)] body_roundtrip [OF v(2)] forget_event_def)
  then show "exchange_event_from_dict (to_dict e) = Inr (forget_event e)"
    using f by (simp add: valid_event_def)
qed

definition forget_log :: "event_log \<Rightarrow> event_log" where
  "forget_log l = l\<lparr>log_events := map forget_event (log_events l)\<rparr>"

lemma load_own_lines:
  assumes "list_all valid_event es" and "distinct (map ev_event_id es)"
    and "ev_event_id ` set es \<inter> log_ids l = {}"
    and "map ev_sequence es = map (\<lambda>i. Some (int (length (log_events l) + i) + 1)) [0..<length es]"
  shows "load_lines what append_line n (map (\<lambda>e. Decoded (JObj (to_dict e))) es) l =
    Inr \<lparr>log_events = log_events l @ map forget_event es, log_ids = log_ids l \<union> ev_event_id ` set es\<rparr>"
  using assms
proof (induction es arbitrary: l n)
  case Nil
  then show ?case by simp
next
  case (Cons e es)
  have sq: "ev_sequence e = Some (next_sequence l)"
    using Cons.prems(4) arg_cong [where f = hd] by (simp add: next_sequence_def upt_conv_Cons del: upt_Suc)
  have rest: "map ev_sequence es = map (\<lambda>i. Some (int (Suc (length (log_events l)) + i) + 1)) [0..<length es]"
    using Cons.prems(4) by (simp add: upt_conv_Cons map_Suc_upt [symmetric] o_def del: upt_Suc)
  let ?l = "\<lparr>log_events = log_events l @ [forget_event e], log_ids = insert (ev_event_id e) (log_ids l)\<rparr>"
  have "stamped l (forget_event e) = forget_event e"
    using sq by (simp add: stamped_def forget_event_def)
  then have "append_event (forget_event e) l = Inr (?l, forget_event e)"
    using Cons.prems sq event_dict_roundtrip(2) [of e]
      append_event_total [of "forget_event e" l] by auto
  then have step: "append_line (Decoded (JObj (to_dict e))) l = Inr ?l"
    using Cons.prems(1) by (simp add: append_line_def event_dict_roundtrip)
  have "load_lines what append_line (Suc n) (map (\<lambda>e. Decoded (JObj (to_dict e))) es) ?l =
    Inr \<lparr>log_events = log_events ?l @ map forget_event es, log_ids = log_ids ?l \<union> ev_event_id ` set es\<rparr>"
    by (rule Cons.IH) (use Cons.prems rest in auto)
  then show ?case using step by simp
qed

lemma log_jsonl_roundtrip: "log_ok l \<Longrightarrow> log_from_jsonl (jsonl_of_log l) = Inr (forget_log l)"
  unfolding log_from_jsonl_def jsonl_of_log_def
  by (subst load_own_lines) (auto simp: log_ok_def empty_log_def forget_log_def)

section \<open>Several streams in one file\<close>

definition of_stream :: "string \<Rightarrow> jsonl_line \<Rightarrow> bool" where
  "of_stream stream line = (case line of Decoded (JObj d) \<Rightarrow> pget d ''stream_id'' = JStr stream | _ \<Rightarrow> True)"

lemma load_lines_Inr_Cons:
  "load_lines what f n (line # lns) l = Inr r \<longleftrightarrow> (\<exists>l'. f line l = Inr l' \<and> load_lines what f (Suc n) lns l' = Inr r)"
  by (auto split: sum.splits)

lemma load_lines_number:
  "load_lines what f n lns l = Inr r \<longleftrightarrow> load_lines what' f m lns l = Inr r"
proof (induction lns arbitrary: n m l)
  case (Cons line lns)
  then show ?case unfolding load_lines_Inr_Cons by blast
qed simp

lemma load_stream_lines:
  "load_lines what (stream_line stream) n lns l = Inr r \<longleftrightarrow>
   load_lines what append_line m (filter (of_stream stream) lns) l = Inr r"
proof (induction lns arbitrary: n m l)
  case (Cons line lns)
  have own: "stream_line stream line l = append_line line l" if "of_stream stream line" for l
    using that by (auto simp: stream_line_def of_stream_def split: jsonl_line.splits json.splits)
  have other: "stream_line stream line l = Inr l" if "\<not> of_stream stream line" for l
    using that by (auto simp: stream_line_def of_stream_def split: jsonl_line.splits json.splits)
  show ?case
    using Cons.IH own other
    by (cases "of_stream stream line") (simp_all only: load_lines_Inr_Cons filter.simps if_True if_False, auto)
qed simp

section \<open>Properties\<close>

text \<open>C6. Appending a valid event either fails because its id is taken or its sequence number is not
  the next one, or adds exactly that event, stamped with the next sequence number, at the end of the
  log and keeps the log well formed (contiguous sequence numbers, distinct ids, valid events).\<close>

theorem append_event_correct:
  assumes "log_ok l" and "valid_event e"
  shows "case append_event e l of
      Inl err \<Rightarrow> ev_event_id e \<in> ev_event_id ` set (log_events l) \<or>
        ev_sequence e \<notin> {None, Some (int (length (log_events l)) + 1)}
    | Inr (l', e') \<Rightarrow> log_ok l' \<and> log_events l' = log_events l @ [e'] \<and>
        e' = e\<lparr>ev_sequence := Some (int (length (log_events l)) + 1)\<rparr> \<and>
        ev_event_id e \<notin> ev_event_id ` set (log_events l) \<and>
        ev_sequence e \<in> {None, Some (int (length (log_events l)) + 1)}"
proof (cases "append_event e l")
  case (Inl err)
  then show ?thesis
    using append_event_total [OF assms(2), of l] assms(1)
    by (cases "ev_sequence e") (auto simp: log_ok_def next_sequence_def)
next
  case (Inr r)
  obtain l' e' where r: "r = (l', e')" by (cases r)
  have a: "append_event e l = Inr (l', e')" using Inr r by simp
  show ?thesis
    using append_event_Inr [OF a] append_event_sequence [OF a] el.app_good [OF assms a] el.app_entries [OF a] assms(1)
    by (simp add: a stamped_def next_sequence_def log_ok_def)
qed

definition sample_event :: "string \<Rightarrow> event_body \<Rightarrow> exchange_event" where
  "sample_event i body =
     \<lparr>ev_event_id = i, ev_source = Simulation, ev_symbol = ''LOB'', ev_venue = ''SIM'',
      ev_sequence = None, ev_source_sequence = None, ev_tick = Some 4, ev_exchange_timestamp_ns = None,
      ev_received_timestamp_ns = None, ev_scenario_id = None, ev_scenario_name = None,
      ev_scenario_family = None, ev_schema_version = 1, ev_body = body\<rparr>"

definition sample_snapshot :: book_snapshot where
  "sample_snapshot =
     \<lparr>s_bids = [\<lparr>l_price = 99, l_quantity = 5, l_owner = Some ''normal''\<rparr>],
      s_asks = [\<lparr>l_price = 101, l_quantity = 7, l_owner = Some ''scenario''\<rparr>],
      s_best_bid = Some 99, s_best_ask = Some 101, s_mid = Some 100, s_spread = Some 2\<rparr>"

definition sample_log :: event_log where
  "sample_log = fst (extend_log
     [sample_event ''SIM:add:1'' (AddBody ''o1'' ''mm'' Buy 99 5 ''normal''),
      sample_event ''SIM:snapshot:2'' (SnapshotBody 2 sample_snapshot),
      sample_event ''SIM:cancel:3'' (CancelBody ''o1'' ''mm'' Buy 99 5 ''normal'')] empty_log)"

theorem append_event_correct_witness:
  "case append_event (sample_event ''SIM:add:1'' (AddBody ''o1'' ''mm'' Buy 99 5 ''normal'')) empty_log of
      Inl err \<Rightarrow> False | Inr (l', e') \<Rightarrow> log_ok l' \<and> ev_sequence e' = Some 1"
proof -
  let ?e = "sample_event ''SIM:add:1'' (AddBody ''o1'' ''mm'' Buy 99 5 ''normal'')"
  have "valid_event ?e" by code_simp
  from append_event_correct [OF empty_log_ok this] show ?thesis
    by (auto simp: empty_log_def sample_event_def split: sum.splits)
qed

text \<open>C7. Parsing the dictionary form of a valid event gives the event back, but for two kinds of owners: an
  order owner that is empty is read as normal, and the owner of a snapshot level is left out when it is
  empty or normal. The parsed event is the same exactly when the event has neither.\<close>

theorem event_dict_round_trip:
  assumes "post_init e = Inr e"
  shows "exchange_event_from_dict (to_dict e) = Inr (e\<lparr>ev_body := forget_body (ev_body e)\<rparr>) \<and>
    (exchange_event_from_dict (to_dict e) = Inr e \<longleftrightarrow> owners_kept (ev_body e))"
  using event_dict_roundtrip(1) [of e] assms
  by (simp add: valid_event_def forget_event_def body_update_same forget_body_same)

theorem event_dict_round_trip_witness:
  "\<exists>e. exchange_event_from_dict (to_dict e) = Inr e \<and> event_type (ev_body e) = ''execute''"
proof -
  let ?e = "sample_event ''SIM:execute:9'' (ExecuteBody ''x'' ''a'' ''b'' ''c'' ''d'' Sell 101 2 0 3)"
  have "post_init ?e = Inr ?e" by code_simp
  moreover have "owners_kept (ev_body ?e)" and "event_type (ev_body ?e) = ''execute''" by code_simp+
  ultimately show ?thesis using event_dict_round_trip [of ?e] by blast
qed

text \<open>C8. A log written as JSONL and read back is the same log, with the same sequence numbers and the same set
  of ids and again well formed, but for the owners that \<open>to_dict\<close> does not carry (empty order owners, empty
  or normal level owners). The loaded log is the same exactly when no event has such an owner.\<close>

theorem jsonl_round_trip:
  assumes "log_ok l"
  shows "log_from_jsonl (jsonl_of_log l) =
      Inr (l\<lparr>log_events := map (\<lambda>e. e\<lparr>ev_body := forget_body (ev_body e)\<rparr>) (log_events l)\<rparr>) \<and>
    log_ok (l\<lparr>log_events := map (\<lambda>e. e\<lparr>ev_body := forget_body (ev_body e)\<rparr>) (log_events l)\<rparr>) \<and>
    (log_from_jsonl (jsonl_of_log l) = Inr l \<longleftrightarrow> list_all (owners_kept \<circ> ev_body) (log_events l))"
proof -
  have f: "(\<lambda>e. e\<lparr>ev_body := forget_body (ev_body e)\<rparr>) = forget_event"
    by (simp add: fun_eq_iff forget_event_def)
  have "log_ok (l\<lparr>log_events := map forget_event (log_events l)\<rparr>)"
    using assms event_dict_roundtrip(2) by (auto simp: log_ok_def o_def list_all_iff)
  moreover have "l\<lparr>log_events := map forget_event (log_events l)\<rparr> = l \<longleftrightarrow> list_all (owners_kept \<circ> ev_body) (log_events l)"
    by (cases l) (simp add: map_same forget_event_def body_update_same forget_body_same list_all_iff)
  ultimately show ?thesis using log_jsonl_roundtrip [OF assms] by (simp add: f forget_log_def)
qed

lemma sample_log_ok: "log_ok sample_log"
  by code_simp

theorem jsonl_round_trip_witness:
  "log_from_jsonl (jsonl_of_log sample_log) \<noteq> Inr sample_log \<and>
   (\<exists>l. log_from_jsonl (jsonl_of_log sample_log) = Inr l \<and> log_ok l \<and> length (log_events l) = 3)"
proof -
  have "length (log_events sample_log) = 3" by code_simp
  moreover have "map (forget_body \<circ> ev_body) (log_events sample_log) \<noteq> map ev_body (log_events sample_log)"
    by code_simp
  then have "map (\<lambda>e. e\<lparr>ev_body := forget_body (ev_body e)\<rparr>) (log_events sample_log) \<noteq> log_events sample_log"
    by (auto dest: arg_cong [where f = "map ev_body"])
  ultimately show ?thesis
    using jsonl_round_trip [OF sample_log_ok] by (auto dest: arg_cong [where f = log_events])
qed

text \<open>C9. A client that follows \<open>next_after_sequence\<close> from 0 while \<open>has_more\<close> holds reads every event
  of the log exactly once, in order, whatever the page size, and it stops: as many pages as events,
  plus one, are always enough.\<close>

theorem pages_cover_log:
  assumes "log_ok l" and "0 < limit"
  shows "read_pages (Suc (length (log_events l))) l 0 limit = Some (Inr (log_events l))"
  using read_pages_drop [OF assms(1) _ assms(2), of 0 "Suc (length (log_events l))"] by simp

theorem pages_cover_log_witness: "read_pages 4 sample_log 0 2 = Some (Inr (log_events sample_log))"
proof -
  have "length (log_events sample_log) = 3" by code_simp
  then show ?thesis using pages_cover_log [OF sample_log_ok, of 2] by simp
qed

text \<open>Loading one stream of a shared history file gives the log that the stream's own lines would
  give alone: lines of other streams change nothing.\<close>

theorem load_stream_selects:
  "load_stream stream lns = Inr l \<longleftrightarrow> log_from_jsonl (filter (of_stream stream) lns) = Inr l"
  unfolding load_stream_def log_from_jsonl_def
  by (subst load_stream_lines [where m = 1]) (rule load_lines_number)

end
