(* ===== verification/MatchingEngine.thy ===== *)
theory MatchingEngine
  imports OrderBook EventLog
begin

text \<open>
  The matching engine, \<open>backend/app/exchange/matching_engine.py\<close>: it routes requests to the book
  and turns what the book did into canonical events of its log. A step returns the engine it
  leaves, also when it raises.
\<close>

record mutation_context =
  cx_tick :: "int option"
  cx_scenario_id :: "string option"
  cx_scenario_name :: "string option"
  cx_scenario_family :: "string option"

record engine =
  en_book :: order_book
  en_symbol :: string
  en_venue :: string
  en_source :: event_origin
  en_log :: event_log
  en_context :: mutation_context

type_synonym 'a engine_step = "(engine, 'a) step"

definition empty_context :: mutation_context where
  "empty_context = \<lparr>cx_tick = None, cx_scenario_id = None, cx_scenario_name = None, cx_scenario_family = None\<rparr>"

definition new_engine :: "string \<Rightarrow> string \<Rightarrow> event_origin \<Rightarrow> order_book \<Rightarrow> engine" where
  "new_engine smb ven src b =
     \<lparr>en_book = b, en_symbol = smb, en_venue = ven, en_source = src, en_log = empty_log,
      en_context = empty_context\<rparr>"

text \<open>
  The context manager restores the previous context also when the body raises.
\<close>

definition with_context :: "mutation_context \<Rightarrow> 'a engine_step \<Rightarrow> 'a engine_step" where
  "with_context cx f en =
     (case f (en\<lparr>en_context := cx\<rparr>) of (en', r) \<Rightarrow> (en'\<lparr>en_context := en_context en\<rparr>, r))"

definition request_context :: "order \<Rightarrow> mutation_context" where
  "request_context x =
     \<lparr>cx_tick = Some (o_timestamp x), cx_scenario_id = o_scenario_id x,
      cx_scenario_name = o_scenario_name x, cx_scenario_family = o_scenario_family x\<rparr>"

section \<open>Recording events\<close>

definition next_event_id :: "string \<Rightarrow> engine \<Rightarrow> string" where
  "next_event_id et en = en_venue en @ '':'' @ et @ '':'' @ int_dec (next_sequence (en_log en))"

definition context_event :: "order \<Rightarrow> event_body \<Rightarrow> engine \<Rightarrow> exchange_event" where
  "context_event x body en =
     (let cx = en_context en in
      \<lparr>ev_event_id = next_event_id (event_type body) en, ev_source = en_source en,
       ev_symbol = en_symbol en, ev_venue = en_venue en, ev_sequence = None,
       ev_source_sequence = None,
       ev_tick = Some (case cx_tick cx of Some t \<Rightarrow> t | None \<Rightarrow> o_timestamp x),
       ev_exchange_timestamp_ns = None, ev_received_timestamp_ns = None,
       ev_scenario_id = opt_str_or (cx_scenario_id cx) (o_scenario_id x),
       ev_scenario_name = opt_str_or (cx_scenario_name cx) (o_scenario_name x),
       ev_scenario_family = opt_str_or (cx_scenario_family cx) (o_scenario_family x),
       ev_schema_version = 1, ev_body = body\<rparr>)"

definition record_event :: "exchange_event \<Rightarrow> exchange_event engine_step" where
  "record_event e en =
     (case try_bind (post_init e) (\<lambda>e. append_event e (en_log en)) of
        Inl err \<Rightarrow> (en, Inl err)
      | Inr (l, e') \<Rightarrow> (en\<lparr>en_log := l\<rparr>, Inr e'))"

definition execution_body :: "order \<Rightarrow> string \<Rightarrow> trade \<Rightarrow> event_body" where
  "execution_body x eid t =
     ExecuteBody eid (t_aggressor_order_id t) (t_resting_order_id t) (t_aggressor_agent_id t)
       (t_resting_agent_id t) (o_side x) (t_price t) (t_quantity t) (t_aggressor_remaining t)
       (t_resting_remaining t)"

fun record_executions :: "order \<Rightarrow> trade list \<Rightarrow> unit engine_step" where
  "record_executions x [] en = (en, Inr ())"
| "record_executions x (t # ts) en =
     step_bind (record_event (context_event x (execution_body x (next_event_id ''execute'' en) t) en))
       (\<lambda>_. record_executions x ts) en"

definition mutation_order :: "book_mutation \<Rightarrow> order option" where
  "mutation_order m = (case mut_after m of Some x \<Rightarrow> Some x | None \<Rightarrow> mut_before m)"

definition record_book_mutation :: "book_mutation \<Rightarrow> unit engine_step" where
  "record_book_mutation m en =
     (case mutation_order m of
        None \<Rightarrow> (en, Inl (ValueError ''order-book mutation requires priced order state''))
      | Some x \<Rightarrow> (case o_price x of
            None \<Rightarrow> (en, Inl (ValueError ''order-book mutation requires priced order state''))
          | Some p \<Rightarrow>
              (case mut_type m of
                 AddMutation \<Rightarrow>
                   step_bind (record_event (context_event x
                     (AddBody (o_order_id x) (o_agent_id x) (o_side x) p (o_quantity x) (o_owner x)) en))
                     (\<lambda>_ en. (en, Inr ())) en
               | CancelMutation \<Rightarrow>
                   step_bind (record_event (context_event x
                     (CancelBody (o_order_id x) (o_agent_id x) (o_side x) p (o_quantity x) (o_owner x)) en))
                     (\<lambda>_ en. (en, Inr ())) en
               | ModifyMutation \<Rightarrow>
                   (case (mut_before m, mut_after m) of
                      (Some before, Some aft) \<Rightarrow>
                        (case (o_price before, o_price aft) of
                           (Some pb, Some pa) \<Rightarrow>
                             step_bind (record_event (context_event x
                               (ModifyBody (o_order_id aft) (o_agent_id aft) (o_side aft) pb
                                 (o_quantity before) pa (o_quantity aft) (mut_priority_preserved m)
                                 (o_owner aft)) en))
                               (\<lambda>_ en. (en, Inr ())) en
                         | _ \<Rightarrow> (en, Inl (ValueError ''modify mutation requires before and after priced order state'')))
                    | _ \<Rightarrow> (en, Inl (ValueError ''modify mutation requires before and after priced order state''))))))"

fun record_mutations :: "book_mutation list \<Rightarrow> unit engine_step" where
  "record_mutations [] en = (en, Inr ())"
| "record_mutations (m # ms) en = step_bind (record_book_mutation m) (\<lambda>_. record_mutations ms) en"

text \<open>A book operation with the engine as its listener.\<close>

definition book_step :: "(order_book \<Rightarrow> order_book \<times> book_mutation list) \<Rightarrow> unit engine_step" where
  "book_step f en = (let (b, ms) = f (en_book en) in record_mutations ms (en\<lparr>en_book := b\<rparr>))"

definition book_try_step ::
  "(order_book \<Rightarrow> py_error + (order_book \<times> book_mutation list)) \<Rightarrow> unit engine_step" where
  "book_try_step f en = (case f (en_book en) of
      Inl e \<Rightarrow> (en, Inl e)
    | Inr (b, ms) \<Rightarrow> record_mutations ms (en\<lparr>en_book := b\<rparr>))"

section \<open>Requests\<close>

definition events_after :: "int \<Rightarrow> exchange_event list engine_step" where
  "events_after cursor en = (en, replay_events cursor None (en_log en))"

definition log_cursor :: "engine \<Rightarrow> int" where
  "log_cursor en = next_sequence (en_log en) - 1"

definition engine_cancel :: "order \<Rightarrow> exchange_event list engine_step" where
  "engine_cancel request en =
     step_bind (with_context (request_context request)
         (book_step (\<lambda>b. let (b', ms, _) = cancel_order (o_order_id request) b in (b', ms))))
       (\<lambda>_. events_after (log_cursor en)) en"

definition engine_modify :: "order \<Rightarrow> exchange_event list engine_step" where
  "engine_modify request en =
     step_bind (with_context (request_context request)
         (book_try_step (\<lambda>b. try_bind (modify_order request b) (\<lambda>(b', ms, _). Inr (b', ms)))))
       (\<lambda>_. events_after (log_cursor en)) en"

definition filled_quantity :: "trade list \<Rightarrow> rat" where
  "filled_quantity ts = fsum (map t_quantity ts)"

definition rest_remainder :: "order \<Rightarrow> rat \<Rightarrow> unit engine_step" where
  "rest_remainder x remaining en =
     (if remaining > 0 then
        (let r = x\<lparr>o_quantity := remaining\<rparr>
         in with_context (request_context r) (book_try_step (add_limit_order r)) en)
      else (en, Inr ()))"

definition engine_match_limit :: "order \<Rightarrow> exchange_event list engine_step" where
  "engine_match_limit x en =
     (let (b, ts) = match_order x (o_price x) (en_book en);
          remaining = fsub (o_quantity x) (filled_quantity ts)
      in step_bind (record_executions x ts) (\<lambda>_.
           step_bind (rest_remainder x remaining) (\<lambda>_. events_after (log_cursor en)))
         (en\<lparr>en_book := b\<rparr>))"

definition engine_match_market :: "order \<Rightarrow> exchange_event list engine_step" where
  "engine_match_market x en =
     (case apply_market_order x (en_book en) of
        Inl e \<Rightarrow> (en, Inl e)
      | Inr (b, ts) \<Rightarrow>
          step_bind (record_executions x ts) (\<lambda>_. events_after (log_cursor en)) (en\<lparr>en_book := b\<rparr>))"

definition process_event :: "order \<Rightarrow> exchange_event list engine_step" where
  "process_event x = (case o_order_type x of
      CancelOrder \<Rightarrow> engine_cancel x
    | ModifyOrder \<Rightarrow> engine_modify x
    | MarketOrder \<Rightarrow> engine_match_market x
    | LimitOrder \<Rightarrow> engine_match_limit x)"

definition record_snapshot ::
  "int \<Rightarrow> int \<Rightarrow> int option \<Rightarrow> int option \<Rightarrow> string option \<Rightarrow> string option \<Rightarrow> string option \<Rightarrow>
   exchange_event engine_step" where
  "record_snapshot tick depth xts rts sid snm sfm en =
     (case get_snapshot depth (en_book en) of
        Inl e \<Rightarrow> (en, Inl e)
      | Inr (b, snap) \<Rightarrow>
          record_event
            \<lparr>ev_event_id = next_event_id ''snapshot'' en, ev_source = en_source en,
             ev_symbol = en_symbol en, ev_venue = en_venue en, ev_sequence = None,
             ev_source_sequence = None, ev_tick = Some tick, ev_exchange_timestamp_ns = xts,
             ev_received_timestamp_ns = rts, ev_scenario_id = sid, ev_scenario_name = snm,
             ev_scenario_family = sfm, ev_schema_version = 1, ev_body = SnapshotBody depth snap\<rparr>
            (en\<lparr>en_book := b\<rparr>))"

end
