(* ===== verification/EngineReplay.thy ===== *)
theory EngineReplay
  imports BookReplay MatchingEngine
begin

text \<open>
  The engine's event stream determines its book. \<open>apply_event\<close> replays one canonical event on the
  abstract book of \<open>BookReplay\<close>; \<open>engine_ok\<close> is the engine's invariant; \<open>engine_trans\<close> is its step
  relation. Every request keeps the invariant, also when it raises, and appends exactly the events
  that explain what happened to the book.
\<close>

section \<open>Replaying events\<close>

definition body_entry :: "event_body \<Rightarrow> view_entry" where
  "body_entry b = \<lparr>ve_agent = b_agent_id b, ve_side = b_side b, ve_price = Some (b_price b),
     ve_quantity = b_quantity b, ve_owner = b_owner b\<rparr>"

definition apply_body :: "book_map \<Rightarrow> event_body \<Rightarrow> book_map" where
  "apply_body m b = (case b of
      AddBody oid _ _ _ _ _ \<Rightarrow> m(oid := Some (body_entry b))
    | ModifyBody oid _ _ _ _ _ _ _ _ \<Rightarrow> m(oid := Some (body_entry b))
    | CancelBody oid _ _ _ _ _ \<Rightarrow> m(oid := None)
    | ExecuteBody _ _ rid _ _ _ _ _ _ left \<Rightarrow>
        (if left = 0 then m(rid := None)
         else m(rid := map_option (ve_quantity_update (\<lambda>_. left)) (m rid)))
    | SnapshotBody _ _ \<Rightarrow> m)"

definition replay :: "book_map \<Rightarrow> exchange_event list \<Rightarrow> book_map" where
  "replay m es = foldl apply_body m (map ev_body es)"

lemma replay_simps [simp]:
  "replay m [] = m"
  "replay m (e # es) = replay (apply_body m (ev_body e)) es"
  "replay m (es @ fs) = replay (replay m es) fs"
  by (simp_all add: replay_def)

section \<open>The engine's invariant\<close>

definition entry_ok :: "string \<Rightarrow> view_entry \<Rightarrow> bool" where
  "entry_ok i v = (i \<noteq> [] \<and> ve_agent v \<noteq> [] \<and> 0 < ve_quantity v \<and>
     (case ve_price v of None \<Rightarrow> False | Some p \<Rightarrow> 0 < p))"

definition view_ok :: "book_map \<Rightarrow> bool" where
  "view_ok m = (\<forall>i v. m i = Some v \<longrightarrow> entry_ok i v)"

definition log_numbered :: "string \<Rightarrow> event_log \<Rightarrow> bool" where
  "log_numbered ven l = (\<forall>i<length (log_events l). ev_event_id (log_events l ! i) =
     ven @ '':'' @ event_type (ev_body (log_events l ! i)) @ '':'' @ int_dec (int i + 1))"

definition context_ok :: "mutation_context \<Rightarrow> bool" where
  "context_ok cx = (\<not> negative (cx_tick cx))"

definition engine_ok :: "engine \<Rightarrow> bool" where
  "engine_ok en = (book_ok (en_book en) \<and> view_ok (book_view (en_book en)) \<and> log_ok (en_log en) \<and>
     en_symbol en \<noteq> [] \<and> en_venue en \<noteq> [] \<and> log_numbered (en_venue en) (en_log en) \<and>
     context_ok (en_context en))"

lemma engine_okD:
  assumes "engine_ok en"
  shows "book_ok (en_book en)" and "view_ok (book_view (en_book en))" and "log_ok (en_log en)"
    and "en_symbol en \<noteq> []" and "en_venue en \<noteq> []" and "log_numbered (en_venue en) (en_log en)"
    and "context_ok (en_context en)"
  using assms by (simp_all add: engine_ok_def)

lemma log_numbered_nth:
  "log_numbered ven l \<Longrightarrow> i < length (log_events l) \<Longrightarrow> ev_event_id (log_events l ! i) =
    ven @ '':'' @ event_type (ev_body (log_events l ! i)) @ '':'' @ int_dec (int i + 1)"
  by (simp only: log_numbered_def)

lemma colon_not_in_dec: "CHR '':'' \<notin> set (int_dec (int n))"
  using not_digit_in_nat_dec [of "CHR '':''" n] by (simp add: int_dec_def is_digit_def)

lemma next_event_id_fresh:
  assumes "engine_ok en"
  shows "next_event_id et en \<notin> log_ids (en_log en)"
proof
  let ?l = "en_log en"
  assume "next_event_id et en \<in> log_ids ?l"
  then obtain i where i: "i < length (log_events ?l)"
    and e: "ev_event_id (log_events ?l ! i) = next_event_id et en"
  proof -
    have "log_ids ?l = set (map ev_event_id (log_events ?l))"
      using engine_okD(3) [OF assms] by (simp only: log_ok_def)
    with \<open>next_event_id et en \<in> log_ids ?l\<close> show ?thesis
      using that by (metis in_set_conv_nth length_map nth_map)
  qed
  let ?n = "length (log_events ?l)"
  have split: "v @ '':'' @ t @ '':'' @ d = (v @ '':'' @ t) @ CHR '':'' # d" for v t d by simp
  have "ev_event_id (log_events ?l ! i) = (en_venue en @ '':'' @ event_type (ev_body (log_events ?l ! i))) @
      CHR '':'' # int_dec (int (Suc i))"
    using log_numbered_nth [OF engine_okD(6) [OF assms] i] unfolding split by (simp add: add.commute)
  moreover have "next_event_id et en = (en_venue en @ '':'' @ et) @ CHR '':'' # int_dec (int (Suc ?n))"
    unfolding next_event_id_def split next_sequence_def by (simp add: add.commute)
  ultimately have "(en_venue en @ '':'' @ event_type (ev_body (log_events ?l ! i))) @ CHR '':'' # int_dec (int (Suc i)) =
    (en_venue en @ '':'' @ et) @ CHR '':'' # int_dec (int (Suc ?n))"
    using e by simp
  from conjunct2 [OF suffix_split_inject [OF this colon_not_in_dec colon_not_in_dec]]
  have "int_dec (int (Suc i)) = int_dec (int (Suc ?n))" .
  with i show False by simp
qed

section \<open>Recording\<close>

text \<open>What recording leaves: the same book and settings, the events added at the end of the log.\<close>

definition recorded :: "engine \<Rightarrow> engine \<Rightarrow> exchange_event list \<Rightarrow> bool" where
  "recorded en en' es = (engine_ok en' \<and> en_book en' = en_book en \<and> en_symbol en' = en_symbol en \<and>
     en_venue en' = en_venue en \<and> en_source en' = en_source en \<and> en_context en' = en_context en \<and>
     log_events (en_log en') = log_events (en_log en) @ es)"

lemma recorded_refl: "engine_ok en \<Longrightarrow> recorded en en []"
  by (simp add: recorded_def)

lemma recorded_trans: "recorded en en1 es \<Longrightarrow> recorded en1 en2 fs \<Longrightarrow> recorded en en2 (es @ fs)"
  by (simp add: recorded_def)

lemma record_event_ok:
  assumes ok: "engine_ok en" and v: "valid_event e" and sq: "ev_sequence e = None"
    and i: "ev_event_id e = next_event_id (event_type (ev_body e)) en"
  shows "\<exists>en'. record_event e en = (en', Inr (stamped (en_log en) e)) \<and> recorded en en' [stamped (en_log en) e]"
proof -
  let ?l = "en_log en"
  let ?s = "stamped ?l e"
  let ?l' = "\<lparr>log_events = log_events ?l @ [?s], log_ids = insert (ev_event_id e) (log_ids ?l)\<rparr>"
  have a: "append_event e ?l = Inr (?l', ?s)"
    using next_event_id_fresh [OF ok] by (intro append_event_total v) (simp_all add: i sq)
  have lok: "log_ok ?l'" by (rule el.app_good [OF engine_okD(3) [OF ok] v a])
  have "log_numbered (en_venue en) ?l'"
    using engine_okD(6) [OF ok]
    by (auto simp: log_numbered_def i next_event_id_def next_sequence_def nth_append less_Suc_eq)
  then have "recorded en (en\<lparr>en_log := ?l'\<rparr>) [?s]"
    using ok lok by (simp add: recorded_def engine_ok_def)
  moreover have "record_event e en = (en\<lparr>en_log := ?l'\<rparr>, Inr ?s)"
    using v by (simp add: record_event_def valid_event_def a)
  ultimately show ?thesis by blast
qed

lemma context_event_fields [simp]:
  "ev_event_id (context_event x body en) = next_event_id (event_type body) en"
  "ev_sequence (context_event x body en) = None"
  "ev_body (context_event x body en) = body"
  by (simp_all add: context_event_def Let_def)

lemma next_event_id_nonempty [simp]: "next_event_id et en \<noteq> []"
  by (simp add: next_event_id_def)

lemma context_event_valid:
  assumes "engine_ok en" and "validate_body body = Inr ()" and "cx_tick (en_context en) \<noteq> None \<or> 0 \<le> o_timestamp x"
  shows "valid_event (context_event x body en)"
  using engine_okD(4,5,7) [OF assms(1)] assms(2,3)
  by (auto simp: valid_event_iff validate_envelope_Inr context_event_def Let_def context_ok_def split: option.splits)

lemma record_context_event:
  assumes "engine_ok en" and "validate_body body = Inr ()" and "cx_tick (en_context en) \<noteq> None \<or> 0 \<le> o_timestamp x"
  shows "\<exists>en' e. record_event (context_event x body en) en = (en', Inr e) \<and> recorded en en' [e] \<and> ev_body e = body"
  using record_event_ok [OF assms(1) context_event_valid [OF assms]] by (metis context_event_fields stamped_fields(3))

subsection \<open>Mutations\<close>

definition order_ok :: "order \<Rightarrow> bool" where
  "order_ok x = entry_ok (o_order_id x) (view_of x)"

lemma order_ok_iff:
  "order_ok x \<longleftrightarrow> o_order_id x \<noteq> [] \<and> o_agent_id x \<noteq> [] \<and> 0 < o_quantity x \<and> (\<exists>p. o_price x = Some p \<and> 0 < p)"
  by (auto simp: order_ok_def entry_ok_def view_of_def split: option.splits)

definition mutation_ok :: "book_mutation \<Rightarrow> bool" where
  "mutation_ok m = ((\<exists>a. m = mut_add a \<and> order_ok a) \<or> (\<exists>b. m = mut_cancel b \<and> order_ok b) \<or>
     (\<exists>b a pr. m = mut_modify b a pr \<and> order_ok b \<and> order_ok a \<and> (pr \<longrightarrow> o_price a = o_price b)))"

lemma mutation_ok_simps [simp]:
  "mutation_ok (mut_add a) = order_ok a"
  "mutation_ok (mut_cancel b) = order_ok b"
  "mutation_ok (mut_modify b a pr) = (order_ok b \<and> order_ok a \<and> (pr \<longrightarrow> o_price a = o_price b))"
  by (auto simp: mutation_ok_def mut_add_def mut_cancel_def mut_modify_def)

lemma step_unit_id: "step_bind f (\<lambda>_ en. (en, Inr ())) en = (case f en of (en', Inl e) \<Rightarrow> (en', Inl e) | (en', Inr x) \<Rightarrow> (en', Inr ()))"
  by (simp add: step_bind_def split: prod.splits sum.splits)

lemma record_book_mutation_ok:
  assumes ok: "engine_ok en" and m: "mutation_ok m" and tk: "cx_tick (en_context en) \<noteq> None"
  shows "\<exists>en' e. record_book_mutation m en = (en', Inr ()) \<and> recorded en en' [e] \<and>
    (\<forall>v. apply_body v (ev_body e) = apply_mutation v m)"
  using m unfolding mutation_ok_def
proof (elim disjE exE conjE)
  fix a assume a: "m = mut_add a" "order_ok a"
  then obtain p where p: "o_price a = Some p" by (auto simp: order_ok_iff)
  let ?body = "AddBody (o_order_id a) (o_agent_id a) (o_side a) p (o_quantity a) (o_owner a)"
  have "validate_body ?body = Inr ()" using a p by (auto simp: validate_body_def validate_order_state_Inr order_ok_iff)
  from record_context_event [OF ok this, of a] tk obtain en' e where
    "record_event (context_event a ?body en) en = (en', Inr e)" "recorded en en' [e]" "ev_body e = ?body" by blast
  then show ?thesis
    by (intro exI [of _ en'] exI [of _ e])
      (simp add: a p record_book_mutation_def mutation_order_def mut_add_def apply_mutation_def
        apply_body_def body_entry_def view_of_def step_unit_id)
next
  fix b assume a: "m = mut_cancel b" "order_ok b"
  then obtain p where p: "o_price b = Some p" by (auto simp: order_ok_iff)
  let ?body = "CancelBody (o_order_id b) (o_agent_id b) (o_side b) p (o_quantity b) (o_owner b)"
  have "validate_body ?body = Inr ()" using a p by (auto simp: validate_body_def validate_order_state_Inr order_ok_iff)
  from record_context_event [OF ok this, of b] tk obtain en' e where
    "record_event (context_event b ?body en) en = (en', Inr e)" "recorded en en' [e]" "ev_body e = ?body" by blast
  then show ?thesis
    by (intro exI [of _ en'] exI [of _ e])
      (simp add: a p record_book_mutation_def mutation_order_def mut_cancel_def apply_mutation_def
        apply_body_def body_entry_def view_of_def step_unit_id)
next
  fix b a pr assume a: "m = mut_modify b a pr" "order_ok b" "order_ok a" "pr \<longrightarrow> o_price a = o_price b"
  then obtain p q where p: "o_price b = Some p" "o_price a = Some q" by (auto simp: order_ok_iff)
  let ?body = "ModifyBody (o_order_id a) (o_agent_id a) (o_side a) p (o_quantity b) q (o_quantity a) pr (o_owner a)"
  have "validate_body ?body = Inr ()"
    using a p by (auto simp: validate_body_def validate_modify_def try_bind_Inr validate_order_state_Inr order_ok_iff)
  from record_context_event [OF ok this, of a] tk obtain en' e where
    "record_event (context_event a ?body en) en = (en', Inr e)" "recorded en en' [e]" "ev_body e = ?body" by blast
  then show ?thesis
    by (intro exI [of _ en'] exI [of _ e])
      (simp add: a p record_book_mutation_def mutation_order_def mut_modify_def apply_mutation_def
        apply_body_def body_entry_def view_of_def step_unit_id)
qed

lemma record_mutations_ok:
  "engine_ok en \<Longrightarrow> list_all mutation_ok ms \<Longrightarrow> cx_tick (en_context en) \<noteq> None \<Longrightarrow>
   \<exists>en' es. record_mutations ms en = (en', Inr ()) \<and> recorded en en' es \<and>
     (\<forall>v. replay v es = foldl apply_mutation v ms)"
proof (induction ms arbitrary: en)
  case Nil
  then show ?case by (intro exI [of _ en] exI [of _ "[]"]) (simp add: recorded_refl)
next
  case (Cons m ms)
  have m: "mutation_ok m" using Cons.prems(2) by simp
  from record_book_mutation_ok [OF Cons.prems(1) m Cons.prems(3)] obtain en1 e where
    1: "record_book_mutation m en = (en1, Inr ())" "recorded en en1 [e]"
    "\<And>v. apply_body v (ev_body e) = apply_mutation v m" by blast
  have "engine_ok en1" "cx_tick (en_context en1) \<noteq> None"
    using 1(2) Cons.prems by (simp_all add: recorded_def)
  moreover have "list_all mutation_ok ms" using Cons.prems(2) by simp
  ultimately obtain en2 es where
    2: "record_mutations ms en1 = (en2, Inr ())" "recorded en1 en2 es"
    "\<And>v. replay v es = foldl apply_mutation v ms" using Cons.IH by blast
  show ?case
    using recorded_trans [OF 1(2) 2(2)] 1 2
    by (intro exI [of _ en2] exI [of _ "e # es"]) (simp add: step_bind_def)
qed

subsection \<open>Executions\<close>

definition trade_ok :: "trade \<Rightarrow> bool" where
  "trade_ok t = (t_aggressor_order_id t \<noteq> [] \<and> t_aggressor_agent_id t \<noteq> [] \<and> t_resting_order_id t \<noteq> [] \<and>
     t_resting_agent_id t \<noteq> [] \<and> 0 < t_price t \<and> 0 < t_quantity t \<and>
     0 \<le> t_aggressor_remaining t \<and> 0 \<le> t_resting_remaining t)"

lemma apply_execution: "apply_body v (execution_body x i t) = apply_trade v t"
  by (simp add: apply_body_def execution_body_def apply_trade_def)

lemma record_executions_ok:
  "engine_ok en \<Longrightarrow> list_all trade_ok ts \<Longrightarrow> cx_tick (en_context en) \<noteq> None \<or> 0 \<le> o_timestamp x \<Longrightarrow>
   \<exists>en' es. record_executions x ts en = (en', Inr ()) \<and> recorded en en' es \<and>
     (\<forall>v. replay v es = foldl apply_trade v ts)"
proof (induction ts arbitrary: en)
  case Nil
  then show ?case by (intro exI [of _ en] exI [of _ "[]"]) (simp add: recorded_refl)
next
  case (Cons t ts)
  let ?body = "execution_body x (next_event_id ''execute'' en) t"
  have "validate_body ?body = Inr ()"
    using Cons.prems(2) by (simp add: validate_body_def execution_body_def validate_execution_def trade_ok_def not_le not_less)
  from record_context_event [OF Cons.prems(1) this Cons.prems(3)] obtain en1 e where
    1: "record_event (context_event x ?body en) en = (en1, Inr e)" "recorded en en1 [e]" "ev_body e = ?body" by blast
  have "engine_ok en1" "cx_tick (en_context en1) \<noteq> None \<or> 0 \<le> o_timestamp x"
    using 1(2) Cons.prems by (simp_all add: recorded_def)
  moreover have "list_all trade_ok ts" using Cons.prems(2) by simp
  ultimately obtain en2 es where
    2: "record_executions x ts en1 = (en2, Inr ())" "recorded en1 en2 es"
    "\<And>v. replay v es = foldl apply_trade v ts" using Cons.IH by blast
  show ?case
    using recorded_trans [OF 1(2) 2(2)] 1 2
    by (intro exI [of _ en2] exI [of _ "e # es"]) (simp add: step_bind_def apply_execution)
qed

section \<open>Book operations under the listener\<close>

lemma view_ok_mutations:
  "view_ok v \<Longrightarrow> list_all mutation_ok ms \<Longrightarrow> view_ok (foldl apply_mutation v ms)"
proof (induction ms arbitrary: v)
  case (Cons m ms)
  have put: "view_ok (v(o_order_id a := Some (view_of a)))" if "order_ok a" for a
    using Cons.prems(1) that by (simp add: view_ok_def order_ok_def)
  have del: "view_ok (v(i := None))" for i
    using Cons.prems(1) by (simp add: view_ok_def)
  have "mutation_ok m" using Cons.prems(2) by simp
  then have "view_ok (apply_mutation v m)"
    unfolding mutation_ok_def using put del by (elim disjE exE conjE) simp_all
  with Cons show ?case by simp
qed simp

lemma view_ok_trades: "view_ok v \<Longrightarrow> list_all trade_ok ts \<Longrightarrow> view_ok (foldl apply_trade v ts)"
proof (induction ts arbitrary: v)
  case (Cons t ts)
  have "view_ok (apply_trade v t)"
    using Cons.prems by (fastforce simp: apply_trade_def trade_ok_def view_ok_def entry_ok_def)
  with Cons show ?case by simp
qed simp

text \<open>
  The effect of a step that changed the book: the invariant, and the new events explain the change.
\<close>

definition advances :: "engine \<Rightarrow> engine \<Rightarrow> exchange_event list \<Rightarrow> bool" where
  "advances en en' es = (engine_ok en' \<and> en_symbol en' = en_symbol en \<and> en_venue en' = en_venue en \<and>
     en_source en' = en_source en \<and> en_context en' = en_context en \<and>
     log_events (en_log en') = log_events (en_log en) @ es \<and>
     book_view (en_book en') = replay (book_view (en_book en)) es)"

lemma advances_refl: "engine_ok en \<Longrightarrow> advances en en []"
  by (simp add: advances_def)

lemma advances_trans: "advances en en1 es \<Longrightarrow> advances en1 en2 fs \<Longrightarrow> advances en en2 (es @ fs)"
  by (simp add: advances_def)

lemma record_book_change:
  assumes ok: "engine_ok en" and b: "book_ok b" and ex: "explains (en_book en) ms b"
    and ms: "list_all mutation_ok ms" and tk: "cx_tick (en_context en) \<noteq> None"
  shows "\<exists>en' es. record_mutations ms (en\<lparr>en_book := b\<rparr>) = (en', Inr ()) \<and> advances en en' es \<and> en_book en' = b"
proof -
  have v: "book_view b = foldl apply_mutation (book_view (en_book en)) ms"
    using ex by (simp add: explains_def)
  have "view_ok (book_view b)" unfolding v by (rule view_ok_mutations [OF engine_okD(2) [OF ok] ms])
  then have "engine_ok (en\<lparr>en_book := b\<rparr>)" using ok b by (simp add: engine_ok_def)
  from record_mutations_ok [OF this ms] tk obtain en' es where
    "record_mutations ms (en\<lparr>en_book := b\<rparr>) = (en', Inr ())" "recorded (en\<lparr>en_book := b\<rparr>) en' es"
    "\<forall>v. replay v es = foldl apply_mutation v ms" by auto
  then show ?thesis using v by (intro exI [of _ en'] exI [of _ es]) (simp add: recorded_def advances_def)
qed

lemma indexed_order_ok: "view_ok (book_view b) \<Longrightarrow> book_ok b \<Longrightarrow> dget (orders b) i = Some x \<Longrightarrow> order_ok x"
  using book_okD(4) [of b i x] by (auto simp: view_ok_def book_view_def order_ok_def)

lemma resting_order_ok: "view_ok (book_view b) \<Longrightarrow> book_ok b \<Longrightarrow> x \<in> set (resting b s p) \<Longrightarrow> order_ok x"
  using book_okD(3) indexed_order_ok by blast

lemma cancel_mutations_ok:
  "view_ok (book_view b) \<Longrightarrow> book_ok b \<Longrightarrow> cancel_order oid b = (b', ms, r) \<Longrightarrow> list_all mutation_ok ms"
  using indexed_order_ok [of b oid] by (auto simp: cancel_order_def Let_def split: option.splits if_splits)

lemma remove_level_mutations_ok:
  "view_ok (book_view b) \<Longrightarrow> book_ok b \<Longrightarrow> remove_level s p b = (b', ms) \<Longrightarrow> list_all mutation_ok ms"
  using resting_order_ok [of b] by (auto simp: remove_level_def Let_def list_all_iff)

lemma level_order_ok: "0 < sz \<Longrightarrow> 0 < p \<Longrightarrow> ow \<noteq> [] \<Longrightarrow> order_ok (level_order s p sz ow)"
  by (simp add: order_ok_iff synthetic_order_id_def level_order_def mk_order_def)

lemma update_level_mutations_ok:
  assumes "view_ok (book_view b)" and "book_ok b" and u: "update_level s p sz ow b = (b', ms)"
    and "0 < p" and "ow \<noteq> []"
  shows "list_all mutation_ok ms"
proof (cases "sz \<le> 0")
  case True
  then show ?thesis using u remove_level_mutations_ok [OF assms(1,2)] by (simp add: update_level_def)
next
  case False
  have n: "order_ok (level_order s p sz ow)" using False assms(4,5) by (intro level_order_ok) auto
  have old: "order_ok y" "o_price y = Some p" if "y \<in> set (resting b s p)" for y
    using that resting_order_ok [OF assms(1,2)] resting_order(2) [OF assms(2)] by auto
  show ?thesis
    using u False n old
    by (auto simp: update_level_def Let_def list_all_iff find_Some_iff split: option.splits if_splits)
qed

lemma agent_level_order_id_nonempty [simp]: "agent_level_order_id s p aid \<noteq> []"
  by (simp add: agent_level_order_id_def)

lemma agent_oid_nonempty [simp]: "agent_oid s p aid oid \<noteq> []"
  by (simp add: agent_oid_def str_or_def split: option.splits)

lemma update_agent_level_mutations_ok:
  assumes "view_ok (book_view b)" and "book_ok b"
    and u: "update_agent_level s p sz aid ow oid_arg ts sid snm sfm b = (b', ms)"
    and "0 < p" and "aid \<noteq> []"
  shows "list_all mutation_ok ms"
proof (cases "sz \<le> 0")
  case True
  then show ?thesis
    using u cancel_mutations_ok [OF assms(1,2)] by (auto simp: update_agent_level_def Let_def split: prod.splits)
next
  case False
  let ?oid = "agent_oid s p aid oid_arg"
  let ?n = "agent_order s p sz aid ow ?oid ts sid snm sfm"
  let ?same = "filter (\<lambda>x. o_order_id x = ?oid) (resting b s p)"
  have n: "order_ok ?n" using False assms(4,5) by (simp add: order_ok_iff agent_order_def)
  have m: "ms = (case (if ?same = [] then None else Some (last ?same)) of
              None \<Rightarrow> [mut_add ?n]
            | Some r \<Rightarrow> if r \<noteq> ?n then [mut_modify r ?n True] else [])"
    using u False by (auto simp: update_agent_level_def Let_def agent_oid_def [symmetric])
  have "order_ok (last ?same) \<and> o_price (last ?same) = Some p" if "?same \<noteq> []"
  proof -
    have "last ?same \<in> set (resting b s p)" using last_in_set [OF that] by simp
    then show ?thesis using resting_order_ok [OF assms(1,2)] resting_order(2) [OF assms(2)] by blast
  qed
  then show ?thesis using n by (simp add: m)
qed

lemma add_limit_mutations_ok:
  "add_limit_order x b = Inr (b', ms) \<Longrightarrow> o_order_id x \<noteq> [] \<Longrightarrow> o_agent_id x \<noteq> [] \<Longrightarrow>
   (\<forall>p. o_price x = Some p \<longrightarrow> 0 < p) \<Longrightarrow> list_all mutation_ok ms"
  by (auto simp: add_limit_order_def Let_def order_ok_iff split: option.splits if_splits)

lemma modify_mutations_ok:
  assumes "view_ok (book_view b)" and "book_ok b" and "modify_order r b = Inr (b', ms, res)"
  shows "list_all mutation_ok ms"
proof (cases "dget (orders b) (o_order_id r)")
  case None
  then show ?thesis using assms(3) by (simp add: modify_order_def)
next
  case (Some e)
  have e: "order_ok e" by (rule indexed_order_ok [OF assms(1,2) Some])
  have a: "o_agent_id (modified_order e r np pr) = o_agent_id e" for np pr
    by (simp add: modified_order_def)
  show ?thesis
    using assms(3) Some e
    by (auto simp: modify_order_def Let_def order_ok_iff a split: option.splits if_splits)
qed

section \<open>Requests\<close>

lemma with_context_book_change:
  assumes ok: "engine_ok en" and cx: "cx_tick cx = Some t" "0 \<le> t" and b: "book_ok b"
    and ex: "explains (en_book en) ms b" and ms: "list_all mutation_ok ms"
    and f: "f (en\<lparr>en_context := cx\<rparr>) = record_mutations ms (en\<lparr>en_context := cx, en_book := b\<rparr>)"
  shows "\<exists>en' es. with_context cx f en = (en', Inr ()) \<and> advances en en' es \<and> en_book en' = b"
proof -
  have "engine_ok (en\<lparr>en_context := cx\<rparr>)" using ok cx by (simp add: engine_ok_def context_ok_def)
  from record_book_change [OF this b _ ms] ex cx obtain en1 es where
    1: "record_mutations ms (en\<lparr>en_context := cx, en_book := b\<rparr>) = (en1, Inr ())"
    "advances (en\<lparr>en_context := cx\<rparr>) en1 es" "en_book en1 = b" by auto
  have "advances en (en1\<lparr>en_context := en_context en\<rparr>) es"
    using 1(2) ok by (auto simp: advances_def engine_ok_def)
  then show ?thesis
    using 1 by (intro exI [of _ "en1\<lparr>en_context := en_context en\<rparr>"] exI [of _ es]) (simp add: with_context_def f)
qed

lemma with_context_error:
  "f (en\<lparr>en_context := cx\<rparr>) = (en\<lparr>en_context := cx\<rparr>, Inl e) \<Longrightarrow> with_context cx f en = (en, Inl e)"
  by (simp add: with_context_def)

lemma events_after_advances:
  assumes "advances en en' es" and "engine_ok en"
  shows "events_after (log_cursor en) en' = (en', Inr es)"
proof -
  have "log_ok (en_log en')" using assms by (auto simp: advances_def engine_ok_def)
  then show ?thesis
    using assms by (simp add: events_after_def log_cursor_def next_sequence_def replay_events_drop advances_def)
qed

definition request_ok :: "order \<Rightarrow> bool" where
  "request_ok x = (o_order_id x \<noteq> [] \<and> o_agent_id x \<noteq> [] \<and> 0 \<le> o_timestamp x \<and>
     (case o_price x of None \<Rightarrow> True | Some p \<Rightarrow> 0 < p))"

lemma request_context_tick [simp]: "cx_tick (request_context x) = Some (o_timestamp x)"
  by (simp add: request_context_def)

lemma engine_cancel_advances:
  assumes ok: "engine_ok en" and x: "request_ok x"
  shows "\<exists>en' es. engine_cancel x en = (en', Inr es) \<and> advances en en' es"
proof -
  obtain b ms r where c: "cancel_order (o_order_id x) (en_book en) = (b, ms, r)" by (metis prod_cases3)
  note ok' = engine_okD(1,2) [OF ok]
  have b: "book_ok b" using cancel_order_ok [OF ok'(1), of "o_order_id x"] by (simp add: c)
  obtain en' es where e: "with_context (request_context x)
      (book_step (\<lambda>b. let (b', ms, _) = cancel_order (o_order_id x) b in (b', ms))) en = (en', Inr ())"
    "advances en en' es"
    using with_context_book_change [where f = "book_step (\<lambda>b. let (b', ms, _) = cancel_order (o_order_id x) b in (b', ms))",
        OF ok request_context_tick _ b cancel_order_explained [OF ok'(1) c]
        cancel_mutations_ok [OF ok'(2,1) c], of x] x
    by (auto simp: book_step_def c request_ok_def)
  then show ?thesis using events_after_advances [OF e(2) ok] by (simp add: engine_cancel_def step_bind_def)
qed

lemma modify_order_ValueError: "modify_order r b = Inl e \<Longrightarrow> \<exists>m. e = ValueError m"
  by (auto simp: modify_order_def Let_def split: option.splits if_splits)

lemma engine_modify_advances:
  assumes ok: "engine_ok en" and x: "request_ok x"
  shows "\<exists>en' es. (engine_modify x en = (en', Inr es) \<or> (\<exists>m. engine_modify x en = (en', Inl (ValueError m)) \<and> en' = en))
    \<and> advances en en' es"
proof -
  note ok' = engine_okD(1,2) [OF ok]
  let ?f = "book_try_step (\<lambda>b. try_bind (modify_order x b) (\<lambda>(b', ms, _). Inr (b', ms)))"
  show ?thesis
  proof (cases "modify_order x (en_book en)")
    case (Inl e)
    have "with_context (request_context x) ?f en = (en, Inl e)"
      by (rule with_context_error) (simp add: book_try_step_def Inl)
    then have "engine_modify x en = (en, Inl e)" by (simp add: engine_modify_def step_bind_def)
    with modify_order_ValueError [OF Inl] show ?thesis
      by (intro exI [of _ en] exI [of _ "[]"]) (auto simp: advances_refl [OF ok])
  next
    case (Inr r)
    obtain b ms res where r: "r = (b, ms, res)" by (metis prod_cases3)
    have m: "modify_order x (en_book en) = Inr (b, ms, res)" by (simp add: Inr r)
    obtain en' es where e: "with_context (request_context x) ?f en = (en', Inr ())" "advances en en' es"
      using with_context_book_change [where f = ?f, OF ok request_context_tick _ modify_order_ok [OF ok'(1) m]
          modify_order_explained [OF ok'(1) m] modify_mutations_ok [OF ok'(2,1) m], of x] x
      by (auto simp: book_try_step_def m request_ok_def)
    then show ?thesis
      using events_after_advances [OF e(2) ok]
      by (intro exI [of _ en'] exI [of _ es]) (simp add: engine_modify_def step_bind_def)
  qed
qed

subsection \<open>Matching\<close>

lemma match_level_agents:
  "match_level x p os rem idx = (rem', idx', lv, ts) \<Longrightarrow>
   \<forall>t\<in>set ts. \<exists>r\<in>set os. t_resting_order_id t = o_order_id r \<and> t_resting_agent_id t = o_agent_id r"
proof (induction os arbitrary: rem idx rem' idx' lv ts)
  case (Cons r rs)
  have mk: "t_resting_order_id (mk_trade x r p q m) = o_order_id r"
    "t_resting_agent_id (mk_trade x r p q m) = o_agent_id r" for q m
    by (simp_all add: mk_trade_def)
  from Cons.prems show ?case
  proof (cases rule: match_level_Cons)
    case (fill ts')
    then show ?thesis using Cons.IH [OF fill(3)] by (auto simp: mk)
  qed (simp_all add: mk)
qed simp

lemma match_prices_agents:
  "match_prices x limit ps rem b = (rem', b', ts) \<Longrightarrow> distinct ps \<Longrightarrow>
   \<forall>t\<in>set ts. \<exists>p\<in>set ps. \<exists>r\<in>set (resting b (opp_side x) p).
     t_resting_order_id t = o_order_id r \<and> t_resting_agent_id t = o_agent_id r"
proof (induction ps arbitrary: rem b ts)
  case (Cons p ps)
  from Cons.prems(1) show ?case
  proof (cases rule: match_prices_Cons)
    case (sweep rem1 idx lv ts1 ts2)
    have "\<forall>t\<in>set ts2. \<exists>q\<in>set ps. \<exists>r\<in>set (resting b (opp_side x) q).
       t_resting_order_id t = o_order_id r \<and> t_resting_agent_id t = o_agent_id r"
    proof
      fix t assume "t \<in> set ts2"
      with Cons.IH [OF sweep(4)] Cons.prems(2) obtain q r where q: "q \<in> set ps"
        and r: "r \<in> set (resting (store_level (opp_side x) p lv (b\<lparr>orders := idx\<rparr>)) (opp_side x) q)"
        "t_resting_order_id t = o_order_id r" "t_resting_agent_id t = o_agent_id r" by auto
      have "q \<noteq> p" using q Cons.prems(2) by auto
      then show "\<exists>q\<in>set ps. \<exists>r\<in>set (resting b (opp_side x) q).
         t_resting_order_id t = o_order_id r \<and> t_resting_agent_id t = o_agent_id r"
        using q r by (auto simp: resting_store_level)
    qed
    then show ?thesis using match_level_agents [OF sweep(3)] by (auto simp: sweep(5))
  qed (use Cons in auto)
qed simp

lemma match_order_trades_ok:
  assumes ok: "book_ok b" and v: "view_ok (book_view b)" and m: "match_order x limit b = (b', ts)"
    and x: "o_order_id x \<noteq> []" "o_agent_id x \<noteq> []"
  shows "list_all trade_ok ts"
proof -
  obtain rem' b1 where mp: "match_prices x limit (match_price_order x b) (o_quantity x) b = (rem', b1, ts)"
    using m by (auto simp: match_order_def split: prod.splits)
  have pos: "0 < p" if "p \<in> set (match_price_order x b)" for p
  proof -
    from that obtain os where os: "dget (levels_of b (opp_side x)) p = Some os"
      unfolding set_match_price_order by blast
    then have "os \<noteq> []" using book_okD(2) [OF ok] by (auto simp: level_ok_def)
    then obtain y where "y \<in> set (resting b (opp_side x) p)"
      using os by (cases os) (auto simp: resting_def dget_or_def)
    then show ?thesis using resting_order_ok [OF v ok] resting_order(2) [OF ok] by (force simp: order_ok_iff)
  qed
  have ids: "t_resting_order_id t \<noteq> [] \<and> t_resting_agent_id t \<noteq> []" if "t \<in> set ts" for t
    using match_prices_agents [OF mp distinct_match_price_order [OF ok]] that resting_order_ok [OF v ok]
    by (fastforce simp: order_ok_iff)
  show ?thesis
    using match_prices_trades [OF mp ok] pos ids x by (auto simp: list_all_iff trade_ok_def)
qed

lemma record_match:
  assumes ok: "engine_ok en" and m: "match_order x limit (en_book en) = (b, ts)" and x: "request_ok x"
  shows "\<exists>en' es. record_executions x ts (en\<lparr>en_book := b\<rparr>) = (en', Inr ()) \<and> advances en en' es \<and> en_book en' = b"
proof -
  note ok' = engine_okD(1,2) [OF ok]
  have ts: "list_all trade_ok ts" using x by (intro match_order_trades_ok [OF ok' m]) (auto simp: request_ok_def)
  have v: "book_view b = foldl apply_trade (book_view (en_book en)) ts"
    by (rule match_order_explained [OF ok'(1) m])
  have "view_ok (book_view b)" unfolding v by (rule view_ok_trades [OF ok'(2) ts])
  then have "engine_ok (en\<lparr>en_book := b\<rparr>)" using ok match_order_ok [OF ok'(1) m] by (simp add: engine_ok_def)
  from record_executions_ok [OF this ts, of x] x obtain en' es where
    "record_executions x ts (en\<lparr>en_book := b\<rparr>) = (en', Inr ())" "recorded (en\<lparr>en_book := b\<rparr>) en' es"
    "\<And>v. replay v es = foldl apply_trade v ts" by (auto simp: request_ok_def)
  then show ?thesis using v by (intro exI [of _ en'] exI [of _ es]) (simp add: recorded_def advances_def)
qed

lemma rest_remainder_advances:
  assumes ok: "engine_ok en" and x: "request_ok x"
  shows "\<exists>en' es. advances en en' es \<and>
    (rest_remainder x rem en = (en', Inr ()) \<or> (\<exists>m. rest_remainder x rem en = (en', Inl (ValueError m))))"
proof (cases "0 < rem")
  case False
  then show ?thesis
    by (intro exI [of _ en] exI [of _ "[]"]) (simp add: rest_remainder_def advances_refl [OF ok])
next
  case True
  let ?r = "x\<lparr>o_quantity := rem\<rparr>"
  let ?f = "book_try_step (add_limit_order ?r)"
  note ok' = engine_okD(1,2) [OF ok]
  have e: "rest_remainder x rem en = with_context (request_context ?r) ?f en"
    using True by (simp add: rest_remainder_def Let_def)
  show ?thesis
  proof (cases "add_limit_order ?r (en_book en)")
    case (Inl err)
    then have "\<exists>m. err = ValueError m" by (auto simp: add_limit_order_def Let_def split: option.splits if_splits)
    moreover have "with_context (request_context ?r) ?f en = (en, Inl err)"
      by (rule with_context_error) (simp add: book_try_step_def Inl)
    ultimately show ?thesis
      by (intro exI [of _ en] exI [of _ "[]"]) (auto simp: e advances_refl [OF ok])
  next
    case (Inr q)
    obtain b ms where q: "q = (b, ms)" by (cases q)
    have a: "add_limit_order ?r (en_book en) = Inr (b, ms)" by (simp add: Inr q)
    have ms: "list_all mutation_ok ms"
      using x by (intro add_limit_mutations_ok [OF a]) (auto simp: request_ok_def)
    obtain en' es where "with_context (request_context ?r) ?f en = (en', Inr ())" "advances en en' es"
      using with_context_book_change [where f = ?f, OF ok request_context_tick _ add_limit_order_ok [OF ok'(1) a]
          add_limit_order_explained [OF a] ms, of ?r] x
      by (auto simp: book_try_step_def a request_ok_def)
    then show ?thesis by (auto simp: e)
  qed
qed

lemma engine_match_limit_advances:
  assumes ok: "engine_ok en" and x: "request_ok x"
  shows "\<exists>en' es. advances en en' es \<and>
    (engine_match_limit x en = (en', Inr es) \<or> (\<exists>m. engine_match_limit x en = (en', Inl (ValueError m))))"
proof -
  obtain b ts where m: "match_order x (o_price x) (en_book en) = (b, ts)" by (cases "match_order x (o_price x) (en_book en)")
  from record_match [OF ok m x] obtain en1 es where
    1: "record_executions x ts (en\<lparr>en_book := b\<rparr>) = (en1, Inr ())" "advances en en1 es" by blast
  let ?rem = "fsub (o_quantity x) (filled_quantity ts)"
  have "engine_ok en1" using 1(2) by (simp add: advances_def)
  from rest_remainder_advances [OF this x, of ?rem] obtain en2 fs where
    2: "advances en1 en2 fs" "rest_remainder x ?rem en1 = (en2, Inr ()) \<or>
      (\<exists>m. rest_remainder x ?rem en1 = (en2, Inl (ValueError m)))" by blast
  have adv: "advances en en2 (es @ fs)" by (rule advances_trans [OF 1(2) 2(1)])
  from 2(2) show ?thesis
  proof
    assume "rest_remainder x ?rem en1 = (en2, Inr ())"
    then have "engine_match_limit x en = (en2, Inr (es @ fs))"
      using events_after_advances [OF adv ok] by (simp add: engine_match_limit_def m Let_def step_bind_def 1(1))
    with adv show ?thesis by blast
  next
    assume "\<exists>m. rest_remainder x ?rem en1 = (en2, Inl (ValueError m))"
    then obtain msg where "rest_remainder x ?rem en1 = (en2, Inl (ValueError msg))" by blast
    then have "engine_match_limit x en = (en2, Inl (ValueError msg))"
      by (simp add: engine_match_limit_def m Let_def step_bind_def 1(1))
    with adv show ?thesis by blast
  qed
qed

lemma engine_match_market_advances:
  assumes ok: "engine_ok en" and x: "request_ok x" and ty: "o_order_type x = MarketOrder"
  shows "\<exists>en' es. advances en en' es \<and> engine_match_market x en = (en', Inr es)"
proof -
  obtain b ts where m: "match_order x None (en_book en) = (b, ts)" by (cases "match_order x None (en_book en)")
  from record_match [OF ok m x] obtain en1 es where
    1: "record_executions x ts (en\<lparr>en_book := b\<rparr>) = (en1, Inr ())" "advances en en1 es" by blast
  then show ?thesis
    using events_after_advances [OF 1(2) ok] ty
    by (intro exI [of _ en1] exI [of _ es]) (simp add: engine_match_market_def apply_market_order_def m step_bind_def)
qed

lemma process_event_advances:
  assumes "engine_ok en" and "request_ok x"
  shows "\<exists>en' es. advances en en' es \<and>
    (process_event x en = (en', Inr es) \<or> (\<exists>m. process_event x en = (en', Inl (ValueError m))))"
  using engine_cancel_advances [OF assms] engine_modify_advances [OF assms]
    engine_match_limit_advances [OF assms] engine_match_market_advances [OF assms]
  by (cases "o_order_type x") (auto simp: process_event_def)

section \<open>Snapshots\<close>

lemma get_snapshot_book: "get_snapshot depth b = Inr (b', snap) \<Longrightarrow> b' = recalculate b"
  by (simp add: get_snapshot_def Let_def split: if_splits)

lemma engine_ok_recalculate: "engine_ok en \<Longrightarrow> engine_ok (en\<lparr>en_book := recalculate (en_book en)\<rparr>)"
  by (simp add: engine_ok_def)

lemma record_snapshot_advances:
  assumes ok: "engine_ok en"
  shows "\<exists>en' es. advances en en' es \<and>
    ((\<exists>e. record_snapshot tick depth xts rts sid snm sfm en = (en', Inr e) \<and> es = [e]) \<or>
     (\<exists>err. record_snapshot tick depth xts rts sid snm sfm en = (en', Inl err) \<and> es = []))"
proof (cases "get_snapshot depth (en_book en)")
  case (Inl e)
  then show ?thesis
    by (intro exI [of _ en] exI [of _ "[]"]) (simp add: record_snapshot_def advances_refl [OF ok])
next
  case (Inr r)
  then obtain snap where r: "get_snapshot depth (en_book en) = Inr (recalculate (en_book en), snap)"
    using get_snapshot_book by (cases r) auto
  let ?en = "en\<lparr>en_book := recalculate (en_book en)\<rparr>"
  let ?e = "\<lparr>ev_event_id = next_event_id ''snapshot'' en, ev_source = en_source en,
             ev_symbol = en_symbol en, ev_venue = en_venue en, ev_sequence = None,
             ev_source_sequence = None, ev_tick = Some tick, ev_exchange_timestamp_ns = xts,
             ev_received_timestamp_ns = rts, ev_scenario_id = sid, ev_scenario_name = snm,
             ev_scenario_family = sfm, ev_schema_version = 1, ev_body = SnapshotBody depth snap\<rparr>"
  have e: "record_snapshot tick depth xts rts sid snm sfm en = record_event ?e ?en"
    by (simp add: record_snapshot_def r)
  have ok': "engine_ok ?en" by (rule engine_ok_recalculate [OF ok])
  have lift: "advances en en' es" if "advances ?en en' es" for en' es
    using that by (simp add: advances_def)
  show ?thesis
  proof (cases "valid_event ?e")
    case True
    from record_event_ok [OF ok' True] obtain en' where
      1: "record_event ?e ?en = (en', Inr (stamped (en_log ?en) ?e))" "recorded ?en en' [stamped (en_log ?en) ?e]"
      by (auto simp: next_event_id_def)
    have "advances ?en en' [stamped (en_log ?en) ?e]"
      using 1(2) by (simp add: recorded_def advances_def apply_body_def)
    with lift 1(1) show ?thesis unfolding e by blast
  next
    case False
    then obtain err where "post_init ?e = Inl err"
      using post_init_valid by (cases "post_init ?e") auto
    then have "record_event ?e ?en = (?en, Inl err)" by (simp add: record_event_def)
    then show ?thesis
      unfolding e using lift [OF advances_refl [OF ok']] by blast
  qed
qed

section \<open>Runs\<close>

text \<open>Well-formed requests (\<open>request_ok\<close>) and any snapshots, in any order, whether they raise or not, of an
  engine made with the book \<open>b0\<close>. The book's indexes agree and its orders have an id, an agent and a positive
  price; the empty book is one.\<close>

inductive engine_trans :: "engine \<Rightarrow> engine \<Rightarrow> bool" where
  trans_submit: "request_ok x \<Longrightarrow> process_event x en = (en', r) \<Longrightarrow> engine_trans en en'"
| trans_snapshot: "record_snapshot tick depth xts rts sid snm sfm en = (en', r) \<Longrightarrow> engine_trans en en'"

inductive_cases engine_transE: "engine_trans en en'"

inductive reachable_engine :: "order_book \<Rightarrow> engine \<Rightarrow> bool" for b0 where
  reach_start: "smb \<noteq> [] \<Longrightarrow> ven \<noteq> [] \<Longrightarrow> book_ok b0 \<Longrightarrow> view_ok (book_view b0) \<Longrightarrow>
    reachable_engine b0 (new_engine smb ven src b0)"
| reach_step: "reachable_engine b0 en \<Longrightarrow> engine_trans en en' \<Longrightarrow> reachable_engine b0 en'"

lemma engine_ok_from:
  "smb \<noteq> [] \<Longrightarrow> ven \<noteq> [] \<Longrightarrow> book_ok b \<Longrightarrow> view_ok (book_view b) \<Longrightarrow> engine_ok (new_engine smb ven src b)"
  by (simp add: engine_ok_def new_engine_def log_numbered_def context_ok_def empty_context_def)
    (simp add: empty_log_def)

lemma empty_view: "book_view empty_book = (\<lambda>_. None)" "view_ok (book_view empty_book)"
  by (simp_all add: view_ok_def book_view_def empty_book_def fun_eq_iff)

lemma reach_empty: "smb \<noteq> [] \<Longrightarrow> ven \<noteq> [] \<Longrightarrow> reachable_engine empty_book (new_engine smb ven src empty_book)"
  by (rule reachable_engine.reach_start [OF _ _ empty_book_ok empty_view(2)])

lemma new_engine_ok: "smb \<noteq> [] \<Longrightarrow> ven \<noteq> [] \<Longrightarrow> engine_ok (new_engine smb ven src empty_book)"
  by (simp add: engine_ok_def new_engine_def empty_book_ok view_ok_def book_view_def
      log_numbered_def context_ok_def empty_context_def) (simp add: empty_book_def empty_log_def)

lemma engine_trans_advances:
  assumes "engine_ok en" and "engine_trans en en'"
  shows "\<exists>es. advances en en' es"
  using assms(2)
proof (elim engine_transE)
  fix x r
  assume "request_ok x" "process_event x en = (en', r)"
  then show ?thesis using process_event_advances [OF assms(1), of x] by auto
next
  fix tick depth xts rts sid snm sfm r
  assume "record_snapshot tick depth xts rts sid snm sfm en = (en', r)"
  then show ?thesis using record_snapshot_advances [OF assms(1), of tick depth xts rts sid snm sfm] by auto
qed

lemma reachable_engine_inv:
  "reachable_engine b0 en \<Longrightarrow> engine_ok en \<and> book_view (en_book en) = replay (book_view b0) (log_events (en_log en))"
proof (induction rule: reachable_engine.induct)
  case (reach_start smb ven src)
  then show ?case using engine_ok_from by (simp add: new_engine_def empty_log_def)
next
  case (reach_step en en')
  then obtain es where "advances en en' es" using engine_trans_advances by blast
  then show ?case using reach_step.IH by (simp add: advances_def)
qed

section \<open>Properties\<close>

text \<open>C1. Take an engine started with any consistent book and give it well-formed requests (non-empty order and
  agent id, non-negative timestamp, no non-positive price) and snapshots in any order, including those that
  raise. In every state, replaying the event log from the orders of the starting book gives the orders of the
  book: which orders rest, whose they are, their side, price, remaining quantity and owner. The book's indexes
  agree with its queues and the log is well formed. The condition on the price is needed; see
  \<open>unpriced_order_not_logged\<close> below.\<close>

theorem event_log_determines_book:
  assumes "reachable_engine b0 en"
  shows "book_view (en_book en) = replay (book_view b0) (log_events (en_log en)) \<and>
    book_ok (en_book en) \<and> log_ok (en_log en)"
  using reachable_engine_inv [OF assms] by (simp add: engine_ok_def)

definition demo_orders :: "order list" where
  "demo_orders =
     [mk_order ''a1'' ''mm'' Sell 5 (Some 101), mk_order ''a2'' ''mm2'' Sell 3 (Some 101),
      mk_order ''b1'' ''mm'' Buy 4 (Some 99), mk_order ''t1'' ''taker'' Buy 6 (Some 101),
      (mk_order ''b1'' ''mm'' Buy 2 (Some 100))\<lparr>o_order_type := ModifyOrder\<rparr>,
      (mk_order ''a2'' ''mm2'' Sell 1 None)\<lparr>o_order_type := CancelOrder\<rparr>,
      mk_order ''b1'' ''late'' Buy 1 (Some 90)]"

definition demo_run :: "order list \<Rightarrow> engine" where
  "demo_run xs = foldl (\<lambda>en x. fst (process_event x en)) (new_engine ''LOB'' ''SIM'' Simulation empty_book) xs"

lemma run_reachable:
  "reachable_engine b0 en \<Longrightarrow> list_all request_ok xs \<Longrightarrow>
   reachable_engine b0 (foldl (\<lambda>en x. fst (process_event x en)) en xs)"
proof (induction xs arbitrary: en)
  case (Cons x xs)
  have "engine_trans en (fst (process_event x en))"
    using Cons.prems(2) by (intro engine_trans.trans_submit [of x en _ "snd (process_event x en)"]) auto
  with Cons show ?case by (auto intro: reachable_engine.reach_step)
qed simp

lemma demo_run_reachable: "reachable_engine empty_book (demo_run demo_orders)"
proof -
  have "list_all request_ok demo_orders" by code_simp
  then show ?thesis unfolding demo_run_def by (intro run_reachable reach_empty) auto
qed

theorem event_log_determines_book_witness:
  "book_view (en_book (demo_run demo_orders)) ''b1'' =
     Some \<lparr>ve_agent = ''mm'', ve_side = Buy, ve_price = Some 100, ve_quantity = 2, ve_owner = ''normal''\<rparr> \<and>
   replay (\<lambda>_. None) (log_events (en_log (demo_run demo_orders))) ''b1'' =
     book_view (en_book (demo_run demo_orders)) ''b1'' \<and>
   length (log_events (en_log (demo_run demo_orders))) = 7"
proof -
  have "length (log_events (en_log (demo_run demo_orders))) = 7" by code_simp
  moreover have "book_view (en_book (demo_run demo_orders)) ''b1'' =
     Some \<lparr>ve_agent = ''mm'', ve_side = Buy, ve_price = Some 100, ve_quantity = 2, ve_owner = ''normal''\<rparr>"
    by code_simp
  ultimately show ?thesis using event_log_determines_book [OF demo_run_reachable] by (simp add: empty_view)
qed

text \<open>A limit order with a non-positive price is in the book before its event is rejected: the request raises,
  the book has the order and the log has nothing to replay.\<close>

theorem unpriced_order_not_logged:
  "\<exists>m en. process_event (mk_order ''z'' ''mm'' Buy 1 (Some 0)) (new_engine ''LOB'' ''SIM'' Simulation empty_book)
       = (en, Inl (ValueError m)) \<and>
     book_view (en_book en) ''z'' \<noteq> None \<and> log_events (en_log en) = []"
proof -
  have "case process_event (mk_order ''z'' ''mm'' Buy 1 (Some 0)) (new_engine ''LOB'' ''SIM'' Simulation empty_book) of
      (en, Inl (ValueError m)) \<Rightarrow> book_view (en_book en) ''z'' \<noteq> None \<and> log_events (en_log en) = [] | _ \<Rightarrow> False"
    by code_simp
  then show ?thesis by (auto split: prod.splits sum.splits py_error.splits)
qed

text \<open>C2. A request with a non-empty order id and agent, a non-negative timestamp and no non-positive
  price either returns exactly the events it appended, or raises a ValueError; in both cases the
  engine's invariant holds after it and the appended events explain how the book changed. No request
  ends in another exception or leaves a change without its event.\<close>

theorem process_event_accounts:
  assumes "engine_ok en" and "request_ok x"
  shows "\<exists>en' es. engine_ok en' \<and> log_events (en_log en') = log_events (en_log en) @ es \<and>
    book_view (en_book en') = replay (book_view (en_book en)) es \<and> en_context en' = en_context en \<and>
    (process_event x en = (en', Inr es) \<or> (\<exists>m. process_event x en = (en', Inl (ValueError m))))"
  using process_event_advances [OF assms] unfolding advances_def by blast

theorem process_event_accounts_witness:
  "\<exists>en' es. engine_ok en' \<and> length es = 2 \<and>
    process_event (mk_order ''t9'' ''taker'' Sell 3 (Some 100)) (demo_run demo_orders) = (en', Inr es)"
proof -
  let ?x = "mk_order ''t9'' ''taker'' Sell 3 (Some 100)"
  have ok: "engine_ok (demo_run demo_orders)" using reachable_engine_inv [OF demo_run_reachable] by simp
  have x: "request_ok ?x" by code_simp
  have "case process_event ?x (demo_run demo_orders) of (_, Inr es) \<Rightarrow> length es = 2 | _ \<Rightarrow> False" by code_simp
  with process_event_accounts [OF ok x] show ?thesis by auto
qed

end
