(* ===== verification/MatchProperties.thy ===== *)
theory MatchProperties
  imports EngineReplay
begin

text \<open>
  What a client of the exchange can count on when an order is matched: price-time priority, the
  limit, conservation of quantity, and a book whose best bid stays below its best ask. Quantities
  are floats, so conservation and the last of these are stated for quantities on a common grid;
  \<open>float_residue_locks_book\<close> shows what happens off it.
\<close>

section \<open>Crossing\<close>

definition uncrossed :: "order_book \<Rightarrow> bool" where
  "uncrossed b = (case (best_bid b, best_ask b) of (Some x, Some y) \<Rightarrow> x < y | _ \<Rightarrow> True)"

lemma uncrossed_iff:
  "uncrossed b \<longleftrightarrow> (\<forall>x y. dget (levels_of b Bid) x \<noteq> None \<longrightarrow> dget (levels_of b Ask) y \<noteq> None \<longrightarrow> x < y)"
proof (cases "best_bid b")
  case None
  then show ?thesis by (auto simp: uncrossed_def best_bid_def max_opt_def levels_of_def split: if_splits)
next
  case bid: (Some m)
  then have m: "m \<in> set (dkeys (bids b))" "\<And>x. x \<in> set (dkeys (bids b)) \<Longrightarrow> x \<le> m"
    unfolding best_bid_def max_opt_Some by auto
  show ?thesis
  proof (cases "best_ask b")
    case None
    then show ?thesis by (auto simp: uncrossed_def best_ask_def min_opt_def levels_of_def split: if_splits option.splits)
  next
    case (Some n)
    then have n: "n \<in> set (dkeys (asks b))" "\<And>x. x \<in> set (dkeys (asks b)) \<Longrightarrow> n \<le> x"
      unfolding best_ask_def min_opt_Some by auto
    have "uncrossed b \<longleftrightarrow> m < n" by (simp add: uncrossed_def bid Some)
    also have "\<dots> \<longleftrightarrow> (\<forall>x\<in>set (dkeys (bids b)). \<forall>y\<in>set (dkeys (asks b)). x < y)"
      using m n by (meson order.strict_trans1 order.strict_trans2)
    finally show ?thesis unfolding levels_of_def dkeys_iff [symmetric] by auto
  qed
qed

lemma uncrossed_recalculate [simp]: "uncrossed (recalculate b) = uncrossed b"
  by (simp add: uncrossed_def)

lemma grid_book_recalculate [simp]: "grid_book k (recalculate b) = grid_book k b"
  by (simp add: grid_book_def)

lemma levels_subset_uncrossed:
  "uncrossed b \<Longrightarrow> (\<And>s p. dget (levels_of b' s) p \<noteq> None \<Longrightarrow> dget (levels_of b s) p \<noteq> None) \<Longrightarrow> uncrossed b'"
  unfolding uncrossed_iff by blast

lemma match_order_levels_subset:
  assumes "match_order x limit b = (b', ts)"
  shows "dget (levels_of b' s) p \<noteq> None \<Longrightarrow> dget (levels_of b s) p \<noteq> None"
    and "levels_of b' (side_of_order (o_side x)) = levels_of b (side_of_order (o_side x))"
proof -
  obtain rem' b1 where mp: "match_prices x limit (match_price_order x b) (o_quantity x) b = (rem', b1, ts)"
    and b': "b' = recalculate b1"
    using assms by (auto simp: match_order_def split: prod.splits)
  note fr = match_prices_frame [OF mp]
  show "levels_of b' (side_of_order (o_side x)) = levels_of b (side_of_order (o_side x))"
    using fr by (simp add: b')
  have "s = side_of_order (o_side x) \<or> s = opp_side x"
    by (cases s; cases "o_side x") (simp_all add: opp_side_def side_of_order_def opposite_def)
  then show "dget (levels_of b' s) p \<noteq> None \<Longrightarrow> dget (levels_of b s) p \<noteq> None"
    using fr by (auto simp: b')
qed

section \<open>The resting remainder\<close>

text \<open>
  On the grid the engine's remaining quantity is what the sweep left over, and when something is left
  no eligible price level is.
\<close>

lemma match_order_grid:
  assumes m: "match_order x limit b = (b', ts)" and ok: "book_ok b" and g: "grid_book k b"
    and q: "on_grid k (o_quantity x)" "0 \<le> o_quantity x" "o_quantity x \<le> 2 ^ 53 * pow2 k"
  defines "left \<equiv> fsub (o_quantity x) (filled_quantity ts)"
  shows "traded ts + left = o_quantity x" and "0 \<le> left" and "on_grid k left" and "grid_book k b'"
    and "0 < left \<Longrightarrow> \<not> beyond_limit (o_side x) limit p \<Longrightarrow> dget (levels_of b' (opp_side x)) p = None"
    and "queue_total (resting b' (opp_side x) p) + traded (filter (\<lambda>t. t_price t = p) ts) =
      queue_total (resting b (opp_side x) p)"
proof -
  let ?ps = "match_price_order x b"
  obtain rem' b1 where mp: "match_prices x limit ?ps (o_quantity x) b = (rem', b1, ts)"
    and b': "b' = recalculate b1"
    using m by (auto simp: match_order_def split: prod.splits)
  note d = distinct_match_price_order [OF ok]
  note con = match_prices_conserves [OF mp g ok q d]
  have r0: "0 \<le> rem'" by (rule match_prices_rem_nonneg [OF mp q(2)])
  have pos: "\<forall>t\<in>set ts. 0 < t_quantity t" using match_prices_trades [OF mp ok] by blast
  have tr: "traded ts + rem' = o_quantity x" "on_grid k rem'" "grid_book k b1"
    "\<forall>t\<in>set ts. on_grid k (t_quantity t)" using con by blast+
  have "sum_list (map t_quantity ts) \<le> 2 ^ 53 * pow2 k"
    using tr(1) r0 q(3) by (simp add: traded_def)
  then have fq: "filled_quantity ts = traded ts"
    unfolding filled_quantity_def traded_def using tr(4) pos by (intro fsum_grid) (auto intro: less_imp_le)
  have diff: "o_quantity x - traded ts = rem'" using tr(1) by simp
  then have "fsub (o_quantity x) (traded ts) = rnd64 rem'" by (simp add: fsub_def)
  also have "\<dots> = rem'"
  proof (rule rnd64_grid [OF tr(2)])
    have "0 \<le> traded ts" using pos unfolding traded_def by (intro sum_list_nonneg) (auto intro: less_imp_le)
    then show "\<bar>rem'\<bar> \<le> 2 ^ 53 * pow2 k" using r0 tr(1) q(3) by simp
  qed
  finally have l: "left = rem'" by (simp add: left_def fq)
  show "traded ts + left = o_quantity x" "0 \<le> left" "on_grid k left" "grid_book k b'"
    using tr r0 by (simp_all add: l b')
  show "dget (levels_of b' (opp_side x)) p = None" if "0 < left" "\<not> beyond_limit (o_side x) limit p"
  proof (cases "p \<in> set ?ps")
    case True
    then show ?thesis using match_prices_exhausts [OF mp _ True that(2)] that(1) by (simp add: b' l)
  next
    case False
    then have "dget (levels_of b (opp_side x)) p = None" by (simp add: set_match_price_order)
    then show ?thesis using match_prices_frame [OF mp] by (metis b' recalculate_frame(1))
  qed
  show "queue_total (resting b' (opp_side x) p) + traded (filter (\<lambda>t. t_price t = p) ts) =
      queue_total (resting b (opp_side x) p)"
  proof (cases "p \<in> set ?ps")
    case True
    then show ?thesis using con by (simp add: b')
  next
    case False
    then have "filter (\<lambda>t. t_price t = p) ts = []"
      using match_prices_trades [OF mp ok] by (auto simp: filter_empty_conv)
    moreover have "resting b1 (opp_side x) p = resting b (opp_side x) p" using con False by blast
    ultimately show ?thesis by (simp add: b')
  qed
qed

lemma record_event_book: "record_event ev e = (e', r) \<Longrightarrow> en_book e' = en_book e"
  by (auto simp: record_event_def split: sum.splits)

lemma record_book_mutation_book: "record_book_mutation m e = (e', r) \<Longrightarrow> en_book e' = en_book e"
  by (auto simp: record_book_mutation_def step_bind_def dest: record_event_book
      split: option.splits mutation_type.splits prod.splits sum.splits)

lemma record_mutations_book: "record_mutations ms e = (e', r) \<Longrightarrow> en_book e' = en_book e"
proof (induction ms arbitrary: e)
  case (Cons m ms)
  then show ?case
    by (auto simp: step_bind_def dest: record_book_mutation_book split: prod.splits sum.splits)
qed simp

lemma record_executions_book: "record_executions x ts e = (e', r) \<Longrightarrow> en_book e' = en_book e"
proof (induction ts arbitrary: e)
  case (Cons t ts)
  then show ?case by (auto simp: step_bind_def dest: record_event_book split: prod.splits sum.splits)
qed simp

lemma rest_remainder_book:
  "rest_remainder x rem en = (en', r) \<Longrightarrow> en_book en' =
    (if 0 < rem then (case add_limit_order (x\<lparr>o_quantity := rem\<rparr>) (en_book en) of
        Inl _ \<Rightarrow> en_book en | Inr (b, _) \<Rightarrow> b) else en_book en)"
  by (auto simp: rest_remainder_def Let_def with_context_def book_try_step_def
      dest: record_mutations_book split: prod.splits sum.splits if_splits)

text \<open>The book a limit order leaves, when no event is rejected.\<close>

lemma engine_match_limit_book:
  assumes ok: "engine_ok en" and x: "request_ok x"
    and m: "match_order x (o_price x) (en_book en) = (b, ts)" and e: "engine_match_limit x en = (en', r)"
  defines "left \<equiv> fsub (o_quantity x) (filled_quantity ts)"
  shows "en_book en' = (if 0 < left then (case add_limit_order (x\<lparr>o_quantity := left\<rparr>) b of
        Inl _ \<Rightarrow> b | Inr (b', _) \<Rightarrow> b') else b)"
proof -
  from record_match [OF ok m x] obtain en1 es where
    1: "record_executions x ts (en\<lparr>en_book := b\<rparr>) = (en1, Inr ())" "en_book en1 = b" by blast
  obtain en2 r2 where 2: "rest_remainder x left en1 = (en2, r2)" by (cases "rest_remainder x left en1")
  have "en' = en2"
    using e 2 by (cases r2) (auto simp: engine_match_limit_def m Let_def step_bind_def 1(1) left_def events_after_def)
  then show ?thesis using rest_remainder_book [OF 2] by (simp only: 1(2))
qed

lemma rested_uncrossed:
  assumes b: "book_ok b" "uncrossed b" "grid_book k b"
    and a: "add_limit_order x b = Inr (b', ms)" and p: "o_price x = Some p"
    and q: "on_grid k (o_quantity x)" "o_quantity x \<le> 2 ^ 53 * pow2 k"
    and gone: "\<And>p'. \<not> beyond_limit (o_side x) (Some p) p' \<Longrightarrow> dget (levels_of b (opp_side x)) p' = None"
  shows "uncrossed b'" and "grid_book k b'"
proof -
  note rep = add_limit_order_replaces [OF b(1) a p]
  have "0 < o_quantity x" using a by (auto elim: add_limit_order_Inr)
  with b(3) q show "grid_book k b'"
    by (auto simp: grid_book_def replaces_resting [OF rep] grid_orders_def)
  have gone': "p < p'" if "o_side x = Buy" "dget (levels_of b Ask) p' \<noteq> None" for p'
    using gone [of p'] that by (force simp: opp_side_def side_of_order_def opposite_def beyond_limit_def)
  have gone'': "p' < p" if "o_side x = Sell" "dget (levels_of b Bid) p' \<noteq> None" for p'
    using gone [of p'] that by (force simp: opp_side_def side_of_order_def opposite_def beyond_limit_def)
  show "uncrossed b'"
    using b(2) gone' gone''
    by (cases "o_side x")
      (auto simp: uncrossed_iff replacesD(2) [OF rep] side_of_order_def split: if_splits)
qed

lemma limit_order_uncrossed:
  assumes ok: "engine_ok en" and x: "request_ok x" and p: "o_price x = Some p"
    and b: "uncrossed (en_book en)" "grid_book k (en_book en)"
    and q: "on_grid k (o_quantity x)" "0 \<le> o_quantity x" "o_quantity x \<le> 2 ^ 53 * pow2 k"
    and e: "engine_match_limit x en = (en', r)"
  shows "uncrossed (en_book en') \<and> grid_book k (en_book en')"
proof -
  obtain b ts where m: "match_order x (o_price x) (en_book en) = (b, ts)"
    by (cases "match_order x (o_price x) (en_book en)")
  let ?left = "fsub (o_quantity x) (filled_quantity ts)"
  note ok' = engine_okD(1) [OF ok]
  note g = match_order_grid [OF m ok' b(2) q]
  have bok: "book_ok b" by (rule match_order_ok [OF ok' m])
  have u: "uncrossed b" by (rule levels_subset_uncrossed [OF b(1) match_order_levels_subset(1) [OF m]])
  have "0 \<le> traded ts"
  proof -
    obtain rem' b1 where "match_prices x (o_price x) (match_price_order x (en_book en)) (o_quantity x) (en_book en) = (rem', b1, ts)"
      using m by (auto simp: match_order_def split: prod.splits)
    from match_prices_trades [OF this ok'] show ?thesis
      unfolding traded_def by (intro sum_list_nonneg) (auto intro: less_imp_le)
  qed
  then have small: "?left \<le> 2 ^ 53 * pow2 k" using g(1) q(3) by linarith
  show ?thesis
  proof (cases "add_limit_order (x\<lparr>o_quantity := ?left\<rparr>) b")
    case (Inl err)
    then show ?thesis using engine_match_limit_book [OF ok x m e] u g(4) by simp
  next
    case (Inr c)
    obtain b' ms where c: "add_limit_order (x\<lparr>o_quantity := ?left\<rparr>) b = Inr (b', ms)"
      using Inr by (cases c) auto
    have pos: "0 < ?left" using c by (auto elim: add_limit_order_Inr)
    have "dget (levels_of b (opp_side (x\<lparr>o_quantity := ?left\<rparr>))) p' = None"
      if "\<not> beyond_limit (o_side (x\<lparr>o_quantity := ?left\<rparr>)) (Some p) p'" for p'
      using g(5) [OF pos, of p'] that p by (simp add: opp_side_def)
    from rested_uncrossed [OF bok u g(4) c _ _ _ this] p g(3) small
    have "uncrossed b'" "grid_book k b'" by simp_all
    then show ?thesis using engine_match_limit_book [OF ok x m e] pos by (simp add: c)
  qed
qed

section \<open>Partial fills come last\<close>

lemma match_level_fills:
  "match_level x p os rem idx = (rem', idx', lv, ts) \<Longrightarrow>
   (\<forall>t\<in>set (butlast ts). t_resting_remaining t = 0) \<and> (0 < rem' \<longrightarrow> (\<forall>t\<in>set ts. t_resting_remaining t = 0))"
proof (induction os arbitrary: rem idx rem' idx' lv ts)
  case (Cons r rs)
  from Cons.prems show ?case
  proof (cases rule: match_level_Cons)
    case (fill ts')
    have "t_resting_remaining (mk_trade x r p (o_quantity r) m) = 0" for m
      by (simp add: mk_trade_def float_signs)
    with Cons.IH [OF fill(3)] show ?thesis by (auto simp: fill(4))
  qed simp_all
qed simp

lemma match_prices_fills:
  "match_prices x limit ps rem b = (rem', b', ts) \<Longrightarrow> \<forall>t\<in>set (butlast ts). t_resting_remaining t = 0"
proof (induction ps arbitrary: rem b ts)
  case (Cons p ps)
  from Cons.prems show ?case
  proof (cases rule: match_prices_Cons)
    case (sweep rem1 idx lv ts1 ts2)
    note lev = match_level_fills [OF sweep(3)]
    show ?thesis
    proof (cases "0 < rem1")
      case True
      then show ?thesis using lev Cons.IH [OF sweep(4)] by (auto simp: sweep(5) butlast_append)
    next
      case False
      then have "ts2 = []" using sweep(4) by (simp add: match_prices_stop)
      then show ?thesis using lev by (simp add: sweep(5))
    qed
  qed (use Cons in auto)
qed simp

section \<open>Properties\<close>

text \<open>C3. Price-time priority: an order trades with the resting orders in the order best price first,
  then queue position, skipping none, and only within its limit; every resting order it meets except
  the last is filled completely, and every trade has a positive quantity.\<close>

theorem match_order_priority:
  assumes "book_ok b" and "match_order x limit b = (b', ts)"
  shows "prefix (map (\<lambda>t. (t_price t, t_resting_order_id t)) ts)
      (concat (map (\<lambda>p. map (\<lambda>r. (p, o_order_id r)) (resting b (opposite (side_of_order (o_side x))) p))
        (filter (\<lambda>p. \<not> beyond_limit (o_side x) limit p)
          (case o_side x of Buy \<Rightarrow> sort (dkeys (asks b)) | Sell \<Rightarrow> rev (sort (dkeys (bids b))))))) \<and>
    (\<forall>t\<in>set (butlast ts). t_resting_remaining t = 0) \<and>
    (\<forall>t\<in>set ts. 0 < t_quantity t \<and> \<not> beyond_limit (o_side x) limit (t_price t)) \<and> book_ok b'"
proof -
  obtain rem' b1 where mp: "match_prices x limit (match_price_order x b) (o_quantity x) b = (rem', b1, ts)"
    using assms(2) by (auto simp: match_order_def split: prod.splits)
  obtain n where "map trade_key ts = take n (priority_queue x limit (match_price_order x b) b)"
    using match_prices_priority [OF mp distinct_match_price_order [OF assms(1)]] by blast
  then have "prefix (map trade_key ts) (priority_queue x limit (match_price_order x b) b)"
    by (simp add: take_is_prefix)
  moreover have "map trade_key ts = map (\<lambda>t. (t_price t, t_resting_order_id t)) ts"
    by (simp add: trade_key_def)
  ultimately show ?thesis
    using match_prices_fills [OF mp] match_prices_trades [OF mp assms(1)] match_order_ok [OF assms]
    by (simp add: priority_queue_def opp_side_def match_price_order_def)
qed

definition demo_book :: order_book where
  "demo_book = en_book (demo_run
     [mk_order ''a1'' ''mm'' Sell 5 (Some 101), mk_order ''a2'' ''mm2'' Sell 3 (Some 101),
      mk_order ''a3'' ''mm'' Sell 4 (Some 102), mk_order ''b1'' ''mm'' Buy 4 (Some 99)])"

lemma demo_book_ok: "book_ok demo_book"
proof -
  have "list_all request_ok
     [mk_order ''a1'' ''mm'' Sell 5 (Some 101), mk_order ''a2'' ''mm2'' Sell 3 (Some 101),
      mk_order ''a3'' ''mm'' Sell 4 (Some 102), mk_order ''b1'' ''mm'' Buy 4 (Some 99)]" by code_simp
  then have "reachable_engine empty_book (demo_run
     [mk_order ''a1'' ''mm'' Sell 5 (Some 101), mk_order ''a2'' ''mm2'' Sell 3 (Some 101),
      mk_order ''a3'' ''mm'' Sell 4 (Some 102), mk_order ''b1'' ''mm'' Buy 4 (Some 99)])"
    unfolding demo_run_def by (intro run_reachable reach_empty) auto
  then show ?thesis using reachable_engine_inv by (simp add: demo_book_def engine_ok_def)
qed

theorem match_order_priority_witness:
  "\<exists>b' ts. match_order (mk_order ''t'' ''taker'' Buy 10 (Some 102)) (Some 102) demo_book = (b', ts) \<and>
    map t_resting_order_id ts = [''a1'', ''a2'', ''a3''] \<and> book_ok b'"
proof -
  let ?x = "mk_order ''t'' ''taker'' Buy 10 (Some 102)"
  obtain b' ts where m: "match_order ?x (Some 102) demo_book = (b', ts)"
    by (cases "match_order ?x (Some 102) demo_book")
  have "map t_resting_order_id (snd (match_order ?x (Some 102) demo_book)) = [''a1'', ''a2'', ''a3'']" by code_simp
  with m match_order_priority [OF demo_book_ok m] show ?thesis by auto
qed

text \<open>C4. On a grid of quantities (multiples of one power of two, below 2 to the 53 of them) matching
  conserves quantity: the trades and what the engine computes as the remainder add up to the order,
  each level loses exactly what was traded at its price, and a remainder is only left when no level
  within the limit is.\<close>

theorem match_order_conserves:
  assumes "match_order x limit b = (b', ts)" and "book_ok b" and "grid_book k b"
    and "on_grid k (o_quantity x)" and "0 \<le> o_quantity x" and "o_quantity x \<le> 2 ^ 53 * pow2 k"
  shows "traded ts + fsub (o_quantity x) (filled_quantity ts) = o_quantity x \<and>
    (\<forall>p. queue_total (resting b' (opposite (side_of_order (o_side x))) p) + traded (filter (\<lambda>t. t_price t = p) ts)
      = queue_total (resting b (opposite (side_of_order (o_side x))) p)) \<and>
    (0 < fsub (o_quantity x) (filled_quantity ts) \<longrightarrow>
      (\<forall>p. \<not> beyond_limit (o_side x) limit p \<longrightarrow> resting b' (opposite (side_of_order (o_side x))) p = []))"
  using match_order_grid [OF assms]
  by (auto simp: opp_side_def resting_def dget_or_def)

lemma on_grid_numerals [simp]:
  "on_grid 0 (of_int n)" "on_grid 0 1" "on_grid 0 (numeral w)"
  using Ints_numeral [where 'a = rat] by (simp_all add: on_grid_def pow2_def)

lemma demo_book_grid: "grid_book 0 demo_book"
proof -
  have "\<forall>(i, x)\<in>set (orders demo_book). o_quantity x \<in> {3, 4, 5}" by code_simp
  then have "\<forall>x\<in>set (resting demo_book s p). o_quantity x \<in> {3, 4, 5}" for s p
    using book_okD(3) [OF demo_book_ok, of _ s p] by (fastforce dest: map_of_SomeD)
  then show ?thesis by (fastforce simp: grid_book_def grid_orders_def pow2_def)
qed

theorem match_order_conserves_witness:
  "\<exists>b' ts. match_order (mk_order ''t'' ''taker'' Buy 20 (Some 102)) (Some 102) demo_book = (b', ts) \<and>
    traded ts = 12 \<and> resting b' Ask 102 = []"
proof -
  let ?x = "mk_order ''t'' ''taker'' Buy 20 (Some 102)"
  obtain b' ts where m: "match_order ?x (Some 102) demo_book = (b', ts)"
    by (cases "match_order ?x (Some 102) demo_book")
  have ts: "ts = snd (match_order ?x (Some 102) demo_book)" by (simp add: m)
  have "traded (snd (match_order ?x (Some 102) demo_book)) = 12" by code_simp
  then have t: "traded ts = 12" by (simp only: ts)
  have "0 < fsub 20 (filled_quantity (snd (match_order ?x (Some 102) demo_book)))" by code_simp
  then have l: "0 < fsub 20 (filled_quantity ts)" by (simp only: ts)
  have f: "o_quantity ?x = 20" "o_side ?x = Buy" by (simp_all add: mk_order_def)
  have "resting b' Ask 102 = []"
    using match_order_conserves [OF m demo_book_ok demo_book_grid] l
    by (simp add: f pow2_def opposite_def side_of_order_def beyond_limit_def)
  with m t show ?thesis by blast
qed

text \<open>C5. A limit order on such a grid never leaves the book crossed or locked: if the best bid was
  below the best ask before the request, it is after it, also when the request raises.\<close>

theorem limit_order_keeps_book_uncrossed:
  assumes "engine_ok en" and "request_ok x" and "o_order_type x = LimitOrder" and "o_price x \<noteq> None"
    and "uncrossed (en_book en)" and "grid_book k (en_book en)"
    and "on_grid k (o_quantity x)" and "0 \<le> o_quantity x" and "o_quantity x \<le> 2 ^ 53 * pow2 k"
  shows "uncrossed (en_book (fst (process_event x en))) \<and> grid_book k (en_book (fst (process_event x en)))"
proof -
  obtain p where p: "o_price x = Some p" using assms(4) by blast
  obtain en' r where e: "engine_match_limit x en = (en', r)" by (cases "engine_match_limit x en")
  show ?thesis
    using limit_order_uncrossed [OF assms(1,2) p assms(5-9) e] assms(3) e by (simp add: process_event_def)
qed

theorem limit_order_keeps_book_uncrossed_witness:
  "let en = demo_run []; x = mk_order ''s1'' ''mm'' Sell 4 (Some 101)
   in uncrossed (en_book (fst (process_event x en))) \<and> best_ask (en_book (fst (process_event x en))) = Some 101"
proof -
  let ?en = "demo_run []" and ?x = "mk_order ''s1'' ''mm'' Sell 4 (Some 101)"
  have ok: "engine_ok ?en" by (simp add: demo_run_def new_engine_ok)
  have en: "en_book ?en = empty_book" by (simp add: demo_run_def new_engine_def)
  have g: "grid_book 0 (en_book ?en)" and u: "uncrossed (en_book ?en)"
    by (simp_all add: en grid_book_def grid_orders_def resting_def dget_or_def empty_book_def levels_of_def
        uncrossed_iff split: book_side.splits)
  have x: "request_ok ?x" by code_simp
  have "uncrossed (en_book (fst (process_event ?x ?en)))"
    using limit_order_keeps_book_uncrossed [OF ok x _ _ u g] by (simp add: mk_order_def pow2_def)
  moreover have "best_ask (en_book (fst (process_event ?x ?en))) = Some 101" by code_simp
  ultimately show ?thesis by (simp add: Let_def)
qed

text \<open>Off the grid it can: the engine subtracts the sum of the fills from the order while the book
  subtracted the fills one by one, and the two floats differ. A buy of 1.2 against 0.1, 0.3 and 0.8 at
  the same price is used up in the book, and the engine still rests a remainder of 2 to the -52 at
  that price, so bid and ask are locked at 100.\<close>

theorem float_residue_locks_book:
  "let en = demo_run [mk_order ''a1'' ''mm'' Sell (flit (1/10)) (Some 100), mk_order ''a2'' ''mm'' Sell (flit (3/10)) (Some 100),
        mk_order ''a3'' ''mm'' Sell (flit (8/10)) (Some 100), mk_order ''t'' ''taker'' Buy (flit (12/10)) (Some 100)]
   in best_bid (en_book en) = Some 100 \<and> best_ask (en_book en) = Some 100 \<and>
      map o_quantity (resting (en_book en) Bid 100) = [pow2 (- 52)]"
  by code_simp

text \<open>A modification is not matched: moving a resting bid to a price above the best ask leaves the
  book crossed, with no execution.\<close>

theorem modify_can_cross_book:
  "let en = demo_run [mk_order ''a1'' ''mm'' Sell 5 (Some 101), mk_order ''b1'' ''mm'' Buy 4 (Some 99),
        (mk_order ''b1'' ''mm'' Buy 4 (Some 103))\<lparr>o_order_type := ModifyOrder\<rparr>]
   in best_bid (en_book en) = Some 103 \<and> best_ask (en_book en) = Some 101 \<and>
      map (event_type \<circ> ev_body) (log_events (en_log en)) = [''add'', ''add'', ''modify'']"
  by code_simp

end
