(* ===== verification/BookOperations.thy ===== *)
theory BookOperations
  imports EngineReplay
begin

text \<open>
  The contracts of the book's direct operations: level updates from a feed, modifications and
  snapshots, each as the change it makes to the queues.
\<close>

section \<open>Queues\<close>

text \<open>Exactly one queue changes.\<close>

definition only_queue :: "book_side \<Rightarrow> rat \<Rightarrow> order list \<Rightarrow> order_book \<Rightarrow> order_book \<Rightarrow> bool" where
  "only_queue s p os b b' = (\<forall>s' p'. resting b' s' p' = (if s' = s \<and> p' = p then os else resting b s' p'))"

lemma replaces_only_queue: "replaces s p os b b' \<Longrightarrow> only_queue s p os b b'"
  by (simp add: only_queue_def replaces_resting)

lemma update_level_quoted: "quoted (fst (update_level s p sz ow b))"
  by (simp add: update_level_def remove_level_def Let_def)

lemma resting_modify_in_place:
  "resting (modify_in_place e p u b) s' p' =
     (if s' = side_of_order (o_side e) \<and> p' = p
      then map (\<lambda>x. if o_order_id x = o_order_id e then u else x) (resting b s' p') else resting b s' p')"
  by (simp add: modify_in_place_def Let_def resting_def dget_or_def dict_simps)

lemma resting_dpop [simp]:
  "resting (set_levels s (dpop p (levels_of b s)) b0) s' p' =
     (if s' = s then (if p' = p then [] else resting b s p') else resting b0 s' p')"
  by (simp add: resting_def dget_or_def dict_simps)

lemma resting_modify_move:
  assumes "np \<noteq> p" and "o_side u = o_side e"
  defines "s \<equiv> side_of_order (o_side e)"
  shows "resting (modify_move e p u np b) s' p' =
     (if s' = s \<and> p' = p then filter (\<lambda>x. o_order_id x \<noteq> o_order_id e) (resting b s p)
      else if s' = s \<and> p' = np then resting b s np @ [u] else resting b s' p')"
  using assms by (auto simp: modify_move_def Let_def resting_def dget_or_def dict_simps)

section \<open>Snapshots\<close>

lemma snapshot_prices:
  assumes "get_snapshot depth b = Inr (b', snap)"
  shows "map l_price (s_bids snap) = take (nat depth) (rev (sort (dkeys (bids b))))"
    and "map l_price (s_asks snap) = take (nat depth) (sort (dkeys (asks b)))"
    and "\<And>l. l \<in> set (s_bids snap) \<Longrightarrow> l_quantity l = level_quantity b Bid (l_price l)"
    and "\<And>l. l \<in> set (s_asks snap) \<Longrightarrow> l_quantity l = level_quantity b Ask (l_price l)"
    and "s_best_bid snap = best_bid b" and "s_best_ask snap = best_ask b" and "0 < depth"
  using assms
  by (auto simp: get_snapshot_def Let_def price_level_at_def level_quantity_def o_def split: if_splits)

lemma sorted_between: "sorted ys \<Longrightarrow> y \<in> set ys \<Longrightarrow> y \<le> last ys \<and> hd ys \<le> y" for ys :: "rat list"
proof (induction ys)
  case (Cons a ys)
  then show ?case by (cases "ys = []") (auto intro: order.trans)
qed simp

lemma sorted_ends:
  fixes ys :: "rat list"
  assumes "sorted ys" and "ys \<noteq> []"
  shows "Max (set ys) = last ys" and "Min (set ys) = hd ys"
proof -
  have top: "\<And>y. y \<in> set ys \<Longrightarrow> y \<le> last ys" and bot: "\<And>y. y \<in> set ys \<Longrightarrow> hd ys \<le> y"
    using sorted_between [OF assms(1)] by blast+
  show "Max (set ys) = last ys"
    by (rule Max_eqI [OF _ top last_in_set [OF assms(2)]]) (rule List.finite_set)
  show "Min (set ys) = hd ys"
    by (rule Min_eqI [OF _ bot hd_in_set [OF assms(2)]]) (rule List.finite_set)
qed

lemma best_first:
  fixes xs :: "rat list"
  assumes "xs \<noteq> []"
  shows "rev (sort xs) ! 0 = Max (set xs)" and "sort xs ! 0 = Min (set xs)"
proof -
  have ne: "sort xs \<noteq> []" using assms by (metis length_sort length_0_conv)
  note e = sorted_ends [OF sorted_sort ne]
  have "rev (sort xs) ! 0 = last (sort xs)" using ne by (metis hd_conv_nth hd_rev rev_is_Nil_conv)
  then show "rev (sort xs) ! 0 = Max (set xs)" using e(1) by (simp only: set_sort)
  have "sort xs ! 0 = hd (sort xs)" using ne by (metis hd_conv_nth)
  then show "sort xs ! 0 = Min (set xs)" using e(2) by (simp only: set_sort)
qed

text \<open>The prices of a side that have resting orders.\<close>

definition live_prices :: "order_book \<Rightarrow> book_side \<Rightarrow> rat set" where
  "live_prices b s = {p. resting b s p \<noteq> []}"

lemma live_prices_keys:
  assumes "book_ok b"
  shows "set (dkeys (levels_of b s)) = live_prices b s"
proof -
  have "dget (levels_of b s) p = Some os \<Longrightarrow> os \<noteq> []" for p os
    using assms by (auto simp: book_ok_iff level_ok_def)
  then have "p \<in> set (dkeys (levels_of b s)) \<longleftrightarrow> resting b s p \<noteq> []" for p
    unfolding dkeys_iff resting_def dget_or_def by (cases "dget (levels_of b s) p") auto
  then show ?thesis unfolding live_prices_def by blast
qed

lemma taken_first:
  assumes "sorted_wrt R ys" and "q \<in> set (take n ys)" and "p \<in> set ys" and "p \<notin> set (take n ys)"
  shows "R q p"
proof -
  have "p \<in> set (drop n ys)" using assms(3,4) append_take_drop_id [of n ys] by (metis Un_iff set_append)
  then show ?thesis using assms(1,2) append_take_drop_id [of n ys] sorted_wrt_append [of R "take n ys" "drop n ys"] by simp
qed

lemma modify_order_Some:
  assumes "modify_order r b = Inr (b', ms, Some (e, u, kept))"
  obtains np p where "dget (orders b) (o_order_id r) = Some e" "o_price e = Some p"
    "u = modified_order e r np kept" "kept = (np = p)"
    "b' = recalculate (if kept then modify_in_place e p u b else modify_move e p u np b)"
proof (cases "dget (orders b) (o_order_id r)")
  case None
  with assms show ?thesis by (simp add: modify_order_def)
next
  case (Some e0)
  define np where "np = (case o_price r of Some p \<Rightarrow> Some p | None \<Rightarrow> o_price e0)"
  from assms Some obtain n p where n: "np = Some n" and p: "o_price e0 = Some p"
    by (auto simp: modify_order_def np_def [symmetric] split: option.splits if_splits)
  from assms Some n p show ?thesis
    by (intro that [of p n]) (auto simp: modify_order_def np_def [symmetric] Let_def split: if_splits)
qed

section \<open>Properties\<close>

text \<open>A feed update of one level (\<open>update_level\<close>) replaces that level's queue by the one synthetic
  order, or removes the level when the size is not positive; every other queue is unchanged, the
  book's indexes stay consistent and mid price and spread are those of the new book. The synthetic id
  must not be taken by an order at another price.\<close>

theorem update_level_sets_level:
  assumes "book_ok b" and "0 < sz \<Longrightarrow> id_free_at b s p (synthetic_order_id s p)"
  shows "book_ok (fst (update_level s p sz ow b)) \<and>
    only_queue s p (if 0 < sz then [level_order s p sz ow] else []) b (fst (update_level s p sz ow b)) \<and>
    quoted (fst (update_level s p sz ow b))"
proof -
  have "only_queue s p (if 0 < sz then [level_order s p sz ow] else []) b (fst (update_level s p sz ow b))"
  proof (cases "0 < sz")
    case True
    then show ?thesis using replaces_only_queue [OF update_level_replaces [OF assms(1) True]] by simp
  next
    case False
    then have "fst (update_level s p sz ow b) = fst (remove_level s p b)" by (simp add: update_level_def)
    then show ?thesis using False replaces_only_queue [OF remove_level_replaces [OF assms(1)]] by simp
  qed
  then show ?thesis using update_level_ok [OF assms] update_level_quoted by blast
qed

theorem update_level_sets_level_witness:
  "only_queue Bid 99 [level_order Bid 99 12 ''feed''] empty_book (fst (update_level Bid 99 12 ''feed'' empty_book)) \<and>
   synthetic_order_id Bid 99 = ''l2-bid-99.00000000''"
proof -
  have "synthetic_order_id Bid 99 = ''l2-bid-99.00000000''" by code_simp
  moreover have "id_free_at empty_book Bid 99 (synthetic_order_id Bid 99)"
    by (simp add: id_free_at_def empty_book_def)
  ultimately show ?thesis using update_level_sets_level [OF empty_book_ok, of 12 Bid 99 "''feed''"] by simp
qed

text \<open>Two prices that agree to eight decimals share a synthetic id. Updating the second level then
  takes the id over in the order index while the first level keeps its order, and the indexes no
  longer agree with the queues.\<close>

theorem synthetic_id_collision:
  "let p = 1; q = 1 + pow2 (- 50); b = fst (update_level Bid q 7 ''feed'' (fst (update_level Bid p 5 ''feed'' empty_book)))
   in p \<noteq> q \<and> synthetic_order_id Bid p = synthetic_order_id Bid q \<and> rnd64 q = q \<and>
     map o_quantity (resting b Bid p) = [5] \<and> length (orders b) = 1 \<and> \<not> book_ok b"
  by code_simp

text \<open>C10. A successful modification keeps the order's id, agent and side. At an unchanged price the
  order keeps its place in its queue; at a new price it leaves its queue and joins the end of the
  queue at the new price. No other order moves.\<close>

theorem modify_order_priority:
  assumes "book_ok b" and "modify_order r b = Inr (b', ms, Some (e, u, kept))"
  shows "dget (orders b) (o_order_id r) = Some e \<and> o_order_id u = o_order_id e \<and> o_agent_id u = o_agent_id e \<and>
    o_side u = o_side e \<and> o_quantity u = o_quantity r \<and> (kept \<longleftrightarrow> o_price u = o_price e) \<and>
    (\<forall>s p. resting b' s p =
      (if s \<noteq> side_of_order (o_side e) then resting b s p
       else if kept then map (\<lambda>x. if o_order_id x = o_order_id e \<and> o_price e = Some p then u else x) (resting b s p)
       else if o_price e = Some p then filter (\<lambda>x. o_order_id x \<noteq> o_order_id e) (resting b s p)
       else if o_price u = Some p then resting b s p @ [u] else resting b s p))"
proof -
  from assms(2) obtain np p where e: "dget (orders b) (o_order_id r) = Some e" and p: "o_price e = Some p"
    and u: "u = modified_order e r np kept" and k: "kept = (np = p)"
    and b': "b' = recalculate (if kept then modify_in_place e p u b else modify_move e p u np b)"
    by (rule modify_order_Some)
  have q: "o_quantity u = o_quantity r" "o_agent_id u = o_agent_id e"
    by (simp_all add: u modified_order_def)
  have res: "resting b' s p' =
      (if s \<noteq> side_of_order (o_side e) then resting b s p'
       else if kept then map (\<lambda>x. if o_order_id x = o_order_id e \<and> o_price e = Some p' then u else x) (resting b s p')
       else if o_price e = Some p' then filter (\<lambda>x. o_order_id x \<noteq> o_order_id e) (resting b s p')
       else if o_price u = Some p' then resting b s p' @ [u] else resting b s p')" for s p'
  proof (cases kept)
    case True
    then show ?thesis by (simp add: b' resting_modify_in_place p)
  next
    case False
    then have "np \<noteq> p" using k by simp
    with False show ?thesis by (simp add: b' resting_modify_move u p)
  qed
  show ?thesis using e q res p k by (simp add: u)
qed

definition two_bids :: order_book where
  "two_bids = en_book (demo_run [mk_order ''b1'' ''mm'' Buy 4 (Some 99), mk_order ''b2'' ''mm2'' Buy 2 (Some 99)])"

theorem modify_order_priority_witness:
  "\<exists>b' ms e u. modify_order ((mk_order ''b1'' ''mm'' Buy 9 None)\<lparr>o_order_type := ModifyOrder\<rparr>) two_bids = Inr (b', ms, Some (e, u, True)) \<and>
    map o_order_id (resting b' Bid 99) = [''b1'', ''b2''] \<and> o_quantity u = 9"
proof -
  let ?r = "(mk_order ''b1'' ''mm'' Buy 9 None)\<lparr>o_order_type := ModifyOrder\<rparr>"
  have ok: "book_ok two_bids" by code_simp
  have "case modify_order ?r two_bids of Inr (b', ms, Some (e, u, k)) \<Rightarrow> k \<and>
      map o_order_id (resting b' Bid 99) = [''b1'', ''b2''] | _ \<Rightarrow> False" by code_simp
  then obtain b' ms e u where m: "modify_order ?r two_bids = Inr (b', ms, Some (e, u, True))"
    and ids: "map o_order_id (resting b' Bid 99) = [''b1'', ''b2'']"
    by (auto split: sum.splits prod.splits option.splits)
  from modify_order_priority [OF ok m] have "o_quantity u = 9" by (simp add: mk_order_def)
  with m ids show ?thesis by (intro exI conjI)
qed

text \<open>C11. A snapshot lists the best levels: the prices it lists have resting orders, every price with resting
  orders that it does not list is worse than all of them, and it lists as many as the depth allows. Bids
  are in strictly falling and asks in strictly rising price order, each level with the sum of its queue's
  quantities. Best bid and ask are the highest bid and the lowest ask with resting orders.\<close>

theorem snapshot_is_top_of_book:
  assumes "book_ok b" and "get_snapshot depth b = Inr (b', snap)"
  shows "sorted_wrt (>) (map l_price (s_bids snap)) \<and> sorted_wrt (<) (map l_price (s_asks snap)) \<and>
    length (s_bids snap) = min (nat depth) (card (live_prices b Bid)) \<and>
    length (s_asks snap) = min (nat depth) (card (live_prices b Ask)) \<and>
    (\<forall>l\<in>set (s_bids snap). l_price l \<in> live_prices b Bid \<and>
      l_quantity l = fsum (map o_quantity (resting b Bid (l_price l))) \<and>
      (\<forall>p\<in>live_prices b Bid - l_price ` set (s_bids snap). p < l_price l)) \<and>
    (\<forall>l\<in>set (s_asks snap). l_price l \<in> live_prices b Ask \<and>
      l_quantity l = fsum (map o_quantity (resting b Ask (l_price l))) \<and>
      (\<forall>p\<in>live_prices b Ask - l_price ` set (s_asks snap). l_price l < p)) \<and>
    s_best_bid snap = (if live_prices b Bid = {} then None else Some (Max (live_prices b Bid))) \<and>
    s_best_ask snap = (if live_prices b Ask = {} then None else Some (Min (live_prices b Ask)))"
proof -
  note sp = snapshot_prices [OF assms(2)]
  have d: "distinct (dkeys (bids b))" "distinct (dkeys (asks b))"
    using assms(1) by (simp_all add: book_ok_def dict_ok_def)
  have keys: "set (dkeys (bids b)) = live_prices b Bid" "set (dkeys (asks b)) = live_prices b Ask"
    using live_prices_keys [OF assms(1)] by (simp_all add: bids_levels asks_levels)
  have down: "sorted_wrt (>) (rev (sort (dkeys (bids b))))" and up: "sorted_wrt (<) (sort (dkeys (asks b)))"
    using d by (simp_all add: sorted_wrt_rev strict_sorted_iff)
  have mem: "l_price l \<in> set (map l_price ls)" if "l \<in> set ls" for l ls using that by simp
  have bids: "l_price l \<in> live_prices b Bid \<and> (\<forall>p\<in>live_prices b Bid - l_price ` set (s_bids snap). p < l_price l)"
    if "l \<in> set (s_bids snap)" for l
    using mem [OF that] taken_first [OF down] set_take_subset [of "nat depth" "rev (sort (dkeys (bids b)))"]
    by (auto simp: sp(1) keys simp flip: set_map)
  have asks: "l_price l \<in> live_prices b Ask \<and> (\<forall>p\<in>live_prices b Ask - l_price ` set (s_asks snap). l_price l < p)"
    if "l \<in> set (s_asks snap)" for l
    using mem [OF that] taken_first [OF up] set_take_subset [of "nat depth" "sort (dkeys (asks b))"]
    by (auto simp: sp(2) keys simp flip: set_map)
  have len: "length (s_bids snap) = min (nat depth) (card (live_prices b Bid))"
    "length (s_asks snap) = min (nat depth) (card (live_prices b Ask))"
    using arg_cong [OF sp(1), of length] arg_cong [OF sp(2), of length]
    unfolding keys [symmetric] distinct_card [OF d(1)] distinct_card [OF d(2)] by simp_all
  show ?thesis
    using bids asks sp(3,4) sorted_wrt_take [OF down] sorted_wrt_take [OF up]
    by (simp add: sp(1,2,5,6) len best_bid_def best_ask_def max_opt_def min_opt_def level_quantity_def keys
      flip: keys set_empty)
qed

theorem snapshot_is_top_of_book_witness:
  "\<exists>b' snap. get_snapshot 5 two_bids = Inr (b', snap) \<and> s_best_bid snap = Some (Max (live_prices two_bids Bid)) \<and>
    length (s_bids snap) = 1 \<and> (\<forall>l\<in>set (s_bids snap). l_price l \<in> live_prices two_bids Bid)"
proof -
  have ok: "book_ok two_bids" by code_simp
  have "case get_snapshot 5 two_bids of Inr (b', snap) \<Rightarrow> s_best_bid snap \<noteq> None \<and> length (s_bids snap) = 1
      | _ \<Rightarrow> False" by code_simp
  then obtain b' snap where s: "get_snapshot 5 two_bids = Inr (b', snap)" "s_best_bid snap \<noteq> None"
    "length (s_bids snap) = 1" by (auto split: sum.splits prod.splits)
  then show ?thesis using snapshot_is_top_of_book [OF ok s(1)] by (intro exI [of _ b'] exI [of _ snap]) (auto split: if_splits)
qed

end
