(* ===== verification/Agents.thy ===== *)
theory Agents
  imports OrderBook "HOL-Library.Product_Lexorder"
begin

text \<open>
  Trading agents: \<open>backend/app/agents/runtime.py\<close> (intents, the local agents, the manager) and the
  order-submitting agents of the other files of that directory. A remote runner's answer is a
  parameter (\<open>remote\<close>), since it comes over the network. \<open>collect_intents\<close> takes the results of the
  tasks that finished in time, in the order in which they happen to be looked at (the code walks a set).
\<close>

section \<open>Intents\<close>

record market_snapshot =
  ms_tick :: int
  ms_book :: book_snapshot

record agent_intent =
  i_tick :: int
  i_agent_id :: string
  i_kind :: string
  i_sequence :: int
  i_latency_bucket :: int
  i_event_type :: string
  i_runtime_source :: string
  i_side :: "string option"
  i_price :: "rat option"
  i_quantity :: rat
  i_order_id :: "string option"
  i_message :: string

definition mk_intent :: "int \<Rightarrow> string \<Rightarrow> string \<Rightarrow> agent_intent" where
  "mk_intent tick aid kind =
     \<lparr>i_tick = tick, i_agent_id = aid, i_kind = kind, i_sequence = 0, i_latency_bucket = 0,
      i_event_type = ''normal'', i_runtime_source = ''backend'', i_side = None, i_price = None,
      i_quantity = 0, i_order_id = None, i_message = []\<rparr>"

definition intent_key :: "agent_intent \<Rightarrow> int \<times> int \<times> string \<times> int \<times> string" where
  "intent_key i = (i_tick i, i_latency_bucket i, i_agent_id i, i_sequence i, i_kind i)"

definition intent_order_id :: "agent_intent \<Rightarrow> string" where
  "intent_order_id i = (case i_order_id i of
      Some oid \<Rightarrow> str_or oid (i_agent_id i @ ''-'' @ int_dec (i_tick i) @ ''-'' @ int_dec (i_sequence i))
    | None \<Rightarrow> i_agent_id i @ ''-'' @ int_dec (i_tick i) @ ''-'' @ int_dec (i_sequence i))"

definition to_order :: "agent_intent \<Rightarrow> py_error + order" where
  "to_order i =
     try_bind (if i_side i \<in> {Some ''bid'', Some ''buy''} then Inr Buy
               else if i_side i \<in> {Some ''ask'', Some ''sell''} then Inr Sell
               else Inl (ValueError (''intent '' @ i_kind i @ '' requires a side''))) (\<lambda>sd.
       Inr ((mk_order (intent_order_id i) (i_agent_id i) sd (i_quantity i) (i_price i))
         \<lparr>o_order_type := (if i_kind i = ''market'' then MarketOrder
                          else if i_kind i = ''cancel'' then CancelOrder else LimitOrder),
          o_timestamp := i_tick i\<rparr>))"

section \<open>Agents\<close>

datatype runtime_agent =
    TopOfBookMarketMaker (agent_id: string)
  | NoiseTrader (agent_id: string) (ag_offset: int) (ag_cadence: int)
  | LiquidityTaker (agent_id: string) (ag_offset: int) (ag_cadence: int) (ag_quantity: rat)
  | HeavyAgent (agent_id: string) (ag_offset: int) (ag_complexity: nat)
  | RemoteRunner (agent_id: string)

definition mk_noise :: "string \<Rightarrow> int \<Rightarrow> int \<Rightarrow> runtime_agent" where
  "mk_noise aid off cadence = NoiseTrader aid off (max 1 cadence)"

definition mk_taker :: "string \<Rightarrow> int \<Rightarrow> int \<Rightarrow> rat \<Rightarrow> runtime_agent" where
  "mk_taker aid off cadence q = LiquidityTaker aid off (max 1 cadence) q"

definition mk_heavy :: "string \<Rightarrow> int \<Rightarrow> nat \<Rightarrow> runtime_agent" where
  "mk_heavy aid off complexity = HeavyAgent aid off (max 100 complexity)"

definition decide_maker :: "string \<Rightarrow> market_snapshot \<Rightarrow> agent_intent list" where
  "decide_maker aid s = (case (s_best_bid (ms_book s), s_best_ask (ms_book s)) of
      (Some bb, Some ba) \<Rightarrow>
        (let t = ms_tick s;
             bid_size = fround 3 (fadd 2 (fmul (of_int (t mod 5)) (1/4)));
             ask_size = fround 3 (fadd (flit (21/10)) (fmul (of_int ((t + 2) mod 5)) (1/4)))
         in [(mk_intent t aid ''set_level'')\<lparr>i_event_type := ''market_maker'', i_side := Some ''bid'',
               i_price := Some bb, i_quantity := bid_size, i_message := ''refreshed best bid depth''\<rparr>,
             (mk_intent t aid ''set_level'')\<lparr>i_sequence := 1, i_event_type := ''market_maker'', i_side := Some ''ask'',
               i_price := Some ba, i_quantity := ask_size, i_message := ''refreshed best ask depth''\<rparr>])
    | _ \<Rightarrow> [])"

definition decide_noise :: "string \<Rightarrow> int \<Rightarrow> int \<Rightarrow> market_snapshot \<Rightarrow> agent_intent list" where
  "decide_noise aid off cadence s =
     (let t = ms_tick s; bid = ((t + off) mod 2 \<noteq> 0);
          levels = (if bid then s_bids (ms_book s) else s_asks (ms_book s))
      in if (t + off) mod cadence \<noteq> 0 then []
         else if levels = [] then []
         else
           let level = levels ! nat (min ((t + off + 2) mod 5) (int (length levels) - 1))
           in [(mk_intent t aid ''set_level'')\<lparr>i_latency_bucket := off mod 5,
                 i_side := Some (if bid then ''bid'' else ''ask''), i_price := Some (l_price level),
                 i_quantity := fround 3 (fadd (flit (35/100)) (fmul (of_int ((t + off) mod 5)) (flit (75/1000)))),
                 i_message := ''small visible depth changed''\<rparr>])"

definition decide_taker :: "string \<Rightarrow> int \<Rightarrow> int \<Rightarrow> rat \<Rightarrow> market_snapshot \<Rightarrow> agent_intent list" where
  "decide_taker aid off cadence q s =
     (let t = ms_tick s in
      if (t + off) mod cadence \<noteq> 0 then []
      else [(mk_intent t aid ''market'')\<lparr>i_latency_bucket := off mod 7,
              i_side := Some (if ((t + off) div cadence) mod 2 \<noteq> 0 then ''buy'' else ''sell''),
              i_quantity := q, i_message := ''consumed small top-of-book quantity''\<rparr>])"

text \<open>The worker's checksum loop; \<open>x & 0x7FFFFFFF\<close> keeps the low 31 bits.\<close>

fun heavy_checksum :: "int \<Rightarrow> nat \<Rightarrow> nat \<Rightarrow> int \<Rightarrow> int" where
  "heavy_checksum seed 0 index c = c"
| "heavy_checksum seed (Suc n) index c =
     heavy_checksum seed n (Suc index) (take_bit 31 (c * 1103515245 + seed + int index))"

definition decide_heavy :: "string \<Rightarrow> int \<Rightarrow> nat \<Rightarrow> market_snapshot \<Rightarrow> agent_intent list" where
  "decide_heavy aid off complexity s =
     (let bs = s_bids (ms_book s); as = s_asks (ms_book s) in
      if bs = [] \<or> as = [] then []
      else
        let t = ms_tick s;
            c = heavy_checksum (t + off + int (length aid)) complexity 0 0;
            levels = (if c mod 2 \<noteq> 0 then bs else as);
            level = levels ! nat ((c + off) mod min (int (length levels)) 5)
        in [(mk_intent t aid ''set_level'')\<lparr>i_latency_bucket := 10 + off mod 13,
              i_side := Some (if c mod 2 \<noteq> 0 then ''bid'' else ''ask''), i_price := Some (l_price level),
              i_quantity := fround 3 (fadd (flit (3/10)) (fmul (of_int (c mod 9)) (flit (5/100)))),
              i_message := ''heavy agent worker-pool decision''\<rparr>])"

text \<open>A remote runner may also raise, when its request fails.\<close>

type_synonym remote_answers = "string \<Rightarrow> market_snapshot \<Rightarrow> py_error + agent_intent list"

definition decide :: "remote_answers \<Rightarrow> runtime_agent \<Rightarrow> market_snapshot \<Rightarrow> py_error + agent_intent list" where
  "decide remote a s = (case a of
      TopOfBookMarketMaker aid \<Rightarrow> Inr (decide_maker aid s)
    | NoiseTrader aid off cadence \<Rightarrow> Inr (decide_noise aid off cadence s)
    | LiquidityTaker aid off cadence q \<Rightarrow> Inr (decide_taker aid off cadence q s)
    | HeavyAgent aid off complexity \<Rightarrow> Inr (decide_heavy aid off complexity s)
    | RemoteRunner aid \<Rightarrow> remote aid s)"

section \<open>Populations\<close>

definition pad3 :: "nat \<Rightarrow> string" where
  "pad3 n = zpad 3 (nat_dec n)"

definition normalized_prefix :: "string \<Rightarrow> string \<Rightarrow> string" where
  "normalized_prefix pfx dflt = str_or (str_upper (str_strip pfx)) dflt"

definition build_heavy_agents :: "int \<Rightarrow> string \<Rightarrow> nat \<Rightarrow> runtime_agent list" where
  "build_heavy_agents cnt pfx complexity =
     map (\<lambda>i. mk_heavy (normalized_prefix pfx ''HEAVY'' @ ''_HEAVY_'' @ pad3 i) (int i) complexity)
       [1..<nat (max 0 cnt) + 1]"

definition normal_agent :: "nat \<Rightarrow> runtime_agent" where
  "normal_agent i =
     (if i mod 8 = 0
      then mk_taker (''TAKER_'' @ pad3 i) (int i) (8 + int (i mod 5))
             (fround 3 (fadd (flit (5/100)) (fmul (of_nat (i mod 4)) (flit (25/1000)))))
      else mk_noise (''NOISE_'' @ pad3 i) (int i) (2 + int (i mod 6)))"

definition build_normal_agents :: "int \<Rightarrow> runtime_agent list" where
  "build_normal_agents cnt =
     (if cnt < 1 then []
      else [TopOfBookMarketMaker ''MM_01''] @
        (if 2 \<le> cnt then [mk_noise ''NOISE_01'' 0 1] else []) @
        (if 3 \<le> cnt then [mk_taker ''TAKER_01'' 0 4 (1/2)] else []) @
        map normal_agent [4..<nat cnt + 1])"

definition prefixed_agent :: "string \<Rightarrow> nat \<Rightarrow> runtime_agent" where
  "prefixed_agent p i =
     (if i mod 4 = 0
      then mk_taker (p @ ''_TAKER_'' @ pad3 i) (int i) (2 + int (i mod 3))
             (fround 3 (fadd (flit (2/10)) (fmul (of_nat (i mod 4)) (flit (5/100)))))
      else mk_noise (p @ ''_NOISE_'' @ pad3 i) (int i) (2 + int (i mod 6)))"

definition build_prefixed_normal_agents :: "int \<Rightarrow> string \<Rightarrow> runtime_agent list" where
  "build_prefixed_normal_agents cnt pfx =
     (if cnt < 1 then []
      else
        let p = normalized_prefix pfx ''REMOTE'' in
        [TopOfBookMarketMaker (p @ ''_MM_001'')] @
        (if 2 \<le> cnt then [mk_noise (p @ ''_NOISE_001'') 1 1] else []) @
        (if 3 \<le> cnt then [mk_taker (p @ ''_TAKER_001'') 1 2 (flit (65/100))] else []) @
        map (prefixed_agent p) [4..<nat cnt + 1])"

text \<open>A runner per non-blank URL, numbered by its place in the list.\<close>

definition build_remote_runners :: "string list \<Rightarrow> runtime_agent list" where
  "build_remote_runners urls =
     map (\<lambda>(i, _). RemoteRunner (''remote_runner:'' @ zpad 2 (nat_dec i)))
       (filter (\<lambda>(_, u). str_strip u \<noteq> []) (List.enumerate 1 urls))"

section \<open>The manager\<close>

definition build_agent_manager :: "int \<Rightarrow> string list \<Rightarrow> runtime_agent list" where
  "build_agent_manager cnt urls = sort_key agent_id (build_normal_agents cnt @ build_remote_runners urls)"

definition manager_agent_ids :: "runtime_agent list \<Rightarrow> string list" where
  "manager_agent_ids ags = map agent_id ags"

text \<open>A task that raised contributes nothing.\<close>

definition task_intents :: "py_error + agent_intent list \<Rightarrow> agent_intent list" where
  "task_intents r = (case r of Inl _ \<Rightarrow> [] | Inr is \<Rightarrow> is)"

definition collect_intents :: "(py_error + agent_intent list) list \<Rightarrow> agent_intent list" where
  "collect_intents finished = sort_key intent_key (concat (map task_intents finished))"

text \<open>The synchronous manager, called outside an event loop: inside one, an agent that has to be awaited makes it
  raise a \<open>RuntimeError\<close> instead.\<close>

definition collect_intents_sync ::
  "remote_answers \<Rightarrow> runtime_agent list \<Rightarrow> market_snapshot \<Rightarrow> py_error + agent_intent list" where
  "collect_intents_sync remote ags s =
     try_bind (try_map (\<lambda>a. decide remote a s) ags) (\<lambda>iss. Inr (sort_key intent_key (concat iss)))"

section \<open>Order-submitting agents\<close>

definition at_time :: "int \<Rightarrow> order \<Rightarrow> order" where
  "at_time t x = x\<lparr>o_timestamp := t\<rparr>"

definition market_maker_act :: "string \<Rightarrow> int \<Rightarrow> order list" where
  "market_maker_act aid t =
     (let mid = fadd 100 (fmul (of_int (t mod 10 - 5)) (flit (1/100)))
      in [at_time t (mk_order (aid @ ''-'' @ int_dec t @ ''-bid'') aid Buy 24 (Some (fround 2 (fsub mid (flit (5/100)))))),
          at_time t (mk_order (aid @ ''-'' @ int_dec t @ ''-ask'') aid Sell 24 (Some (fround 2 (fadd mid (flit (5/100))))))])"

definition noise_trader_act :: "string \<Rightarrow> int \<Rightarrow> order list" where
  "noise_trader_act aid t =
     (let step = fmul (of_int (t mod 3)) (flit (1/10)); oid = aid @ ''-'' @ int_dec t
      in if t mod 2 \<noteq> 0 then [at_time t (mk_order oid aid Buy 1 (Some (fsub 100 step)))]
         else [at_time t (mk_order oid aid Sell 1 (Some (fadd 100 step)))])"

definition liquidity_taker_act :: "string \<Rightarrow> int \<Rightarrow> order list" where
  "liquidity_taker_act aid t =
     (if t mod 4 \<noteq> 0 then []
      else [(at_time t (mk_order (aid @ ''-'' @ int_dec t) aid (if t mod 8 = 0 then Buy else Sell) 8 None))
              \<lparr>o_order_type := MarketOrder\<rparr>])"

definition evaporation_agent_act :: "string \<Rightarrow> int \<Rightarrow> order list" where
  "evaporation_agent_act aid t =
     map (\<lambda>i. (at_time t (mk_order (aid @ ''-cancel-'' @ int_dec t @ ''-'' @ nat_dec i) aid Sell 1 None))
        \<lparr>o_order_type := CancelOrder\<rparr>) [0..<10]"

text \<open>The scripted agents keep their age, and the quote stuffer the ids of its last orders.\<close>

record scripted_agent =
  sa_agent_id :: string
  sa_scenario_id :: string
  sa_family :: string
  sa_age :: int
  sa_previous :: "string list"

definition new_scripted_agent :: "string \<Rightarrow> string \<Rightarrow> string option \<Rightarrow> scripted_agent" where
  "new_scripted_agent family aid sid =
     \<lparr>sa_agent_id = aid, sa_scenario_id = (case sid of None \<Rightarrow> family @ ''-'' @ aid | Some s \<Rightarrow> str_or s (family @ ''-'' @ aid)),
      sa_family = family, sa_age = 0, sa_previous = []\<rparr>"

definition scripted_order :: "scripted_agent \<Rightarrow> int \<Rightarrow> string \<Rightarrow> side \<Rightarrow> rat \<Rightarrow> rat option \<Rightarrow> order_type \<Rightarrow> order" where
  "scripted_order a t oid sd q p ty =
     (mk_order oid (sa_agent_id a) sd q p)
       \<lparr>o_order_type := ty, o_timestamp := t, o_scenario_id := Some (sa_scenario_id a),
        o_scenario_name := Some (sa_family a), o_scenario_family := Some (sa_family a)\<rparr>"

definition grow_older :: "scripted_agent \<Rightarrow> scripted_agent" where
  "grow_older a = a\<lparr>sa_age := sa_age a + 1\<rparr>"

definition quote_stuffing_act :: "int \<Rightarrow> scripted_agent \<Rightarrow> scripted_agent \<times> order list" where
  "quote_stuffing_act t a0 =
     (let a = grow_older a0 in
      if sa_age a > 6 then (a, [])
      else
        let cancels = map (\<lambda>oid. scripted_order a t oid Buy 1 None CancelOrder) (sa_previous a);
            fresh = map (\<lambda>i. scripted_order a t (sa_scenario_id a @ ''-'' @ int_dec t @ ''-'' @ nat_dec i)
              (if i mod 2 \<noteq> 0 then Buy else Sell) 1 (Some (if i mod 2 \<noteq> 0 then 199/2 else 201/2)) LimitOrder) [0..<12]
        in (a\<lparr>sa_previous := map o_order_id fresh\<rparr>, cancels @ fresh))"

definition spoofing_agent_act :: "int \<Rightarrow> scripted_agent \<Rightarrow> scripted_agent \<times> order list" where
  "spoofing_agent_act t a0 =
     (let a = grow_older a0; oid = sa_scenario_id a @ ''-wall'' in
      if sa_age a = 1 then (a, [scripted_order a t oid Sell 480 (Some (flit (10035/100))) LimitOrder])
      else if sa_age a = 4 then (a, [scripted_order a t oid Sell 480 None CancelOrder])
      else (a, []))"

definition layering_agent_act :: "int \<Rightarrow> scripted_agent \<Rightarrow> scripted_agent \<times> order list" where
  "layering_agent_act t a0 =
     (let a = grow_older a0; oid = (\<lambda>i. sa_scenario_id a @ ''-layer-'' @ nat_dec i) in
      if sa_age a = 1 then
        (a, map (\<lambda>i. scripted_order a t (oid i) Sell 120 (Some (fadd (flit (10025/100)) (fmul (of_nat i) (flit (5/100))))) LimitOrder) [0..<4])
      else if sa_age a = 5 then (a, map (\<lambda>i. scripted_order a t (oid i) Sell 120 None CancelOrder) [0..<4])
      else (a, []))"

end
