(* ===== verification/AgentProps.thy ===== *)
theory AgentProps
  imports Agents BookOperations
begin

text \<open>
  What the agents promise to the manager and to the exchange. \<open>intent_source\<close> is the contract of
  every agent (its intents carry its id and the tick, and are told apart by their sequence number),
  \<open>quoting_agent\<close> extends it by what the local agents add: they only name prices they were shown.
\<close>

section \<open>The agents' contract\<close>

definition shown_price :: "book_snapshot \<Rightarrow> string option \<Rightarrow> rat \<Rightarrow> bool" where
  "shown_price sn sd p =
     ((sd = Some ''bid'' \<and> p \<in> l_price ` set (s_bids sn)) \<or>
      (sd = Some ''ask'' \<and> p \<in> l_price ` set (s_asks sn)))"

text \<open>A snapshot whose best prices are the first of its levels, as the book produces it.\<close>

definition shows_best :: "book_snapshot \<Rightarrow> bool" where
  "shows_best sn =
     ((\<forall>p. s_best_bid sn = Some p \<longrightarrow> p \<in> l_price ` set (s_bids sn)) \<and>
      (\<forall>p. s_best_ask sn = Some p \<longrightarrow> p \<in> l_price ` set (s_asks sn)))"

locale intent_source =
  fixes aid :: string
    and answer :: "market_snapshot \<Rightarrow> agent_intent list"
  assumes answer_tick: "i \<in> set (answer s) \<Longrightarrow> i_tick i = ms_tick s"
    and answer_agent: "i \<in> set (answer s) \<Longrightarrow> i_agent_id i = aid"
    and answer_sequences: "distinct (map i_sequence (answer s))"
begin

lemma answer_keys: "distinct (map intent_key (answer s))"
proof -
  have "distinct (map (\<lambda>(_, _, _, q, _). q) (map intent_key (answer s)))"
    using answer_sequences by (simp add: intent_key_def comp_def)
  then show ?thesis by (simp only: distinct_map)
qed

lemma answer_key_agent: "k \<in> intent_key ` set (answer s) \<Longrightarrow> fst (snd (snd k)) = aid"
  using answer_agent by (auto simp: intent_key_def)

end

locale quoting_agent = intent_source +
  assumes answer_kind: "i \<in> set (answer s) \<Longrightarrow> i_kind i = ''market'' \<or> i_kind i = ''set_level''"
    and answer_shown: "i \<in> set (answer s) \<Longrightarrow> shows_best (ms_book s) \<Longrightarrow> i_kind i = ''set_level'' \<Longrightarrow>
      \<exists>p. i_price i = Some p \<and> shown_price (ms_book s) (i_side i) p"
begin

lemma answer_order_price:
  assumes "i \<in> set (answer s)" and "i_kind i = ''set_level''" and "shows_best (ms_book s)"
  shows "\<exists>p. i_price i = Some p \<and> p \<in> l_price ` (set (s_bids (ms_book s)) \<union> set (s_asks (ms_book s)))"
  using answer_shown [OF assms(1) assms(3) assms(2)] by (auto simp: shown_price_def)

end

lemma nth_level_shown:
  "k < length ls \<Longrightarrow> l_price (ls ! k) \<in> l_price ` set ls"
  by simp

interpretation maker: quoting_agent aid "decide_maker aid" for aid
  by unfold_locales
    (auto simp: decide_maker_def mk_intent_def Let_def shown_price_def shows_best_def dest: sym split: option.splits)

interpretation noise: quoting_agent aid "decide_noise aid off cadence" for aid off cadence
proof unfold_locales
  fix i s
  assume i: "i \<in> set (decide_noise aid off cadence s)"
  show "\<exists>p. i_price i = Some p \<and> shown_price (ms_book s) (i_side i) p"
    using i by (auto simp: decide_noise_def mk_intent_def Let_def shown_price_def min_def nat_less_iff
        intro!: nth_level_shown split: if_splits)
qed (auto simp: decide_noise_def mk_intent_def Let_def split: if_splits)

interpretation taker: quoting_agent aid "decide_taker aid off cadence q" for aid off cadence q
  by unfold_locales (auto simp: decide_taker_def mk_intent_def Let_def split: if_splits)

lemma heavy_checksum_bounds: "0 \<le> c \<Longrightarrow> c < 2 ^ 31 \<Longrightarrow>
  0 \<le> heavy_checksum seed n index c \<and> heavy_checksum seed n index c < 2 ^ 31"
proof (induction n arbitrary: index c)
  case (Suc n)
  then show ?case by (simp only: heavy_checksum.simps) (rule Suc.IH, simp_all add: take_bit_int_less_exp [of 31, simplified])
qed simp

lemma picked_level_shown:
  assumes "ls \<noteq> []"
  shows "l_price (ls ! nat (c mod min (int (length ls)) 5)) \<in> l_price ` set ls"
proof (rule nth_level_shown)
  have "0 < min (int (length ls)) 5" using assms by simp
  from pos_mod_bound [OF this, of c] pos_mod_sign [OF this, of c] show "nat (c mod min (int (length ls)) 5) < length ls" by linarith
qed

interpretation heavy: quoting_agent aid "decide_heavy aid off complexity" for aid off complexity
proof unfold_locales
  fix i s
  assume i: "i \<in> set (decide_heavy aid off complexity s)"
  show "\<exists>p. i_price i = Some p \<and> shown_price (ms_book s) (i_side i) p"
    using i by (auto simp: decide_heavy_def mk_intent_def Let_def shown_price_def
        intro!: picked_level_shown split: if_splits)
qed (auto simp: decide_heavy_def mk_intent_def Let_def split: if_splits)

section \<open>Local agents\<close>

definition local_agent :: "runtime_agent \<Rightarrow> bool" where
  "local_agent a = (case a of RemoteRunner _ \<Rightarrow> False | _ \<Rightarrow> True)"

definition local_answer :: "runtime_agent \<Rightarrow> market_snapshot \<Rightarrow> agent_intent list" where
  "local_answer a s = task_intents (decide (\<lambda>_ _. Inr []) a s)"

lemma decide_local: "local_agent a \<Longrightarrow> decide remote a s = Inr (local_answer a s)"
  by (cases a) (simp_all add: local_agent_def local_answer_def decide_def task_intents_def)

lemma local_answer_simps:
  "local_answer (TopOfBookMarketMaker aid) = decide_maker aid"
  "local_answer (NoiseTrader aid off cadence) = decide_noise aid off cadence"
  "local_answer (LiquidityTaker aid off cadence q) = decide_taker aid off cadence q"
  "local_answer (HeavyAgent aid off complexity) = decide_heavy aid off complexity"
  by (simp_all add: fun_eq_iff local_answer_def decide_def task_intents_def)

lemma local_quoting: "local_agent a \<Longrightarrow> quoting_agent (agent_id a) (local_answer a)"
  using maker.quoting_agent_axioms noise.quoting_agent_axioms taker.quoting_agent_axioms heavy.quoting_agent_axioms
  by (cases a) (simp_all add: local_agent_def local_answer_simps)

lemma local_intents_keys:
  assumes "list_all local_agent ags" and "distinct (map agent_id ags)"
  shows "distinct (map intent_key (concat (map (\<lambda>a. local_answer a s) ags)))"
  using assms
proof (induction ags)
  case (Cons a ags)
  have q: "quoting_agent (agent_id a) (local_answer a)" using Cons.prems by (intro local_quoting) simp
  have d: "distinct (map intent_key (local_answer a s))"
    by (rule intent_source.answer_keys) (rule quoting_agent.axioms(1) [OF q])
  have "intent_key ` set (local_answer a s) \<inter> intent_key ` set (local_answer b s) = {}" if b: "b \<in> set ags" for b
  proof -
    have "quoting_agent (agent_id b) (local_answer b)"
      using Cons.prems b by (intro local_quoting) (simp add: list_all_iff)
    then have "\<forall>k \<in> intent_key ` set (local_answer b s). fst (snd (snd k)) = agent_id b"
      using intent_source.answer_key_agent quoting_agent.axioms(1) by blast
    moreover have "\<forall>k \<in> intent_key ` set (local_answer a s). fst (snd (snd k)) = agent_id a"
      using intent_source.answer_key_agent quoting_agent.axioms(1) q by blast
    moreover have "agent_id a \<noteq> agent_id b" using Cons.prems b by auto
    ultimately show ?thesis by auto
  qed
  then have "intent_key ` set (local_answer a s) \<inter>
    intent_key ` set (concat (map (\<lambda>a. local_answer a s) ags)) = {}" by auto
  then show ?case using Cons d by simp
qed simp

lemma try_map_local:
  "list_all local_agent ags \<Longrightarrow> try_map (\<lambda>a. decide remote a s) ags = Inr (map (\<lambda>a. local_answer a s) ags)"
  by (rule try_map_Inr) (simp add: list_all_iff decide_local)

lemma sort_key_permuted:
  assumes "mset xs = mset ys" and "distinct (map f ys)"
  shows "sort_key f xs = sort_key f ys"
proof (rule sort_key_inj_key_eq)
  have "set xs = set ys" using assms(1) by (rule mset_eq_setD)
  then show "inj_on f (set xs)" using assms(2) by (simp add: distinct_map)
qed (simp_all add: assms)

lemma mset_concat_perm: "mset xss = mset yss \<Longrightarrow> mset (concat xss) = mset (concat yss)"
  by (metis mset_concat mset_map sum_mset_sum_list)

text \<open>C20. Whatever the order in which the tasks of local agents complete, the asynchronous manager
  hands the exchange the same intents in the same order as the synchronous one run on the agents that
  answered, provided their ids differ: the schedule of the event loop cannot change a tick.\<close>

theorem completion_order_irrelevant:
  assumes "list_all local_agent ags" and "distinct (map agent_id ags)" and "mset finished = mset ags"
  shows "collect_intents_sync remote ags s = Inr (collect_intents (map (\<lambda>a. decide remote a s) finished))"
proof -
  have l: "list_all local_agent finished"
    using assms(1) mset_eq_setD [OF assms(3)] by (simp add: list_all_iff)
  have e: "map task_intents (map (\<lambda>a. decide remote a s) finished) = map (\<lambda>a. local_answer a s) finished"
    using l by (simp add: list_all_iff decide_local task_intents_def)
  have "mset (concat (map (\<lambda>a. local_answer a s) finished)) = mset (concat (map (\<lambda>a. local_answer a s) ags))"
    by (rule mset_concat_perm) (simp add: assms(3))
  from sort_key_permuted [OF this local_intents_keys [OF assms(1,2)]] show ?thesis
    unfolding collect_intents_sync_def try_map_local [OF assms(1)] collect_intents_def e by simp
qed

theorem completion_order_irrelevant_witness:
  "\<exists>is. collect_intents_sync (\<lambda>_ _. Inl IndexError) [mk_noise ''N1'' 0 1, TopOfBookMarketMaker ''M1'']
      \<lparr>ms_tick = 3, ms_book = \<lparr>s_bids = [\<lparr>l_price = 99, l_quantity = 1, l_owner = None\<rparr>], s_asks = [],
        s_best_bid = Some 99, s_best_ask = None, s_mid = None, s_spread = None\<rparr>\<rparr> = Inr is \<and>
    is = collect_intents (map (\<lambda>a. decide (\<lambda>_ _. Inl IndexError) a
      \<lparr>ms_tick = 3, ms_book = \<lparr>s_bids = [\<lparr>l_price = 99, l_quantity = 1, l_owner = None\<rparr>], s_asks = [],
        s_best_bid = Some 99, s_best_ask = None, s_mid = None, s_spread = None\<rparr>\<rparr>)
      [TopOfBookMarketMaker ''M1'', mk_noise ''N1'' 0 1])"
proof -
  have l: "list_all local_agent [mk_noise ''N1'' 0 1, TopOfBookMarketMaker ''M1'']"
    and d: "distinct (map agent_id [mk_noise ''N1'' 0 1, TopOfBookMarketMaker ''M1''])"
    by (simp_all add: local_agent_def mk_noise_def)
  have m: "mset [TopOfBookMarketMaker ''M1'', mk_noise ''N1'' 0 1] =
    mset [mk_noise ''N1'' 0 1, TopOfBookMarketMaker ''M1'']" by (simp add: add_mset_commute)
  show ?thesis using completion_order_irrelevant [OF l d m] by blast
qed

section \<open>Prices\<close>

lemma best_shown:
  fixes xs :: "rat list"
  assumes "xs \<noteq> []" and "0 < n"
  shows "Max (set xs) \<in> set (take n (rev (sort xs)))" and "Min (set xs) \<in> set (take n (sort xs))"
proof -
  have ne: "sort xs \<noteq> []" using assms(1) by (metis length_sort length_0_conv)
  have "rev (sort xs) ! 0 \<in> set (take n (rev (sort xs)))"
    using ne assms(2) by (auto simp: in_set_conv_nth intro!: exI [of _ 0])
  then show "Max (set xs) \<in> set (take n (rev (sort xs)))" by (simp only: best_first(1) [OF assms(1)])
  have "sort xs ! 0 \<in> set (take n (sort xs))"
    using ne assms(2) by (auto simp: in_set_conv_nth intro!: exI [of _ 0])
  then show "Min (set xs) \<in> set (take n (sort xs))" by (simp only: best_first(2) [OF assms(1)])
qed

lemma snapshot_shows_best:
  assumes "get_snapshot depth b = Inr (b', snap)"
  shows "shows_best snap"
proof -
  note sp = snapshot_prices [OF assms]
  have b: "l_price ` set (s_bids snap) = set (take (nat depth) (rev (sort (dkeys (bids b)))))"
    and a: "l_price ` set (s_asks snap) = set (take (nat depth) (sort (dkeys (asks b))))"
    by (simp_all only: set_map [symmetric] sp(1,2))
  have d: "0 < nat depth" using sp(7) by simp
  have "p \<in> l_price ` set (s_bids snap)" if "s_best_bid snap = Some p" for p
  proof -
    have "dkeys (bids b) \<noteq> [] \<and> p = Max (set (dkeys (bids b)))"
      using that by (auto simp: sp(5) best_bid_def max_opt_def split: if_splits)
    with best_shown(1) [OF _ d, of "dkeys (bids b)"] show ?thesis unfolding b by blast
  qed
  moreover have "p \<in> l_price ` set (s_asks snap)" if "s_best_ask snap = Some p" for p
  proof -
    have "dkeys (asks b) \<noteq> [] \<and> p = Min (set (dkeys (asks b)))"
      using that by (auto simp: sp(6) best_ask_def min_opt_def split: if_splits)
    with best_shown(2) [OF _ d, of "dkeys (asks b)"] show ?thesis unfolding a by blast
  qed
  ultimately show ?thesis by (simp add: shows_best_def)
qed

lemma shown_price_on_book:
  assumes "get_snapshot depth b = Inr (b', snap)" and "shown_price snap sd p"
  shows "(sd = Some ''bid'' \<and> p \<in> set (dkeys (bids b))) \<or> (sd = Some ''ask'' \<and> p \<in> set (dkeys (asks b)))"
proof -
  note sp = snapshot_prices [OF assms(1)]
  have "l_price ` set (s_bids snap) \<subseteq> set (dkeys (bids b))"
    unfolding set_map [symmetric] sp(1) by (metis set_take_subset set_rev set_sort)
  moreover have "l_price ` set (s_asks snap) \<subseteq> set (dkeys (asks b))"
    unfolding set_map [symmetric] sp(2) by (metis set_take_subset set_sort)
  ultimately show ?thesis using assms(2) by (auto simp: shown_price_def)
qed

text \<open>An intent of a local agent to set a level names a price at which orders already rest on that
  side of the book the agent was shown: local agents change the size of levels, they never open one.
  Every other intent of theirs is a market order; each carries the agent's id and the tick.\<close>

theorem local_agents_quote_existing_levels:
  assumes "local_agent a" and "get_snapshot depth b = Inr (b', snap)"
    and "decide remote a \<lparr>ms_tick = t, ms_book = snap\<rparr> = Inr is" and "i \<in> set is"
  shows "i_agent_id i = agent_id a \<and> i_tick i = t \<and>
    (i_kind i = ''market'' \<or>
     (i_kind i = ''set_level'' \<and> (\<exists>p. i_price i = Some p \<and>
        ((i_side i = Some ''bid'' \<and> p \<in> set (dkeys (bids b))) \<or>
         (i_side i = Some ''ask'' \<and> p \<in> set (dkeys (asks b)))))))"
proof -
  let ?s = "\<lparr>ms_tick = t, ms_book = snap\<rparr>"
  note q = local_quoting [OF assms(1)]
  note src = quoting_agent.axioms(1) [OF q]
  have i: "i \<in> set (local_answer a ?s)" using assms(3,4) decide_local [OF assms(1)] by simp
  have p: "\<exists>p. i_price i = Some p \<and> shown_price snap (i_side i) p" if "i_kind i = ''set_level''"
    using quoting_agent.answer_shown [OF q i _ that] snapshot_shows_best [OF assms(2)] by simp
  show ?thesis
    using intent_source.answer_agent [OF src i] intent_source.answer_tick [OF src i]
      quoting_agent.answer_kind [OF q i] p shown_price_on_book [OF assms(2)]
    by fastforce
qed

theorem local_agents_quote_existing_levels_witness:
  "\<exists>b' snap i. get_snapshot 12 two_bids = Inr (b', snap) \<and> i \<in> set (decide_noise ''N1'' 0 1 \<lparr>ms_tick = 3, ms_book = snap\<rparr>) \<and>
    i_price i = Some 99 \<and> 99 \<in> set (dkeys (bids two_bids)) \<and> i_tick i = 3"
proof -
  have "case get_snapshot 12 two_bids of Inr (b', snap) \<Rightarrow>
      map (\<lambda>i. (i_kind i, i_side i, i_price i)) (decide_noise ''N1'' 0 1 \<lparr>ms_tick = 3, ms_book = snap\<rparr>) =
        [(''set_level'', Some ''bid'', Some 99)] | _ \<Rightarrow> False" by code_simp
  then obtain b' snap where g: "get_snapshot 12 two_bids = Inr (b', snap)"
    and m: "map (\<lambda>i. (i_kind i, i_side i, i_price i)) (decide_noise ''N1'' 0 1 \<lparr>ms_tick = 3, ms_book = snap\<rparr>) =
        [(''set_level'', Some ''bid'', Some 99)]"
    by (auto split: sum.splits prod.splits)
  from m obtain i where i: "i \<in> set (decide_noise ''N1'' 0 1 \<lparr>ms_tick = 3, ms_book = snap\<rparr>)"
    "i_kind i = ''set_level''" "i_side i = Some ''bid''" "i_price i = Some 99" by auto
  have l: "local_agent (NoiseTrader ''N1'' 0 1)" by (simp add: local_agent_def)
  have d: "decide (\<lambda>_ _. Inl IndexError) (NoiseTrader ''N1'' 0 1) \<lparr>ms_tick = 3, ms_book = snap\<rparr> =
      Inr (decide_noise ''N1'' 0 1 \<lparr>ms_tick = 3, ms_book = snap\<rparr>)" by (simp add: decide_def)
  from local_agents_quote_existing_levels [OF l g d i(1)] i g show ?thesis by auto
qed

section \<open>Populations\<close>

lemma pad3_inject [simp]: "pad3 i = pad3 j \<longleftrightarrow> i = j"
  by (simp add: pad3_def)

lemma pad3_first: "pad3 i = ''01'' \<Longrightarrow> i = 1" "pad3 i = ''001'' \<Longrightarrow> i = 1"
proof -
  assume "pad3 i = ''01''"
  then have "dec_value (pad3 i) = dec_value ''01''" by (rule arg_cong)
  then show "i = 1" by (simp add: pad3_def dec_value_zpad dec_value_nat_dec) (simp add: dec_value_def)
next
  assume "pad3 i = ''001''"
  then have "dec_value (pad3 i) = dec_value ''001''" by (rule arg_cong)
  then show "i = 1" by (simp add: pad3_def dec_value_zpad dec_value_nat_dec) (simp add: dec_value_def)
qed

lemma pad3_firsts:
  "4 \<le> i \<Longrightarrow> pad3 i \<noteq> ''01''" "4 \<le> i \<Longrightarrow> ''01'' \<noteq> pad3 i"
  "4 \<le> i \<Longrightarrow> pad3 i \<noteq> ''001''" "4 \<le> i \<Longrightarrow> ''001'' \<noteq> pad3 i"
  using pad3_first by fastforce+

lemmas population_defs = mk_noise_def mk_taker_def mk_heavy_def local_agent_def

lemma normal_agents_distinct: "distinct (map agent_id (build_normal_agents n))"
proof -
  have "inj_on (agent_id \<circ> normal_agent) (set [4..<k])" for k
    by (rule inj_onI) (auto simp: normal_agent_def population_defs split: if_splits)
  then have "distinct (map (agent_id \<circ> normal_agent) [4..<k])" for k by (simp add: distinct_map)
  then show ?thesis
    by (auto simp: build_normal_agents_def normal_agent_def population_defs pad3_firsts split: if_splits)
qed

lemma prefixed_agents_distinct: "distinct (map agent_id (build_prefixed_normal_agents n p))"
proof -
  have "inj_on (agent_id \<circ> prefixed_agent q) (set [4..<k])" for k q
    by (rule inj_onI) (auto simp: prefixed_agent_def population_defs split: if_splits)
  then have "distinct (map (agent_id \<circ> prefixed_agent q) [4..<k])" for k q by (simp add: distinct_map)
  then show ?thesis
    by (auto simp: build_prefixed_normal_agents_def Let_def prefixed_agent_def population_defs
        pad3_firsts split: if_splits)
qed

lemma heavy_agents_distinct: "distinct (map agent_id (build_heavy_agents n p c))"
  by (auto simp: build_heavy_agents_def population_defs distinct_map inj_on_def)

lemma remote_runners_distinct: "distinct (map agent_id (build_remote_runners urls))"
proof -
  have "distinct (map fst (filter (\<lambda>(_, u). str_strip u \<noteq> []) (List.enumerate 1 urls)))"
    by (metis distinct_map_filter distinct_enumerate map_fst_enumerate distinct_upt)
  then have "distinct (map ((\<lambda>i. ''remote_runner:'' @ zpad 2 (nat_dec i)) \<circ> fst)
      (filter (\<lambda>(_, u). str_strip u \<noteq> []) (List.enumerate 1 urls)))"
    by (simp only: map_map [symmetric] distinct_map) (simp add: inj_on_def)
  then show ?thesis by (simp add: build_remote_runners_def comp_def case_prod_beta)
qed

lemma population_sizes:
  "length (build_normal_agents n) = nat n" "length (build_prefixed_normal_agents n p) = nat n"
  "length (build_heavy_agents n p c) = nat n"
  by (auto simp: build_normal_agents_def build_prefixed_normal_agents_def build_heavy_agents_def Let_def)

lemma populations_local:
  "list_all local_agent (build_normal_agents n)" "list_all local_agent (build_prefixed_normal_agents n p)"
  "list_all local_agent (build_heavy_agents n p c)"
  by (auto simp: list_all_iff build_normal_agents_def build_prefixed_normal_agents_def build_heavy_agents_def
      normal_agent_def prefixed_agent_def population_defs Let_def)

lemma local_id_upper: "a \<in> set (build_normal_agents n) \<Longrightarrow> hd (agent_id a) \<noteq> CHR ''r''"
  by (auto simp: build_normal_agents_def normal_agent_def population_defs split: if_splits)

lemma runner_id: "a \<in> set (build_remote_runners urls) \<Longrightarrow> hd (agent_id a) = CHR ''r''"
  by (auto simp: build_remote_runners_def)

lemma manager_distinct: "distinct (map agent_id (build_normal_agents n @ build_remote_runners urls))"
  using normal_agents_distinct remote_runners_distinct by (fastforce dest: local_id_upper runner_id)

lemma runner_count: "length (build_remote_runners urls) = length (filter (\<lambda>u. str_strip u \<noteq> []) urls)"
proof -
  have "length (filter (\<lambda>(_, u). P u) (List.enumerate k xs)) = length (filter P xs)" for P k and xs :: "string list"
    by (induction xs arbitrary: k) auto
  then show ?thesis by (simp add: build_remote_runners_def)
qed

lemma manager_agents:
  "distinct (manager_agent_ids (build_agent_manager n urls))" "sorted (manager_agent_ids (build_agent_manager n urls))"
  "length (build_agent_manager n urls) = nat n + length (filter (\<lambda>u. str_strip u \<noteq> []) urls)"
proof -
  have "mset (manager_agent_ids (build_agent_manager n urls)) =
      mset (map agent_id (build_normal_agents n @ build_remote_runners urls))"
    by (simp add: build_agent_manager_def manager_agent_ids_def)
  then show "distinct (manager_agent_ids (build_agent_manager n urls))"
    using manager_distinct by (metis mset_eq_imp_distinct_iff)
qed (simp_all add: build_agent_manager_def manager_agent_ids_def population_sizes runner_count)

text \<open>The three population builders create exactly the number of agents asked for (none for a
  non-positive number), all of them local, and no two agents of a population share an id; the manager
  adds one runner per non-blank URL and keeps its agents sorted by id, again without a repeated id.\<close>

theorem populations_have_distinct_ids:
  "length (build_normal_agents n) = nat n \<and> length (build_prefixed_normal_agents n p) = nat n \<and>
   length (build_heavy_agents n p c) = nat n \<and>
   distinct (map agent_id (build_normal_agents n)) \<and>
   distinct (map agent_id (build_prefixed_normal_agents n p)) \<and>
   distinct (map agent_id (build_heavy_agents n p c)) \<and>
   list_all local_agent (build_normal_agents n @ build_prefixed_normal_agents n p @ build_heavy_agents n p c) \<and>
   distinct (manager_agent_ids (build_agent_manager n urls)) \<and> sorted (manager_agent_ids (build_agent_manager n urls)) \<and>
   length (build_agent_manager n urls) = nat n + length (filter (\<lambda>u. str_strip u \<noteq> []) urls)"
  by (simp only: population_sizes populations_local manager_agents normal_agents_distinct
      prefixed_agents_distinct heavy_agents_distinct list_all_append simp_thms)

end
