(* ===== verification/ArenaSchemas.thy ===== *)
theory ArenaSchemas
  imports ExchangeSchemas
begin

text \<open>
  The arena's data model: \<open>backend/app/scenarios/catalog.py\<close>, \<open>backend/app/schemas/arena.py\<close> and the
  constructors of \<open>backend/app/arena/state.py\<close>. Models that reject a value (a confidence outside 0
  to 1) have a constructor that raises; the others are plain records. Extra keyword fields of an
  \<open>AgentEvent\<close> are kept in \<open>ae_extra\<close>.
\<close>

section \<open>Scenario catalog\<close>

datatype scenario_type = SpoofingLikeWall | LayeringLike | QuoteStuffing | LiquidityEvaporation

definition scenario_value :: "scenario_type \<Rightarrow> string" where
  "scenario_value t = (case t of
      SpoofingLikeWall \<Rightarrow> ''spoofing_like_wall''
    | LayeringLike \<Rightarrow> ''layering_like''
    | QuoteStuffing \<Rightarrow> ''quote_stuffing''
    | LiquidityEvaporation \<Rightarrow> ''liquidity_evaporation'')"

definition scenario_types :: "scenario_type list" where
  "scenario_types = [SpoofingLikeWall, LayeringLike, QuoteStuffing, LiquidityEvaporation]"

definition implemented_scenario_types :: "string list" where
  "implemented_scenario_types = map scenario_value scenario_types"

definition benchmark_scenarios :: "string list" where
  "benchmark_scenarios = ''normal_market'' # implemented_scenario_types"

definition scenario_title :: "scenario_type \<Rightarrow> string" where
  "scenario_title t = (case t of
      SpoofingLikeWall \<Rightarrow> ''Spoofing-like Wall''
    | LayeringLike \<Rightarrow> ''Layering-like Pattern''
    | QuoteStuffing \<Rightarrow> ''Quote Stuffing Burst''
    | LiquidityEvaporation \<Rightarrow> ''Liquidity Evaporation'')"

definition scenario_endpoint :: "scenario_type \<Rightarrow> string" where
  "scenario_endpoint t = (case t of
      SpoofingLikeWall \<Rightarrow> ''/api/scenarios/spoofing-like''
    | LayeringLike \<Rightarrow> ''/api/scenarios/layering-like''
    | QuoteStuffing \<Rightarrow> ''/api/scenarios/quote-stuffing''
    | LiquidityEvaporation \<Rightarrow> ''/api/scenarios/liquidity-evaporation'')"

definition parse_scenario_type :: "string \<Rightarrow> py_error + scenario_type" where
  "parse_scenario_type v =
     (case find (\<lambda>t. scenario_value t = str_lower (str_strip v)) scenario_types of
        Some t \<Rightarrow> Inr t
      | None \<Rightarrow> Inl (ValueError (''unknown scenario: '' @ v)))"

lemma set_scenario_types [simp]: "t \<in> set scenario_types"
  by (cases t) (simp_all add: scenario_types_def)

lemma scenario_value_inject [simp]: "scenario_value s = scenario_value t \<longleftrightarrow> s = t"
  by (cases s; cases t) (simp_all add: scenario_value_def)

section \<open>Events and tracker\<close>

datatype simulation_status = Stopped | Running | Paused
datatype market_regime = Calm | Volatile | ThinLiquidity
datatype red_team_goal = Obvious | Stealth | HardToDetect

datatype attack_stage = Armed | WallPlaced | PressurePhase | WallCancelled | StageCancelled
  | IncidentConfirmed | StageDone

definition stage_value :: "attack_stage \<Rightarrow> string" where
  "stage_value s = (case s of
      Armed \<Rightarrow> ''armed'' | WallPlaced \<Rightarrow> ''wall_placed'' | PressurePhase \<Rightarrow> ''pressure_phase''
    | WallCancelled \<Rightarrow> ''wall_cancelled'' | StageCancelled \<Rightarrow> ''cancelled''
    | IncidentConfirmed \<Rightarrow> ''incident_confirmed'' | StageDone \<Rightarrow> ''done'')"

record agent_event =
  ae_type :: string
  ae_event_id :: "string option"
  ae_timestamp :: "rat option"
  ae_order_id :: "string option"
  ae_aggressor_order_id :: "string option"
  ae_resting_order_id :: "string option"
  ae_agent_id :: "string option"
  ae_aggressor_agent_id :: "string option"
  ae_resting_agent_id :: "string option"
  ae_side :: "side option"
  ae_price :: "rat option"
  ae_quantity :: "rat option"
  ae_scenario_id :: "string option"
  ae_scenario_name :: "string option"
  ae_scenario_family :: "string option"
  ae_extra :: payload

definition blank_event :: "string \<Rightarrow> agent_event" where
  "blank_event ty =
     \<lparr>ae_type = ty, ae_event_id = None, ae_timestamp = None, ae_order_id = None,
      ae_aggressor_order_id = None, ae_resting_order_id = None, ae_agent_id = None,
      ae_aggressor_agent_id = None, ae_resting_agent_id = None, ae_side = None, ae_price = None,
      ae_quantity = None, ae_scenario_id = None, ae_scenario_name = None,
      ae_scenario_family = None, ae_extra = []\<rparr>"

record evidence_item =
  ei_key :: string
  ei_label :: string
  ei_value :: json
  ei_unit :: "string option"
  ei_interpretation :: "string option"

datatype severity = SevLow | SevMedium | SevHigh | SevCritical

record detector_score =
  ds_name :: string
  ds_confidence :: rat
  ds_alert :: bool
  ds_severity :: "severity option"
  ds_evidence :: "evidence_item list option"

definition unit_interval :: "string \<Rightarrow> rat \<Rightarrow> py_error + rat" where
  "unit_interval field x =
     (if x < 0 then Inl (ValueError (field @ '': Input should be greater than or equal to 0''))
      else if 1 < x then Inl (ValueError (field @ '': Input should be less than or equal to 1''))
      else Inr x)"

definition mk_detector_score ::
  "string \<Rightarrow> rat \<Rightarrow> bool \<Rightarrow> severity option \<Rightarrow> evidence_item list option \<Rightarrow> py_error + detector_score" where
  "mk_detector_score name conf alrt sev ev =
     try_bind (unit_interval ''confidence'' conf) (\<lambda>c.
       Inr \<lparr>ds_name = name, ds_confidence = c, ds_alert = alrt, ds_severity = sev, ds_evidence = ev\<rparr>)"

record detector_scores =
  dss_scores :: "detector_score list"
  dss_alerts :: "detector_score list"

record incident =
  in_id :: string
  in_title :: string
  in_type :: string
  in_agent :: string
  in_confidence :: rat
  in_severity :: severity
  in_evidence :: "evidence_item list"
  in_explanation :: string
  in_scenario_id :: "string option"
  in_scenario_family :: "string option"

datatype stage_status = Pending | Active | Completed

record stage_snapshot =
  ss_confidence :: "rat option"
  ss_label :: string
  ss_stage :: attack_stage
  ss_status :: stage_status
  ss_tick :: "int option"
  ss_timestamp :: "rat option"

record window =
  w_start :: "int option"
  w_end :: "int option"

record scenario_label =
  lb_label_id :: string
  lb_run_id :: string
  lb_scenario_id :: string
  lb_family :: string
  lb_name :: string
  lb_seed :: int
  lb_start_tick :: int
  lb_expected_end_tick :: "int option"
  lb_actual_end_tick :: "int option"
  lb_agent_ids :: "string list"
  lb_event_ids :: "string list"
  lb_order_ids :: "string list"
  lb_manipulation_windows :: "window list"
  lb_phase_windows :: "(string, window) dict"
  lb_parameters :: payload

record tracker_state =
  tr_scenario_id :: string
  tr_scenario_name :: string
  tr_family :: string
  tr_agent_id :: string
  tr_current_stage :: "attack_stage option"
  tr_start_tick :: int
  tr_stages :: "stage_snapshot list option"
  tr_status :: attack_stage
  tr_evidence :: "evidence_item list option"
  tr_label :: "scenario_label option"

section \<open>Book snapshots and features of the arena\<close>

record arena_level =
  al_price :: rat
  al_quantity :: rat
  al_agent_id :: "string option"
  al_owner :: "string option"
  al_scenario_id :: "string option"
  al_scenario_name :: "string option"

record arena_book =
  ab_bids :: "arena_level list"
  ab_asks :: "arena_level list"
  ab_best_bid :: "rat option"
  ab_best_ask :: "rat option"
  ab_mid :: "rat option"
  ab_spread :: "rat option"

text \<open>
  \<open>order_book_snapshot_from_dict\<close> applied to \<open>to_dict\<close> of an exchange snapshot: the owner key is
  there only when \<open>price_level_to_dict\<close> writes it.
\<close>

definition arena_level_of :: "price_level \<Rightarrow> arena_level" where
  "arena_level_of l =
     \<lparr>al_price = l_price l, al_quantity = l_quantity l, al_agent_id = None,
      al_owner = (case l_owner l of None \<Rightarrow> None
                  | Some ow \<Rightarrow> if ow \<noteq> [] \<and> ow \<noteq> ''normal'' then Some ow else None),
      al_scenario_id = None, al_scenario_name = None\<rparr>"

definition order_book_snapshot_from_dict :: "book_snapshot \<Rightarrow> arena_book" where
  "order_book_snapshot_from_dict s =
     \<lparr>ab_bids = map arena_level_of (s_bids s), ab_asks = map arena_level_of (s_asks s),
      ab_best_bid = s_best_bid s, ab_best_ask = s_best_ask s, ab_mid = s_mid s, ab_spread = s_spread s\<rparr>"

record market_features =
  mf_spread_bps :: rat
  mf_depth_top_n :: rat
  mf_imbalance :: rat
  mf_message_rate :: rat
  mf_cancel_to_trade_ratio :: rat
  mf_order_lifetime_ms :: rat
  mf_wall_size_ratio :: rat
  mf_depth_change_pct :: rat

definition truthy_float :: "rat option \<Rightarrow> bool" where
  "truthy_float x = (case x of None \<Rightarrow> False | Some v \<Rightarrow> v \<noteq> 0)"

definition default_market_features :: "arena_book \<Rightarrow> market_features" where
  "default_market_features b =
     (let spread_bps = (case (ab_mid b, ab_spread b) of
            (Some m, Some s) \<Rightarrow> if m \<noteq> 0 then fmul (fdiv s m) 10000 else 0
          | _ \<Rightarrow> 0);
          bid_depth = fsum (map al_quantity (take 5 (ab_bids b)));
          ask_depth = fsum (map al_quantity (take 5 (ab_asks b)));
          total = fadd bid_depth ask_depth;
          imbalance = (if total \<noteq> 0 then fdiv (fsub bid_depth ask_depth) total else 0)
      in \<lparr>mf_spread_bps = fround 4 spread_bps, mf_depth_top_n = fround 4 total,
          mf_imbalance = fround 4 imbalance, mf_message_rate = 0, mf_cancel_to_trade_ratio = 0,
          mf_order_lifetime_ms = 0, mf_wall_size_ratio = 1, mf_depth_change_pct = 0\<rparr>)"

definition empty_detector_scores :: detector_scores where
  "empty_detector_scores =
     \<lparr>dss_scores = map (\<lambda>n. \<lparr>ds_name = n, ds_confidence = 0, ds_alert = False, ds_severity = Some SevLow, ds_evidence = None\<rparr>)
        [''spoofing_like'', ''layering_like'', ''quote_stuffing'', ''liquidity_shock''],
      dss_alerts = []\<rparr>"

record arena_state =
  st_tick :: int
  st_running :: bool
  st_events :: "agent_event list"
  st_exchange_events :: "exchange_event list"
  st_book :: arena_book
  st_active_agents :: "string list"
  st_active_scenario :: "tracker_state option"
  st_detectors :: detector_scores
  st_incidents :: "incident list"
  st_features :: payload

end
