(* ===== verification/PyDecimal.thy ===== *)
theory PyDecimal
  imports PyFloat
begin

text \<open>
  Python's \<open>decimal\<close> arithmetic in the default context: an operation's exact result rounded to 28
  significant decimal digits, ties to even. A finite \<open>Decimal\<close> is its value, a rational number.
\<close>

section \<open>Rounding to 28 digits\<close>

text \<open>\<open>dec_adjusted\<close> is the exponent of the leading digit.\<close>

definition dec_adjusted :: "rat \<Rightarrow> int" where
  "dec_adjusted x =
     (if 1 \<le> x then int (length (udec \<lfloor>x\<rfloor>)) - 1
      else let d = int (length (udec \<lfloor>1 / x\<rfloor>)) in
        if x = 10 powi (1 - d) then 1 - d else - d)"

definition dec_round28 :: "rat \<Rightarrow> rat" where
  "dec_round28 x =
     (if x = 0 then 0
      else let u = 10 powi (dec_adjusted \<bar>x\<bar> - 27) in of_int (rhe (x / u)) * u)"

definition dec_add :: "rat \<Rightarrow> rat \<Rightarrow> rat" where
  "dec_add x y = dec_round28 (x + y)"

definition dec_mul :: "rat \<Rightarrow> rat \<Rightarrow> rat" where
  "dec_mul x y = dec_round28 (x * y)"

definition dec_div :: "rat \<Rightarrow> rat \<Rightarrow> rat" where
  "dec_div x y = dec_round28 (x / y)"

section \<open>Digits\<close>

lemma nat_dec_length: "10 ^ (length (nat_dec n) - 1) \<le> n \<or> n = 0"
  and nat_dec_length_less: "n < 10 ^ length (nat_dec n)"
proof (induction n rule: nat_dec.induct)
  case (1 n)
  {
    case 1
    then show ?case
    proof (cases "n < 10")
      case False
      then have "10 ^ (length (nat_dec (n div 10)) - 1) \<le> n div 10" using "1.IH"(1) by auto
      moreover have "0 < length (nat_dec (n div 10))" using nat_dec_nonempty by simp
      then have "(10::nat) ^ length (nat_dec (n div 10)) = 10 * 10 ^ (length (nat_dec (n div 10)) - 1)"
        by (cases "length (nat_dec (n div 10))") auto
      ultimately show ?thesis using False by (simp add: nat_dec.simps [of n])
    qed (auto simp: nat_dec.simps [of n])
  next
    case 2
    then show ?case
    proof (cases "n < 10")
      case False
      then have "n div 10 < 10 ^ length (nat_dec (n div 10))" using "1.IH"(2) by auto
      then show ?thesis using False by (simp add: nat_dec.simps [of n])
    qed (auto simp: nat_dec.simps [of n])
  }
qed

lemma dec_adjusted_ge_one:
  assumes "1 \<le> x"
  shows "0 \<le> dec_adjusted x" and "10 powi dec_adjusted x \<le> x" and "x < 10 powi (dec_adjusted x + 1)"
proof -
  define n where "n = nat \<lfloor>x\<rfloor>"
  have n: "\<lfloor>x\<rfloor> = int n" "1 \<le> n" using assms by (simp_all add: n_def le_nat_iff le_floor_iff)
  define l where "l = length (nat_dec n)"
  have l: "0 < l" using nat_dec_nonempty by (simp add: l_def)
  have e: "dec_adjusted x = int (l - 1)"
    using assms l unfolding dec_adjusted_def n(1) udec_nat l_def [symmetric] by (simp add: of_nat_diff)
  show "0 \<le> dec_adjusted x" by (simp add: e)
  have "(10::nat) ^ (l - 1) \<le> n" "n < 10 ^ l"
    using nat_dec_length [of n] nat_dec_length_less [of n] n(2) by (auto simp: l_def)
  then have "of_nat (10 ^ (l - 1)) \<le> (of_nat n :: rat)" "of_nat (Suc n) \<le> (of_nat (10 ^ l) :: rat)"
    unfolding of_nat_le_iff by simp_all
  then have lo: "(10::rat) ^ (l - 1) \<le> of_nat n" and hi: "of_nat n + 1 \<le> (10::rat) ^ l" by simp_all
  have x: "of_nat n \<le> x" "x < of_nat n + 1" using n(1) by linarith+
  have p: "(10::rat) powi dec_adjusted x = 10 ^ (l - 1)" by (simp only: e power_int_of_nat)
  have "dec_adjusted x + 1 = int l" using l by (simp add: e of_nat_diff)
  then have q: "(10::rat) powi (dec_adjusted x + 1) = 10 ^ l" by (simp only: power_int_of_nat)
  show "10 powi dec_adjusted x \<le> x" "x < 10 powi (dec_adjusted x + 1)"
    unfolding p q using lo hi x by linarith+
qed

lemma dec_adjusted_small:
  assumes "0 < x" and "x < 1"
  shows "dec_adjusted x \<le> - 1"
proof -
  define d where "d = length (udec \<lfloor>1 / x\<rfloor>)"
  have "0 < d" by (simp add: d_def udec.simps [of "\<lfloor>1 / x\<rfloor>"])
  then have "d = 1 \<or> 2 \<le> d" by linarith
  moreover have "dec_adjusted x = (if x = 10 powi (1 - int d) then 1 - int d else - int d)"
    using assms by (simp add: dec_adjusted_def Let_def d_def)
  ultimately show ?thesis using assms by auto
qed

section \<open>Rounding error\<close>

lemma dec_round28_zero [simp]: "dec_round28 0 = 0"
  by (simp add: dec_round28_def)

lemma dec_round28_error:
  assumes "x \<noteq> 0"
  shows "\<bar>dec_round28 x - x\<bar> \<le> 10 powi (dec_adjusted \<bar>x\<bar> - 27) / 2"
proof -
  define u :: rat where "u = 10 powi (dec_adjusted \<bar>x\<bar> - 27)"
  have u: "0 < u" by (simp add: u_def)
  have "\<bar>of_int (rhe (x / u)) - x / u\<bar> * u \<le> 1 / 2 * u"
    using rhe_near [of "x / u"] u by (intro mult_right_mono) auto
  moreover have "dec_round28 x - x = (of_int (rhe (x / u)) - x / u) * u"
    using assms u by (simp add: dec_round28_def Let_def u_def [symmetric] algebra_simps)
  ultimately show ?thesis using u by (simp add: abs_mult u_def [symmetric])
qed

lemma dec_round28_int:
  assumes "\<bar>n\<bar> < 10 ^ 28"
  shows "dec_round28 (of_int n) = of_int n"
proof (cases "n = 0")
  case False
  define x :: rat where "x = \<bar>of_int n\<bar>"
  have "1 \<le> \<bar>n\<bar>" using False by linarith
  then have x: "1 \<le> x" "x < 10 ^ 28" using assms unfolding x_def
    by (metis of_int_1 of_int_abs of_int_le_iff, metis of_int_abs of_int_less_iff of_int_numeral of_int_power)
  let ?a = "dec_adjusted x"
  have "(10::rat) powi ?a < 10 powi 28"
    using dec_adjusted_ge_one(2) [OF x(1)] x(2) by (simp add: power_int_def)
  then have "\<not> 28 \<le> ?a" using power_int_increasing [of 28 ?a "10::rat"] by auto
  then have a: "0 \<le> ?a" "?a < 28" using dec_adjusted_ge_one(1) [OF x(1)] by linarith+
  define k where "k = nat (27 - ?a)"
  have u: "10 powi (?a - 27) = 1 / (10::rat) ^ k"
    using a by (auto simp: power_int_def k_def power_one_over inverse_eq_divide)
  have "of_int n / (1 / (10::rat) ^ k) = of_int (n * 10 ^ k)" by simp
  then have "rhe (of_int n / (1 / (10::rat) ^ k)) = n * 10 ^ k" by (simp only: rhe_of_int)
  then show ?thesis
    using False by (simp add: dec_round28_def Let_def x_def [symmetric] u)
qed simp

lemma dec_round28_near:
  assumes "\<bar>x\<bar> < 10 ^ 19"
  shows "\<bar>dec_round28 x - x\<bar> \<le> 1 / (2 * 10 ^ 9)"
proof (cases "x = 0")
  case False
  have "dec_adjusted \<bar>x\<bar> \<le> 18"
  proof (cases "1 \<le> \<bar>x\<bar>")
    case True
    have "(10::rat) powi dec_adjusted \<bar>x\<bar> < 10 powi 19"
      using dec_adjusted_ge_one(2) [OF True] assms by (simp add: power_int_def)
    then have "\<not> 19 \<le> dec_adjusted \<bar>x\<bar>" using power_int_increasing [of 19 "dec_adjusted \<bar>x\<bar>" "10::rat"] by auto
    then show ?thesis by linarith
  next
    case False
    then show ?thesis using dec_adjusted_small [of "\<bar>x\<bar>"] \<open>x \<noteq> 0\<close> by auto
  qed
  then have "(10::rat) powi (dec_adjusted \<bar>x\<bar> - 27) \<le> 10 powi (- 9)"
    by (intro power_int_increasing) auto
  also have "\<dots> = 1 / 10 ^ 9" by (simp add: power_int_def power_one_over)
  finally show ?thesis using dec_round28_error [OF False] by simp
qed simp

lemma dec_round28_large:
  assumes "10 ^ 19 \<le> \<bar>x\<bar>"
  shows "9 * 10 ^ 18 < \<bar>dec_round28 x\<bar> \<and> 95 * 10 ^ 17 \<le> \<bar>dec_round28 x\<bar>"
proof -
  have one: "1 \<le> \<bar>x\<bar>" using order_trans [OF _ assms, of 1] by simp
  have "(10::rat) powi (dec_adjusted \<bar>x\<bar> - 27) = 10 powi dec_adjusted \<bar>x\<bar> / 10 ^ 27"
    by (simp add: power_int_diff)
  also have "\<dots> \<le> \<bar>x\<bar> / 10 ^ 27" using dec_adjusted_ge_one(2) [OF one] by (intro divide_right_mono) auto
  finally have "\<bar>dec_round28 x - x\<bar> \<le> \<bar>x\<bar> / 10 ^ 27 / 2"
    using dec_round28_error [of x] one by (cases "x = 0") auto
  then have "\<bar>x\<bar> * (1 - 1 / (2 * 10 ^ 27)) \<le> \<bar>dec_round28 x\<bar>"
    using abs_triangle_ineq2 [of x "x - dec_round28 x"] by (simp add: field_simps abs_minus_commute)
  moreover have "\<bar>x\<bar> * (19 / 20) \<le> \<bar>x\<bar> * (1 - 1 / (2 * 10 ^ 27))" by (intro mult_left_mono) auto
  moreover have "95 * 10 ^ 17 \<le> \<bar>x\<bar> * (19 / 20)" using assms by simp
  ultimately have "95 * 10 ^ 17 \<le> \<bar>dec_round28 x\<bar>" by linarith
  then show ?thesis by simp
qed

end
