(* ===== verification/Scenarios.thy ===== *)
theory Scenarios
  imports MatchingEngine ArenaSchemas PyDecimal
begin

text \<open>
  The scripted market scenarios: \<open>backend/app/scenarios/base.py\<close> with its four subclasses and
  \<open>controller.py\<close>. A scenario acts on the engine's book, so its methods are steps on the pair of
  scenario and engine; an exception of the listener stops a method where the code stops it. One
  record holds the attributes of the base class and of the subclasses, \<open>sc_kind\<close> is the class.
  \<open>time.time\<close> is a parameter: \<open>clk n\<close> is the value of the scenario's n-th reading.
\<close>

section \<open>State\<close>

record scenario =
  sc_kind :: scenario_type
  sc_id :: string
  sc_start_tick :: int
  sc_seed :: int
  sc_stage :: attack_stage
  sc_stage_ticks :: "(attack_stage, int) dict"
  sc_stage_timestamps :: "(attack_stage, rat) dict"
  sc_applied :: "attack_stage set"
  sc_event_counter :: nat
  sc_event_ids :: "string set"
  sc_order_ids :: "string set"
  sc_clock_reads :: nat
  sc_layer_prices :: "rat list"
  sc_wall_price :: "rat option"

type_synonym 'a scen_step = "(scenario \<times> engine, 'a) step"

record stage_rule =
  sr_stage :: attack_stage
  sr_at_tick :: int
  sr_confidence :: rat

definition stage_sequence :: "attack_stage list" where
  "stage_sequence = [Armed, WallPlaced, PressurePhase, WallCancelled, IncidentConfirmed, StageDone]"

definition stage_label :: "attack_stage \<Rightarrow> string" where
  "stage_label s = (case s of
      Armed \<Rightarrow> ''Armed'' | WallPlaced \<Rightarrow> ''Wall Placed'' | PressurePhase \<Rightarrow> ''Pressure Phase''
    | WallCancelled \<Rightarrow> ''Wall Cancelled'' | StageCancelled \<Rightarrow> []
    | IncidentConfirmed \<Rightarrow> ''Incident Confirmed'' | StageDone \<Rightarrow> ''Done'')"

definition stage_rules :: "stage_rule list" where
  "stage_rules =
     [\<lparr>sr_stage = Armed, sr_at_tick = 0, sr_confidence = flit (5/100)\<rparr>,
      \<lparr>sr_stage = WallPlaced, sr_at_tick = 1, sr_confidence = flit (25/100)\<rparr>,
      \<lparr>sr_stage = PressurePhase, sr_at_tick = 3, sr_confidence = flit (55/100)\<rparr>,
      \<lparr>sr_stage = WallCancelled, sr_at_tick = 6, sr_confidence = flit (72/100)\<rparr>,
      \<lparr>sr_stage = IncidentConfirmed, sr_at_tick = 7, sr_confidence = flit (9/10)\<rparr>,
      \<lparr>sr_stage = StageDone, sr_at_tick = 9, sr_confidence = flit (95/100)\<rparr>]"

definition scenario_agent :: "scenario_type \<Rightarrow> string" where
  "scenario_agent t = (case t of
      SpoofingLikeWall \<Rightarrow> ''ABUSER_01'' | LayeringLike \<Rightarrow> ''ABUSER_02''
    | QuoteStuffing \<Rightarrow> ''ABUSER_03'' | LiquidityEvaporation \<Rightarrow> ''SHOCK_01'')"

text \<open>Both class attributes \<open>scenario_name\<close> and \<open>scenario_family\<close> are the value of the type.\<close>

definition sc_name :: "scenario \<Rightarrow> string" where
  "sc_name sc = scenario_value (sc_kind sc)"

definition sc_family :: "scenario \<Rightarrow> string" where
  "sc_family sc = scenario_value (sc_kind sc)"

definition sc_agent :: "scenario \<Rightarrow> string" where
  "sc_agent sc = scenario_agent (sc_kind sc)"

definition now_ms :: "(nat \<Rightarrow> rat) \<Rightarrow> nat \<Rightarrow> rat" where
  "now_ms clk n = fmul (clk n) 1000"

definition new_scenario :: "(nat \<Rightarrow> rat) \<Rightarrow> scenario_type \<Rightarrow> string \<Rightarrow> int \<Rightarrow> int \<Rightarrow> scenario" where
  "new_scenario clk kind sid start seed =
     \<lparr>sc_kind = kind, sc_id = sid, sc_start_tick = start, sc_seed = seed, sc_stage = Armed,
      sc_stage_ticks = [(Armed, start)], sc_stage_timestamps = [(Armed, now_ms clk 0)],
      sc_applied = {}, sc_event_counter = 0, sc_event_ids = {}, sc_order_ids = {},
      sc_clock_reads = 1, sc_layer_prices = [], sc_wall_price = None\<rparr>"

definition scenario_done :: "scenario \<Rightarrow> bool" where
  "scenario_done sc = (sc_stage sc = StageDone)"

definition wall_order_id :: "scenario \<Rightarrow> string" where
  "wall_order_id sc = sc_id sc @ ''-wall''"

definition layer_order_id :: "scenario \<Rightarrow> nat \<Rightarrow> string" where
  "layer_order_id sc i = sc_id sc @ ''-layer-'' @ nat_dec i"

definition layer_side :: "scenario \<Rightarrow> book_side" where
  "layer_side sc = (if sc_seed sc mod 2 = 0 then Ask else Bid)"

section \<open>Steps\<close>

definition the_scenario :: "scenario scen_step" where
  "the_scenario st = (st, Inr (fst st))"

definition the_book :: "order_book scen_step" where
  "the_book st = (st, Inr (en_book (snd st)))"

definition set_scenario :: "(scenario \<Rightarrow> scenario) \<Rightarrow> unit scen_step" where
  "set_scenario f st = ((f (fst st), snd st), Inr ())"

definition event_of_scenario ::
  "(nat \<Rightarrow> rat) \<Rightarrow> int \<Rightarrow> string \<Rightarrow> attack_stage option \<Rightarrow> scenario \<Rightarrow> agent_event" where
  "event_of_scenario clk tick msg stage sc =
     (blank_event ''red_team'')
       \<lparr>ae_event_id := Some (sc_id sc @ ''-event-'' @ zpad 4 (nat_dec (Suc (sc_event_counter sc)))),
        ae_timestamp := Some (now_ms clk (sc_clock_reads sc)),
        ae_agent_id := Some (sc_agent sc), ae_scenario_id := Some (sc_id sc),
        ae_scenario_name := Some (sc_name sc), ae_scenario_family := Some (sc_family sc),
        ae_extra := [(''tick'', JInt tick),
          (''stage'', JStr (stage_value (case stage of None \<Rightarrow> sc_stage sc | Some s \<Rightarrow> s))),
          (''message'', JStr msg)]\<rparr>"

text \<open>\<open>_event\<close>; the keyword arguments of the caller are applied to the event by \<open>upd\<close>.\<close>

definition scen_event ::
  "(nat \<Rightarrow> rat) \<Rightarrow> int \<Rightarrow> string \<Rightarrow> attack_stage option \<Rightarrow> (agent_event \<Rightarrow> agent_event) \<Rightarrow> agent_event scen_step" where
  "scen_event clk tick msg stage upd st =
     (((fst st)\<lparr>sc_event_counter := Suc (sc_event_counter (fst st)),
                sc_clock_reads := Suc (sc_clock_reads (fst st))\<rparr>, snd st),
      Inr (upd (event_of_scenario clk tick msg stage (fst st))))"

definition one_event ::
  "(nat \<Rightarrow> rat) \<Rightarrow> int \<Rightarrow> string \<Rightarrow> attack_stage \<Rightarrow> (agent_event \<Rightarrow> agent_event) \<Rightarrow> agent_event list scen_step" where
  "one_event clk tick msg stage upd =
     step_bind (scen_event clk tick msg (Some stage) upd) (\<lambda>e. step_return [e])"

definition with_extra :: "string \<Rightarrow> json \<Rightarrow> agent_event \<Rightarrow> agent_event" where
  "with_extra k v e = e\<lparr>ae_extra := ae_extra e @ [(k, v)]\<rparr>"

definition with_order :: "side \<Rightarrow> rat option \<Rightarrow> rat option \<Rightarrow> string \<Rightarrow> agent_event \<Rightarrow> agent_event" where
  "with_order sd p q oid e =
     e\<lparr>ae_side := Some sd, ae_price := p, ae_quantity := q, ae_order_id := Some oid\<rparr>"

text \<open>The call of \<open>update_agent_level\<close> with the scenario's identity, and \<open>cancel_order\<close>.\<close>

definition place_order :: "book_side \<Rightarrow> rat \<Rightarrow> rat \<Rightarrow> string \<Rightarrow> int \<Rightarrow> unit scen_step" where
  "place_order s p q oid tick =
     step_bind the_scenario (\<lambda>sc.
       on_snd (book_step (update_agent_level s p q (sc_agent sc) ''abuser'' (Some oid) tick
         (Some (sc_id sc)) (Some (sc_name sc)) (Some (sc_family sc)))))"

definition withdraw_order :: "string \<Rightarrow> unit scen_step" where
  "withdraw_order oid = on_snd (book_step (\<lambda>b. let (b', ms, _) = cancel_order oid b in (b', ms)))"

definition base_on_stage_enter :: "(nat \<Rightarrow> rat) \<Rightarrow> int \<Rightarrow> attack_stage \<Rightarrow> agent_event list scen_step" where
  "base_on_stage_enter clk tick stage =
     step_bind the_scenario (\<lambda>sc.
       one_event clk tick (sc_name sc @ '' entered '' @ stage_value stage) stage id)"

section \<open>Spoofing-like wall\<close>

definition spoofing_on_stage_enter :: "(nat \<Rightarrow> rat) \<Rightarrow> int \<Rightarrow> attack_stage \<Rightarrow> agent_event list scen_step" where
  "spoofing_on_stage_enter clk tick stage =
     step_bind the_book (\<lambda>b. step_bind the_scenario (\<lambda>sc. case stage of
       WallPlaced \<Rightarrow>
         (case best_ask b of
            None \<Rightarrow> step_return []
          | Some ba \<Rightarrow>
              let p = fadd ba 2 in
              step_bind (set_scenario (\<lambda>sc. sc\<lparr>sc_wall_price := Some p\<rparr>)) (\<lambda>_.
              step_bind (place_order Ask p 48 (wall_order_id sc) tick) (\<lambda>_.
              one_event clk tick ''large ask wall placed away from mid'' stage
                (with_order Sell (Some p) (Some 48) (wall_order_id sc)))))
     | PressurePhase \<Rightarrow>
         step_bind (case sc_wall_price sc of
              None \<Rightarrow> step_return ()
            | Some p \<Rightarrow> place_order Ask p 52 (wall_order_id sc) tick) (\<lambda>_.
         one_event clk tick ''visible wall replenishment maintained'' stage
           (with_order Sell (sc_wall_price sc) (Some 52) (wall_order_id sc)))
     | WallCancelled \<Rightarrow>
         step_bind (case sc_wall_price sc of
              None \<Rightarrow> step_return ()
            | Some p \<Rightarrow> withdraw_order (wall_order_id sc)) (\<lambda>_.
         one_event clk tick ''ask wall cancelled before execution'' stage
           (with_order Sell (sc_wall_price sc) None (wall_order_id sc)))
     | IncidentConfirmed \<Rightarrow>
         one_event clk tick ''spoofing-like wall incident confirmed'' stage
           (with_extra ''confidence'' (JFloat (flit (91/100))))
     | _ \<Rightarrow> base_on_stage_enter clk tick stage))"

section \<open>Layering-like pattern\<close>

definition layer_quantity :: "rat \<Rightarrow> nat \<Rightarrow> rat" where
  "layer_quantity base i = fadd base (of_nat (i * 4))"

definition layer_prices :: "book_side \<Rightarrow> rat \<Rightarrow> rat list" where
  "layer_prices s touch =
     map (\<lambda>off. fadd touch (fmul (if s = Ask then 1 else -1) off)) [2, 3, 4]"

definition place_layers :: "(nat \<Rightarrow> rat) \<Rightarrow> int \<Rightarrow> attack_stage \<Rightarrow> rat \<Rightarrow> string \<Rightarrow> string \<Rightarrow> agent_event list scen_step" where
  "place_layers clk tick stage base before after =
     step_bind the_scenario (\<lambda>sc.
       let s = layer_side sc; layers = List.enumerate 0 (sc_layer_prices sc) in
       step_bind (step_each (\<lambda>(i, p). place_order s p (layer_quantity base i) (layer_order_id sc i) tick) layers) (\<lambda>_.
       step_map (\<lambda>(i, p). scen_event clk tick (before @ book_side_str s @ after) (Some stage)
         (with_order (order_side s) (Some p) (Some (layer_quantity base i)) (layer_order_id sc i))) layers))"

definition layering_on_stage_enter :: "(nat \<Rightarrow> rat) \<Rightarrow> int \<Rightarrow> attack_stage \<Rightarrow> agent_event list scen_step" where
  "layering_on_stage_enter clk tick stage =
     step_bind the_book (\<lambda>b. step_bind the_scenario (\<lambda>sc. case stage of
       WallPlaced \<Rightarrow>
         (case (if layer_side sc = Ask then best_ask b else best_bid b) of
            None \<Rightarrow> step_return []
          | Some touch \<Rightarrow>
              step_bind (set_scenario (\<lambda>sc. sc\<lparr>sc_layer_prices := layer_prices (layer_side sc) touch\<rparr>)) (\<lambda>_.
              place_layers clk tick stage 22 ''same-side '' '' layer placed''))
     | PressurePhase \<Rightarrow> place_layers clk tick stage 26 ''layered '' '' replenishment maintained''
     | WallCancelled \<Rightarrow>
         step_bind (step_each (\<lambda>i. withdraw_order (layer_order_id sc i)) [0..<3]) (\<lambda>_.
         step_map (\<lambda>(i, p). scen_event clk tick (''layered '' @ book_side_str (layer_side sc) @ '' liquidity cancelled'')
             (Some stage) (with_order (order_side (layer_side sc)) (Some p) None (layer_order_id sc i)))
           (List.enumerate 0 (sc_layer_prices sc)))
     | IncidentConfirmed \<Rightarrow>
         one_event clk tick ''layering-like pattern incident confirmed'' stage
           (with_extra ''confidence'' (JFloat (flit (86/100))))
     | _ \<Rightarrow> base_on_stage_enter clk tick stage))"

section \<open>Quote stuffing\<close>

definition stuffing_on_stage_enter :: "(nat \<Rightarrow> rat) \<Rightarrow> int \<Rightarrow> attack_stage \<Rightarrow> agent_event list scen_step" where
  "stuffing_on_stage_enter clk tick stage = (case stage of
      WallPlaced \<Rightarrow> one_event clk tick ''quote stuffing burst armed'' stage id
    | PressurePhase \<Rightarrow> one_event clk tick ''high message-rate quote burst active'' stage
        (with_extra ''confidence'' (JFloat (flit (76/100))))
    | WallCancelled \<Rightarrow> one_event clk tick ''quote stuffing burst stopped'' stage id
    | IncidentConfirmed \<Rightarrow> one_event clk tick ''quote stuffing incident confirmed'' stage
        (with_extra ''confidence'' (JFloat (flit (94/100))))
    | _ \<Rightarrow> base_on_stage_enter clk tick stage)"

definition flicker_quote :: "rat \<Rightarrow> nat \<Rightarrow> unit scen_step" where
  "flicker_quote ba i =
     (let p = fadd (fadd ba 5) (of_nat i) in
      step_bind (on_snd (book_step (update_level Ask p (fadd (flit (1/2)) (fmul (of_nat i) (flit (1/10)))) ''abuser''))) (\<lambda>_.
        on_snd (book_step (remove_level Ask p))))"

definition stuffing_on_tick :: "(nat \<Rightarrow> rat) \<Rightarrow> int \<Rightarrow> agent_event list scen_step" where
  "stuffing_on_tick clk tick =
     step_bind the_scenario (\<lambda>sc. step_bind the_book (\<lambda>b.
       if sc_stage sc \<noteq> PressurePhase then step_return []
       else
         step_bind (case best_ask b of
              None \<Rightarrow> step_return ()
            | Some ba \<Rightarrow> step_each (flicker_quote ba) [0..<3]) (\<lambda>_.
         step_map (\<lambda>i. scen_event clk tick ''rapid place/cancel quote update'' (Some PressurePhase)
             (with_extra ''update_index'' (JInt (int i)))) [0..<8])))"

section \<open>Liquidity evaporation\<close>

definition reference_level_quantity :: "rat list \<Rightarrow> rat" where
  "reference_level_quantity qs = rnd64 (foldl dec_add 0 qs)"

definition thin_quantity :: "rat \<Rightarrow> rat" where
  "thin_quantity current =
     max (2/10) (of_int (rhe (fmul current (flit (35/100)) * 1000)) / 1000)"

definition thin_side :: "book_side \<Rightarrow> unit scen_step" where
  "thin_side s =
     step_bind the_book (\<lambda>b.
       step_each (\<lambda>p. step_bind the_book (\<lambda>b.
           let current = reference_level_quantity (map o_quantity (resting b s p))
           in on_snd (book_step (update_level s p (rnd64 (thin_quantity current)) ''normal''))))
         (take 3 (case s of Bid \<Rightarrow> rev (sort (dkeys (bids b))) | Ask \<Rightarrow> sort (dkeys (asks b)))))"

definition thin_top_of_book :: "unit scen_step" where
  "thin_top_of_book = step_bind (thin_side Bid) (\<lambda>_. thin_side Ask)"

definition widen_spread :: "unit scen_step" where
  "widen_spread =
     step_bind the_book (\<lambda>b.
       step_bind (case best_bid b of None \<Rightarrow> step_return () | Some p \<Rightarrow> on_snd (book_step (remove_level Bid p))) (\<lambda>_.
         case best_ask b of None \<Rightarrow> step_return () | Some p \<Rightarrow> on_snd (book_step (remove_level Ask p))))"

definition evaporation_on_stage_enter :: "(nat \<Rightarrow> rat) \<Rightarrow> int \<Rightarrow> attack_stage \<Rightarrow> agent_event list scen_step" where
  "evaporation_on_stage_enter clk tick stage = (case stage of
      WallPlaced \<Rightarrow> one_event clk tick ''liquidity shock armed'' stage id
    | PressurePhase \<Rightarrow> step_bind thin_top_of_book (\<lambda>_.
        one_event clk tick ''top-of-book depth collapsed'' stage (with_extra ''confidence'' (JFloat (flit (73/100)))))
    | WallCancelled \<Rightarrow> step_bind widen_spread (\<lambda>_.
        one_event clk tick ''spread widened after depth collapse'' stage id)
    | IncidentConfirmed \<Rightarrow> one_event clk tick ''liquidity evaporation incident confirmed'' stage
        (with_extra ''confidence'' (JFloat (flit (88/100))))
    | _ \<Rightarrow> base_on_stage_enter clk tick stage)"

definition evaporation_on_tick :: "(nat \<Rightarrow> rat) \<Rightarrow> int \<Rightarrow> agent_event list scen_step" where
  "evaporation_on_tick clk tick =
     step_bind the_scenario (\<lambda>sc.
       if sc_stage sc \<noteq> PressurePhase then step_return []
       else step_bind thin_top_of_book (\<lambda>_. one_event clk tick ''liquidity remains thin'' PressurePhase id))"

section \<open>The template method\<close>

definition on_stage_enter :: "(nat \<Rightarrow> rat) \<Rightarrow> scenario_type \<Rightarrow> int \<Rightarrow> attack_stage \<Rightarrow> agent_event list scen_step" where
  "on_stage_enter clk kind = (case kind of
      SpoofingLikeWall \<Rightarrow> spoofing_on_stage_enter clk
    | LayeringLike \<Rightarrow> layering_on_stage_enter clk
    | QuoteStuffing \<Rightarrow> stuffing_on_stage_enter clk
    | LiquidityEvaporation \<Rightarrow> evaporation_on_stage_enter clk)"

definition on_tick :: "(nat \<Rightarrow> rat) \<Rightarrow> scenario_type \<Rightarrow> int \<Rightarrow> agent_event list scen_step" where
  "on_tick clk kind tick = (case kind of
      QuoteStuffing \<Rightarrow> stuffing_on_tick clk tick
    | LiquidityEvaporation \<Rightarrow> evaporation_on_tick clk tick
    | _ \<Rightarrow> step_return [])"

definition stage_for_tick :: "scenario \<Rightarrow> int \<Rightarrow> attack_stage" where
  "stage_for_tick sc tick =
     (let elapsed = max 0 (tick - sc_start_tick sc)
      in foldl (\<lambda>stage r. if sr_at_tick r \<le> elapsed then sr_stage r else stage)
           (sr_stage (hd stage_rules)) stage_rules)"

definition enter_stage :: "(nat \<Rightarrow> rat) \<Rightarrow> int \<Rightarrow> scenario \<Rightarrow> scenario" where
  "enter_stage clk tick sc =
     (let stage = stage_for_tick sc tick; sc1 = sc\<lparr>sc_stage := stage\<rparr> in
      if stage \<noteq> sc_stage sc then
        sc1\<lparr>sc_stage_ticks := dsetdefault stage tick (sc_stage_ticks sc),
            sc_stage_timestamps := dsetdefault stage (now_ms clk (sc_clock_reads sc)) (sc_stage_timestamps sc),
            sc_clock_reads := Suc (sc_clock_reads sc)\<rparr>
      else sc1)"

definition apply_stage_once :: "(nat \<Rightarrow> rat) \<Rightarrow> int \<Rightarrow> agent_event list scen_step" where
  "apply_stage_once clk tick =
     step_bind the_scenario (\<lambda>sc.
       if sc_stage sc \<in> sc_applied sc then step_return []
       else step_bind (set_scenario (\<lambda>sc. sc\<lparr>sc_applied := insert (sc_stage sc) (sc_applied sc)\<rparr>)) (\<lambda>_.
         on_stage_enter clk (sc_kind sc) tick (sc_stage sc)))"

definition note_event :: "agent_event \<Rightarrow> scenario \<Rightarrow> scenario" where
  "note_event e sc =
     sc\<lparr>sc_event_ids := (case ae_event_id e of
            Some i \<Rightarrow> if i = [] then sc_event_ids sc else insert i (sc_event_ids sc)
          | None \<Rightarrow> sc_event_ids sc),
        sc_order_ids := (case ae_order_id e of
            Some i \<Rightarrow> if i = [] then sc_order_ids sc else insert i (sc_order_ids sc)
          | None \<Rightarrow> sc_order_ids sc)\<rparr>"

definition scenario_apply :: "(nat \<Rightarrow> rat) \<Rightarrow> int \<Rightarrow> agent_event list scen_step" where
  "scenario_apply clk tick =
     step_bind (set_scenario (enter_stage clk tick)) (\<lambda>_.
     step_bind (apply_stage_once clk tick) (\<lambda>es.
     step_bind the_scenario (\<lambda>sc.
     step_bind (on_tick clk (sc_kind sc) tick) (\<lambda>fs.
     step_bind (set_scenario (\<lambda>sc. foldl (\<lambda>sc e. note_event e sc) sc (es @ fs))) (\<lambda>_.
     step_return (es @ fs))))))"

section \<open>Labels and tracker\<close>

definition rule_for :: "attack_stage \<Rightarrow> stage_rule option" where
  "rule_for stage = find (\<lambda>r. sr_stage r = stage) stage_rules"

definition rule_tick :: "attack_stage \<Rightarrow> int" where
  "rule_tick stage = (case rule_for stage of None \<Rightarrow> 0 | Some r \<Rightarrow> sr_at_tick r)"

fun phase_windows_of :: "scenario \<Rightarrow> stage_rule list \<Rightarrow> (string, window) dict" where
  "phase_windows_of sc [] = []"
| "phase_windows_of sc (r # rs) =
     (stage_value (sr_stage r),
      \<lparr>w_start = Some (dget_or (sc_start_tick sc + sr_at_tick r) (sc_stage_ticks sc) (sr_stage r)),
       w_end = (case rs of [] \<Rightarrow> dget (sc_stage_ticks sc) (sr_stage r)
                | n # _ \<Rightarrow> Some (sc_start_tick sc + sr_at_tick n - 1))\<rparr>)
     # phase_windows_of sc rs"

definition label_record :: "string \<Rightarrow> int \<Rightarrow> scenario \<Rightarrow> scenario_label" where
  "label_record run seed sc =
     \<lparr>lb_label_id = ''LABEL-'' @ sc_id sc, lb_run_id = run, lb_scenario_id = sc_id sc,
      lb_family = sc_family sc, lb_name = sc_name sc, lb_seed = seed,
      lb_start_tick = sc_start_tick sc,
      lb_expected_end_tick = Some (sc_start_tick sc + sr_at_tick (last stage_rules)),
      lb_actual_end_tick = dget (sc_stage_ticks sc) StageDone,
      lb_agent_ids = [sc_agent sc],
      lb_event_ids = sorted_list_of_set (sc_event_ids sc),
      lb_order_ids = sorted_list_of_set (sc_order_ids sc),
      lb_manipulation_windows =
        [\<lparr>w_start = Some (sc_start_tick sc + rule_tick WallPlaced),
          w_end = Some (sc_start_tick sc + rule_tick WallCancelled)\<rparr>],
      lb_phase_windows = phase_windows_of sc stage_rules,
      lb_parameters = [(''scenario_name'', JStr (scenario_title (sc_kind sc)))]\<rparr>"

fun stage_index :: "attack_stage list \<Rightarrow> attack_stage \<Rightarrow> nat" where
  "stage_index [] s = 0"
| "stage_index (t # ts) s = (if t = s then 0 else Suc (stage_index ts s))"

definition stage_snapshot_of :: "scenario \<Rightarrow> nat \<times> attack_stage \<Rightarrow> stage_snapshot" where
  "stage_snapshot_of sc is =
     (let (i, s) = is; cur = stage_index stage_sequence (sc_stage sc);
          status = (if i < cur then Completed else if i = cur then Active else Pending)
      in \<lparr>ss_confidence = (if status = Pending then None else map_option sr_confidence (rule_for s)),
          ss_label = stage_label s, ss_stage = s, ss_status = status,
          ss_tick = dget (sc_stage_ticks sc) s, ss_timestamp = dget (sc_stage_timestamps sc) s\<rparr>)"

definition tracker_of :: "string \<Rightarrow> int \<Rightarrow> scenario \<Rightarrow> tracker_state" where
  "tracker_of run seed sc =
     \<lparr>tr_scenario_id = sc_id sc, tr_scenario_name = sc_name sc, tr_family = sc_family sc,
      tr_agent_id = sc_agent sc, tr_current_stage = Some (sc_stage sc),
      tr_start_tick = sc_start_tick sc,
      tr_stages = Some (map (stage_snapshot_of sc) (List.enumerate 0 stage_sequence)),
      tr_status = sc_stage sc, tr_evidence = None, tr_label = Some (label_record run seed sc)\<rparr>"

section \<open>The controller\<close>

record controller =
  ct_active :: "scenario option"
  ct_counter :: nat

definition new_controller :: controller where
  "new_controller = \<lparr>ct_active = None, ct_counter = 0\<rparr>"

definition start_scenario ::
  "(nat \<Rightarrow> rat) \<Rightarrow> string \<Rightarrow> int \<Rightarrow> string \<Rightarrow> int \<Rightarrow> controller \<Rightarrow> py_error + (controller \<times> tracker_state)" where
  "start_scenario clk name tick run seed ct =
     try_bind (parse_scenario_type name) (\<lambda>kind.
       let n = Suc (ct_counter ct);
           sc = new_scenario clk kind (scenario_value kind @ ''-'' @ zpad 4 (nat_dec n)) (tick + 1) seed
       in Inr (\<lparr>ct_active = Some sc, ct_counter = n\<rparr>, tracker_of run seed sc))"

definition controller_advance :: "(nat \<Rightarrow> rat) \<Rightarrow> int \<Rightarrow> (controller \<times> engine, agent_event list) step" where
  "controller_advance clk tick st = (case ct_active (fst st) of
      None \<Rightarrow> (st, Inr [])
    | Some sc \<Rightarrow> (case scenario_apply clk tick (sc, snd st) of
          ((sc', en'), r) \<Rightarrow> (((fst st)\<lparr>ct_active := Some sc'\<rparr>, en'), r)))"

definition controller_tracker :: "string \<Rightarrow> int \<Rightarrow> controller \<Rightarrow> tracker_state option" where
  "controller_tracker run seed ct = map_option (tracker_of run seed) (ct_active ct)"

definition controller_reset :: "controller \<Rightarrow> controller" where
  "controller_reset ct = ct\<lparr>ct_active := None\<rparr>"

end
