(* ===== verification/Detectors.thy ===== *)
theory Detectors
  imports ArenaSchemas
begin

text \<open>
  Market features and detectors: \<open>backend/app/detectors/features.py\<close>, the four feature-based detectors
  and \<open>aggregate.py\<close>. A detector raises when its confidence falls outside 0 to 1, which the score's
  model rejects. The older \<open>score\<close> methods on raw event dictionaries are not modelled.
\<close>

section \<open>Features\<close>

record detector_features =
  df_spread_bps :: rat
  df_imbalance :: rat
  df_bid_depth :: rat
  df_ask_depth :: rat
  df_depth_change_pct :: rat
  df_wall_size_ratio :: rat
  df_order_lifetime_ms :: rat
  df_cancel_to_trade_ratio :: rat
  df_message_rate :: rat
  df_distance_from_touch_bps :: rat
  df_cancel_probability :: rat
  df_execution_ratio :: rat
  df_replenishment_rate :: rat
  df_side_switching_rate :: rat
  df_participant_order_linkage :: rat
  df_linked_participants :: "string list"
  df_linked_orders :: "string list"
  df_linked_events :: "string list"
  df_large_level_count :: nat

definition median :: "rat list \<Rightarrow> rat" where
  "median xs =
     (let ys = sort xs; n = length ys in
      if odd n then ys ! (n div 2) else fdiv (fadd (ys ! (n div 2 - 1)) (ys ! (n div 2))) 2)"

text \<open>
  \<open>str(getattr(event, name, "")).lower()\<close> for the extra fields \<open>stage\<close> and \<open>message\<close>, which the code
  only ever sets to strings.
\<close>

definition extra_text :: "string \<Rightarrow> agent_event \<Rightarrow> string" where
  "extra_text k e = (case dget (ae_extra e) k of Some (JStr s) \<Rightarrow> str_lower s | _ \<Rightarrow> [])"

definition is_cancel_event :: "agent_event \<Rightarrow> bool" where
  "is_cancel_event e = (str_in ''cancel'' (extra_text ''stage'' e) \<or> str_in ''cancel'' (extra_text ''message'' e))"

definition is_trade_event :: "agent_event \<Rightarrow> bool" where
  "is_trade_event e = (ae_type e = ''trade'' \<or> str_in ''execut'' (extra_text ''message'' e))"

definition mentions :: "string list \<Rightarrow> agent_event \<Rightarrow> bool" where
  "mentions tokens e = list_ex (\<lambda>t. str_in t (extra_text ''message'' e)) tokens"

definition ratio :: "nat \<Rightarrow> nat \<Rightarrow> rat" where
  "ratio a b = fdiv (of_nat a) (of_nat (max 1 b))"

text \<open>The walk over the events that updates the first-seen table and collects finished lifetimes.\<close>

definition lifetime :: "int \<Rightarrow> rat \<Rightarrow> int \<Rightarrow> rat" where
  "lifetime tick interval first_tick = fmul (fmul (flit (of_int (tick - first_tick))) interval) 1000"

fun track_orders :: "int \<Rightarrow> rat \<Rightarrow> agent_event list \<Rightarrow> (string, int) dict \<Rightarrow> (string, int) dict \<times> rat list" where
  "track_orders tick interval [] seen = (seen, [])"
| "track_orders tick interval (e # es) seen =
     (case ae_order_id e of
        None \<Rightarrow> track_orders tick interval es seen
      | Some oid \<Rightarrow>
          if oid = [] then track_orders tick interval es seen
          else if is_cancel_event e \<or> is_trade_event e then
            (case dget seen oid of
               None \<Rightarrow> track_orders tick interval es seen
             | Some t \<Rightarrow>
                 (case track_orders tick interval es (dpop oid seen) of
                    (seen', ls) \<Rightarrow> (seen', lifetime tick interval t # ls)))
          else track_orders tick interval es (dsetdefault oid tick seen))"

definition truthy_ids :: "(agent_event \<Rightarrow> string option) \<Rightarrow> agent_event list \<Rightarrow> string list" where
  "truthy_ids f es = sorted_set (concat (map (\<lambda>e. case f e of None \<Rightarrow> [] | Some s \<Rightarrow> if s = [] then [] else [s]) es))"

fun sides_by_participant :: "agent_event list \<Rightarrow> (string, side list) dict \<Rightarrow> (string, side list) dict" where
  "sides_by_participant [] d = d"
| "sides_by_participant (e # es) d =
     sides_by_participant es
       (case (ae_agent_id e, ae_side e) of
          (Some a, Some s) \<Rightarrow> if a = [] then d else dset a (dget_or [] d a @ [s]) d
        | _ \<Rightarrow> d)"

fun switches :: "side list \<Rightarrow> nat" where
  "switches (a # b # xs) = (if a \<noteq> b then 1 else 0) + switches (b # xs)"
| "switches _ = 0"

definition spread_in_bps :: "arena_book \<Rightarrow> rat" where
  "spread_in_bps b = (case (ab_mid b, ab_spread b) of
      (Some m, Some s) \<Rightarrow> if m = 0 then 0 else fround 4 (fmul (fdiv s m) 10000)
    | _ \<Rightarrow> 0)"

definition visible_levels :: "nat \<Rightarrow> arena_book \<Rightarrow> (nat \<times> book_side \<times> arena_level) list" where
  "visible_levels n b =
     List.enumerate 0 (map (Pair Bid) (take n (ab_bids b)) @ map (Pair Ask) (take n (ab_asks b)))"

definition largest_level :: "nat \<Rightarrow> arena_book \<Rightarrow> (nat \<times> book_side \<times> arena_level) option" where
  "largest_level n b = max_by (\<lambda>(_, _, l). al_quantity l) (visible_levels n b)"

definition largest_side :: "nat \<Rightarrow> arena_book \<Rightarrow> book_side" where
  "largest_side n b = (case largest_level n b of None \<Rightarrow> Bid | Some (_, s, _) \<Rightarrow> s)"

definition nearby_size :: "nat \<Rightarrow> arena_book \<Rightarrow> rat" where
  "nearby_size n b =
     (let near = map (\<lambda>(_, _, l). al_quantity l)
        (filter (\<lambda>(i, s, _). s = largest_side n b \<and>
           (case largest_level n b of None \<Rightarrow> True | Some (j, _, _) \<Rightarrow> i \<noteq> j)) (visible_levels n b))
      in if near = [] then 1 else median near)"

definition wall_size_ratio :: "nat \<Rightarrow> arena_book \<Rightarrow> rat" where
  "wall_size_ratio n b = (case largest_level n b of
      None \<Rightarrow> 1
    | Some (_, _, l) \<Rightarrow> fround 4 (fdiv (al_quantity l) (max (nearby_size n b) (flit (1/10000)))))"

definition large_level_count :: "nat \<Rightarrow> arena_book \<Rightarrow> nat" where
  "large_level_count n b =
     length (filter (\<lambda>(_, s, l). s = largest_side n b \<and> fmul (nearby_size n b) (3/2) \<le> al_quantity l)
       (visible_levels n b))"

definition distance_from_touch :: "nat \<Rightarrow> arena_book \<Rightarrow> rat" where
  "distance_from_touch n b =
     (case (largest_level n b, if largest_side n b = Bid then ab_best_bid b else ab_best_ask b, ab_mid b) of
        (Some (_, _, l), Some touch, Some m) \<Rightarrow>
          if m = 0 then 0 else fround 4 (fmul (fdiv \<bar>fsub (al_price l) touch\<bar> m) 10000)
      | _ \<Rightarrow> 0)"

definition depth_change :: "rat \<Rightarrow> rat option \<Rightarrow> rat" where
  "depth_change depth previous = (case previous of
      None \<Rightarrow> 0
    | Some p \<Rightarrow> if p > 0 then fround 4 (fmul (fdiv (fsub depth p) p) 100) else 0)"

text \<open>
  \<open>feature_record\<close> is the constructor call at the end of \<open>extract_features\<close>; its arguments are the
  local variables of the function: the depths, the numbers of cancels, trades, placements and
  replenishments, and what the walk over the events left (table and finished lifetimes).
\<close>

definition order_lifetime :: "int \<Rightarrow> rat \<Rightarrow> (string, int) dict \<times> rat list \<Rightarrow> rat" where
  "order_lifetime tick interval trk =
     (case max_opt (snd trk @ map (\<lambda>(_, t). lifetime tick interval t) (fst trk)) of None \<Rightarrow> 0 | Some x \<Rightarrow> x)"

definition switching_rate :: "side list list \<Rightarrow> rat" where
  "switching_rate sides = ratio (sum_list (map switches sides)) (sum_list (map (\<lambda>ss. length ss - 1) sides))"

definition linked_events :: "agent_event list \<Rightarrow> nat" where
  "linked_events es = length (filter (\<lambda>e. opt_truthy (ae_agent_id e) \<or> opt_truthy (ae_order_id e)) es)"

definition book_imbalance :: "rat \<Rightarrow> rat \<Rightarrow> rat" where
  "book_imbalance bid_depth ask_depth =
     (if fadd bid_depth ask_depth = 0 then 0
      else fround 4 (fdiv (fsub bid_depth ask_depth) (fadd bid_depth ask_depth)))"

definition feature_record ::
  "arena_book \<Rightarrow> agent_event list \<Rightarrow> rat option \<Rightarrow> rat \<Rightarrow> int \<Rightarrow> nat \<Rightarrow> rat \<Rightarrow> rat \<Rightarrow> nat \<Rightarrow> nat \<Rightarrow> nat \<Rightarrow> nat \<Rightarrow>
   (string, int) dict \<times> rat list \<Rightarrow> detector_features" where
  "feature_record b es previous interval tick n bid_depth ask_depth cancels trades placements replenishments trk =
     \<lparr>df_spread_bps = spread_in_bps b,
      df_imbalance = book_imbalance bid_depth ask_depth,
      df_bid_depth = bid_depth, df_ask_depth = ask_depth,
      df_depth_change_pct = depth_change (fadd bid_depth ask_depth) previous,
      df_wall_size_ratio = wall_size_ratio n b,
      df_order_lifetime_ms = fround 4 (order_lifetime tick interval trk),
      df_cancel_to_trade_ratio = fround 4 (ratio cancels trades),
      df_message_rate = fround 4 (fdiv (of_nat (length es)) interval),
      df_distance_from_touch_bps = distance_from_touch n b,
      df_cancel_probability = fround 4 (ratio cancels (cancels + trades)),
      df_execution_ratio = fround 4 (ratio trades placements),
      df_replenishment_rate = fround 4 (ratio replenishments placements),
      df_side_switching_rate = fround 4 (switching_rate (map snd (sides_by_participant es []))),
      df_participant_order_linkage =
        fround 4 (if es = [] then 0 else fdiv (of_nat (linked_events es)) (of_nat (length es))),
      df_linked_participants = truthy_ids ae_agent_id es,
      df_linked_orders = truthy_ids ae_order_id es,
      df_linked_events = truthy_ids ae_event_id es,
      df_large_level_count = large_level_count n b\<rparr>"

definition extract_features ::
  "arena_book \<Rightarrow> agent_event list \<Rightarrow> rat option \<Rightarrow> rat \<Rightarrow> int \<Rightarrow> (string, int) dict \<Rightarrow> nat \<Rightarrow>
   py_error + (detector_features \<times> (string, int) dict)" where
  "extract_features b es previous interval tick seen n =
     (if interval = 0 then Inl ZeroDivisionError
      else Inr
        (feature_record b es previous interval tick n
           (fround 4 (fsum (map al_quantity (take n (ab_bids b)))))
           (fround 4 (fsum (map al_quantity (take n (ab_asks b)))))
           (length (filter is_cancel_event es)) (length (filter is_trade_event es))
           (length (filter (mentions [''placed'', ''updated'', ''maintained'']) es))
           (length (filter (mentions [''maintained'', ''replenish'', ''updated'']) es))
           (track_orders tick interval es seen),
         fst (track_orders tick interval es seen)))"

definition to_arena_features :: "detector_features \<Rightarrow> payload" where
  "to_arena_features f =
     [(''spread_bps'', JFloat (df_spread_bps f)),
      (''depth_top_n'', JFloat (fadd (df_bid_depth f) (df_ask_depth f))),
      (''imbalance'', JFloat (df_imbalance f)), (''message_rate'', JFloat (df_message_rate f)),
      (''cancel_to_trade_ratio'', JFloat (df_cancel_to_trade_ratio f)),
      (''order_lifetime_ms'', JFloat (df_order_lifetime_ms f)),
      (''wall_size_ratio'', JFloat (df_wall_size_ratio f)),
      (''depth_change_pct'', JFloat (df_depth_change_pct f)),
      (''order_book_imbalance'', JFloat (df_imbalance f)),
      (''top_n_bid_depth'', JFloat (df_bid_depth f)), (''top_n_ask_depth'', JFloat (df_ask_depth f)),
      (''message_rate_per_sec'', JFloat (df_message_rate f)),
      (''distance_from_touch_bps'', JFloat (df_distance_from_touch_bps f)),
      (''cancel_probability'', JFloat (df_cancel_probability f)),
      (''execution_ratio'', JFloat (df_execution_ratio f)),
      (''replenishment_rate'', JFloat (df_replenishment_rate f)),
      (''side_switching_rate'', JFloat (df_side_switching_rate f)),
      (''participant_order_linkage'', JFloat (df_participant_order_linkage f)),
      (''linked_participant_ids'', JStr (str_join '','' (df_linked_participants f))),
      (''linked_order_ids'', JStr (str_join '','' (df_linked_orders f))),
      (''linked_event_ids'', JStr (str_join '','' (df_linked_events f))),
      (''large_level_count'', JFloat (of_nat (df_large_level_count f)))]"

section \<open>Scores\<close>

definition severity_of :: "rat \<Rightarrow> severity" where
  "severity_of c = (if flit (9/10) \<le> c then SevCritical else if 3/4 \<le> c then SevHigh
     else if flit (45/100) \<le> c then SevMedium else SevLow)"

definition evidence :: "string \<Rightarrow> string \<Rightarrow> json \<Rightarrow> string option \<Rightarrow> string \<Rightarrow> evidence_item" where
  "evidence k l v u i = \<lparr>ei_key = k, ei_label = l, ei_value = v, ei_unit = u, ei_interpretation = Some i\<rparr>"

definition joined_ids :: "string list \<Rightarrow> json" where
  "joined_ids ids = JStr (str_or (str_join '','' ids) ''unavailable'')"

definition linked_evidence :: "detector_features \<Rightarrow> string \<Rightarrow> evidence_item" where
  "linked_evidence f k =
     (if k = ''linked_participant_ids'' then evidence k ''Linked participants'' (joined_ids (df_linked_participants f)) None
         ''Participant linkage is included only when present in observable events.''
      else if k = ''linked_order_ids'' then evidence k ''Linked orders'' (joined_ids (df_linked_orders f)) None
         ''Order linkage is included only when present in observable events.''
      else evidence k ''Linked events'' (joined_ids (df_linked_events f)) None
         ''Event attribution links alerts to observable event identifiers.'')"

definition finish_score :: "string \<Rightarrow> rat \<Rightarrow> evidence_item list \<Rightarrow> py_error + detector_score" where
  "finish_score name confidence ev =
     mk_detector_score name (min confidence 1) (3/4 \<le> confidence) (Some (severity_of confidence)) (Some ev)"

text \<open>The components of the confidences, under their names in the code.\<close>

definition wall_component :: "rat \<Rightarrow> detector_features \<Rightarrow> rat" where
  "wall_component k f = min (fdiv (df_wall_size_ratio f) k) 1"

definition imbalance_component :: "rat \<Rightarrow> detector_features \<Rightarrow> rat" where
  "imbalance_component k f = min (fdiv \<bar>df_imbalance f\<bar> k) 1"

definition lifetime_component :: "detector_features \<Rightarrow> rat" where
  "lifetime_component f = (if 500 \<le> df_order_lifetime_ms f \<and> df_order_lifetime_ms f \<le> 5000 then 1 else 1/4)"

definition cancel_component :: "detector_features \<Rightarrow> rat" where
  "cancel_component f = max (min (fdiv (df_cancel_to_trade_ratio f) 3) 1) (df_cancel_probability f)"

definition spoofing_confidence :: "detector_features \<Rightarrow> rat" where
  "spoofing_confidence f =
     fround 4 (max (fadd (fadd (fadd (fmul (wall_component 8 f) (flit (6/10))) (fmul (lifetime_component f) (flit (2/10))))
       (fmul (cancel_component f) (flit (1/10)))) (fmul (imbalance_component (1/2) f) (flit (1/10)))) 0)"

definition spoofing_detect :: "detector_features \<Rightarrow> py_error + detector_score" where
  "spoofing_detect f = finish_score ''spoofing_like'' (spoofing_confidence f)
     [evidence ''wall_size_ratio'' ''Visible wall ratio'' (JFloat (df_wall_size_ratio f)) None
        ''Large abuser-owned visible liquidity relative to nearby depth.'',
      evidence ''order_lifetime_ms'' ''Order lifetime'' (JFloat (df_order_lifetime_ms f)) (Some ''ms'')
        ''Short-lived visible pressure is consistent with spoofing-like behavior.'',
      evidence ''cancel_to_trade_ratio'' ''Cancel/trade ratio'' (JFloat (df_cancel_to_trade_ratio f)) None
        ''Cancellation activity is elevated relative to executions.'',
      evidence ''cancel_probability'' ''Cancel probability'' (JFloat (df_cancel_probability f)) None
        ''Observed cancellations are measured against cancellations plus executions.'',
      evidence ''distance_from_touch_bps'' ''Distance from touch'' (JFloat (df_distance_from_touch_bps f)) (Some ''bps'')
        ''The largest visible level is measured relative to the same-side touch.'',
      evidence ''execution_ratio'' ''Execution ratio'' (JFloat (df_execution_ratio f)) None
        ''Observed executions are compared with visible placement activity.'',
      linked_evidence f ''linked_participant_ids'', linked_evidence f ''linked_order_ids'',
      linked_evidence f ''linked_event_ids'']"

definition dominant_depth :: "detector_features \<Rightarrow> rat" where
  "dominant_depth f = max (df_ask_depth f) (df_bid_depth f)"

definition depth_component :: "detector_features \<Rightarrow> rat" where
  "depth_component f =
     (if fmul (min (df_ask_depth f) (df_bid_depth f)) (flit (14/10)) < dominant_depth f then 1 else flit (35/100))"

definition multi_level_component :: "detector_features \<Rightarrow> rat" where
  "multi_level_component f = (if 3 \<le> df_large_level_count f then 1 else 0)"

definition layering_confidence :: "detector_features \<Rightarrow> rat" where
  "layering_confidence f =
     fround 4 (fadd (fadd (fadd (fadd (fmul (wall_component 5 f) (flit (15/100)))
       (fmul (imbalance_component (flit (35/100)) f) (flit (15/100))))
       (fmul (depth_component f) (flit (2/10)))) (fmul (min (df_replenishment_rate f) 1) (flit (15/100))))
       (fmul (multi_level_component f) (flit (35/100))))"

definition layering_detect :: "detector_features \<Rightarrow> py_error + detector_score" where
  "layering_detect f = finish_score ''layering_like'' (layering_confidence f)
     [evidence ''dominant_side_depth'' ''Dominant-side depth'' (JFloat (dominant_depth f)) None
        ''Visible depth is evaluated symmetrically on bid and ask sides.'',
      evidence ''order_book_imbalance'' ''Order-book imbalance'' (JFloat (df_imbalance f)) None
        ''Depth distribution shifted toward one side of the book.'',
      evidence ''large_level_count'' ''Large nearby levels'' (JInt (int (df_large_level_count f))) None
        ''Layering requires multiple unusually large same-side levels, not one wall.'',
      evidence ''replenishment_rate'' ''Replenishment pattern'' (JFloat (df_replenishment_rate f)) None
        ''Repeated updates at linked visible levels strengthen multi-level evidence.'',
      evidence ''side_switching_rate'' ''Side switching'' (JFloat (df_side_switching_rate f)) None
        ''Participant-side changes are measured when event linkage is available.'',
      (linked_evidence f ''linked_order_ids'')\<lparr>ei_interpretation :=
        Some ''Linked order identifiers are derived from observable events, not scenario labels.''\<rparr>,
      linked_evidence f ''linked_participant_ids'', linked_evidence f ''linked_event_ids'']"

definition stuffing_confidence :: "detector_features \<Rightarrow> rat" where
  "stuffing_confidence f =
     fround 4 (fadd (fmul (min (fdiv (df_message_rate f) 18) 1) (3/4))
                    (fmul (min (fdiv (df_cancel_to_trade_ratio f) 8) 1) (1/4)))"

definition stuffing_detect :: "detector_features \<Rightarrow> py_error + detector_score" where
  "stuffing_detect f = finish_score ''quote_stuffing'' (stuffing_confidence f)
     [evidence ''message_rate_per_sec'' ''Message rate'' (JFloat (df_message_rate f)) (Some ''events/sec'')
        ''High update throughput in the current tick window.'',
      evidence ''cancel_to_trade_ratio'' ''Cancel/trade ratio'' (JFloat (df_cancel_to_trade_ratio f)) None
        ''Most updates do not result in execution.'']"

definition drop_component :: "detector_features \<Rightarrow> rat" where
  "drop_component f = min (fdiv \<bar>min (df_depth_change_pct f) 0\<bar> 45) 1"

definition shock_confidence :: "detector_features \<Rightarrow> rat" where
  "shock_confidence f =
     fround 4 (fadd (fadd (fmul (drop_component f) (flit (45/100))) (fmul (min (fdiv (df_spread_bps f) 1) 1) (flit (35/100))))
       (fmul (imbalance_component (flit (55/100)) f) (flit (2/10))))"

definition shock_detect :: "detector_features \<Rightarrow> py_error + detector_score" where
  "shock_detect f = finish_score ''liquidity_shock'' (shock_confidence f)
     [evidence ''depth_change_pct'' ''Depth change'' (JFloat (df_depth_change_pct f)) (Some ''%'')
        ''Top-of-book depth changed abruptly versus the previous tick.'',
      evidence ''spread_bps'' ''Spread'' (JFloat (df_spread_bps f)) (Some ''bps'')
        ''Spread widening indicates weaker visible liquidity.'']"

section \<open>Aggregation\<close>

definition aggregate_detect :: "detector_features \<Rightarrow> py_error + detector_scores" where
  "aggregate_detect f =
     try_bind (try_map (\<lambda>d. d f) [spoofing_detect, layering_detect, stuffing_detect, shock_detect]) (\<lambda>scores.
       Inr \<lparr>dss_scores = scores, dss_alerts = filter ds_alert scores\<rparr>)"

definition score_evidence :: "detector_score \<Rightarrow> evidence_item list" where
  "score_evidence s = (case ds_evidence s of None \<Rightarrow> [] | Some es \<Rightarrow> es)"

definition flatten_evidence :: "detector_scores \<Rightarrow> evidence_item list" where
  "flatten_evidence ss =
     map snd (foldl (\<lambda>d i. dsetdefault (ei_key i) i d) [] (concat (map score_evidence (dss_scores ss))))"

end
