(* ===== verification/ArenaEngine.thy ===== *)
theory ArenaEngine
  imports Scenarios Detectors Agents
begin

text \<open>
  The simulation engine, \<open>backend/app/arena/engine.py\<close> with \<open>clock.py\<close> and \<open>state.py\<close>: it owns the
  matching engine, the agents, the scenario controller, the incident list and the published state,
  and runs them tick by tick. Each method is a step on the record \<open>arena\<close>; the lock makes the
  methods atomic. \<open>clk k n\<close> is the n-th reading of \<open>time.time\<close> by the k-th scenario, \<open>collect\<close> the
  agents' answers to a snapshot. The background task is the flag \<open>ar_loop\<close> (it is alive), one turn
  of its loop is \<open>loop_turn\<close>. The optional store is absent, so the \<open>_persist\<close> methods do nothing.
\<close>

section \<open>State\<close>

record arena_config =
  cf_interval :: rat
  cf_seed :: int
  cf_agent_count :: int
  cf_remote_urls :: "string list"
  cf_levels :: int
  cf_base_size :: rat
  cf_tick_size :: rat
  cf_reference :: rat
  cf_max_quote :: rat
  cf_depth :: int
  cf_window :: int
  cf_symbol :: string
  cf_venue :: string

record arena =
  ar_config :: arena_config
  ar_tick :: int
  ar_generation :: int
  ar_stream_id :: string
  ar_agents :: "runtime_agent list"
  ar_engine :: engine
  ar_events :: "agent_event list"
  ar_controller :: controller
  ar_incidents :: "incident list"
  ar_counter :: nat
  ar_keys :: "(string \<times> string) set"
  ar_seen :: "(string, int) dict"
  ar_running :: bool
  ar_loop :: bool
  ar_state :: arena_state

type_synonym 'a arena_step = "(arena, 'a) step"

text \<open>The constructor's bounds on its arguments.\<close>

definition clamp_config :: "arena_config \<Rightarrow> arena_config" where
  "clamp_config c =
     c\<lparr>cf_levels := max 0 (cf_levels c), cf_base_size := max 0 (cf_base_size c),
       cf_tick_size := max (flit (1/100)) (cf_tick_size c), cf_max_quote := max 0 (cf_max_quote c),
       cf_depth := max 1 (cf_depth c), cf_window := max 1 (cf_window c)\<rparr>"

definition pad_int :: "nat \<Rightarrow> int \<Rightarrow> string" where
  "pad_int w n = (if n < 0 then ''-'' @ zpad (w - 1) (nat_dec (nat (- n))) else zpad w (nat_dec (nat n)))"

definition run_id :: "arena_config \<Rightarrow> string" where
  "run_id c = ''RUN-'' @ pad_int 6 (cf_seed c)"

definition exchange_stream_id :: "arena_config \<Rightarrow> int \<Rightarrow> string" where
  "exchange_stream_id c generation = run_id c @ ''-STREAM-'' @ pad_int 3 generation"

definition new_matching_engine :: "arena_config \<Rightarrow> engine" where
  "new_matching_engine c =
     new_engine (cf_symbol c) (cf_venue c) Simulation
       (new_order_book (Some (cf_reference c)) (nat (cf_levels c)) (cf_tick_size c) (cf_base_size c))"

text \<open>\<open>deque(maxlen=20)\<close> with \<open>appendleft\<close>.\<close>

definition push_event :: "agent_event \<Rightarrow> arena \<Rightarrow> arena" where
  "push_event e ar = ar\<lparr>ar_events := take 20 (e # ar_events ar)\<rparr>"

definition update_arena :: "(arena \<Rightarrow> arena) \<Rightarrow> unit arena_step" where
  "update_arena f ar = (f ar, Inr ())"

definition read_arena :: "(arena \<Rightarrow> 'a) \<Rightarrow> 'a arena_step" where
  "read_arena f ar = (ar, Inr (f ar))"

definition on_engine :: "'a engine_step \<Rightarrow> 'a arena_step" where
  "on_engine f ar = (case f (ar_engine ar) of (en, r) \<Rightarrow> (ar\<lparr>ar_engine := en\<rparr>, r))"

definition lift_result :: "py_error + 'a \<Rightarrow> 'a arena_step" where
  "lift_result r ar = (ar, r)"

section \<open>Book views\<close>

definition l2_snapshot :: "int \<Rightarrow> book_snapshot engine_step" where
  "l2_snapshot depth en = (case get_snapshot depth (en_book en) of
      Inl e \<Rightarrow> (en, Inl e)
    | Inr (b, snap) \<Rightarrow> (en\<lparr>en_book := b\<rparr>, Inr snap))"

definition market_snapshot_of :: "int \<Rightarrow> market_snapshot engine_step" where
  "market_snapshot_of tick en =
     (step_bind (l2_snapshot 12) (\<lambda>snap. step_return \<lparr>ms_tick = tick, ms_book = snap\<rparr>)) en"

definition top_depth :: "int \<Rightarrow> rat engine_step" where
  "top_depth depth en = (step_bind (l2_snapshot depth) (\<lambda>snap.
     step_return (fadd (fsum (map l_quantity (s_bids snap))) (fsum (map l_quantity (s_asks snap)))))) en"

section \<open>Applying agent intents\<close>

definition intent_event :: "agent_intent \<Rightarrow> string \<Rightarrow> (agent_event \<Rightarrow> agent_event) \<Rightarrow> agent_event" where
  "intent_event i default_message upd =
     upd ((blank_event (i_event_type i))
       \<lparr>ae_timestamp := Some (of_int (i_tick i)), ae_agent_id := Some (i_agent_id i),
        ae_extra := [(''runtime_source'', JStr (i_runtime_source i)),
                     (''message'', JStr (str_or (i_message i) default_message))]\<rparr>)"

definition with_trade :: "side \<Rightarrow> rat option \<Rightarrow> rat \<Rightarrow> agent_event \<Rightarrow> agent_event" where
  "with_trade sd p q e = e\<lparr>ae_side := Some sd, ae_price := p, ae_quantity := Some q\<rparr>"

definition intent_book_side :: "agent_intent \<Rightarrow> book_side" where
  "intent_book_side i = (if i_side i \<in> {Some ''bid'', Some ''buy''} then Bid else Ask)"

definition quote_size :: "rat \<Rightarrow> rat \<Rightarrow> rat" where
  "quote_size max_quote q = min (max 0 q) max_quote"

definition apply_set_level :: "rat \<Rightarrow> agent_intent \<Rightarrow> agent_event option engine_step" where
  "apply_set_level max_quote i en =
     ((case (i_side i, i_price i) of
        (Some _, Some p) \<Rightarrow>
          step_bind (book_step (update_agent_level (intent_book_side i) p (quote_size max_quote (i_quantity i))
              (i_agent_id i) ''normal'' None (i_tick i) None None None)) (\<lambda>_.
            step_return (Some (intent_event i ''updated visible depth''
              (with_trade (order_side (intent_book_side i)) (Some p) (i_quantity i)))))
      | _ \<Rightarrow> step_return None)) en"

definition is_execution :: "exchange_event \<Rightarrow> bool" where
  "is_execution e = (case ev_body e of ExecuteBody _ _ _ _ _ _ _ _ _ _ \<Rightarrow> True | _ \<Rightarrow> False)"

definition apply_market :: "agent_intent \<Rightarrow> agent_event option engine_step" where
  "apply_market i en =
     (case to_order i of
        Inl e \<Rightarrow> (en, Inl e)
      | Inr x \<Rightarrow>
          step_bind (process_event x) (\<lambda>es.
            let executions = filter is_execution es in
            step_return (Some (intent_event i ''submitted market order''
              (with_trade (o_side x) (if executions = [] then None else Some (b_price (ev_body (hd executions))))
                (fsum (map (b_quantity \<circ> ev_body) executions)))))) en)"

definition apply_limit :: "agent_intent \<Rightarrow> agent_event option engine_step" where
  "apply_limit i en =
     (case to_order i of
        Inl e \<Rightarrow> (en, Inl e)
      | Inr x \<Rightarrow>
          step_bind (process_event x) (\<lambda>_.
            step_return (Some (intent_event i ''submitted limit order''
              (\<lambda>e. (with_trade (o_side x) (o_price x) (o_quantity x) e)\<lparr>ae_order_id := Some (o_order_id x)\<rparr>)))) en)"

definition cancel_request :: "agent_intent \<Rightarrow> order \<Rightarrow> order" where
  "cancel_request i r =
     (mk_order (o_order_id r) (i_agent_id i) (o_side r) 0 None)
       \<lparr>o_order_type := CancelOrder, o_timestamp := i_tick i\<rparr>"

definition apply_cancel :: "string \<Rightarrow> agent_intent \<Rightarrow> agent_event option engine_step" where
  "apply_cancel oid i en =
     (case dget (orders (en_book en)) oid of
        None \<Rightarrow> (en, Inr None)
      | Some r \<Rightarrow>
          step_bind (process_event (cancel_request i r)) (\<lambda>es.
            step_return (if es = [] then None else
              Some (intent_event i ''cancelled resting order''
                (\<lambda>e. (with_trade (o_side r) (o_price r) (o_quantity r) e)\<lparr>ae_order_id := Some (o_order_id r)\<rparr>)))) en)"

definition apply_agent_intent :: "rat \<Rightarrow> agent_intent \<Rightarrow> agent_event option engine_step" where
  "apply_agent_intent max_quote i en =
     ((if i_kind i = ''set_level'' then apply_set_level max_quote i
      else if i_kind i = ''market'' then apply_market i
      else if i_kind i = ''limit'' then apply_limit i
      else case (i_kind i = ''cancel'', i_order_id i) of
        (True, Some oid) \<Rightarrow>
          if oid \<noteq> [] then apply_cancel oid i else step_return (Some (intent_event i ''agent intent ignored'' id))
      | _ \<Rightarrow> step_return (Some (intent_event i ''agent intent ignored'' id)))) en"

definition apply_agent_intents :: "rat \<Rightarrow> agent_intent list \<Rightarrow> agent_event list engine_step" where
  "apply_agent_intents max_quote is en =
     (step_bind (step_map (apply_agent_intent max_quote) is) (\<lambda>es. step_return (List.map_filter id es))) en"

section \<open>Baseline liquidity\<close>

definition baseline_size :: "arena_config \<Rightarrow> nat \<Rightarrow> rat" where
  "baseline_size c index = fround 6 (fadd (cf_base_size c) (of_nat index))"

definition baseline_price :: "arena_config \<Rightarrow> book_side \<Rightarrow> nat \<Rightarrow> rat" where
  "baseline_price c s index =
     (let off = fmul (of_nat (index + 1)) (cf_tick_size c)
      in fround 8 (case s of Bid \<Rightarrow> fsub (cf_reference c) off | Ask \<Rightarrow> fadd (cf_reference c) off))"

definition maintain_level :: "arena_config \<Rightarrow> nat \<Rightarrow> unit engine_step" where
  "maintain_level c index en =
     (step_bind (book_step (ensure_level_minimum Bid (baseline_price c Bid index) (baseline_size c index)
         ''BASELINE_MM'' ''normal'')) (\<lambda>_.
       book_step (ensure_level_minimum Ask (baseline_price c Ask index) (baseline_size c index)
         ''BASELINE_MM'' ''normal''))) en"

definition maintain_baseline_liquidity :: "arena_config \<Rightarrow> unit engine_step" where
  "maintain_baseline_liquidity c en =
     ((if cf_levels c \<le> 0 \<or> cf_base_size c \<le> 0 then step_return ()
      else step_each (maintain_level c) [0..<nat (cf_levels c)])) en"

section \<open>Incidents\<close>

definition is_alpha :: "char \<Rightarrow> bool" where
  "is_alpha ch = (ascii_upper ch \<noteq> ascii_lower ch)"

fun str_title :: "bool \<Rightarrow> string \<Rightarrow> string" where
  "str_title cased [] = []"
| "str_title cased (ch # s) = (if cased then ascii_lower ch else ascii_upper ch) # str_title (is_alpha ch) s"

definition format_detector_name :: "string \<Rightarrow> string" where
  "format_detector_name n = str_title False (map (\<lambda>ch. if ch = CHR ''_'' then CHR '' '' else ch) n)"

definition incident_severity :: "detector_score \<Rightarrow> severity" where
  "incident_severity s =
     (if ds_severity s = Some SevCritical then SevCritical
      else if ds_severity s = Some SevHigh \<or> flit (8/10) \<le> ds_confidence s then SevHigh
      else if ds_severity s = Some SevMedium then SevMedium
      else SevLow)"

definition confirmed_evidence :: "evidence_item list \<Rightarrow> evidence_item list" where
  "confirmed_evidence es =
     map (\<lambda>e. e\<lparr>ei_interpretation :=
        opt_str_or (ei_interpretation e) (Some ''Confirmed by deterministic detector threshold.'')\<rparr>) es"

definition incident_id :: "nat \<Rightarrow> string" where
  "incident_id n = ''INC-'' @ zpad 6 (nat_dec n)"

definition new_incident :: "nat \<Rightarrow> tracker_state \<Rightarrow> detector_score \<Rightarrow> incident" where
  "new_incident n t s =
     \<lparr>in_id = incident_id n, in_title = format_detector_name (ds_name s) @ '' detected'',
      in_type = ds_name s, in_agent = tr_agent_id t, in_confidence = ds_confidence s,
      in_severity = incident_severity s, in_evidence = confirmed_evidence (score_evidence s),
      in_explanation = ''Mock Nebius AI explanation pending.'',
      in_scenario_id = Some (tr_scenario_id t), in_scenario_family = Some (tr_family t)\<rparr>"

definition incident_event :: "int \<Rightarrow> incident \<Rightarrow> tracker_state \<Rightarrow> detector_score \<Rightarrow> agent_event" where
  "incident_event tick inc t s =
     (blank_event ''detector'')
       \<lparr>ae_timestamp := Some (of_int tick), ae_agent_id := Some ''DETECTOR_ENGINE'',
        ae_scenario_id := Some (tr_scenario_id t), ae_scenario_name := Some (tr_scenario_name t),
        ae_scenario_family := Some (tr_family t),
        ae_extra := [(''detector'', JStr (ds_name s)), (''incident_id'', JStr (in_id inc)),
          (''confidence'', JFloat (ds_confidence s)),
          (''message'', JStr (in_id inc @ '' created from '' @ ds_name s @ '' confidence '' @ fmt_fixed 2 (ds_confidence s)))]\<rparr>"

definition incident_due :: "tracker_state \<Rightarrow> detector_score \<Rightarrow> arena \<Rightarrow> bool" where
  "incident_due t s ar =
     (flit (8/10) \<le> ds_confidence s \<and> 2 \<le> length (score_evidence s) \<and>
      (tr_scenario_id t, ds_name s) \<notin> ar_keys ar)"

definition consider_score :: "tracker_state \<Rightarrow> arena \<Rightarrow> detector_score \<Rightarrow> arena" where
  "consider_score t ar s =
     (if \<not> incident_due t s ar then ar
      else
        let n = Suc (ar_counter ar); inc = new_incident n t s in
        push_event (incident_event (ar_tick ar) inc t s)
          (ar\<lparr>ar_counter := n, ar_incidents := ar_incidents ar @ [inc],
              ar_keys := insert (tr_scenario_id t, ds_name s) (ar_keys ar)\<rparr>))"

definition maybe_create_incident :: "tracker_state \<Rightarrow> detector_score list \<Rightarrow> arena \<Rightarrow> arena" where
  "maybe_create_incident t scores ar = foldl (consider_score t) ar scores"

section \<open>The published state\<close>

definition market_feature_keys :: "string list" where
  "market_feature_keys =
     [''spread_bps'', ''depth_top_n'', ''imbalance'', ''message_rate'', ''cancel_to_trade_ratio'',
      ''order_lifetime_ms'', ''wall_size_ratio'', ''depth_change_pct'', ''distance_from_touch_bps'',
      ''cancel_probability'', ''execution_ratio'', ''replenishment_rate'', ''side_switching_rate'',
      ''participant_order_linkage'', ''linked_participant_ids'', ''linked_order_ids'',
      ''linked_event_ids'', ''large_level_count'']"

definition arena_state_from_book ::
  "int \<Rightarrow> bool \<Rightarrow> arena_book \<Rightarrow> agent_event list \<Rightarrow> exchange_event list \<Rightarrow> payload \<Rightarrow> string list \<Rightarrow>
   tracker_state option \<Rightarrow> detector_scores \<Rightarrow> incident list \<Rightarrow> arena_state" where
  "arena_state_from_book tick running book es xs fs ags scenario scores incs =
     \<lparr>st_tick = tick, st_running = running, st_events = es, st_exchange_events = xs, st_book = book,
      st_active_agents = (if ags = [] then [''MM_01'', ''NOISE_01'', ''TAKER_01''] else ags),
      st_active_scenario = scenario, st_detectors = scores, st_incidents = incs,
      st_features = filter (\<lambda>(k, _). k \<in> set market_feature_keys) fs\<rparr>"

definition arena_tracker :: "arena \<Rightarrow> tracker_state option" where
  "arena_tracker ar = controller_tracker (run_id (ar_config ar)) (cf_seed (ar_config ar)) (ar_controller ar)"

text \<open>The features are computed from the table of first-seen ticks, which stays updated also when
  what follows raises.\<close>

definition scored :: "detector_features \<times> (string, int) dict \<Rightarrow> py_error + (detector_features \<times> detector_scores)" where
  "scored fd = try_bind (aggregate_detect (fst fd)) (\<lambda>scores. Inr (fst fd, scores))"

definition detect_state :: "arena_book \<Rightarrow> agent_event list \<Rightarrow> rat option \<Rightarrow>
    (detector_features \<times> detector_scores) arena_step" where
  "detect_state book current previous ar =
     (ar\<lparr>ar_seen := fst (track_orders (ar_tick ar) (cf_interval (ar_config ar)) current (ar_seen ar))\<rparr>,
      try_bind (extract_features book current previous (cf_interval (ar_config ar)) (ar_tick ar) (ar_seen ar) 5) scored)"

definition raise_incidents :: "tracker_state option \<Rightarrow> detector_scores \<Rightarrow> arena \<Rightarrow> arena" where
  "raise_incidents trk scores ar =
     (case trk of None \<Rightarrow> ar | Some t \<Rightarrow> maybe_create_incident t (dss_scores scores) ar)"

definition with_evidence :: "detector_scores \<Rightarrow> tracker_state \<Rightarrow> tracker_state" where
  "with_evidence scores t = t\<lparr>tr_evidence := Some (flatten_evidence scores)\<rparr>"

text \<open>\<open>_build_state\<close> in its three stages: the book, the scores and incidents, the state object.\<close>

definition assemble_state ::
  "bool \<Rightarrow> arena_book \<Rightarrow> tracker_state option \<Rightarrow> detector_features \<times> detector_scores \<Rightarrow> arena_state arena_step" where
  "assemble_state running book trk fs ar =
     (case log_tail (cf_window (ar_config ar)) (en_log (ar_engine ar)) of
        Inl e \<Rightarrow> (ar, Inl e)
      | Inr xs \<Rightarrow> (ar, Inr (arena_state_from_book (ar_tick ar) running book (ar_events ar) (map forget_event xs)
          (to_arena_features (fst fs))
          (manager_agent_ids (ar_agents ar) @ (case trk of None \<Rightarrow> [] | Some t \<Rightarrow> [tr_agent_id t]))
          (map_option (with_evidence (snd fs)) trk) (snd fs) (ar_incidents ar))))"

definition conclude_state ::
  "bool \<Rightarrow> arena_book \<Rightarrow> tracker_state option \<Rightarrow> detector_features \<times> detector_scores \<Rightarrow> arena_state arena_step" where
  "conclude_state running book trk fs ar =
     (step_bind (update_arena (raise_incidents (map_option (with_evidence (snd fs)) trk) (snd fs)))
       (\<lambda>_. assemble_state running book trk fs)) ar"

definition score_state ::
  "bool \<Rightarrow> agent_event list \<Rightarrow> rat option \<Rightarrow> arena_book \<Rightarrow> arena_state arena_step" where
  "score_state running current previous book ar =
     (step_bind (detect_state book current previous) (conclude_state running book (arena_tracker ar))) ar"

definition build_state :: "bool \<Rightarrow> agent_event list \<Rightarrow> rat option \<Rightarrow> arena_state arena_step" where
  "build_state running current previous ar =
     (step_bind (on_engine (l2_snapshot 12))
       (score_state running current previous \<circ> order_book_snapshot_from_dict)) ar"

definition refresh_state :: "bool \<Rightarrow> agent_event list \<Rightarrow> rat option \<Rightarrow> unit arena_step" where
  "refresh_state running current previous ar =
     (step_bind (build_state running current previous) (\<lambda>st. update_arena (ar_state_update (\<lambda>_. st)))) ar"

section \<open>One tick\<close>

definition arena_context :: "int \<Rightarrow> tracker_state option \<Rightarrow> mutation_context" where
  "arena_context tick trk =
     \<lparr>cx_tick = Some tick, cx_scenario_id = map_option tr_scenario_id trk,
      cx_scenario_name = map_option tr_scenario_name trk, cx_scenario_family = map_option tr_family trk\<rparr>"

definition in_context :: "mutation_context \<Rightarrow> 'a arena_step \<Rightarrow> 'a arena_step" where
  "in_context cx f ar =
     (case f (ar\<lparr>ar_engine := (ar_engine ar)\<lparr>en_context := cx\<rparr>\<rparr>) of
        (ar', r) \<Rightarrow> (ar'\<lparr>ar_engine := (ar_engine ar')\<lparr>en_context := en_context (ar_engine ar)\<rparr>\<rparr>, r))"

definition clock_step :: "int arena_step" where
  "clock_step ar = (ar\<lparr>ar_tick := ar_tick ar + 1\<rparr>, Inr (ar_tick ar + 1))"

definition agents_phase ::
  "(market_snapshot \<Rightarrow> py_error + agent_intent list) \<Rightarrow> int \<Rightarrow> agent_event list arena_step" where
  "agents_phase collect tick ar =
     (step_bind (on_engine (market_snapshot_of tick)) (\<lambda>snap.
     step_bind (lift_result (collect snap)) (\<lambda>is.
     step_bind (read_arena (\<lambda>ar. cf_max_quote (ar_config ar))) (\<lambda>q.
     on_engine (apply_agent_intents q is))))) ar"

definition scenario_phase :: "(nat \<Rightarrow> nat \<Rightarrow> rat) \<Rightarrow> int \<Rightarrow> agent_event list arena_step" where
  "scenario_phase clk tick ar =
     (case controller_advance (clk (ct_counter (ar_controller ar))) tick (ar_controller ar, ar_engine ar) of
        ((ct, en), r) \<Rightarrow> (ar\<lparr>ar_controller := ct, ar_engine := en\<rparr>, r))"

definition tick_snapshot :: "int \<Rightarrow> exchange_event arena_step" where
  "tick_snapshot tick ar =
     (step_bind (read_arena id) (\<lambda>ar.
       on_engine (record_snapshot tick (cf_depth (ar_config ar)) None None
         (map_option tr_scenario_id (arena_tracker ar)) (map_option tr_scenario_name (arena_tracker ar))
         (map_option tr_family (arena_tracker ar))))) ar"

definition push_events :: "agent_event list \<Rightarrow> arena \<Rightarrow> arena" where
  "push_events es ar = foldl (\<lambda>ar e. push_event e ar) ar es"

definition advance_tick ::
  "(nat \<Rightarrow> nat \<Rightarrow> rat) \<Rightarrow> (market_snapshot \<Rightarrow> py_error + agent_intent list) \<Rightarrow> bool \<Rightarrow> unit arena_step" where
  "advance_tick clk collect running ar =
     (step_bind clock_step (\<lambda>tick.
     step_bind (on_engine (top_depth 5)) (\<lambda>previous.
     step_bind (in_context (arena_context tick None) (agents_phase collect tick)) (\<lambda>es.
     step_bind (read_arena arena_tracker) (\<lambda>trk.
     step_bind (in_context (arena_context tick trk) (scenario_phase clk tick)) (\<lambda>fs.
     step_bind (read_arena ar_config) (\<lambda>c.
     step_bind (in_context (arena_context tick None) (on_engine (maintain_baseline_liquidity c))) (\<lambda>_.
     step_bind (tick_snapshot tick) (\<lambda>_.
     step_bind (update_arena (push_events (es @ fs))) (\<lambda>_.
     refresh_state running (es @ fs) (Some previous))))))))))) ar"

section \<open>Methods\<close>

definition blank_state :: arena_state where
  "blank_state = arena_state_from_book 0 False
     \<lparr>ab_bids = [], ab_asks = [], ab_best_bid = None, ab_best_ask = None, ab_mid = None, ab_spread = None\<rparr>
     [] [] [] [] None empty_detector_scores []"

text \<open>\<open>raw_arena\<close> is the object before its constructor's last line, which builds the state.\<close>

definition raw_arena :: "arena_config \<Rightarrow> arena" where
  "raw_arena c =
     \<lparr>ar_config = c, ar_tick = 0, ar_generation = 0, ar_stream_id = exchange_stream_id c 0,
      ar_agents = build_agent_manager (cf_agent_count c) (cf_remote_urls c),
      ar_engine = new_matching_engine c, ar_events = [], ar_controller = new_controller,
      ar_incidents = [], ar_counter = 0, ar_keys = {}, ar_seen = [], ar_running = False,
      ar_loop = False, ar_state = blank_state\<rparr>"

definition new_arena :: "arena_config \<Rightarrow> py_error + arena" where
  "new_arena c =
     (case refresh_state False [] None (raw_arena (clamp_config c)) of
        (ar, Inl e) \<Rightarrow> Inl e
      | (ar, Inr _) \<Rightarrow> Inr ar)"

definition set_running :: "bool \<Rightarrow> unit arena_step" where
  "set_running r = update_arena (ar_running_update (\<lambda>_. r))"

definition ensure_loop :: "unit arena_step" where
  "ensure_loop = update_arena (ar_loop_update (\<lambda>_. True))"

definition arena_start :: "arena_state arena_step" where
  "arena_start ar =
     (step_bind (set_running True) (\<lambda>_.
     step_bind (refresh_state True [] None) (\<lambda>_.
     step_bind ensure_loop (\<lambda>_. read_arena ar_state)))) ar"

definition arena_pause :: "arena_state arena_step" where
  "arena_pause ar =
     (step_bind (set_running False) (\<lambda>_.
     step_bind (refresh_state False [] None) (\<lambda>_. read_arena ar_state))) ar"

definition reset_fields :: "arena \<Rightarrow> arena" where
  "reset_fields ar =
     (let c = ar_config ar; g = ar_generation ar + 1 in
      ar\<lparr>ar_running := False, ar_tick := 0, ar_generation := g, ar_stream_id := exchange_stream_id c g,
        ar_engine := new_matching_engine c,
        ar_agents := build_agent_manager (cf_agent_count c) (cf_remote_urls c),
        ar_events := [], ar_controller := controller_reset (ar_controller ar), ar_incidents := [],
        ar_counter := 0, ar_keys := {}, ar_seen := []\<rparr>)"

definition arena_reset :: "arena_state arena_step" where
  "arena_reset ar =
     (step_bind (update_arena reset_fields) (\<lambda>_.
     step_bind (refresh_state False [] None) (\<lambda>_. read_arena ar_state))) ar"

definition arena_stop :: "unit arena_step" where
  "arena_stop = update_arena (\<lambda>ar. ar\<lparr>ar_running := False, ar_loop := False\<rparr>)"

definition armed_event :: "int \<Rightarrow> tracker_state \<Rightarrow> agent_event" where
  "armed_event tick t =
     (blank_event ''red_team'')
       \<lparr>ae_timestamp := (case tr_stages t of None \<Rightarrow> None | Some [] \<Rightarrow> None | Some (s # _) \<Rightarrow> ss_timestamp s),
        ae_agent_id := Some (tr_agent_id t), ae_scenario_id := Some (tr_scenario_id t),
        ae_scenario_name := Some (tr_scenario_name t), ae_scenario_family := Some (tr_family t),
        ae_extra := [(''tick'', JInt tick),
          (''stage'', JStr (case tr_current_stage t of None \<Rightarrow> ''armed'' | Some s \<Rightarrow> stage_value s)),
          (''message'', JStr (tr_scenario_name t @ '' scenario armed''))]\<rparr>"

definition start_scenario_locked :: "(nat \<Rightarrow> nat \<Rightarrow> rat) \<Rightarrow> string \<Rightarrow> tracker_state arena_step" where
  "start_scenario_locked clk name ar =
     (let c = ar_config ar; ct = ar_controller ar in
      case start_scenario (clk (Suc (ct_counter ct))) name (ar_tick ar) (run_id c) (cf_seed c) ct of
        Inl e \<Rightarrow> (ar, Inl e)
      | Inr (ct', t) \<Rightarrow> (push_event (armed_event (ar_tick ar) t) (ar\<lparr>ar_controller := ct'\<rparr>), Inr t))"

definition arena_start_scenario :: "(nat \<Rightarrow> nat \<Rightarrow> rat) \<Rightarrow> string \<Rightarrow> tracker_state arena_step" where
  "arena_start_scenario clk name ar =
     (step_bind (start_scenario_locked clk name) (\<lambda>t.
     step_bind (set_running True) (\<lambda>_.
     step_bind ensure_loop (\<lambda>_.
     step_bind (refresh_state True [] None) (\<lambda>_. step_return t))))) ar"

datatype launch_result = LaunchRejected string | LaunchAccepted tracker_state

definition launch_scenario :: "(nat \<Rightarrow> nat \<Rightarrow> rat) \<Rightarrow> string \<Rightarrow> launch_result arena_step" where
  "launch_scenario clk name ar =
     (case start_scenario_locked clk name ar of
        (ar', Inl (ValueError m)) \<Rightarrow> (ar', Inr (LaunchRejected m))
      | (ar', Inl e) \<Rightarrow> (ar', Inl e)
      | (ar', Inr t) \<Rightarrow>
          step_bind (refresh_state (ar_running ar') [] None) (\<lambda>_. step_return (LaunchAccepted t)) ar')"

definition arena_step_once :: "(nat \<Rightarrow> nat \<Rightarrow> rat) \<Rightarrow> remote_answers \<Rightarrow> arena_state arena_step" where
  "arena_step_once clk remote ar =
     step_bind (advance_tick clk (collect_intents_sync remote (ar_agents ar)) True) (\<lambda>_. read_arena ar_state) ar"

text \<open>
  One turn of the background loop: \<open>finished\<close> are the results of the tasks that answered in time. An
  exception ends the task.
\<close>

definition loop_turn ::
  "(nat \<Rightarrow> nat \<Rightarrow> rat) \<Rightarrow> (market_snapshot \<Rightarrow> (py_error + agent_intent list) list) \<Rightarrow> arena \<Rightarrow> arena" where
  "loop_turn clk finished ar =
     (if \<not> ar_loop ar \<or> \<not> ar_running ar then ar
      else case advance_tick clk (\<lambda>s. Inr (collect_intents (finished s))) True ar of
          (ar', Inl _) \<Rightarrow> ar'\<lparr>ar_loop := False\<rparr>
        | (ar', Inr _) \<Rightarrow> ar')"

definition arena_snapshot :: "bool option \<Rightarrow> arena_state arena_step" where
  "arena_snapshot running ar =
     (step_bind (case running of None \<Rightarrow> step_return () | Some r \<Rightarrow> refresh_state r [] None) (\<lambda>_. read_arena ar_state)) ar"

definition replay_exchange_events :: "int \<Rightarrow> int \<Rightarrow> event_batch arena_step" where
  "replay_exchange_events after limit ar =
     (step_bind (read_arena (\<lambda>ar. en_log (ar_engine ar))) (\<lambda>l.
     step_bind (lift_result (read_log l after limit)) (\<lambda>b.
     step_return (b\<lparr>bt_events := map forget_event (bt_events b)\<rparr>)))) ar"

definition list_incidents :: "incident list arena_step" where
  "list_incidents = read_arena ar_incidents"

definition get_incident :: "string \<Rightarrow> incident option arena_step" where
  "get_incident i = read_arena (\<lambda>ar. find (\<lambda>inc. in_id inc = i) (ar_incidents ar))"

end
