(* ===== verification/DetectorProps.thy ===== *)
theory DetectorProps
  imports Detectors
begin

text \<open>
  The contract of a detector, as the aggregate uses it: the locale \<open>risk_detector\<close> with its four
  instances. On features that a book with non-negative spread gives, no detector raises and every
  confidence lies between 0 and 1; a crossed book breaks this.
\<close>

section \<open>Detectors\<close>

lemma flit_nonneg [float_signs]: "0 \<le> x \<Longrightarrow> 0 \<le> flit x"
  by (simp add: flit_def rnd64_signs)

definition score_ok :: "string \<Rightarrow> detector_score \<Rightarrow> bool" where
  "score_ok name s = (ds_name s = name \<and> 0 \<le> ds_confidence s \<and> ds_confidence s \<le> 1 \<and>
     (ds_alert s \<longleftrightarrow> 3/4 \<le> ds_confidence s) \<and> (\<exists>ev. ds_evidence s = Some ev \<and> 2 \<le> length ev))"

lemma finish_score_Inr:
  "0 \<le> c \<Longrightarrow> finish_score name c ev =
     Inr \<lparr>ds_name = name, ds_confidence = min c 1, ds_alert = (3/4 \<le> c), ds_severity = Some (severity_of c),
          ds_evidence = Some ev\<rparr>"
  by (simp add: finish_score_def mk_detector_score_def unit_interval_def)

lemma finish_score_negative: "c < 0 \<Longrightarrow> \<exists>m. finish_score name c ev = Inl (ValueError m)"
  by (simp add: finish_score_def mk_detector_score_def unit_interval_def)

locale risk_detector =
  fixes detect :: "detector_features \<Rightarrow> py_error + detector_score"
    and confidence :: "detector_features \<Rightarrow> rat"
    and name :: string
    and expected :: "detector_features \<Rightarrow> bool"
  assumes detect_finish: "\<exists>ev. detect f = finish_score name (confidence f) ev \<and> 2 \<le> length ev"
    and confidence_nonneg: "expected f \<Longrightarrow> 0 \<le> confidence f"
begin

lemma detect_total:
  assumes "expected f"
  obtains s where "detect f = Inr s" "score_ok name s"
proof -
  obtain ev where ev: "detect f = finish_score name (confidence f) ev" "2 \<le> length ev"
    using detect_finish by blast
  then show ?thesis
    using confidence_nonneg [OF assms] by (intro that) (auto simp: finish_score_Inr score_ok_def)
qed

lemma detect_raises: "confidence f < 0 \<Longrightarrow> \<exists>m. detect f = Inl (ValueError m)"
  using detect_finish [of f] finish_score_negative by metis

end

definition features_ok :: "detector_features \<Rightarrow> bool" where
  "features_ok f = (0 \<le> df_wall_size_ratio f \<and> 0 \<le> df_cancel_to_trade_ratio f \<and> 0 \<le> df_message_rate f \<and>
     0 \<le> df_replenishment_rate f \<and> 0 \<le> df_spread_bps f)"

lemmas nonneg_rules = fround_nonneg fadd_nonneg fmul_nonneg fdiv_nonneg flit_nonneg

lemmas component_defs = wall_component_def imbalance_component_def lifetime_component_def cancel_component_def
  dominant_depth_def depth_component_def multi_level_component_def drop_component_def

interpretation spoof: risk_detector spoofing_detect spoofing_confidence "''spoofing_like''" "\<lambda>_. True"
  by unfold_locales (auto simp: spoofing_detect_def spoofing_confidence_def intro!: fround_nonneg)

interpretation layer: risk_detector layering_detect layering_confidence "''layering_like''" features_ok
  by unfold_locales (auto simp: layering_detect_def layering_confidence_def component_defs features_ok_def
      intro!: nonneg_rules)

interpretation stuff: risk_detector stuffing_detect stuffing_confidence "''quote_stuffing''" features_ok
  by unfold_locales (auto simp: stuffing_detect_def stuffing_confidence_def features_ok_def intro!: nonneg_rules)

interpretation shock: risk_detector shock_detect shock_confidence "''liquidity_shock''" features_ok
  by unfold_locales (auto simp: shock_detect_def shock_confidence_def component_defs features_ok_def
      intro!: nonneg_rules)

lemma aggregate_total:
  assumes "features_ok f"
  obtains a b c d where "aggregate_detect f = Inr \<lparr>dss_scores = [a, b, c, d], dss_alerts = filter ds_alert [a, b, c, d]\<rparr>"
    "score_ok ''spoofing_like'' a" "score_ok ''layering_like'' b" "score_ok ''quote_stuffing'' c"
    "score_ok ''liquidity_shock'' d"
proof -
  obtain a where a: "spoofing_detect f = Inr a" "score_ok ''spoofing_like'' a"
    using spoof.detect_total by blast
  obtain b where b: "layering_detect f = Inr b" "score_ok ''layering_like'' b"
    using layer.detect_total [OF assms] by blast
  obtain c where c: "stuffing_detect f = Inr c" "score_ok ''quote_stuffing'' c"
    using stuff.detect_total [OF assms] by blast
  obtain d where d: "shock_detect f = Inr d" "score_ok ''liquidity_shock'' d"
    using shock.detect_total [OF assms] by blast
  show ?thesis
    using a(2) b(2) c(2) d(2) by (intro that [of a b c d]) (simp_all add: aggregate_detect_def a(1) b(1) c(1) d(1))
qed

lemma aggregate_raises:
  assumes "shock_confidence f < 0" and "0 \<le> layering_confidence f" and "0 \<le> stuffing_confidence f"
  shows "\<exists>m. aggregate_detect f = Inl (ValueError m)"
proof -
  obtain a where a: "spoofing_detect f = Inr a" using spoof.detect_total by blast
  obtain b where b: "layering_detect f = Inr b" using assms(2) by (simp add: layering_detect_def finish_score_Inr)
  obtain c where c: "stuffing_detect f = Inr c" using assms(3) by (simp add: stuffing_detect_def finish_score_Inr)
  obtain m where "shock_detect f = Inl (ValueError m)" using shock.detect_raises [OF assms(1)] by blast
  then show ?thesis by (simp add: aggregate_detect_def a b c)
qed

section \<open>Features of a book\<close>

definition arena_book_ok :: "arena_book \<Rightarrow> bool" where
  "arena_book_ok b = ((\<forall>l\<in>set (ab_bids b) \<union> set (ab_asks b). 0 \<le> al_quantity l) \<and>
     (case ab_mid b of None \<Rightarrow> True | Some m \<Rightarrow> 0 \<le> m) \<and> (case ab_spread b of None \<Rightarrow> True | Some s \<Rightarrow> 0 \<le> s))"

lemma largest_level_quantity:
  assumes "arena_book_ok b" and "largest_level n b = Some (i, s, l)"
  shows "0 \<le> al_quantity l"
proof -
  have "(i, s, l) \<in> set (visible_levels n b)"
    using max_by_Some [OF assms(2) [unfolded largest_level_def]] by blast
  then have "(s, l) \<in> set (map (Pair Bid) (take n (ab_bids b)) @ map (Pair Ask) (take n (ab_asks b)))"
    unfolding visible_levels_def by (metis imageI list.set_map map_snd_enumerate snd_conv)
  then show ?thesis using assms(1) by (auto simp: arena_book_ok_def dest: in_set_takeD)
qed

lemma wall_size_ratio_nonneg: "arena_book_ok b \<Longrightarrow> 0 \<le> wall_size_ratio n b"
  using largest_level_quantity [of b n]
  by (auto simp: wall_size_ratio_def intro!: nonneg_rules split: option.splits prod.splits)
    (metis flit_nonneg max.coboundedI2 zero_le_divide_1_iff zero_le_numeral)

lemma spread_in_bps_nonneg: "arena_book_ok b \<Longrightarrow> 0 \<le> spread_in_bps b"
  by (auto simp: spread_in_bps_def arena_book_ok_def intro!: nonneg_rules split: option.splits)

lemma ratio_nonneg: "0 \<le> ratio a b"
  by (simp add: ratio_def fdiv_nonneg)

lemma extract_features_ok:
  assumes "arena_book_ok b" and "0 < interval"
  obtains f seen' where "extract_features b es prev interval tick seen n = Inr (f, seen')" "features_ok f"
    "seen' = fst (track_orders tick interval es seen)"
proof -
  obtain seen' finished where t: "track_orders tick interval es seen = (seen', finished)"
    by (cases "track_orders tick interval es seen")
  let ?r = "extract_features b es prev interval tick seen n"
  have "\<exists>f. ?r = Inr (f, seen') \<and> features_ok f"
    using assms wall_size_ratio_nonneg [OF assms(1), of n] spread_in_bps_nonneg [OF assms(1)]
    by (simp add: extract_features_def feature_record_def t features_ok_def fround_nonneg ratio_nonneg fdiv_nonneg)
  then show ?thesis using that t by auto
qed

section \<open>First-seen table\<close>

definition closes :: "agent_event \<Rightarrow> bool" where
  "closes e = (is_cancel_event e \<or> is_trade_event e)"

lemma track_orders_lookup:
  assumes "oid \<noteq> []" and "\<forall>e\<in>set es. ae_order_id e = Some oid \<longrightarrow> \<not> closes e"
  shows "dget (fst (track_orders tick interval es seen)) oid =
    (case dget seen oid of Some t \<Rightarrow> Some t
     | None \<Rightarrow> if \<exists>e\<in>set es. ae_order_id e = Some oid then Some tick else None)"
  using assms(2)
proof (induction es arbitrary: seen)
  case (Cons e es)
  show ?case
  proof (cases "ae_order_id e")
    case None
    then show ?thesis using Cons by (auto split: option.splits)
  next
    case (Some i)
    consider "i = []" | "i \<noteq> []" "closes e" | "i \<noteq> []" "\<not> closes e" by blast
    then show ?thesis
    proof cases
      case 1
      then show ?thesis using Cons Some assms(1) by (auto split: option.splits)
    next
      case 2
      then have ne: "i \<noteq> oid" using Cons.prems Some by auto
      show ?thesis
      proof (cases "dget seen i")
        case None
        then show ?thesis using Cons 2 Some ne by (auto simp: closes_def split: option.splits)
      next
        case t: (Some t)
        have "dget (dpop i seen) oid = dget seen oid" using ne by (simp add: dict_simps)
        moreover have "fst (track_orders tick interval (e # es) seen) = fst (track_orders tick interval es (dpop i seen))"
          using 2 Some t by (simp add: closes_def split: prod.splits)
        moreover have "(\<exists>x\<in>set (e # es). ae_order_id x = Some oid) \<longleftrightarrow> (\<exists>x\<in>set es. ae_order_id x = Some oid)"
          using Some ne by simp
        ultimately show ?thesis using Cons.IH [of "dpop i seen"] Cons.prems
          by (cases "dget seen oid") (simp_all del: track_orders.simps)
      qed
    next
      case 3
      have "dget (dsetdefault i tick seen) oid = (if oid = i then Some (dget_or tick seen i) else dget seen oid)"
        by (simp add: dict_simps)
      then show ?thesis
        using Cons 3 Some by (auto simp: closes_def dget_or_def split: option.splits)
    qed
  qed
qed (simp split: option.splits)

section \<open>Evidence\<close>

lemma flatten_fold:
  "dict_ok d \<Longrightarrow> (\<forall>(k, i)\<in>set d. k = ei_key i) \<Longrightarrow>
   dict_ok (foldl (\<lambda>d i. dsetdefault (ei_key i) i d) d es) \<and>
   (\<forall>(k, i)\<in>set (foldl (\<lambda>d i. dsetdefault (ei_key i) i d) d es). k = ei_key i) \<and>
   (\<forall>k. dget (foldl (\<lambda>d i. dsetdefault (ei_key i) i d) d es) k =
     (case dget d k of Some i \<Rightarrow> Some i | None \<Rightarrow> find (\<lambda>i. ei_key i = k) es))"
proof (induction es arbitrary: d)
  case Nil
  then show ?case by (simp split: option.splits)
next
  case (Cons e es)
  let ?d = "dsetdefault (ei_key e) e d"
  have ok: "dict_ok ?d" using Cons.prems(1) by (rule dict_ok_setdefault)
  have look: "dget ?d k = (if k = ei_key e then Some (dget_or e d k) else dget d k)" for k
    by (rule dget_setdefault [THEN trans]) (rule if_cong; simp)
  have old: "k = ei_key i" if "dget d k = Some i" for k i
  proof -
    have "(k, i) \<in> set d" using dget_in_set [OF Cons.prems(1)] that by simp
    then show ?thesis using Cons.prems(2) by blast
  qed
  have keys: "\<forall>(k, i)\<in>set ?d. k = ei_key i"
  proof clarify
    fix k i assume "(k, i) \<in> set ?d"
    then have g: "dget ?d k = Some i" using dget_in_set [OF ok] by simp
    show "k = ei_key i"
    proof (cases "dget d k")
      case None
      then show ?thesis using g by (simp add: look dget_or_def split: if_splits)
    next
      case (Some j)
      then have "j = i" using g by (simp add: look dget_or_def split: if_splits)
      then show ?thesis using old [OF Some] by simp
    qed
  qed
  have "(case dget ?d k of Some i \<Rightarrow> Some i | None \<Rightarrow> find (\<lambda>i. ei_key i = k) es) =
    (case dget d k of Some i \<Rightarrow> Some i | None \<Rightarrow> find (\<lambda>i. ei_key i = k) (e # es))" for k
    by (cases "k = ei_key e"; cases "dget d k") (simp_all add: look dget_or_def)
  then show ?case using Cons.IH [OF ok keys] by (simp only: foldl_Cons) simp
qed

section \<open>Properties\<close>

text \<open>C19. For a book whose levels have non-negative quantities and whose spread is not negative, and a
  positive tick interval, feature extraction and all four detectors succeed: every confidence lies
  between 0 and 1, an alert is raised exactly from 0.75 on, and the alerts are those scores.\<close>

theorem detection_total:
  assumes "arena_book_ok b" and "0 < interval"
  shows "\<exists>f seen' ss. extract_features b es prev interval tick seen n = Inr (f, seen') \<and> aggregate_detect f = Inr ss \<and>
    map ds_name (dss_scores ss) = [''spoofing_like'', ''layering_like'', ''quote_stuffing'', ''liquidity_shock''] \<and>
    (\<forall>s\<in>set (dss_scores ss). 0 \<le> ds_confidence s \<and> ds_confidence s \<le> 1 \<and> (ds_alert s \<longleftrightarrow> 3/4 \<le> ds_confidence s)) \<and>
    dss_alerts ss = filter (\<lambda>s. 3/4 \<le> ds_confidence s) (dss_scores ss)"
proof -
  obtain f seen' where f: "extract_features b es prev interval tick seen n = Inr (f, seen')" "features_ok f"
    by (rule extract_features_ok [OF assms])
  obtain x y z w where ss:
    "aggregate_detect f = Inr \<lparr>dss_scores = [x, y, z, w], dss_alerts = filter ds_alert [x, y, z, w]\<rparr>"
    "score_ok ''spoofing_like'' x" "score_ok ''layering_like'' y" "score_ok ''quote_stuffing'' z"
    "score_ok ''liquidity_shock'' w"
    by (rule aggregate_total [OF f(2)])
  show ?thesis
    using f(1) ss
    by (intro exI [of _ f] exI [of _ seen'] exI [of _ "\<lparr>dss_scores = [x, y, z, w], dss_alerts = filter ds_alert [x, y, z, w]\<rparr>"])
      (simp add: score_ok_def)
qed

definition demo_arena_book :: "rat \<Rightarrow> rat \<Rightarrow> arena_book" where
  "demo_arena_book bid ask = order_book_snapshot_from_dict
     \<lparr>s_bids = [\<lparr>l_price = bid, l_quantity = 5, l_owner = None\<rparr>], s_asks = [\<lparr>l_price = ask, l_quantity = 5, l_owner = None\<rparr>],
      s_best_bid = Some bid, s_best_ask = Some ask, s_mid = Some (fdiv (fadd bid ask) 2), s_spread = Some (fsub ask bid)\<rparr>"

theorem detection_total_witness:
  "\<exists>f seen' ss. extract_features (demo_arena_book 99 101) [] None (1/2) 1 [] 5 = Inr (f, seen') \<and>
    aggregate_detect f = Inr ss \<and> length (dss_scores ss) = 4 \<and> df_spread_bps f = 200"
proof -
  have b: "arena_book_ok (demo_arena_book 99 101)" by code_simp
  from detection_total [OF b, of "1/2" "[]" None 1 "[]" 5]
  obtain f seen' ss where 1: "extract_features (demo_arena_book 99 101) [] None (1/2) 1 [] 5 = Inr (f, seen')"
    "aggregate_detect f = Inr ss"
    "map ds_name (dss_scores ss) = [''spoofing_like'', ''layering_like'', ''quote_stuffing'', ''liquidity_shock'']"
    by auto
  have "length (dss_scores ss) = 4" using arg_cong [OF 1(3), of length] by simp
  moreover have "case extract_features (demo_arena_book 99 101) [] None (1/2) 1 [] 5 of
      Inr (f, _) \<Rightarrow> df_spread_bps f = 200 | _ \<Rightarrow> False" by code_simp
  then have "df_spread_bps f = 200" unfolding 1(1) by simp
  ultimately show ?thesis using 1(1,2) by blast
qed

text \<open>On a crossed book the liquidity-shock detector raises: the negative spread makes its confidence
  negative and the score's model rejects it, so the aggregate raises too. Crossed books do occur, since
  level updates and modifications are not matched.\<close>

theorem crossed_book_breaks_detection:
  "case extract_features (demo_arena_book 103 101) [] None (1/2) 1 [] 5 of
     Inl _ \<Rightarrow> False
   | Inr (f, _) \<Rightarrow> df_spread_bps f < 0 \<and> shock_confidence f < 0 \<and>
       (\<exists>m. aggregate_detect f = Inl (ValueError m))"
proof -
  have "case extract_features (demo_arena_book 103 101) [] None (1/2) 1 [] 5 of
     Inl _ \<Rightarrow> False
   | Inr (f, _) \<Rightarrow> df_spread_bps f < 0 \<and> shock_confidence f < 0 \<and> layering_confidence f \<ge> 0 \<and> stuffing_confidence f \<ge> 0"
    by code_simp
  then show ?thesis
    by (auto split: sum.splits intro: aggregate_raises)
qed

text \<open>The first-seen table keeps the first tick an order id was seen at, for as long as no cancel or
  trade event names the order; an id first named by this tick's events gets this tick, and an id that
  is not named stays as it was.\<close>

theorem first_seen_kept:
  assumes "oid \<noteq> []" and "\<forall>e\<in>set es. ae_order_id e = Some oid \<longrightarrow> \<not> (is_cancel_event e \<or> is_trade_event e)"
  shows "dget (fst (track_orders tick interval es seen)) oid =
    (case dget seen oid of Some t \<Rightarrow> Some t
     | None \<Rightarrow> if \<exists>e\<in>set es. ae_order_id e = Some oid then Some tick else None)"
  using track_orders_lookup [OF assms(1)] assms(2) by (simp add: closes_def)

theorem first_seen_kept_witness:
  "dget (fst (track_orders 9 (1/2) [(blank_event ''normal'')\<lparr>ae_order_id := Some ''o1''\<rparr>] [(''o1'', 4)])) ''o1'' = Some 4"
proof -
  let ?es = "[(blank_event ''normal'')\<lparr>ae_order_id := Some ''o1''\<rparr>]"
  have "\<forall>e\<in>set ?es. ae_order_id e = Some ''o1'' \<longrightarrow> \<not> (is_cancel_event e \<or> is_trade_event e)" by code_simp
  from first_seen_kept [OF _ this, of 9 "1/2" "[(''o1'', 4)]"] show ?thesis by simp
qed

text \<open>The flattened evidence has each key once, with the item of the first detector that gave it, and
  leaves no key out.\<close>

theorem flatten_evidence_first:
  "distinct (map ei_key (flatten_evidence ss)) \<and>
   (\<forall>i. i \<in> set (flatten_evidence ss) \<longleftrightarrow>
      find (\<lambda>j. ei_key j = ei_key i) (concat (map score_evidence (dss_scores ss))) = Some i)"
proof -
  let ?es = "concat (map score_evidence (dss_scores ss))"
  let ?d = "foldl (\<lambda>d i. dsetdefault (ei_key i) i d) [] ?es"
  have f: "dict_ok ?d" "\<forall>(k, i)\<in>set ?d. k = ei_key i" "\<And>k. dget ?d k = find (\<lambda>i. ei_key i = k) ?es"
    using flatten_fold [of "[]" ?es] by simp_all
  have "map ei_key (map snd ?d) = map fst ?d" using f(2) by auto
  then have "distinct (map ei_key (flatten_evidence ss))"
    using f(1) by (simp only: flatten_evidence_def dict_ok_def)
  moreover have "i \<in> set (flatten_evidence ss) \<longleftrightarrow> find (\<lambda>j. ei_key j = ei_key i) ?es = Some i" for i
  proof -
    have "i \<in> set (flatten_evidence ss) \<longleftrightarrow> (\<exists>k. (k, i) \<in> set ?d)"
      by (force simp: flatten_evidence_def)
    also have "\<dots> \<longleftrightarrow> (ei_key i, i) \<in> set ?d" using f(2) by auto
    also have "\<dots> \<longleftrightarrow> dget ?d (ei_key i) = Some i" by (rule dget_in_set [OF f(1)])
    finally show ?thesis by (simp only: f(3))
  qed
  ultimately show ?thesis by blast
qed

end
