(* ===== verification/ScenarioProps.thy ===== *)
theory ScenarioProps
  imports Scenarios EngineReplay
begin

text \<open>
  What every scripted scenario guarantees, whatever its subclass does: the locale
  \<open>scenario_handlers\<close> states what the template method needs of \<open>on_stage_enter\<close> and \<open>on_tick\<close>, and
  the four subclasses are its instances. Then the stage schedule, the withdrawal of the walls and
  the thinning of the book.
\<close>

section \<open>Handlers\<close>

definition scen_event_id :: "scenario \<Rightarrow> nat \<Rightarrow> string" where
  "scen_event_id sc k = sc_id sc @ ''-event-'' @ zpad 4 (nat_dec k)"

text \<open>A handler may number events, read the clock, and set its own wall and layer prices.\<close>

definition same_script :: "scenario \<Rightarrow> scenario \<Rightarrow> bool" where
  "same_script sc sc' = (sc' = sc\<lparr>sc_event_counter := sc_event_counter sc', sc_clock_reads := sc_clock_reads sc',
     sc_layer_prices := sc_layer_prices sc', sc_wall_price := sc_wall_price sc'\<rparr>)"

lemma same_script_refl [simp]: "same_script sc sc"
  by (simp add: same_script_def)

lemma same_scriptD:
  assumes "same_script sc sc'"
  shows "sc_kind sc' = sc_kind sc" "sc_id sc' = sc_id sc" "sc_start_tick sc' = sc_start_tick sc"
    "sc_seed sc' = sc_seed sc" "sc_stage sc' = sc_stage sc" "sc_stage_ticks sc' = sc_stage_ticks sc"
    "sc_applied sc' = sc_applied sc" "sc_event_ids sc' = sc_event_ids sc" "sc_order_ids sc' = sc_order_ids sc"
  using arg_cong [OF assms [unfolded same_script_def], of sc_kind] arg_cong [OF assms [unfolded same_script_def], of sc_id]
    arg_cong [OF assms [unfolded same_script_def], of sc_start_tick] arg_cong [OF assms [unfolded same_script_def], of sc_seed]
    arg_cong [OF assms [unfolded same_script_def], of sc_stage] arg_cong [OF assms [unfolded same_script_def], of sc_stage_ticks]
    arg_cong [OF assms [unfolded same_script_def], of sc_applied] arg_cong [OF assms [unfolded same_script_def], of sc_event_ids]
    arg_cong [OF assms [unfolded same_script_def], of sc_order_ids]
  by simp_all

lemma same_script_trans: "same_script a b \<Longrightarrow> same_script b c \<Longrightarrow> same_script a c"
  unfolding same_script_def by (cases a; cases b; cases c) auto

definition quiet :: "'a scen_step \<Rightarrow> bool" where
  "quiet f = (\<forall>sc en sc' en' r. f (sc, en) = ((sc', en'), r) \<longrightarrow>
     same_script sc sc' \<and> sc_event_counter sc' = sc_event_counter sc)"

definition emits :: "agent_event list scen_step \<Rightarrow> bool" where
  "emits f = (\<forall>sc en sc' en' r. f (sc, en) = ((sc', en'), r) \<longrightarrow>
     same_script sc sc' \<and> sc_event_counter sc \<le> sc_event_counter sc' \<and>
     (\<forall>es. r = Inr es \<longrightarrow> map ae_event_id es =
        map (\<lambda>k. Some (scen_event_id sc k)) [Suc (sc_event_counter sc)..<Suc (sc_event_counter sc')]))"

named_theorems handler_rules \<open>how handlers are put together\<close>

lemma quiet_reads [handler_rules]:
  "quiet the_scenario" "quiet the_book" "quiet (step_return x)" "quiet (on_snd g)"
  by (auto simp: quiet_def the_scenario_def the_book_def step_return_def on_snd_def split: prod.splits)

lemma quiet_sets [handler_rules]:
  "quiet (set_scenario (\<lambda>sc. sc\<lparr>sc_wall_price := w\<rparr>))"
  "quiet (set_scenario (\<lambda>sc. sc\<lparr>sc_layer_prices := ps sc\<rparr>))"
  by (auto simp: quiet_def set_scenario_def same_script_def)

lemma quietD:
  "quiet f \<Longrightarrow> f (sc, en) = ((sc', en'), r) \<Longrightarrow> same_script sc sc' \<and> sc_event_counter sc' = sc_event_counter sc"
  unfolding quiet_def by blast

lemma step_bind_cases:
  assumes "step_bind f g (sc, en) = ((sc', en'), r)"
  obtains (raise) e where "f (sc, en) = ((sc', en'), Inl e)" "r = Inl e"
  | (continue) sc1 en1 x where "f (sc, en) = ((sc1, en1), Inr x)" "g x (sc1, en1) = ((sc', en'), r)"
proof -
  obtain sc1 en1 r1 where 1: "f (sc, en) = ((sc1, en1), r1)" by (metis surj_pair)
  show ?thesis
    by (cases r1) (use assms 1 raise continue in \<open>auto simp: step_bind_def\<close>)
qed

lemma quiet_bind [handler_rules]: "quiet f \<Longrightarrow> (\<And>x. quiet (g x)) \<Longrightarrow> quiet (step_bind f g)"
proof -
  assume f: "quiet f" and g: "\<And>x. quiet (g x)"
  show "quiet (step_bind f g)"
    unfolding quiet_def
  proof (intro allI impI)
    fix sc en sc' en' r assume "step_bind f g (sc, en) = ((sc', en'), r)"
    then show "same_script sc sc' \<and> sc_event_counter sc' = sc_event_counter sc"
    proof (cases rule: step_bind_cases)
      case (raise e)
      then show ?thesis using quietD [OF f] by blast
    next
      case (continue sc1 en1 x)
      then show ?thesis using quietD [OF f] quietD [OF g] same_script_trans by metis
    qed
  qed
qed

lemma quiet_each [handler_rules]: "(\<And>x. quiet (f x)) \<Longrightarrow> quiet (step_each f xs)"
proof (induction xs)
  case (Cons x xs)
  have "quiet (step_bind (f x) (\<lambda>_. step_each f xs))" using Cons by (intro quiet_bind) auto
  then show ?case by (simp add: quiet_def)
qed (simp add: quiet_def)

lemma emits_return [handler_rules]: "emits (step_return [])"
  by (simp add: emits_def step_return_def)

lemma emits_bind [handler_rules]: "quiet f \<Longrightarrow> (\<And>x. emits (g x)) \<Longrightarrow> emits (step_bind f g)"
proof -
  assume f: "quiet f" and g: "\<And>x. emits (g x)"
  show "emits (step_bind f g)"
    unfolding emits_def
  proof (intro allI impI)
    fix sc en sc' en' r assume b: "step_bind f g (sc, en) = ((sc', en'), r)"
    from b show "same_script sc sc' \<and> sc_event_counter sc \<le> sc_event_counter sc' \<and>
     (\<forall>es. r = Inr es \<longrightarrow> map ae_event_id es =
        map (\<lambda>k. Some (scen_event_id sc k)) [Suc (sc_event_counter sc)..<Suc (sc_event_counter sc')])"
    proof (cases rule: step_bind_cases)
      case (raise e)
      then show ?thesis using quietD [OF f] by auto
    next
      case (continue sc1 en1 x)
      note s = quietD [OF f continue(1)]
      have "same_script sc1 sc' \<and> sc_event_counter sc1 \<le> sc_event_counter sc' \<and>
         (\<forall>es. r = Inr es \<longrightarrow> map ae_event_id es =
            map (\<lambda>k. Some (scen_event_id sc1 k)) [Suc (sc_event_counter sc1)..<Suc (sc_event_counter sc')])"
        using g [of x] continue(2) unfolding emits_def by blast
      moreover have "scen_event_id sc1 = scen_event_id sc"
        using same_scriptD(2) s by (simp add: scen_event_id_def fun_eq_iff)
      ultimately show ?thesis using s same_script_trans by metis
    qed
  qed
qed

text \<open>The updates the handlers apply to a new event keep its id.\<close>

definition keeps_id :: "(agent_event \<Rightarrow> agent_event) \<Rightarrow> bool" where
  "keeps_id upd = (\<forall>e. ae_event_id (upd e) = ae_event_id e)"

lemma keeps_ids [handler_rules]: "keeps_id id" "keeps_id (with_extra k v)" "keeps_id (with_order sd p q oid)"
  by (simp_all add: keeps_id_def with_extra_def with_order_def)

lemma scen_event_emits:
  assumes "keeps_id upd" and "scen_event clk tick msg stage upd (sc, en) = ((sc', en'), r)"
  shows "same_script sc sc'" and "sc_event_counter sc' = Suc (sc_event_counter sc)"
    and "\<exists>e. r = Inr e \<and> ae_event_id e = Some (scen_event_id sc (Suc (sc_event_counter sc)))"
  using assms
  by (auto simp: scen_event_def same_script_def keeps_id_def event_of_scenario_def scen_event_id_def blank_event_def)

lemma one_event_emits [handler_rules]: "keeps_id upd \<Longrightarrow> emits (one_event clk tick msg stage upd)"
  unfolding emits_def one_event_def
  by (auto simp: step_bind_def step_return_def scen_event_def same_script_def keeps_id_def
      event_of_scenario_def scen_event_id_def blank_event_def)

lemma map_events_emits [handler_rules]:
  assumes "\<And>x. keeps_id (upd x)"
  shows "emits (step_map (\<lambda>x. scen_event clk tick (msg x) (stage x) (upd x)) xs)"
proof (induction xs)
  case Nil
  then show ?case by (simp add: emits_def)
next
  case (Cons x xs)
  show ?case
    unfolding emits_def
  proof (intro allI impI)
    fix sc en sc' en' r
    assume m: "step_map (\<lambda>x. scen_event clk tick (msg x) (stage x) (upd x)) (x # xs) (sc, en) = ((sc', en'), r)"
    obtain sc1 en1 r1 where 1: "scen_event clk tick (msg x) (stage x) (upd x) (sc, en) = ((sc1, en1), r1)"
      by (metis surj_pair)
    note s = scen_event_emits [OF assms 1]
    obtain e where e: "r1 = Inr e" "ae_event_id e = Some (scen_event_id sc (Suc (sc_event_counter sc)))"
      using s(3) by blast
    obtain r2 where 2: "step_map (\<lambda>x. scen_event clk tick (msg x) (stage x) (upd x)) xs (sc1, en1) = ((sc', en'), r2)"
      "r = map_sum id (\<lambda>es. e # es) r2"
      using m 1 e by (cases "step_map (\<lambda>x. scen_event clk tick (msg x) (stage x) (upd x)) xs (sc1, en1)")
        (auto simp: step_bind_def step_return_def split: sum.splits)
    have ih: "same_script sc1 sc' \<and> sc_event_counter sc1 \<le> sc_event_counter sc' \<and>
         (\<forall>es. r2 = Inr es \<longrightarrow> map ae_event_id es =
            map (\<lambda>k. Some (scen_event_id sc1 k)) [Suc (sc_event_counter sc1)..<Suc (sc_event_counter sc')])"
      using Cons 2(1) unfolding emits_def by blast
    moreover have "scen_event_id sc1 = scen_event_id sc"
      using same_scriptD(2) [OF s(1)] by (simp add: scen_event_id_def fun_eq_iff)
    ultimately show "same_script sc sc' \<and> sc_event_counter sc \<le> sc_event_counter sc' \<and>
     (\<forall>es. r = Inr es \<longrightarrow> map ae_event_id es =
        map (\<lambda>k. Some (scen_event_id sc k)) [Suc (sc_event_counter sc)..<Suc (sc_event_counter sc')])"
      using s(1,2) e(2) 2(2) same_script_trans
      by (cases r2) (auto simp: upt_conv_Cons [of "Suc (sc_event_counter sc)"] simp del: upt_Suc)
  qed
qed

lemma map_events_emits_pair [handler_rules]:
  "(\<And>i p. keeps_id (upd i p)) \<Longrightarrow>
   emits (step_map (\<lambda>(i, p). scen_event clk tick (msg i p) (stage i p) (upd i p)) xs)"
  using map_events_emits [of "\<lambda>x. upd (fst x) (snd x)" clk tick "\<lambda>x. msg (fst x) (snd x)" "\<lambda>x. stage (fst x) (snd x)" xs]
  by (simp add: case_prod_unfold)

lemma quiet_orders [handler_rules]: "quiet (place_order s p q oid tick)" "quiet (withdraw_order oid)"
  unfolding place_order_def withdraw_order_def by (intro handler_rules)+

lemma base_emits [handler_rules]: "emits (base_on_stage_enter clk tick stage)"
  unfolding base_on_stage_enter_def by (intro handler_rules)

lemma quiet_option [handler_rules]:
  "quiet f \<Longrightarrow> (\<And>x. quiet (g x)) \<Longrightarrow> quiet (case v of None \<Rightarrow> f | Some x \<Rightarrow> g x)"
  by (cases v) simp_all

lemma emits_option [handler_rules]:
  "emits f \<Longrightarrow> (\<And>x. emits (g x)) \<Longrightarrow> emits (case v of None \<Rightarrow> f | Some x \<Rightarrow> g x)"
  by (cases v) simp_all

lemma emits_if [handler_rules]: "emits f \<Longrightarrow> emits g \<Longrightarrow> emits (if c then f else g)"
  by simp

lemma quiet_pair [handler_rules]: "(\<And>i p. quiet (f i p)) \<Longrightarrow> quiet (case x of (i, p) \<Rightarrow> f i p)"
  by (cases x) simp

lemma emits_stage [handler_rules]:
  "emits a \<Longrightarrow> emits b \<Longrightarrow> emits c \<Longrightarrow> emits d \<Longrightarrow> emits e \<Longrightarrow> emits f \<Longrightarrow> emits g \<Longrightarrow>
   emits (case stage of Armed \<Rightarrow> a | WallPlaced \<Rightarrow> b | PressurePhase \<Rightarrow> c | WallCancelled \<Rightarrow> d
     | StageCancelled \<Rightarrow> e | IncidentConfirmed \<Rightarrow> f | StageDone \<Rightarrow> g)"
  by (cases stage) simp_all

lemma place_layers_emits [handler_rules]: "emits (place_layers clk tick stage base pre post)"
  unfolding place_layers_def Let_def by (intro handler_rules)

lemma thin_quiet [handler_rules]: "quiet thin_top_of_book" "quiet widen_spread"
  unfolding thin_top_of_book_def thin_side_def widen_spread_def Let_def by (intro handler_rules)+

lemma flicker_quiet [handler_rules]: "quiet (flicker_quote ba i)"
  unfolding flicker_quote_def Let_def by (intro handler_rules)

lemma spoofing_emits: "emits (spoofing_on_stage_enter clk tick stage)"
  unfolding spoofing_on_stage_enter_def Let_def by (intro handler_rules)

lemma layering_emits: "emits (layering_on_stage_enter clk tick stage)"
  unfolding layering_on_stage_enter_def by (intro handler_rules)

lemma stuffing_emits: "emits (stuffing_on_stage_enter clk tick stage)" "emits (stuffing_on_tick clk tick)"
proof -
  show "emits (stuffing_on_stage_enter clk tick stage)"
    unfolding stuffing_on_stage_enter_def by (intro handler_rules)
  show "emits (stuffing_on_tick clk tick)"
    unfolding stuffing_on_tick_def by (intro handler_rules)
qed

lemma evaporation_emits: "emits (evaporation_on_stage_enter clk tick stage)" "emits (evaporation_on_tick clk tick)"
proof -
  show "emits (evaporation_on_stage_enter clk tick stage)"
    unfolding evaporation_on_stage_enter_def by (intro handler_rules)
  show "emits (evaporation_on_tick clk tick)"
    unfolding evaporation_on_tick_def by (intro handler_rules)
qed

section \<open>The contract of a scenario class\<close>

definition script_ok :: "scenario \<Rightarrow> bool" where
  "script_ok sc = (sc_event_ids sc \<subseteq> scen_event_id sc ` {1..sc_event_counter sc})"

lemma scen_event_id_inject [simp]: "scen_event_id sc k = scen_event_id sc m \<longleftrightarrow> k = m"
  by (simp add: scen_event_id_def)

lemma note_event_fields [simp]:
  "sc_kind (note_event e sc) = sc_kind sc" "sc_id (note_event e sc) = sc_id sc"
  "sc_stage (note_event e sc) = sc_stage sc" "sc_applied (note_event e sc) = sc_applied sc"
  "sc_event_counter (note_event e sc) = sc_event_counter sc"
  "sc_start_tick (note_event e sc) = sc_start_tick sc"
  by (simp_all add: note_event_def)

lemma note_events_fields [simp]:
  "sc_kind (foldl (\<lambda>sc e. note_event e sc) sc es) = sc_kind sc"
  "sc_id (foldl (\<lambda>sc e. note_event e sc) sc es) = sc_id sc"
  "sc_stage (foldl (\<lambda>sc e. note_event e sc) sc es) = sc_stage sc"
  "sc_applied (foldl (\<lambda>sc e. note_event e sc) sc es) = sc_applied sc"
  "sc_event_counter (foldl (\<lambda>sc e. note_event e sc) sc es) = sc_event_counter sc"
  "sc_start_tick (foldl (\<lambda>sc e. note_event e sc) sc es) = sc_start_tick sc"
  by (induction es arbitrary: sc) simp_all

lemma note_events_ids:
  "\<forall>e\<in>set es. ae_event_id e \<noteq> None \<and> ae_event_id e \<noteq> Some [] \<Longrightarrow>
   sc_event_ids (foldl (\<lambda>sc e. note_event e sc) sc es) = sc_event_ids sc \<union> {i. Some i \<in> ae_event_id ` set es}"
proof (induction es arbitrary: sc)
  case (Cons e es)
  then obtain i where "ae_event_id e = Some i" "i \<noteq> []" by auto
  with Cons show ?case by (auto simp: note_event_def)
qed simp

text \<open>What one call of \<open>apply\<close> does to the scenario.\<close>

definition applied_ok :: "int \<Rightarrow> scenario \<Rightarrow> scenario \<Rightarrow> agent_event list \<Rightarrow> bool" where
  "applied_ok tick sc sc' es =
     (sc_id sc' = sc_id sc \<and> sc_kind sc' = sc_kind sc \<and> sc_start_tick sc' = sc_start_tick sc \<and>
      sc_stage sc' = stage_for_tick sc tick \<and> sc_applied sc' = insert (stage_for_tick sc tick) (sc_applied sc) \<and>
      map ae_event_id es =
        map (\<lambda>k. Some (scen_event_id sc k)) [Suc (sc_event_counter sc)..<Suc (sc_event_counter sc')] \<and>
      sc_event_counter sc \<le> sc_event_counter sc' \<and>
      sc_event_ids sc' = sc_event_ids sc \<union> scen_event_id sc ` {Suc (sc_event_counter sc)..sc_event_counter sc'})"

lemma scenario_apply_Inr:
  assumes "scenario_apply clk tick (sc, en) = (w', Inr es)"
  shows "\<exists>w1 es1 w2 es2. apply_stage_once clk tick (enter_stage clk tick sc, en) = (w1, Inr es1) \<and>
    on_tick clk (sc_kind (fst w1)) tick w1 = (w2, Inr es2) \<and>
    w' = (foldl (\<lambda>sc e. note_event e sc) (fst w2) (es1 @ es2), snd w2) \<and> es = es1 @ es2"
proof -
  obtain w1 r1 where 1: "apply_stage_once clk tick (enter_stage clk tick sc, en) = (w1, r1)" by (metis surj_pair)
  show ?thesis
  proof (cases r1)
    case (Inl e)
    then show ?thesis using assms 1 by (simp add: scenario_apply_def step_bind_def set_scenario_def)
  next
    case r1: (Inr es1)
    obtain w2 r2 where 2: "on_tick clk (sc_kind (fst w1)) tick w1 = (w2, r2)" by (metis surj_pair)
    show ?thesis
    proof (cases r2)
      case (Inl e)
      then show ?thesis using assms 1 2 r1
        by (simp add: scenario_apply_def step_bind_def set_scenario_def the_scenario_def)
    next
      case (Inr es2)
      with assms 1 2 r1 have "w' = (foldl (\<lambda>sc e. note_event e sc) (fst w2) (es1 @ es2), snd w2) \<and> es = es1 @ es2"
        by (auto simp: scenario_apply_def step_bind_def set_scenario_def the_scenario_def step_return_def)
      then have h: "w' = (foldl (\<lambda>sc e. note_event e sc) (fst w2) (es1 @ es2), snd w2)" "es = es1 @ es2" by blast+
      show ?thesis using h 1 [unfolded r1] 2 [unfolded Inr] by blast
    qed
  qed
qed

locale scenario_handlers =
  fixes clk :: "nat \<Rightarrow> rat" and kind :: scenario_type
  assumes enter_emits: "emits (on_stage_enter clk kind tick stage)"
    and tick_emits: "emits (on_tick clk kind tick)"
begin

lemma enter_stage_fields:
  "sc_kind (enter_stage clk tick sc) = sc_kind sc" "sc_id (enter_stage clk tick sc) = sc_id sc"
  "sc_start_tick (enter_stage clk tick sc) = sc_start_tick sc"
  "sc_stage (enter_stage clk tick sc) = stage_for_tick sc tick"
  "sc_applied (enter_stage clk tick sc) = sc_applied sc"
  "sc_event_counter (enter_stage clk tick sc) = sc_event_counter sc"
  "sc_event_ids (enter_stage clk tick sc) = sc_event_ids sc"
  by (simp_all add: enter_stage_def Let_def)

lemma emitsD:
  assumes "emits f" and "f (sc, en) = ((sc', en'), r)"
  shows "same_script sc sc'" and "sc_event_counter sc \<le> sc_event_counter sc'"
    and "r = Inr es \<Longrightarrow> map ae_event_id es =
        map (\<lambda>k. Some (scen_event_id sc k)) [Suc (sc_event_counter sc)..<Suc (sc_event_counter sc')]"
  using assms unfolding emits_def by blast+

lemma apply_stage_once_emits:
  assumes "sc_kind sc = kind" and "apply_stage_once clk tick (sc, en) = ((sc', en'), Inr es)"
  shows "sc_event_counter sc \<le> sc_event_counter sc'" and "sc_id sc' = sc_id sc" and "sc_kind sc' = sc_kind sc"
    and "sc_start_tick sc' = sc_start_tick sc" and "sc_stage sc' = sc_stage sc"
    and "sc_applied sc' = insert (sc_stage sc) (sc_applied sc)" and "sc_event_ids sc' = sc_event_ids sc"
    and "map ae_event_id es =
        map (\<lambda>k. Some (scen_event_id sc k)) [Suc (sc_event_counter sc)..<Suc (sc_event_counter sc')]"
proof -
  let ?sc = "sc\<lparr>sc_applied := insert (sc_stage sc) (sc_applied sc)\<rparr>"
  have "sc_event_counter sc \<le> sc_event_counter sc' \<and> sc_id sc' = sc_id sc \<and> sc_kind sc' = sc_kind sc \<and>
    sc_start_tick sc' = sc_start_tick sc \<and> sc_stage sc' = sc_stage sc \<and>
    sc_applied sc' = insert (sc_stage sc) (sc_applied sc) \<and> sc_event_ids sc' = sc_event_ids sc \<and>
    map ae_event_id es = map (\<lambda>k. Some (scen_event_id sc k)) [Suc (sc_event_counter sc)..<Suc (sc_event_counter sc')]"
  proof (cases "sc_stage sc \<in> sc_applied sc")
    case True
    then have "sc' = sc" "es = []" using assms(2)
      by (simp_all add: apply_stage_once_def step_bind_def the_scenario_def step_return_def)
    then show ?thesis using True by (simp add: insert_absorb)
  next
    case False
    then have e: "on_stage_enter clk kind tick (sc_stage sc) (?sc, en) = ((sc', en'), Inr es)"
      using assms by (simp add: apply_stage_once_def step_bind_def the_scenario_def set_scenario_def)
    have "scen_event_id ?sc = scen_event_id sc" by (simp add: scen_event_id_def fun_eq_iff)
    then show ?thesis
      using emitsD [OF enter_emits e] same_scriptD [OF emitsD(1) [OF enter_emits e]] by simp
  qed
  then show "sc_event_counter sc \<le> sc_event_counter sc'" "sc_id sc' = sc_id sc" "sc_kind sc' = sc_kind sc"
    "sc_start_tick sc' = sc_start_tick sc" "sc_stage sc' = sc_stage sc"
    "sc_applied sc' = insert (sc_stage sc) (sc_applied sc)" "sc_event_ids sc' = sc_event_ids sc"
    "map ae_event_id es = map (\<lambda>k. Some (scen_event_id sc k)) [Suc (sc_event_counter sc)..<Suc (sc_event_counter sc')]"
    by blast+
qed

lemma scenario_apply_ok:
  assumes k: "sc_kind sc = kind" and a: "scenario_apply clk tick (sc, en) = ((sc', en'), Inr es)"
  shows "applied_ok tick sc sc' es"
proof -
  let ?sc0 = "enter_stage clk tick sc"
  obtain w1 es1 w2 es2 where s1: "apply_stage_once clk tick (?sc0, en) = (w1, Inr es1)"
    and s2: "on_tick clk (sc_kind (fst w1)) tick w1 = (w2, Inr es2)"
    and res: "(sc', en') = (foldl (\<lambda>sc e. note_event e sc) (fst w2) (es1 @ es2), snd w2)" "es = es1 @ es2"
    using scenario_apply_Inr [OF a] by blast
  obtain sc1 en1 where w1: "w1 = (sc1, en1)" by (cases w1)
  obtain sc2 en2 where w2: "w2 = (sc2, en2)" by (cases w2)
  note s1 = s1 [unfolded w1]
  note s2 = s2 [unfolded w1 w2 fst_conv]
  note f1 = apply_stage_once_emits [OF trans [OF enter_stage_fields(1) k] s1, unfolded enter_stage_fields]
  have "sc_kind sc1 = kind" using f1(3) k by simp
  note t = tick_emits [of tick]
  have s2': "on_tick clk kind tick (sc1, en1) = ((sc2, en2), Inr es2)" using s2 \<open>sc_kind sc1 = kind\<close> by simp
  note f2 = emitsD(2,3) [OF t s2'] same_scriptD [OF emitsD(1) [OF t s2']]
  have r: "sc' = foldl (\<lambda>sc e. note_event e sc) sc2 (es1 @ es2)" "es = es1 @ es2"
    using res by (simp_all add: w2)
  have i: "scen_event_id sc1 = scen_event_id sc" "scen_event_id ?sc0 = scen_event_id sc"
    using f1(2) by (simp_all add: scen_event_id_def fun_eq_iff enter_stage_fields)
  let ?ks = "[Suc (sc_event_counter sc)..<Suc (sc_event_counter sc2)]"
  have "[Suc (sc_event_counter sc)..<Suc (sc_event_counter sc1)] @ [Suc (sc_event_counter sc1)..<Suc (sc_event_counter sc2)] = ?ks"
    using f1(1) f2(1) upt_add_eq_append [of "Suc (sc_event_counter sc)" "Suc (sc_event_counter sc1)"
        "sc_event_counter sc2 - sc_event_counter sc1"] by simp
  moreover have "map ae_event_id es1 = map (\<lambda>k. Some (scen_event_id sc k)) [Suc (sc_event_counter sc)..<Suc (sc_event_counter sc1)]"
    using f1(8) i by simp
  moreover have "map ae_event_id es2 = map (\<lambda>k. Some (scen_event_id sc k)) [Suc (sc_event_counter sc1)..<Suc (sc_event_counter sc2)]"
    using f2(2) i by simp
  ultimately have ids: "map ae_event_id es = map (\<lambda>k. Some (scen_event_id sc k)) ?ks"
    unfolding r(2) by (metis map_append)
  have "ae_event_id e \<noteq> None \<and> ae_event_id e \<noteq> Some []" if "e \<in> set es" for e
  proof -
    have "ae_event_id e \<in> set (map ae_event_id es)" using that by simp
    then show ?thesis unfolding ids by (auto simp: scen_event_id_def)
  qed
  then have "sc_event_ids sc' = sc_event_ids sc2 \<union> {i. Some i \<in> ae_event_id ` set es}"
    unfolding r(1) by (subst note_events_ids) (auto simp: r(2))
  also have "{i. Some i \<in> ae_event_id ` set es} = scen_event_id sc ` set ?ks"
    using arg_cong [OF ids, of set] by (auto simp del: upt_Suc)
  also have "set ?ks = {Suc (sc_event_counter sc)..sc_event_counter sc2}" by auto
  finally have ids': "sc_event_ids sc' = sc_event_ids sc2 \<union> scen_event_id sc ` {Suc (sc_event_counter sc)..sc_event_counter sc2}" .
  have "sc_event_counter sc' = sc_event_counter sc2" by (simp add: r(1))
  then show ?thesis
    using f1 f2 ids ids' k by (simp add: applied_ok_def r(1) enter_stage_fields del: upt_Suc)
qed

end

interpretation spoofing: scenario_handlers clk SpoofingLikeWall for clk
  by unfold_locales (simp_all add: on_stage_enter_def on_tick_def spoofing_emits emits_return)

interpretation layering: scenario_handlers clk LayeringLike for clk
  by unfold_locales (simp_all add: on_stage_enter_def on_tick_def layering_emits emits_return)

interpretation stuffing: scenario_handlers clk QuoteStuffing for clk
  by unfold_locales (simp_all add: on_stage_enter_def on_tick_def stuffing_emits)

interpretation evaporation: scenario_handlers clk LiquidityEvaporation for clk
  by unfold_locales (simp_all add: on_stage_enter_def on_tick_def evaporation_emits)

lemma scenario_apply_contract:
  "scenario_apply clk tick (sc, en) = ((sc', en'), Inr es) \<Longrightarrow> applied_ok tick sc sc' es"
  using spoofing.scenario_apply_ok layering.scenario_apply_ok stuffing.scenario_apply_ok
    evaporation.scenario_apply_ok
  by (cases "sc_kind sc") blast+

section \<open>The book under a scenario\<close>

lemma cancel_order_gone: "dget (orders (fst (cancel_order oid b))) oid = None"
proof (cases "dget (orders b) oid")
  case (Some x)
  then show ?thesis by (cases "o_price x") (simp_all add: cancel_order_def Let_def dict_simps)
qed (simp add: cancel_order_def)

lemma cancel_order_other: "i \<noteq> oid \<Longrightarrow> dget (orders (fst (cancel_order oid b))) i = dget (orders b) i"
proof (cases "dget (orders b) oid")
  case (Some x)
  then show "i \<noteq> oid \<Longrightarrow> ?thesis" by (cases "o_price x") (simp_all add: cancel_order_def Let_def dict_simps)
qed (simp add: cancel_order_def)

lemma record_event_same_book: "record_event ev e = (e', r) \<Longrightarrow> en_book e' = en_book e"
  by (auto simp: record_event_def split: sum.splits)

lemma record_mutation_same_book: "record_book_mutation m e = (e', r) \<Longrightarrow> en_book e' = en_book e"
  by (auto simp: record_book_mutation_def step_bind_def dest: record_event_same_book
      split: option.splits mutation_type.splits prod.splits sum.splits)

lemma record_mutations_same_book: "record_mutations ms e = (e', r) \<Longrightarrow> en_book e' = en_book e"
proof (induction ms arbitrary: e)
  case (Cons m ms)
  then show ?case
    by (auto simp: step_bind_def dest: record_mutation_same_book split: prod.splits sum.splits)
qed simp

lemma withdraw_order_book:
  "withdraw_order oid (sc, en) = ((sc', en'), r) \<Longrightarrow> sc' = sc \<and> en_book en' = fst (cancel_order oid (en_book en))"
  by (auto simp: withdraw_order_def on_snd_def book_step_def Let_def dest: record_mutations_same_book split: prod.splits)

lemma withdraw_orders_gone:
  "step_each (\<lambda>i. withdraw_order (f i)) is (sc, en) = ((sc', en'), Inr u) \<Longrightarrow>
   sc' = sc \<and> (\<forall>j. dget (orders (en_book en')) j = (if j \<in> f ` set is then None else dget (orders (en_book en)) j))"
proof (induction "is" arbitrary: sc en)
  case (Cons i "is")
  from Cons.prems obtain sc1 en1 v where w: "withdraw_order (f i) (sc, en) = ((sc1, en1), Inr v)"
    and r: "step_each (\<lambda>i. withdraw_order (f i)) is (sc1, en1) = ((sc', en'), Inr u)"
    by (auto simp: step_bind_Inr)
  note b = withdraw_order_book [OF w]
  from Cons.IH [OF r] show ?case
    using b cancel_order_gone [of "f i" "en_book en"] cancel_order_other [of _ "f i" "en_book en"]
    by (metis image_insert insertE insertI1 insertI2 list.simps(15))
qed simp

text \<open>Steps that leave the book alone.\<close>

definition same_book :: "'a scen_step \<Rightarrow> bool" where
  "same_book f = (\<forall>w w' r. f w = (w', r) \<longrightarrow> en_book (snd w') = en_book (snd w))"

lemma same_book_step_map:
  "(\<And>x. same_book (f x)) \<Longrightarrow> step_map f xs w = (w', r) \<Longrightarrow> en_book (snd w') = en_book (snd w)"
proof (induction xs arbitrary: w w' r)
  case (Cons x xs)
  obtain w1 r1 where 1: "f x w = (w1, r1)" by (metis surj_pair)
  have b1: "en_book (snd w1) = en_book (snd w)" using Cons.prems(1) [of x] 1 unfolding same_book_def by blast
  obtain w2 r2 where 2: "step_map f xs w1 = (w2, r2)" by (metis surj_pair)
  have "en_book (snd w2) = en_book (snd w1)" by (rule Cons.IH [OF Cons.prems(1) 2])
  then show ?case
    using Cons.prems(2) 1 2 b1
    by (cases r1; cases r2) (auto simp: step_bind_def step_return_def)
qed simp

lemma same_book_event: "same_book (scen_event clk tick msg stage upd)"
  by (simp add: same_book_def scen_event_def)

text \<open>The orders a scenario places under its own ids.\<close>

definition scripted_orders :: "scenario \<Rightarrow> string list" where
  "scripted_orders sc = (case sc_kind sc of
      SpoofingLikeWall \<Rightarrow> (if sc_wall_price sc = None then [] else [wall_order_id sc])
    | LayeringLike \<Rightarrow> map (layer_order_id sc) [0..<3]
    | _ \<Rightarrow> [])"

lemma wall_cancelled_withdraws:
  assumes "on_stage_enter clk (sc_kind sc) tick WallCancelled (sc, en) = ((sc', en'), Inr es)"
    and "i \<in> set (scripted_orders sc)"
  shows "dget (orders (en_book en')) i = None"
proof (cases "sc_kind sc")
  case SpoofingLikeWall
  then obtain p where p: "sc_wall_price sc = Some p" and i: "i = wall_order_id sc"
    using assms(2) by (cases "sc_wall_price sc") (auto simp: scripted_orders_def)
  from assms(1) SpoofingLikeWall p obtain sc1 en1 u where
    w: "withdraw_order (wall_order_id sc) (sc, en) = ((sc1, en1), Inr u)" and e: "en_book en' = en_book en1"
    by (auto simp: on_stage_enter_def spoofing_on_stage_enter_def step_bind_Inr the_book_def the_scenario_def
        one_event_def scen_event_def step_return_def)
  show ?thesis using withdraw_order_book [OF w] cancel_order_gone e i by simp
next
  case LayeringLike
  then obtain k where k: "k < 3" "i = layer_order_id sc k"
    using assms(2) by (auto simp: scripted_orders_def)
  from assms(1) LayeringLike obtain sc1 en1 u where
    w: "step_each (\<lambda>i. withdraw_order (layer_order_id sc i)) [0..<3] (sc, en) = ((sc1, en1), Inr u)"
    and m: "step_map (\<lambda>(i, p). scen_event clk tick (''layered '' @ book_side_str (layer_side sc) @ '' liquidity cancelled'')
             (Some WallCancelled) (with_order (order_side (layer_side sc)) (Some p) None (layer_order_id sc i)))
           (List.enumerate 0 (sc_layer_prices sc)) (sc1, en1) = ((sc', en'), Inr es)"
    by (simp add: on_stage_enter_def layering_on_stage_enter_def step_bind_Inr the_book_def the_scenario_def)
      (metis surj_pair)
  have sb: "same_book (case x of (i, p) \<Rightarrow> scen_event clk tick (''layered '' @ book_side_str (layer_side sc) @ '' liquidity cancelled'')
             (Some WallCancelled) (with_order (order_side (layer_side sc)) (Some p) None (layer_order_id sc i)))" for x
    by (cases x) (simp add: same_book_event)
  have "en_book en' = en_book en1" using same_book_step_map [OF sb m] by simp
  then show ?thesis using withdraw_orders_gone [OF w] k by auto
qed (use assms(2) in \<open>auto simp: scripted_orders_def\<close>)

section \<open>Properties\<close>

text \<open>C12. Whatever the class of the scenario, a call of \<open>apply\<close> that returns leaves it in the stage its
  schedule gives for the tick, marks that stage as entered, and returns events whose ids continue the
  scenario's numbering without gap or repetition: none was used before, and all are in the id set
  that the scenario's label lists.\<close>

theorem scenario_apply_numbers_events:
  assumes "sc_event_ids sc \<subseteq> scen_event_id sc ` {1..sc_event_counter sc}"
    and "scenario_apply clk tick (sc, en) = ((sc', en'), Inr es)"
  shows "sc_stage sc' = stage_for_tick sc tick \<and> sc_applied sc' = insert (sc_stage sc') (sc_applied sc) \<and>
    map ae_event_id es =
      map (\<lambda>k. Some (scen_event_id sc k)) [Suc (sc_event_counter sc)..<Suc (sc_event_counter sc')] \<and>
    distinct (map ae_event_id es) \<and> (\<forall>e\<in>set es. \<forall>i\<in>sc_event_ids sc. ae_event_id e \<noteq> Some i) \<and>
    Some ` sc_event_ids sc' = Some ` sc_event_ids sc \<union> ae_event_id ` set es \<and>
    sc_event_ids sc' \<subseteq> scen_event_id sc' ` {1..sc_event_counter sc'}"
proof -
  have ok: "applied_ok tick sc sc' es" by (rule scenario_apply_contract [OF assms(2)])
  let ?ks = "[Suc (sc_event_counter sc)..<Suc (sc_event_counter sc')]"
  have ids: "map ae_event_id es = map (\<lambda>k. Some (scen_event_id sc k)) ?ks"
    and le: "sc_event_counter sc \<le> sc_event_counter sc'"
    and all: "sc_event_ids sc' = sc_event_ids sc \<union> scen_event_id sc ` {Suc (sc_event_counter sc)..sc_event_counter sc'}"
    and same: "scen_event_id sc' = scen_event_id sc"
    using ok by (simp_all add: applied_ok_def scen_event_id_def fun_eq_iff del: upt_Suc)
  have s: "ae_event_id ` set es = (\<lambda>k. Some (scen_event_id sc k)) ` {Suc (sc_event_counter sc)..sc_event_counter sc'}"
    using arg_cong [OF ids, of set] by auto
  have "distinct (map ae_event_id es)"
    unfolding ids by (simp add: distinct_map inj_on_def del: upt_Suc)
  moreover have "\<forall>e\<in>set es. \<forall>i\<in>sc_event_ids sc. ae_event_id e \<noteq> Some i"
  proof (intro ballI notI)
    fix e i assume "e \<in> set es" "i \<in> sc_event_ids sc" "ae_event_id e = Some i"
    then have "Some i \<in> ae_event_id ` set es" by (metis imageI)
    then obtain k where "k \<in> {Suc (sc_event_counter sc)..sc_event_counter sc'}" "i = scen_event_id sc k"
      unfolding s by blast
    with \<open>i \<in> sc_event_ids sc\<close> assms(1) show False by auto
  qed
  moreover have "Some ` sc_event_ids sc' = Some ` sc_event_ids sc \<union> ae_event_id ` set es"
    unfolding s all by (auto simp: image_Un image_image)
  moreover have "sc_event_ids sc' \<subseteq> scen_event_id sc' ` {1..sc_event_counter sc'}"
    unfolding all same using assms(1) le by fastforce
  ultimately show ?thesis using ok ids by (simp add: applied_ok_def del: upt_Suc)
qed

definition demo_scenario :: "scenario_type \<Rightarrow> scenario" where
  "demo_scenario kind = new_scenario (\<lambda>_. 0) kind ''wall-0001'' 10 7"

definition quiet_engine :: engine where
  "quiet_engine = new_engine ''LOB'' ''SIM'' Simulation empty_book"

theorem scenario_apply_numbers_events_witness:
  "\<exists>sc' en' es. scenario_apply (\<lambda>_. 0) 10 (demo_scenario QuoteStuffing, quiet_engine) = ((sc', en'), Inr es) \<and>
    sc_stage sc' = Armed \<and> map ae_event_id es = [Some ''wall-0001-event-0001'']"
proof -
  let ?r = "scenario_apply (\<lambda>_. 0) 10 (demo_scenario QuoteStuffing, quiet_engine)"
  have "case ?r of (_, Inr es) \<Rightarrow> map ae_event_id es = [Some ''wall-0001-event-0001''] | _ \<Rightarrow> False" by code_simp
  then obtain sc' en' es where r: "?r = ((sc', en'), Inr es)" "map ae_event_id es = [Some ''wall-0001-event-0001'']"
    by (auto split: prod.splits sum.splits)
  have "sc_event_ids (demo_scenario QuoteStuffing) \<subseteq> scen_event_id (demo_scenario QuoteStuffing) ` {1..sc_event_counter (demo_scenario QuoteStuffing)}"
    by (simp add: demo_scenario_def new_scenario_def)
  from scenario_apply_numbers_events [OF this r(1)]
  have "sc_stage sc' = stage_for_tick (demo_scenario QuoteStuffing) 10" by blast
  also have "\<dots> = Armed" by code_simp
  finally show ?thesis using r by (intro exI conjI)
qed

text \<open>When the wall-cancelled stage is entered, every order the scenario placed under its own ids (the
  wall of the spoofing-like scenario, the three layers of the layering-like one) is gone from the
  book's order index, whether it was still resting or already filled.\<close>

theorem wall_cancelled_withdraws_orders:
  assumes "apply_stage_once clk tick (sc, en) = ((sc', en'), Inr es)"
    and "sc_stage sc = WallCancelled" and "WallCancelled \<notin> sc_applied sc"
  shows "\<forall>i\<in>set (scripted_orders sc). dget (orders (en_book en')) i = None"
proof
  fix i assume i: "i \<in> set (scripted_orders sc)"
  let ?sc = "sc\<lparr>sc_applied := insert (sc_stage sc) (sc_applied sc)\<rparr>"
  have e: "on_stage_enter clk (sc_kind ?sc) tick WallCancelled (?sc, en) = ((sc', en'), Inr es)"
    using assms by (simp add: apply_stage_once_def step_bind_def the_scenario_def set_scenario_def)
  have "scripted_orders ?sc = scripted_orders sc"
    by (simp add: scripted_orders_def wall_order_id_def layer_order_id_def split: scenario_type.splits)
  then show "dget (orders (en_book en')) i = None" using wall_cancelled_withdraws [OF e] i by simp
qed

theorem wall_cancelled_withdraws_orders_witness:
  "\<exists>sc' en' es. apply_stage_once (\<lambda>_. 0) 16
      ((demo_scenario SpoofingLikeWall)\<lparr>sc_stage := WallCancelled, sc_wall_price := Some 103\<rparr>, quiet_engine) = ((sc', en'), Inr es) \<and>
    dget (orders (en_book en')) ''wall-0001-wall'' = None"
proof -
  let ?sc = "(demo_scenario SpoofingLikeWall)\<lparr>sc_stage := WallCancelled, sc_wall_price := Some 103\<rparr>"
  let ?r = "apply_stage_once (\<lambda>_. 0) 16 (?sc, quiet_engine)"
  have "case ?r of (_, Inr es) \<Rightarrow> True | _ \<Rightarrow> False" by code_simp
  then obtain sc' en' es where r: "?r = ((sc', en'), Inr es)" by (auto split: prod.splits sum.splits)
  have "''wall-0001-wall'' \<in> set (scripted_orders ?sc)" by code_simp
  moreover have "WallCancelled \<notin> sc_applied ?sc" by code_simp
  moreover have "sc_stage ?sc = WallCancelled" by simp
  ultimately show ?thesis using wall_cancelled_withdraws_orders [OF r] r by blast
qed

text \<open>The schedule: a scenario is armed up to one tick after its start, then in each later stage for
  the ticks its rules give, done from nine ticks on, and a later tick never gives an earlier stage.\<close>

theorem stage_schedule:
  "stage_for_tick sc t =
     (let d = t - sc_start_tick sc in
      if d < 1 then Armed else if d < 3 then WallPlaced else if d < 6 then PressurePhase
      else if d < 7 then WallCancelled else if d < 9 then IncidentConfirmed else StageDone)"
  by (simp add: stage_for_tick_def stage_rules_def Let_def)

text \<open>Scenario ids are never reused by a controller, also not across \<open>reset\<close>: two scenarios started
  with different counter values have different ids.\<close>

theorem scenario_ids_differ:
  assumes "start_scenario clk name tick run seed ct = Inr (ct1, tr1)"
    and "start_scenario clk' name' tick' run' seed' ct' = Inr (ct2, tr2)"
    and "ct_counter ct \<noteq> ct_counter ct'"
  shows "tr_scenario_id tr1 \<noteq> tr_scenario_id tr2 \<and> ct_counter ct1 = Suc (ct_counter ct) \<and>
    ct_counter (controller_reset ct1) = ct_counter ct1"
proof -
  obtain k k' where
    1: "tr_scenario_id tr1 = scenario_value k @ CHR ''-'' # zpad 4 (nat_dec (Suc (ct_counter ct)))"
    "ct_counter ct1 = Suc (ct_counter ct)"
    "tr_scenario_id tr2 = scenario_value k' @ CHR ''-'' # zpad 4 (nat_dec (Suc (ct_counter ct')))"
    using assms(1,2) by (auto simp: start_scenario_def try_bind_Inr Let_def tracker_of_def new_scenario_def)
  have no: "CHR ''-'' \<notin> set (zpad 4 (nat_dec n))" for n
    using not_digit_in_nat_dec [of "CHR ''-''" n] by (auto simp: zpad_def is_digit_def)
  have "tr_scenario_id tr1 \<noteq> tr_scenario_id tr2"
  proof
    assume "tr_scenario_id tr1 = tr_scenario_id tr2"
    then have "zpad 4 (nat_dec (Suc (ct_counter ct))) = zpad 4 (nat_dec (Suc (ct_counter ct')))"
      unfolding 1 using suffix_split_inject [OF _ no no] by blast
    with assms(3) show False by simp
  qed
  with 1(2) show ?thesis by (simp add: controller_reset_def)
qed

theorem scenario_ids_differ_witness:
  "\<exists>ct1 tr1 ct2 tr2. start_scenario (\<lambda>_. 0) '' Layering_Like '' 3 ''RUN'' 1 new_controller = Inr (ct1, tr1) \<and>
     start_scenario (\<lambda>_. 0) ''layering_like'' 3 ''RUN'' 1 (controller_reset ct1) = Inr (ct2, tr2) \<and>
     tr_scenario_id tr1 \<noteq> tr_scenario_id tr2"
proof -
  let ?a = "start_scenario (\<lambda>_. 0) '' Layering_Like '' 3 ''RUN'' 1 new_controller"
  have "case ?a of Inr (ct1, tr1) \<Rightarrow> ct_counter ct1 = 1 \<and>
      (case start_scenario (\<lambda>_. 0) ''layering_like'' 3 ''RUN'' 1 (controller_reset ct1) of Inr _ \<Rightarrow> True | _ \<Rightarrow> False)
    | _ \<Rightarrow> False" by code_simp
  then obtain ct1 tr1 ct2 tr2 where a: "?a = Inr (ct1, tr1)"
    and b: "start_scenario (\<lambda>_. 0) ''layering_like'' 3 ''RUN'' 1 (controller_reset ct1) = Inr (ct2, tr2)"
    and c: "ct_counter ct1 = 1"
    by (auto split: sum.splits prod.splits)
  have "ct_counter new_controller \<noteq> ct_counter (controller_reset ct1)"
    using c by (simp add: controller_reset_def new_controller_def)
  from scenario_ids_differ [OF a b this] a b show ?thesis by blast
qed

text \<open>The documented exact sum of the thinned level's quantities is not what \<open>Decimal\<close> addition gives:
  it rounds to 28 digits, and the conversion to a float then rounds a second time, here to another
  float than the exact sum would.\<close>

theorem reference_quantity_rounds_twice:
  "let qs = [35 * pow2 (- 30), pow2 (- 48), 51] in
   list_all is_float qs \<and> reference_level_quantity qs \<noteq> rnd64 (sum_list qs)"
  by code_simp

end
