(* ===== verification/ArenaProps.thy ===== *)
theory ArenaProps
  imports ArenaEngine DetectorProps ScenarioProps
begin

text \<open>
  What the simulation engine guarantees: its event log stays well formed and only grows, the incident
  list is numbered and free of duplicates, the context is restored, and errors leave no trace they
  should not leave. The states considered are those the public methods reach, in any order.
\<close>

section \<open>The log only grows\<close>

definition grown :: "exchange_event list \<Rightarrow> mutation_context \<Rightarrow> engine \<Rightarrow> bool" where
  "grown xs cx en = (log_ok (en_log en) \<and> prefix xs (log_events (en_log en)) \<and> en_context en = cx)"

text \<open>The same for the engine inside a larger state.\<close>

definition grows_in :: "('s \<Rightarrow> engine) \<Rightarrow> ('s, 'a) step \<Rightarrow> bool" where
  "grows_in get f = (\<forall>xs cx. step_keeps (\<lambda>s. grown xs cx (get s)) f)"

abbreviation grows :: "'a engine_step \<Rightarrow> bool" where
  "grows f \<equiv> grows_in (\<lambda>en. en) f"

named_theorems grow_rules \<open>steps under which the log only grows\<close>

lemma grows_inI: "(\<And>xs cx s. grown xs cx (get s) \<Longrightarrow> grown xs cx (get (fst (f s)))) \<Longrightarrow> grows_in get f"
  by (auto simp: grows_in_def step_keeps_def)

lemma grows_inD: "grows_in get f \<Longrightarrow> grown xs cx (get s) \<Longrightarrow> grown xs cx (get (fst (f s)))"
  by (auto simp: grows_in_def step_keeps_def)

lemmas growsI = grows_inI [of "\<lambda>en. en"]
  and growsD = grows_inD [of "\<lambda>en. en"]

lemma grows_at: "(\<And>en. \<exists>g. grows_in get g \<and> f en = g en) \<Longrightarrow> grows_in get f"
  by (rule grows_inI) (metis grows_inD)

lemma grows_return [grow_rules]:
  "grows_in get (step_return x)" "grows_in get (\<lambda>en. (en, r))" "grows_in get (\<lambda>en. (en, q en))"
  by (auto intro!: grows_inI simp: step_return_def)

lemma grows_bind [grow_rules]: "grows_in get f \<Longrightarrow> (\<And>x. grows_in get (g x)) \<Longrightarrow> grows_in get (step_bind f g)"
  unfolding grows_in_def by (blast intro: step_keeps_bind)

lemma grows_each [grow_rules]: "(\<And>x. grows_in get (f x)) \<Longrightarrow> grows_in get (step_each f xs)"
  unfolding grows_in_def by (blast intro: step_keeps_each)

lemma grows_map [grow_rules]: "(\<And>x. grows_in get (f x)) \<Longrightarrow> grows_in get (step_map f xs)"
  unfolding grows_in_def by (blast intro: step_keeps_map)

lemma grows_cases [grow_rules]:
  "(c \<Longrightarrow> grows_in get f) \<Longrightarrow> (\<not> c \<Longrightarrow> grows_in get g) \<Longrightarrow> grows_in get (if c then f else g)"
  "grows_in get f \<Longrightarrow> (\<And>x. grows_in get (h x)) \<Longrightarrow> grows_in get (case opt of None \<Rightarrow> f | Some x \<Rightarrow> h x)"
  "(\<And>e. grows_in get (k e)) \<Longrightarrow> (\<And>x. grows_in get (l x)) \<Longrightarrow>
   grows_in get (case r of Inl e \<Rightarrow> k e | Inr x \<Rightarrow> l x)"
  "(\<And>x y. grows_in get (m x y)) \<Longrightarrow> grows_in get (case p of (x, y) \<Rightarrow> m x y)"
  by (auto split: option.splits sum.splits prod.splits)

lemma grows_record_event [grow_rules]: "grows (record_event e)"
proof (rule growsI)
  fix xs cx en assume g: "grown xs cx en"
  show "grown xs cx (fst (record_event e en))"
  proof (cases "try_bind (post_init e) (\<lambda>e. append_event e (en_log en))")
    case (Inl err)
    then show ?thesis using g by (simp add: record_event_def)
  next
    case (Inr r)
    obtain l e' where r: "r = (l, e')" by (cases r)
    with Inr have a: "valid_event e" "append_event e (en_log en) = Inr (l, e')"
      by (auto simp: try_bind_Inr post_init_valid)
    have "log_ok l" using append_event_ok [OF _ a] g by (simp add: grown_def)
    moreover have "log_events l = log_events (en_log en) @ [e']" using append_event_Inr(3) [OF a(2)] by simp
    ultimately show ?thesis using g by (simp add: record_event_def Inr r grown_def)
  qed
qed

lemma grows_record_book_mutation [grow_rules]: "grows (record_book_mutation m)"
proof (rule grows_at)
  fix en
  have "(\<exists>e. record_book_mutation m en = step_bind (record_event e) (\<lambda>_ en. (en, Inr ())) en) \<or>
    (\<exists>err. record_book_mutation m en = (en, Inl err))"
    by (auto simp: record_book_mutation_def split: option.splits mutation_type.splits)
  moreover have "grows (step_bind (record_event e) (\<lambda>_ en. (en, Inr ())))" for e by (intro grow_rules)
  ultimately show "\<exists>g. grows g \<and> record_book_mutation m en = g en"
    using grows_return(2) by metis
qed

lemma grows_record_mutations [grow_rules]: "grows (record_mutations ms)"
proof (induction ms)
  case (Cons m ms)
  then have "grows (step_bind (record_book_mutation m) (\<lambda>_. record_mutations ms))" by (intro grow_rules)
  then show ?case by (simp add: grows_in_def step_keeps_def)
qed (simp add: growsI)

lemma grows_record_executions [grow_rules]: "grows (record_executions x ts)"
proof (induction ts)
  case (Cons t ts)
  then have "grows (step_bind (record_event e) (\<lambda>_. record_executions x ts))" for e by (intro grow_rules)
  then show ?case by (intro grows_at) (metis record_executions.simps(2))
qed (simp add: growsI)

text \<open>Replacing the book before a step makes no difference.\<close>

lemma grows_with_book: "grows f \<Longrightarrow> grown xs cx en \<Longrightarrow> grown xs cx (fst (f (en\<lparr>en_book := b\<rparr>)))"
  by (rule growsD) (simp_all add: grown_def)

lemma grows_book_step [grow_rules]: "grows (book_step f)" "grows (book_try_step h)"
proof -
  have "grown xs cx (fst (record_mutations ms (en\<lparr>en_book := b\<rparr>)))" if "grown xs cx en" for xs cx en ms b
    using grows_record_mutations that by (rule grows_with_book)
  then show "grows (book_step f)" "grows (book_try_step h)"
    by (auto intro!: growsI simp: book_step_def book_try_step_def split: prod.splits sum.splits)
qed

lemma grows_with_context [grow_rules]:
  assumes "grows f" shows "grows (with_context cx f)"
proof (rule growsI)
  fix xs cx' en assume g: "grown xs cx' en"
  have "grown xs cx (en\<lparr>en_context := cx\<rparr>)" using g by (simp add: grown_def)
  from growsD [OF assms this] show "grown xs cx' (fst (with_context cx f en))"
    using g by (auto simp: with_context_def grown_def split: prod.splits)
qed

lemma grows_events_after [grow_rules]: "grows (events_after c)"
  by (simp add: growsI events_after_def)

lemma grows_rest_remainder [grow_rules]: "grows (rest_remainder x q)"
proof -
  have "rest_remainder x q = (if q > 0 then
      with_context (request_context (x\<lparr>o_quantity := q\<rparr>)) (book_try_step (add_limit_order (x\<lparr>o_quantity := q\<rparr>)))
    else (\<lambda>en. (en, Inr ())))"
    by (simp add: rest_remainder_def Let_def fun_eq_iff)
  then show ?thesis by (simp add: grow_rules)
qed

lemma grows_process_event [grow_rules]: "grows (process_event x)"
proof -
  have m: "grows (engine_match_limit x)"
  proof (rule growsI)
    fix xs cx en assume g: "grown xs cx en"
    obtain b ts where bt: "match_order x (o_price x) (en_book en) = (b, ts)" by fastforce
    have "grows (step_bind (record_executions x ts) (\<lambda>_. step_bind (rest_remainder x q) (\<lambda>_. events_after c)))" for q c
      by (intro grow_rules)
    then show "grown xs cx (fst (engine_match_limit x en))"
      using g by (simp add: engine_match_limit_def bt Let_def grows_with_book)
  qed
  have k: "grows (engine_match_market x)"
  proof (rule growsI)
    fix xs cx en assume g: "grown xs cx en"
    have "grows (step_bind (record_executions x ts) (\<lambda>_. events_after c))" for ts c
      by (intro grow_rules)
    then show "grown xs cx (fst (engine_match_market x en))"
      using g by (auto simp: engine_match_market_def grows_with_book split: sum.splits)
  qed
  have "grows (engine_cancel x)" "grows (engine_modify x)"
    by (rule grows_at, rule exI, rule conjI [rotated], (rule engine_cancel_def engine_modify_def), intro grow_rules)+
  with m k show ?thesis by (auto simp: process_event_def split: order_type.split)
qed

lemma grows_record_snapshot [grow_rules]: "grows (record_snapshot tick depth xts rts sid snm sfm)"
proof -
  have "grown xs cx (fst (record_event e (en\<lparr>en_book := b\<rparr>)))" if "grown xs cx en" for xs cx en e b
    using grows_record_event that by (rule grows_with_book)
  then show ?thesis by (auto intro!: growsI simp: record_snapshot_def split: prod.splits sum.splits)
qed

lemma grows_l2_snapshot [grow_rules]: "grows (l2_snapshot d)"
  by (auto intro!: growsI simp: l2_snapshot_def grown_def split: prod.splits sum.splits)

lemma grows_views [grow_rules]: "grows (market_snapshot_of t)" "grows (top_depth d)"
  unfolding market_snapshot_of_def [abs_def] top_depth_def [abs_def] by (intro grow_rules)+

lemma grows_intent [grow_rules]: "grows (apply_agent_intent mq i)"
proof -
  have "grows (apply_set_level mq i)"
    unfolding apply_set_level_def [abs_def] by (auto split: option.split intro: grow_rules)
  moreover have "grows (apply_market i)" "grows (apply_limit i)"
    unfolding apply_market_def [abs_def] apply_limit_def [abs_def] Let_def
    by (cases "to_order i"; simp add: grow_rules)+
  moreover have "grows (apply_cancel oid i)" for oid
  proof (rule grows_at)
    fix en
    show "\<exists>g. grows g \<and> apply_cancel oid i en = g en"
      by (cases "dget (orders (en_book en)) oid"; unfold apply_cancel_def; simp only: option.case)
        (rule exI, rule conjI [rotated], rule refl, intro grow_rules)+
  qed
  ultimately show ?thesis
    unfolding apply_agent_intent_def [abs_def] by (auto split: option.split bool.split intro: grow_rules)
qed

lemma grows_intents [grow_rules]: "grows (apply_agent_intents mq is)"
  unfolding apply_agent_intents_def [abs_def] by (intro grow_rules)

lemma grows_baseline [grow_rules]: "grows (maintain_baseline_liquidity c)"
  unfolding maintain_baseline_liquidity_def [abs_def] maintain_level_def [abs_def] by (intro grow_rules)

section \<open>Scenario handlers\<close>

lemma grows_on_snd [grow_rules]: "grows f \<Longrightarrow> grows_in snd (on_snd f)"
  by (auto intro!: grows_inI dest: growsD simp: on_snd_def split: prod.splits) (metis fst_conv growsD)

lemma grows_scenario_reads [grow_rules]:
  "grows_in snd the_scenario" "grows_in snd the_book" "grows_in snd (set_scenario h)"
  "grows_in snd (scen_event clk tick msg stage upd)"
  by (auto intro!: grows_inI simp: the_scenario_def the_book_def set_scenario_def scen_event_def)

lemma grows_stage [grow_rules]:
  "grows_in g a \<Longrightarrow> grows_in g b \<Longrightarrow> grows_in g c \<Longrightarrow> grows_in g d \<Longrightarrow> grows_in g e \<Longrightarrow> grows_in g f \<Longrightarrow> grows_in g h \<Longrightarrow>
   grows_in g (case stage of Armed \<Rightarrow> a | WallPlaced \<Rightarrow> b | PressurePhase \<Rightarrow> c | WallCancelled \<Rightarrow> d
     | StageCancelled \<Rightarrow> e | IncidentConfirmed \<Rightarrow> f | StageDone \<Rightarrow> h)"
  by (cases stage) simp_all

lemma grows_one_event [grow_rules]: "grows_in snd (one_event clk tick msg stage upd)"
  unfolding one_event_def by (intro grow_rules)

lemma grows_base [grow_rules]: "grows_in snd (base_on_stage_enter clk tick stage)"
  unfolding base_on_stage_enter_def by (intro grow_rules)

lemma grows_orders [grow_rules]:
  "grows_in snd (place_order s p q oid tick)" "grows_in snd (withdraw_order oid)"
  "grows_in snd (flicker_quote ba i)"
  unfolding place_order_def withdraw_order_def flicker_quote_def Let_def by (intro grow_rules)+

lemma grows_layers [grow_rules]: "grows_in snd (place_layers clk tick stage base pre post)"
  unfolding place_layers_def Let_def by (intro grow_rules)

lemma grows_thin [grow_rules]: "grows_in snd thin_top_of_book" "grows_in snd widen_spread"
  unfolding thin_top_of_book_def thin_side_def widen_spread_def Let_def by (intro grow_rules)+

lemma grows_stage_enter [grow_rules]: "grows_in snd (on_stage_enter clk kind tick stage)"
proof (cases kind)
  case SpoofingLikeWall
  then show ?thesis
    unfolding on_stage_enter_def spoofing_on_stage_enter_def Let_def by simp (intro grow_rules)
next
  case LayeringLike
  then show ?thesis
    unfolding on_stage_enter_def layering_on_stage_enter_def by simp (intro grow_rules)
next
  case QuoteStuffing
  then show ?thesis
    unfolding on_stage_enter_def stuffing_on_stage_enter_def by simp (intro grow_rules)
next
  case LiquidityEvaporation
  then show ?thesis
    unfolding on_stage_enter_def evaporation_on_stage_enter_def by simp (intro grow_rules)
qed

lemma grows_on_tick [grow_rules]: "grows_in snd (on_tick clk kind tick)"
  unfolding on_tick_def stuffing_on_tick_def evaporation_on_tick_def
  by (cases kind) (simp_all, (intro grow_rules)+)

lemma grows_scenario_apply: "grows_in snd (scenario_apply clk tick)"
  unfolding scenario_apply_def apply_stage_once_def by (intro grow_rules)

lemma grows_controller_advance: "grows_in snd (controller_advance clk tick)"
proof (rule grows_inI)
  fix xs cx and st :: "controller \<times> engine" assume g: "grown xs cx (snd st)"
  show "grown xs cx (snd (fst (controller_advance clk tick st)))"
  proof (cases "ct_active (fst st)")
    case (Some sc)
    have "grown xs cx (snd (fst (scenario_apply clk tick (sc, snd st))))"
      by (rule grows_inD [OF grows_scenario_apply]) (simp add: g)
    moreover obtain sc' en' r where "scenario_apply clk tick (sc, snd st) = ((sc', en'), r)" by (metis surj_pair)
    ultimately show ?thesis by (simp add: controller_advance_def Some)
  qed (simp add: controller_advance_def g)
qed

section \<open>Arena steps\<close>

abbreviation arena_grows :: "'a arena_step \<Rightarrow> bool" where
  "arena_grows f \<equiv> grows_in ar_engine f"

lemma arena_grows_basic [grow_rules]:
  "grows f \<Longrightarrow> arena_grows (on_engine f)"
  "(\<And>ar. ar_engine (u ar) = ar_engine ar) \<Longrightarrow> arena_grows (update_arena u)"
  "arena_grows (read_arena h)" "arena_grows (lift_result r)" "arena_grows clock_step"
  by (auto intro!: grows_inI simp: on_engine_def update_arena_def read_arena_def lift_result_def clock_step_def
      split: prod.splits) (metis fst_conv growsD)

lemma arena_grows_in_context [grow_rules]:
  assumes "arena_grows f" shows "arena_grows (in_context cx f)"
proof (rule grows_inI)
  fix xs cx' and ar :: arena assume g: "grown xs cx' (ar_engine ar)"
  let ?ar = "ar\<lparr>ar_engine := (ar_engine ar)\<lparr>en_context := cx\<rparr>\<rparr>"
  have "grown xs cx (ar_engine ?ar)" using g by (simp add: grown_def)
  from grows_inD [OF assms this] show "grown xs cx' (ar_engine (fst (in_context cx f ar)))"
    using g by (auto simp: in_context_def grown_def split: prod.splits)
qed

lemma push_event_fields [simp]:
  "ar_engine (push_event e ar) = ar_engine ar" "ar_tick (push_event e ar) = ar_tick ar"
  "ar_incidents (push_event e ar) = ar_incidents ar" "ar_counter (push_event e ar) = ar_counter ar"
  "ar_keys (push_event e ar) = ar_keys ar" "ar_config (push_event e ar) = ar_config ar"
  "ar_controller (push_event e ar) = ar_controller ar" "ar_agents (push_event e ar) = ar_agents ar"
  "ar_state (push_event e ar) = ar_state ar"
  by (simp_all add: push_event_def)

lemma push_events_induct:
  "(\<And>ar e. h (push_event e ar) = h ar) \<Longrightarrow> h (push_events es ar) = h ar"
  by (induction es arbitrary: ar) (simp_all add: push_events_def)

lemma push_events_fields [simp]:
  "ar_engine (push_events es ar) = ar_engine ar" "ar_tick (push_events es ar) = ar_tick ar"
  "ar_state (push_events es ar) = ar_state ar"
  by (simp_all add: push_events_induct)

lemma raise_incidents_induct:
  assumes "\<And>ar t s. h (consider_score t ar s) = h ar"
  shows "h (raise_incidents trk scores ar) = h ar"
proof -
  have "h (foldl (consider_score t) ar ss) = h ar" for t ss
    by (induction ss arbitrary: ar) (simp_all add: assms)
  then show ?thesis by (simp add: raise_incidents_def maybe_create_incident_def split: option.split)
qed

lemma raise_incidents_frame [simp]:
  "ar_engine (raise_incidents trk scores ar) = ar_engine ar" "ar_tick (raise_incidents trk scores ar) = ar_tick ar"
  "ar_config (raise_incidents trk scores ar) = ar_config ar" "ar_state (raise_incidents trk scores ar) = ar_state ar"
  by (simp_all add: raise_incidents_induct consider_score_def Let_def)

lemma arena_grows_build [grow_rules]: "arena_grows (build_state running current previous)"
proof -
  have "arena_grows (detect_state book current previous)" for book
    by (rule grows_inI) (simp add: detect_state_def)
  moreover have "arena_grows (conclude_state running book trk fs)" for book trk fs
    unfolding conclude_state_def [abs_def]
    by (intro grow_rules) (auto intro!: grows_inI simp: assemble_state_def split: sum.splits)
  moreover have "arena_grows (step_bind (detect_state book current previous) (conclude_state running book trk))" for book trk
    using calculation by (intro grow_rules)
  then have "arena_grows (score_state running current previous book)" for book
    by (intro grows_at) (auto simp: score_state_def)
  then show ?thesis unfolding build_state_def [abs_def] comp_def by (intro grow_rules)
qed

lemma arena_grows_refresh [grow_rules]: "arena_grows (refresh_state running current previous)"
  unfolding refresh_state_def [abs_def] by (intro grow_rules) simp

lemma arena_grows_phases [grow_rules]:
  "arena_grows (agents_phase collect tick)" "arena_grows (scenario_phase clk tick)" "arena_grows (tick_snapshot tick)"
proof -
  show "arena_grows (agents_phase collect tick)"
    unfolding agents_phase_def [abs_def] by (intro grow_rules)
  show "arena_grows (tick_snapshot tick)"
    unfolding tick_snapshot_def [abs_def] by (intro grow_rules)
  show "arena_grows (scenario_phase clk tick)"
  proof (rule grows_inI)
    fix xs cx and ar :: arena assume "grown xs cx (ar_engine ar)"
    then have "grown xs cx (snd (fst (controller_advance k tick (ar_controller ar, ar_engine ar))))" for k
      using grows_inD [OF grows_controller_advance, of xs cx "(ar_controller ar, ar_engine ar)"] by simp
    then show "grown xs cx (ar_engine (fst (scenario_phase clk tick ar)))"
      by (auto simp: scenario_phase_def split: prod.splits) (metis fst_conv snd_conv)
  qed
qed

lemma arena_grows_advance_tick [grow_rules]: "arena_grows (advance_tick clk collect running)"
  unfolding advance_tick_def [abs_def] by (intro grow_rules) simp

section \<open>The incident ledger\<close>

lemma clamp_config_fields [simp]:
  "cf_interval (clamp_config c) = cf_interval c" "0 < cf_window (clamp_config c)"
  "clamp_config (clamp_config c) = clamp_config c"
  by (simp_all add: clamp_config_def)


definition detector_names :: "string list" where
  "detector_names = [''spoofing_like'', ''layering_like'', ''quote_stuffing'', ''liquidity_shock'']"

definition score_fits :: "detector_score \<Rightarrow> bool" where
  "score_fits s = (ds_confidence s \<le> 1 \<and> ds_name s \<in> set detector_names)"

lemma finish_score_fits: "finish_score name c ev = Inr s \<Longrightarrow> ds_name s = name \<and> ds_confidence s \<le> 1"
  by (auto simp: finish_score_def mk_detector_score_def unit_interval_def try_bind_Inr split: if_splits)

lemma aggregate_fits: "aggregate_detect f = Inr ss \<Longrightarrow> list_all score_fits (dss_scores ss)"
  by (auto simp: aggregate_detect_def try_bind_Inr score_fits_def detector_names_def spoofing_detect_def
      layering_detect_def stuffing_detect_def shock_detect_def dest!: finish_score_fits)

definition incident_key :: "incident \<Rightarrow> string \<times> string" where
  "incident_key i = (case in_scenario_id i of None \<Rightarrow> [] | Some s \<Rightarrow> s, in_type i)"

definition incident_sound :: "incident \<Rightarrow> bool" where
  "incident_sound i = (flit (8/10) \<le> in_confidence i \<and> in_confidence i \<le> 1 \<and> in_severity i \<in> {SevHigh, SevCritical} \<and>
     in_type i \<in> set detector_names \<and> in_scenario_id i \<noteq> None \<and> 2 \<le> length (in_evidence i) \<and>
     (\<forall>e\<in>set (in_evidence i). \<exists>t. ei_interpretation e = Some t \<and> t \<noteq> []))"

definition ledger_ok :: "arena \<Rightarrow> bool" where
  "ledger_ok ar = (map in_id (ar_incidents ar) = map incident_id [1..<Suc (ar_counter ar)] \<and>
     distinct (map incident_key (ar_incidents ar)) \<and> ar_keys ar = set (map incident_key (ar_incidents ar)) \<and>
     list_all incident_sound (ar_incidents ar) \<and> length (ar_events ar) \<le> 20 \<and>
     clamp_config (ar_config ar) = ar_config ar)"

lemma ledger_push_event: "ledger_ok ar \<Longrightarrow> ledger_ok (push_event e ar)"
  by (simp add: ledger_ok_def push_event_def)

lemma ledger_push_events: "ledger_ok ar \<Longrightarrow> ledger_ok (push_events es ar)"
  by (induction es arbitrary: ar) (simp_all add: push_events_def ledger_push_event)

lemma new_incident_fields:
  "in_id (new_incident n t s) = incident_id n" "incident_key (new_incident n t s) = (tr_scenario_id t, ds_name s)"
  by (simp_all add: new_incident_def incident_key_def)

lemma new_incident_sound:
  assumes "score_fits s" and "flit (8/10) \<le> ds_confidence s" and "2 \<le> length (score_evidence s)"
  shows "incident_sound (new_incident n t s)"
  using assms
  by (auto simp: incident_sound_def new_incident_def score_fits_def incident_severity_def confirmed_evidence_def
      opt_str_or_def split: option.splits)

lemma consider_score_ok:
  assumes "ledger_ok ar" and "score_fits s"
  shows "ledger_ok (consider_score t ar s)"
proof (cases "incident_due t s ar")
  case True
  let ?n = "Suc (ar_counter ar)"
  let ?ar = "ar\<lparr>ar_counter := ?n, ar_incidents := ar_incidents ar @ [new_incident ?n t s],
    ar_keys := insert (tr_scenario_id t, ds_name s) (ar_keys ar)\<rparr>"
  have "incident_sound (new_incident ?n t s)"
    using True assms(2) by (intro new_incident_sound) (simp_all add: incident_due_def)
  moreover have "(tr_scenario_id t, ds_name s) \<notin> set (map incident_key (ar_incidents ar))"
    using True assms(1) by (simp add: incident_due_def ledger_ok_def)
  ultimately have "ledger_ok ?ar"
    using assms(1) by (auto simp: ledger_ok_def new_incident_fields)
  then show ?thesis using True by (simp add: consider_score_def Let_def ledger_push_event)
qed (simp add: consider_score_def assms(1))

lemma raise_incidents_ok:
  assumes "ledger_ok ar" and "list_all score_fits (dss_scores ss)"
  shows "ledger_ok (raise_incidents trk ss ar)"
proof -
  have "ledger_ok ar \<Longrightarrow> list_all score_fits scores \<Longrightarrow> ledger_ok (foldl (consider_score t) ar scores)" for t scores ar
    by (induction scores arbitrary: ar) (simp_all add: consider_score_ok)
  then show ?thesis
    using assms by (simp add: raise_incidents_def maybe_create_incident_def split: option.split)
qed

abbreviation tidy :: "'a arena_step \<Rightarrow> bool" where
  "tidy f \<equiv> step_keeps ledger_ok f"

lemma tidy_basic [inv_intros]:
  "tidy (on_engine f)" "tidy (read_arena h)" "tidy (lift_result r)" "tidy clock_step"
  "(\<And>ar. ledger_ok ar \<Longrightarrow> ledger_ok (u ar)) \<Longrightarrow> tidy (update_arena u)"
  by (auto simp: step_keeps_def on_engine_def read_arena_def lift_result_def clock_step_def update_arena_def ledger_ok_def
      split: prod.splits)

lemma tidy_in_context [inv_intros]: "tidy f \<Longrightarrow> tidy (in_context cx f)"
proof (unfold step_keeps_def, intro allI impI)
  fix ar assume f: "\<forall>ar. ledger_ok ar \<longrightarrow> ledger_ok (fst (f ar))" and "ledger_ok ar"
  then have "ledger_ok (fst (f (ar\<lparr>ar_engine := (ar_engine ar)\<lparr>en_context := cx\<rparr>\<rparr>)))" by (simp add: ledger_ok_def)
  then show "ledger_ok (fst (in_context cx f ar))" by (auto simp: in_context_def ledger_ok_def split: prod.splits)
qed

lemma scored_fits: "scored fd = Inr (f, ss) \<Longrightarrow> list_all score_fits (dss_scores ss)"
  by (auto simp: scored_def try_bind_Inr dest: aggregate_fits)

lemma detect_state_scores:
  "detect_state book current previous ar = (ar', Inr (f, ss)) \<Longrightarrow> list_all score_fits (dss_scores ss)"
  by (auto simp: detect_state_def try_bind_Inr dest!: scored_fits)

lemma tidy_conclude: "list_all score_fits (dss_scores ss) \<Longrightarrow> tidy (conclude_state running book trk (f, ss))"
  unfolding conclude_state_def [abs_def]
  by (intro inv_intros) (auto simp: raise_incidents_ok step_keeps_def assemble_state_def split: sum.splits)

lemma tidy_score_state [inv_intros]: "tidy (score_state running current previous book)"
proof (unfold step_keeps_def, intro allI impI)
  fix ar assume ok: "ledger_ok ar"
  obtain ar1 r where d: "detect_state book current previous ar = (ar1, r)" by (cases "detect_state book current previous ar")
  have ok1: "ledger_ok ar1" using ok d by (auto simp: detect_state_def ledger_ok_def)
  show "ledger_ok (fst (score_state running current previous book ar))"
  proof (cases r)
    case (Inl e)
    then show ?thesis using d ok1 by (simp add: score_state_def step_bind_def)
  next
    case (Inr fs)
    obtain f ss where fs: "fs = (f, ss)" by (cases fs)
    with Inr d have "tidy (conclude_state running book (arena_tracker ar) (f, ss))"
      by (intro tidy_conclude) (auto dest: detect_state_scores)
    then show ?thesis using d ok1 by (simp add: score_state_def step_bind_def Inr fs step_keeps_def)
  qed
qed

lemma tidy_refresh [inv_intros]: "tidy (refresh_state running current previous)"
proof -
  have "tidy (build_state running current previous)"
    unfolding build_state_def [abs_def] comp_def by (intro inv_intros)
  then show ?thesis unfolding refresh_state_def [abs_def] by (intro inv_intros) (auto simp: ledger_ok_def)
qed

lemma tidy_phases [inv_intros]:
  "tidy (agents_phase collect tick)" "tidy (scenario_phase clk tick)" "tidy (tick_snapshot tick)"
proof -
  show "tidy (agents_phase collect tick)" "tidy (tick_snapshot tick)"
    unfolding agents_phase_def [abs_def] tick_snapshot_def [abs_def] by (intro inv_intros)+
  show "tidy (scenario_phase clk tick)"
    by (auto simp: step_keeps_def scenario_phase_def ledger_ok_def split: prod.splits)
qed

lemma tidy_advance_tick [inv_intros]: "tidy (advance_tick clk collect running)"
  unfolding advance_tick_def [abs_def] by (intro inv_intros ledger_push_events)

section \<open>What a refresh leaves alone\<close>

definition same_frame :: "arena \<Rightarrow> arena \<Rightarrow> bool" where
  "same_frame ar ar' = (ar_config ar' = ar_config ar \<and> ar_tick ar' = ar_tick ar \<and> ar_generation ar' = ar_generation ar \<and>
     ar_stream_id ar' = ar_stream_id ar \<and> ar_agents ar' = ar_agents ar \<and> ar_controller ar' = ar_controller ar \<and>
     ar_running ar' = ar_running ar \<and> ar_loop ar' = ar_loop ar \<and> en_log (ar_engine ar') = en_log (ar_engine ar) \<and>
     en_context (ar_engine ar') = en_context (ar_engine ar))"

lemma same_frame_refl: "same_frame ar ar"
  by (simp add: same_frame_def)

lemma same_frame_trans: "same_frame a b \<Longrightarrow> same_frame b c \<Longrightarrow> same_frame a c"
  by (simp add: same_frame_def)

definition frames :: "'a arena_step \<Rightarrow> bool" where
  "frames f = (\<forall>ar. same_frame ar (fst (f ar)))"

lemma frames_bind: "frames f \<Longrightarrow> (\<And>x. frames (g x)) \<Longrightarrow> frames (step_bind f g)"
  unfolding frames_def step_bind_def
  by (auto split: prod.splits sum.splits) (metis fst_conv same_frame_trans)+

lemma frames_at: "(\<And>ar. \<exists>g. frames g \<and> f ar = g ar) \<Longrightarrow> frames f"
  unfolding frames_def by metis

lemma raise_incidents_same_frame: "same_frame ar (raise_incidents trk ss ar)"
  by (simp add: same_frame_def raise_incidents_induct consider_score_def push_event_def Let_def)

lemma frames_parts:
  "frames (assemble_state running book trk fs)" "frames (update_arena (raise_incidents t ss))"
  "frames (detect_state book current previous)" "frames (on_engine (l2_snapshot d))"
proof -
  show "frames (assemble_state running book trk fs)"
    unfolding frames_def
  proof
    fix ar
    show "same_frame ar (fst (assemble_state running book trk fs ar))"
      by (cases "log_tail (cf_window (ar_config ar)) (en_log (ar_engine ar))")
        (simp_all add: assemble_state_def same_frame_refl)
  qed
  show "frames (update_arena (raise_incidents t ss))"
    by (simp add: frames_def update_arena_def raise_incidents_same_frame)
  show "frames (detect_state book current previous)"
    by (simp add: frames_def detect_state_def same_frame_def)
  show "frames (on_engine (l2_snapshot d))"
    by (auto simp: frames_def on_engine_def l2_snapshot_def same_frame_def split: prod.splits sum.splits)
qed

lemma frames_conclude: "frames (conclude_state running book trk fs)"
  unfolding conclude_state_def [abs_def] by (intro frames_bind frames_parts)

lemma frames_score: "frames (score_state running current previous book)"
proof (rule frames_at)
  fix ar
  have "frames (step_bind (detect_state book current previous) (conclude_state running book (arena_tracker ar)))"
    by (intro frames_bind frames_parts frames_conclude)
  then show "\<exists>g. frames g \<and> score_state running current previous book ar = g ar"
    using score_state_def by blast
qed

lemma frames_build: "frames (build_state running current previous)"
  unfolding build_state_def [abs_def] comp_def by (intro frames_bind frames_parts frames_score)

lemma refresh_state_frame: "same_frame ar (fst (refresh_state running current previous ar))"
proof -
  have "frames (refresh_state running current previous)"
    unfolding refresh_state_def [abs_def]
    by (intro frames_bind frames_build) (auto simp: frames_def update_arena_def same_frame_def)
  then show ?thesis by (simp add: frames_def)
qed

lemma assemble_state_published:
  "assemble_state running book trk fs ar = (ar', Inr st) \<Longrightarrow>
   ar' = ar \<and> st_tick st = ar_tick ar \<and> st_running st = running \<and> st_incidents st = ar_incidents ar \<and>
   st_events st = ar_events ar"
  by (auto simp: assemble_state_def arena_state_from_book_def split: sum.splits)

lemma build_state_published:
  assumes "build_state running current previous ar = (ar', Inr st)"
  shows "st_tick st = ar_tick ar' \<and> st_running st = running \<and> st_incidents st = ar_incidents ar' \<and>
    st_events st = ar_events ar'"
  using assms
  by (auto simp: build_state_def score_state_def conclude_state_def step_bind_Inr dest!: assemble_state_published)

lemma refresh_state_published:
  assumes "refresh_state running current previous ar = (ar', Inr u)"
  shows "st_tick (ar_state ar') = ar_tick ar' \<and> st_running (ar_state ar') = running \<and>
    st_incidents (ar_state ar') = ar_incidents ar' \<and> st_events (ar_state ar') = ar_events ar'"
proof -
  obtain ar1 st where 1: "build_state running current previous ar = (ar1, Inr st)"
    "ar' = ar1\<lparr>ar_state := st\<rparr>"
    using assms by (auto simp: refresh_state_def step_bind_Inr update_arena_def)
  then show ?thesis using build_state_published [OF 1(1)] by simp
qed

section \<open>Reachable arenas\<close>

definition arena_ok :: "arena \<Rightarrow> bool" where
  "arena_ok ar = (ledger_ok ar \<and> log_ok (en_log (ar_engine ar)) \<and> en_context (ar_engine ar) = empty_context)"

lemma arena_ok_grown: "arena_ok ar \<longleftrightarrow> ledger_ok ar \<and> grown [] empty_context (ar_engine ar)"
  by (simp add: arena_ok_def grown_def)

text \<open>A step that keeps both halves and under which the log only grows.\<close>

lemma settled:
  assumes "arena_ok ar" and "tidy f" and "arena_grows f"
  shows "arena_ok (fst (f ar)) \<and> prefix (log_events (en_log (ar_engine ar))) (log_events (en_log (ar_engine (fst (f ar)))))"
proof -
  have "grown (log_events (en_log (ar_engine ar))) empty_context (ar_engine ar)"
    using assms(1) by (simp add: arena_ok_def grown_def)
  from grows_inD [OF assms(3) this] show ?thesis
    using assms(1,2) by (simp add: arena_ok_def grown_def step_keeps_def)
qed

text \<open>The public methods and the turns of the background loop, in any order and with any outcome.\<close>

inductive arena_trans :: "arena \<Rightarrow> arena \<Rightarrow> bool" where
  trans_start: "arena_start ar = (ar', r) \<Longrightarrow> arena_trans ar ar'"
| trans_pause: "arena_pause ar = (ar', r) \<Longrightarrow> arena_trans ar ar'"
| trans_reset: "arena_reset ar = (ar', r) \<Longrightarrow> arena_trans ar ar'"
| trans_stop: "arena_stop ar = (ar', u) \<Longrightarrow> arena_trans ar ar'"
| trans_scenario: "arena_start_scenario clk name ar = (ar', t) \<Longrightarrow> arena_trans ar ar'"
| trans_launch: "launch_scenario clk name ar = (ar', l) \<Longrightarrow> arena_trans ar ar'"
| trans_step: "arena_step_once clk remote ar = (ar', r) \<Longrightarrow> arena_trans ar ar'"
| trans_loop: "ar' = loop_turn clk finished ar \<Longrightarrow> arena_trans ar ar'"
| trans_snapshot: "arena_snapshot running ar = (ar', r) \<Longrightarrow> arena_trans ar ar'"

inductive reachable_arena :: "arena \<Rightarrow> bool" where
  arena_new: "new_arena c = Inr ar \<Longrightarrow> reachable_arena ar"
| arena_next: "reachable_arena ar \<Longrightarrow> arena_trans ar ar' \<Longrightarrow> reachable_arena ar'"

lemma flag_updates [grow_rules, inv_intros]:
  "arena_grows (set_running b)" "arena_grows ensure_loop" "tidy (set_running b)" "tidy ensure_loop"
  "arena_grows arena_stop" "tidy arena_stop"
  by (auto intro!: grows_inI simp: set_running_def ensure_loop_def arena_stop_def update_arena_def step_keeps_def ledger_ok_def)

lemma start_scenario_keeps [grow_rules, inv_intros]:
  "arena_grows (start_scenario_locked clk name)" "tidy (start_scenario_locked clk name)"
proof -
  have "ledger_ok ar \<Longrightarrow> ledger_ok (ar\<lparr>ar_controller := k\<rparr>)" for ar k by (simp add: ledger_ok_def)
  then show "tidy (start_scenario_locked clk name)"
    by (auto simp: step_keeps_def start_scenario_locked_def Let_def ledger_push_event split: sum.splits)
  show "arena_grows (start_scenario_locked clk name)"
    by (auto intro!: grows_inI simp: start_scenario_locked_def Let_def split: sum.splits)
qed

lemma methods_keep:
  "tidy (arena_start)" "arena_grows arena_start" "tidy arena_pause" "arena_grows arena_pause"
  "tidy (arena_start_scenario clk name)" "arena_grows (arena_start_scenario clk name)"
  "tidy (arena_step_once clk remote)" "arena_grows (arena_step_once clk remote)"
  "tidy (arena_snapshot b)" "arena_grows (arena_snapshot b)"
proof -
  show "tidy (arena_start)" "arena_grows arena_start" "tidy arena_pause" "arena_grows arena_pause"
    "tidy (arena_start_scenario clk name)" "arena_grows (arena_start_scenario clk name)"
    unfolding arena_start_def [abs_def] arena_pause_def [abs_def] arena_start_scenario_def [abs_def]
    by (intro inv_intros grow_rules)+
  show "tidy (arena_snapshot b)" "arena_grows (arena_snapshot b)"
    unfolding arena_snapshot_def [abs_def]
    by (cases b; simp; intro inv_intros grow_rules)+
  have "tidy (step_bind (advance_tick clk c True) (\<lambda>_. read_arena ar_state))"
    "arena_grows (step_bind (advance_tick clk c True) (\<lambda>_. read_arena ar_state))" for c
    by (intro inv_intros grow_rules)+
  then show "tidy (arena_step_once clk remote)" "arena_grows (arena_step_once clk remote)"
    by (simp add: arena_step_once_def step_keeps_def, metis grows_at arena_step_once_def)
qed

lemma reset_ok:
  assumes "clamp_config (ar_config ar) = ar_config ar"
  shows "arena_ok (fst (arena_reset ar))"
proof -
  have f: "tidy (refresh_state r c p)" "arena_grows (refresh_state r c p)" for r c p by (intro inv_intros grow_rules)+
  have r: "arena_ok (reset_fields ar)"
    using assms by (simp add: arena_ok_def ledger_ok_def reset_fields_def Let_def new_matching_engine_def new_engine_def)
  have "arena_ok (fst (refresh_state False [] None (reset_fields ar)))"
    using settled [OF r f] by blast
  then show ?thesis
    by (auto simp: arena_reset_def step_bind_def update_arena_def read_arena_def split: prod.splits sum.splits)
qed

lemma launch_ok:
  assumes "arena_ok ar"
  shows "arena_ok (fst (launch_scenario clk name ar)) \<and>
    prefix (log_events (en_log (ar_engine ar))) (log_events (en_log (ar_engine (fst (launch_scenario clk name ar)))))"
proof -
  obtain ar1 r where 1: "start_scenario_locked clk name ar = (ar1, r)" by (cases "start_scenario_locked clk name ar")
  have s: "arena_ok ar1" "prefix (log_events (en_log (ar_engine ar))) (log_events (en_log (ar_engine ar1)))"
    using settled [OF assms start_scenario_keeps(2,1), of clk name] by (simp_all add: 1)
  have k: "tidy (step_bind (refresh_state b [] None) (\<lambda>_. step_return x))"
    "arena_grows (step_bind (refresh_state b [] None) (\<lambda>_. step_return x))" for b and x :: launch_result
    by (intro inv_intros grow_rules)+
  show ?thesis
  proof (cases r)
    case (Inl e)
    then show ?thesis using s by (cases e) (simp_all add: launch_scenario_def 1)
  next
    case (Inr t)
    then show ?thesis
      using s settled [OF s(1) k, of "ar_running ar1" "LaunchAccepted t"]
      by (auto simp: launch_scenario_def 1 intro: prefix_order.trans)
  qed
qed

lemma loop_turn_ok:
  assumes "arena_ok ar"
  shows "arena_ok (loop_turn clk finished ar) \<and>
    prefix (log_events (en_log (ar_engine ar))) (log_events (en_log (ar_engine (loop_turn clk finished ar))))"
proof -
  have "tidy (advance_tick clk c True)" "arena_grows (advance_tick clk c True)" for c by (intro inv_intros grow_rules)+
  from settled [OF assms this] have a: "arena_ok (fst (advance_tick clk c True ar))"
    "prefix (log_events (en_log (ar_engine ar))) (log_events (en_log (ar_engine (fst (advance_tick clk c True ar)))))" for c
    by blast+
  let ?c = "\<lambda>s. Inr (collect_intents (finished s))"
  obtain ar1 r where 1: "advance_tick clk ?c True ar = (ar1, r)" by (cases "advance_tick clk ?c True ar")
  have "arena_ok ar1" "prefix (log_events (en_log (ar_engine ar))) (log_events (en_log (ar_engine ar1)))"
    using a [of ?c] by (simp_all add: 1)
  moreover have "arena_ok (ar1\<lparr>ar_loop := False\<rparr>)" using \<open>arena_ok ar1\<close> by (simp add: arena_ok_def ledger_ok_def)
  ultimately show ?thesis
    using assms by (auto simp: loop_turn_def 1 split: sum.split)
qed

text \<open>Every method but reset extends the log.\<close>

lemma arena_trans_ok:
  assumes "arena_trans ar ar'" and "arena_ok ar"
  shows "arena_ok ar' \<and> (prefix (log_events (en_log (ar_engine ar))) (log_events (en_log (ar_engine ar'))) \<or>
    ar' = fst (arena_reset ar))"
  using assms(1)
proof (cases rule: arena_trans.cases)
  case (trans_start r)
  then show ?thesis using settled [OF assms(2) methods_keep(1,2)] by simp
next
  case (trans_pause r)
  then show ?thesis using settled [OF assms(2) methods_keep(3,4)] by simp
next
  case (trans_reset r)
  then show ?thesis using reset_ok [of ar] assms(2) by (simp add: arena_ok_def ledger_ok_def)
next
  case (trans_stop u)
  then show ?thesis using settled [OF assms(2) flag_updates(6,5)] by simp
next
  case (trans_scenario clk name t)
  then show ?thesis using settled [OF assms(2) methods_keep(5,6), of clk name] by simp
next
  case (trans_launch clk name l)
  then show ?thesis using launch_ok [OF assms(2), of clk name] by simp
next
  case (trans_step clk remote r)
  then show ?thesis using settled [OF assms(2) methods_keep(7,8), of clk remote] by simp
next
  case (trans_loop clk finished)
  then show ?thesis using loop_turn_ok [OF assms(2)] by simp
next
  case (trans_snapshot running r)
  then show ?thesis using settled [OF assms(2) methods_keep(9,10), of running] by simp
qed

lemma new_arena_Inr:
  assumes "new_arena c = Inr ar"
  shows "refresh_state False [] None (raw_arena (clamp_config c)) = (ar, Inr ())"
  using assms by (auto simp: new_arena_def split: prod.splits sum.splits)

lemma new_arena_ok: "new_arena c = Inr ar \<Longrightarrow> arena_ok ar"
proof -
  assume "new_arena c = Inr ar"
  then have ar: "ar = fst (refresh_state False [] None (raw_arena (clamp_config c)))"
    using new_arena_Inr by simp
  have f: "tidy (refresh_state r c p)" "arena_grows (refresh_state r c p)" for r c p by (intro inv_intros grow_rules)+
  have "arena_ok (raw_arena (clamp_config c))"
    by (simp add: arena_ok_def ledger_ok_def raw_arena_def new_matching_engine_def new_engine_def)
  then show "arena_ok ar" unfolding ar using settled [OF _ f] by blast
qed

lemma reachable_arena_ok: "reachable_arena ar \<Longrightarrow> arena_ok ar"
  by (induction rule: reachable_arena.induct) (auto dest: new_arena_ok arena_trans_ok)

section \<open>A fresh arena\<close>

lemma assemble_state_total:
  "0 \<le> cf_window (ar_config ar) \<Longrightarrow> \<exists>st. assemble_state running book trk fs ar = (ar, Inr st)"
  by (auto simp: assemble_state_def log_tail_def)

lemma refresh_state_total:
  assumes "get_snapshot 12 (en_book (ar_engine ar)) = Inr (b, snap)"
    and "arena_book_ok (order_book_snapshot_from_dict snap)" and "0 < cf_interval (ar_config ar)"
    and "0 \<le> cf_window (ar_config ar)"
  obtains ar' where "refresh_state running current previous ar = (ar', Inr ())"
proof -
  let ?book = "order_book_snapshot_from_dict snap"
  let ?seen = "fst (track_orders (ar_tick ar) (cf_interval (ar_config ar)) current (ar_seen ar))"
  obtain f seen' where f: "extract_features ?book current previous (cf_interval (ar_config ar)) (ar_tick ar) (ar_seen ar) 5 = Inr (f, seen')"
    "features_ok f"
    by (rule extract_features_ok [OF assms(2,3)])
  obtain ss where ss: "aggregate_detect f = Inr ss" by (metis aggregate_total [OF f(2)])
  let ?ar1 = "ar\<lparr>ar_engine := (ar_engine ar)\<lparr>en_book := b\<rparr>\<rparr>"
  let ?ar2 = "?ar1\<lparr>ar_seen := ?seen\<rparr>"
  let ?ar3 = "raise_incidents (map_option (with_evidence ss) (arena_tracker ?ar1)) ss ?ar2"
  have "on_engine (l2_snapshot 12) ar = (?ar1, Inr snap)" by (simp add: on_engine_def l2_snapshot_def assms(1))
  moreover have "detect_state ?book current previous ?ar1 = (?ar2, Inr (f, ss))"
    by (simp add: detect_state_def scored_def f(1) ss)
  moreover have "0 \<le> cf_window (ar_config ?ar3)" using assms(4) by simp
  then obtain st where "assemble_state running ?book (arena_tracker ?ar1) (f, ss) ?ar3 = (?ar3, Inr st)"
    using assemble_state_total by blast
  ultimately have "refresh_state running current previous ar = (?ar3\<lparr>ar_state := st\<rparr>, Inr ())"
    by (simp add: refresh_state_def build_state_def score_state_def conclude_state_def step_bind_def update_arena_def)
  then show ?thesis by (rule that)
qed

definition demo_config :: arena_config where
  "demo_config = \<lparr>cf_interval = 1/2, cf_seed = 7, cf_agent_count = 0, cf_remote_urls = [], cf_levels = 1,
     cf_base_size = 3/2, cf_tick_size = 1, cf_reference = 100, cf_max_quote = 25, cf_depth = 12, cf_window = 100,
     cf_symbol = ''LOB'', cf_venue = ''SIM''\<rparr>"

lemma demo_arena_exists:
  obtains ar where "new_arena demo_config = Inr ar"
proof -
  let ?ar = "raw_arena (clamp_config demo_config)"
  have "case get_snapshot 12 (en_book (new_matching_engine (clamp_config demo_config))) of
      Inr (b, snap) \<Rightarrow> arena_book_ok (order_book_snapshot_from_dict snap) | _ \<Rightarrow> False" by code_simp
  then obtain b snap where 1: "get_snapshot 12 (en_book (ar_engine ?ar)) = Inr (b, snap)"
    "arena_book_ok (order_book_snapshot_from_dict snap)"
    by (auto simp: raw_arena_def split: sum.splits)
  have i: "0 < cf_interval (ar_config ?ar)" "0 \<le> cf_window (ar_config ?ar)"
    using less_imp_le [OF clamp_config_fields(2)] by (simp_all add: raw_arena_def) (simp add: demo_config_def)
  obtain ar' where "refresh_state False [] None ?ar = (ar', Inr ())"
    by (rule refresh_state_total [OF 1 i])
  then show ?thesis by (intro that) (simp add: new_arena_def)
qed

section \<open>Ticks\<close>

text \<open>What keeps the clock at \<open>t\<close> and the published state at \<open>s\<close>.\<close>

definition at_tick :: "int \<Rightarrow> arena_state \<Rightarrow> arena \<Rightarrow> bool" where
  "at_tick t s ar = (ar_tick ar = t \<and> ar_state ar = s)"

lemma at_tick_basic [inv_intros]:
  "step_keeps (at_tick t s) (on_engine f)" "step_keeps (at_tick t s) (read_arena h)"
  "step_keeps (at_tick t s) (lift_result x)" "step_keeps (at_tick t s) (scenario_phase clk tick)"
  "(\<And>ar. at_tick t s ar \<Longrightarrow> at_tick t s (u ar)) \<Longrightarrow> step_keeps (at_tick t s) (update_arena u)"
  by (auto simp: step_keeps_def on_engine_def read_arena_def lift_result_def update_arena_def at_tick_def
      scenario_phase_def split: prod.splits)

lemma at_tick_in_context [inv_intros]:
  "step_keeps (at_tick t s) f \<Longrightarrow> step_keeps (at_tick t s) (in_context cx f)"
proof (unfold step_keeps_def, intro allI impI)
  fix ar assume f: "\<forall>ar. at_tick t s ar \<longrightarrow> at_tick t s (fst (f ar))" and "at_tick t s ar"
  then have "at_tick t s (fst (f (ar\<lparr>ar_engine := (ar_engine ar)\<lparr>en_context := cx\<rparr>\<rparr>)))" by (simp add: at_tick_def)
  then show "at_tick t s (fst (in_context cx f ar))" by (auto simp: in_context_def at_tick_def split: prod.splits)
qed

lemma at_tick_phases [inv_intros]:
  "step_keeps (at_tick t s) (agents_phase collect tick)" "step_keeps (at_tick t s) (tick_snapshot tick)"
  unfolding agents_phase_def [abs_def] tick_snapshot_def [abs_def] by (intro inv_intros)+

definition snapshot_last :: "int \<Rightarrow> arena \<Rightarrow> bool" where
  "snapshot_last t ar = (log_events (en_log (ar_engine ar)) \<noteq> [] \<and>
     ev_tick (last (log_events (en_log (ar_engine ar)))) = Some t \<and>
     (\<exists>depth snap. ev_body (last (log_events (en_log (ar_engine ar)))) = SnapshotBody depth snap))"

lemma record_event_last:
  "record_event e en = (en', Inr e') \<Longrightarrow> log_events (en_log en') = log_events (en_log en) @ [stamped (en_log en) e]"
proof -
  assume "record_event e en = (en', Inr e')"
  then obtain l where a: "append_event e (en_log en) = Inr (l, e')" and en': "en' = en\<lparr>en_log := l\<rparr>"
    by (auto simp: record_event_def try_bind_Inr post_init_valid split: sum.splits)
  show ?thesis by (simp add: en' append_event_Inr(3) [OF a] append_event_Inr(1) [OF a])
qed

lemma tick_snapshot_last: "tick_snapshot tick ar = (ar', Inr e) \<Longrightarrow> snapshot_last tick ar'"
  by (auto simp: tick_snapshot_def step_bind_Inr read_arena_def on_engine_def record_snapshot_def snapshot_last_def stamped_def
      dest!: record_event_last split: prod.splits sum.splits)

text \<open>The published state changes only at the end of a refresh.\<close>

lemma at_tick_build: "step_keeps (at_tick t s) (build_state running current previous)"
proof -
  have a: "step_keeps (at_tick t s) (assemble_state running book trk fs)" for book trk fs
    by (auto simp: step_keeps_def assemble_state_def split: sum.splits)
  have c: "step_keeps (at_tick t s) (conclude_state running book trk fs)" for book trk fs
    unfolding conclude_state_def [abs_def] by (intro inv_intros a) (simp add: at_tick_def)
  have d: "step_keeps (at_tick t s) (detect_state book current previous)" for book
    by (simp add: step_keeps_def detect_state_def at_tick_def)
  have "step_keeps (at_tick t s) (step_bind (detect_state book current previous) (conclude_state running book trk))" for book trk
    by (intro inv_intros c d)
  then have "step_keeps (at_tick t s) (score_state running current previous book)" for book
    unfolding step_keeps_def score_state_def by blast
  then show ?thesis unfolding build_state_def [abs_def] comp_def by (intro inv_intros)
qed

text \<open>Steps that publish a state for the tick \<open>t\<close> when they succeed.\<close>

definition publishes :: "int \<Rightarrow> arena_state \<Rightarrow> (arena \<Rightarrow> bool) \<Rightarrow> 'a arena_step \<Rightarrow> bool" where
  "publishes t s Q f = (\<forall>ar. at_tick t s ar \<and> Q ar \<longrightarrow>
     (case f ar of
        (ar', Inl _) \<Rightarrow> at_tick t s ar'
      | (ar', Inr _) \<Rightarrow> snapshot_last t ar' \<and> ar_tick ar' = t \<and> st_tick (ar_state ar') = t \<and>
          st_incidents (ar_state ar') = ar_incidents ar' \<and> st_events (ar_state ar') = ar_events ar'))"

lemma publishes_bind:
  assumes "step_keeps (at_tick t s) f" and "\<And>x. publishes t s Q (g x)"
    and "\<And>ar ar' x. Q' ar \<Longrightarrow> f ar = (ar', Inr x) \<Longrightarrow> Q ar'"
  shows "publishes t s Q' (step_bind f g)"
  unfolding publishes_def
proof (intro allI impI)
  fix ar assume ar: "at_tick t s ar \<and> Q' ar"
  obtain ar1 r where 1: "f ar = (ar1, r)" by (cases "f ar")
  have k: "at_tick t s ar1" using assms(1) ar 1 by (force simp: step_keeps_def)
  show "case step_bind f g ar of
        (ar', Inl _) \<Rightarrow> at_tick t s ar'
      | (ar', Inr _) \<Rightarrow> snapshot_last t ar' \<and> ar_tick ar' = t \<and> st_tick (ar_state ar') = t \<and>
          st_incidents (ar_state ar') = ar_incidents ar' \<and> st_events (ar_state ar') = ar_events ar'"
  proof (cases r)
    case (Inl e)
    then show ?thesis using k by (simp add: step_bind_def 1)
  next
    case (Inr x)
    then have "Q ar1" using assms(3) ar 1 by blast
    then show ?thesis using k assms(2) [of x] by (simp add: step_bind_def 1 Inr publishes_def)
  qed
qed

lemma publishes_refresh: "publishes t s (snapshot_last t) (refresh_state running current previous)"
  unfolding publishes_def
proof (intro allI impI)
  fix ar assume ar: "at_tick t s ar \<and> snapshot_last t ar"
  obtain ar1 r where b: "build_state running current previous ar = (ar1, r)" by (cases "build_state running current previous ar")
  have "at_tick t s (fst (build_state running current previous ar))"
    using at_tick_build ar unfolding step_keeps_def by blast
  then have k: "at_tick t s ar1" by (simp add: b)
  have "same_frame ar ar1" using frames_build b by (metis frames_def fst_conv)
  then have l: "snapshot_last t ar1" using ar by (simp add: snapshot_last_def same_frame_def)
  show "case refresh_state running current previous ar of
        (ar', Inl _) \<Rightarrow> at_tick t s ar'
      | (ar', Inr _) \<Rightarrow> snapshot_last t ar' \<and> ar_tick ar' = t \<and> st_tick (ar_state ar') = t \<and>
          st_incidents (ar_state ar') = ar_incidents ar' \<and> st_events (ar_state ar') = ar_events ar'"
    using k l build_state_published [of running current previous ar ar1] b
    by (cases r) (auto simp: refresh_state_def step_bind_def update_arena_def at_tick_def snapshot_last_def)
qed

lemma publishesD:
  assumes "publishes t s (\<lambda>_. True) f" and "at_tick t s ar" and "f ar = (ar', r)"
  shows "ar_tick ar' = t \<and> (case r of Inl _ \<Rightarrow> ar_state ar' = s
     | Inr _ \<Rightarrow> snapshot_last t ar' \<and> st_tick (ar_state ar') = t \<and>
         st_incidents (ar_state ar') = ar_incidents ar' \<and> st_events (ar_state ar') = ar_events ar')"
proof -
  have "case f ar of
        (ar', Inl _) \<Rightarrow> at_tick t s ar'
      | (ar', Inr _) \<Rightarrow> snapshot_last t ar' \<and> ar_tick ar' = t \<and> st_tick (ar_state ar') = t \<and>
          st_incidents (ar_state ar') = ar_incidents ar' \<and> st_events (ar_state ar') = ar_events ar'"
    using assms(1) [unfolded publishes_def, THEN spec, of ar] assms(2) by (rule mp [OF _ conjI [OF _ TrueI]])
  then show ?thesis by (cases r) (simp_all add: assms(3) at_tick_def)
qed

lemmas publishes_step = publishes_bind [where Q = "\<lambda>_. True", OF _ _ TrueI]

definition finish_tick :: "int \<Rightarrow> bool \<Rightarrow> agent_event list \<Rightarrow> rat option \<Rightarrow> unit arena_step" where
  "finish_tick tick running es p =
    step_bind (tick_snapshot tick) (\<lambda>_. step_bind (update_arena (push_events es)) (\<lambda>_. refresh_state running es p))"

lemma publishes_push:
  "publishes t s (snapshot_last t) (step_bind (update_arena (push_events es)) (\<lambda>_. refresh_state running es p))"
proof (rule publishes_bind [OF _ publishes_refresh])
  show "step_keeps (at_tick t s) (update_arena (push_events es))" by (intro inv_intros) (simp add: at_tick_def)
  show "snapshot_last t ar'" if "snapshot_last t ar" "update_arena (push_events es) ar = (ar', Inr x)" for ar ar' x
    using that by (auto simp: update_arena_def snapshot_last_def)
qed

lemma publishes_finish: "publishes t s (\<lambda>_. True) (finish_tick t running es p)"
  unfolding finish_tick_def by (rule publishes_bind [OF at_tick_phases(2) publishes_push]) (rule tick_snapshot_last)

definition tick_body ::
  "(nat \<Rightarrow> nat \<Rightarrow> rat) \<Rightarrow> (market_snapshot \<Rightarrow> py_error + agent_intent list) \<Rightarrow> bool \<Rightarrow> int \<Rightarrow> unit arena_step" where
  "tick_body clk collect running tick =
     step_bind (on_engine (top_depth 5)) (\<lambda>previous.
     step_bind (in_context (arena_context tick None) (agents_phase collect tick)) (\<lambda>es.
     step_bind (read_arena arena_tracker) (\<lambda>trk.
     step_bind (in_context (arena_context tick trk) (scenario_phase clk tick)) (\<lambda>fs.
     step_bind (read_arena ar_config) (\<lambda>c.
     step_bind (in_context (arena_context tick None) (on_engine (maintain_baseline_liquidity c))) (\<lambda>_.
     finish_tick tick running (es @ fs) (Some previous)))))))"

lemma advance_tick_body:
  "advance_tick clk collect running ar = tick_body clk collect running (ar_tick ar + 1) (ar\<lparr>ar_tick := ar_tick ar + 1\<rparr>)"
  unfolding advance_tick_def tick_body_def finish_tick_def step_bind_def [of clock_step] clock_step_def by simp

lemma publishes_body: "publishes t s (\<lambda>_. True) (tick_body clk collect running t)"
  unfolding tick_body_def by (intro publishes_step publishes_finish inv_intros)

lemma advance_tick_outcome:
  assumes "advance_tick clk collect running ar = (ar', r)"
  shows "ar_tick ar' = ar_tick ar + 1 \<and> (case r of Inl _ \<Rightarrow> ar_state ar' = ar_state ar
     | Inr _ \<Rightarrow> snapshot_last (ar_tick ar + 1) ar' \<and> st_tick (ar_state ar') = ar_tick ar + 1 \<and>
         st_incidents (ar_state ar') = ar_incidents ar' \<and> st_events (ar_state ar') = ar_events ar')"
  by (rule publishesD [OF publishes_body _ assms [unfolded advance_tick_body]]) (simp add: at_tick_def)

section \<open>Generations\<close>

text \<open>What distinguishes a generation does not matter for a refresh.\<close>

definition shifted :: "int \<Rightarrow> string \<Rightarrow> nat \<Rightarrow> bool \<Rightarrow> arena \<Rightarrow> arena" where
  "shifted g i k l ar = ar\<lparr>ar_generation := g, ar_stream_id := i,
     ar_controller := \<lparr>ct_active = None, ct_counter = k\<rparr>, ar_loop := l\<rparr>"

lemma refresh_shifted:
  assumes "ct_active (ar_controller ar) = None"
  shows "refresh_state b [] None ((shifted g i k l ar)\<lparr>ar_state := s\<rparr>) =
    (case refresh_state b [] None ar of
       (ar', Inl e) \<Rightarrow> ((shifted g i k l ar')\<lparr>ar_state := s\<rparr>, Inl e)
     | (ar', Inr u) \<Rightarrow> (shifted g i k l ar', Inr u))"
proof (cases "get_snapshot 12 (en_book (ar_engine ar))")
  case (Inl e)
  then show ?thesis
    by (simp add: refresh_state_def build_state_def step_bind_def on_engine_def l2_snapshot_def shifted_def)
next
  case (Inr r)
  obtain bk snap where r: "r = (bk, snap)" by (cases r)
  let ?x = "try_bind (extract_features (order_book_snapshot_from_dict snap) [] None (cf_interval (ar_config ar))
    (ar_tick ar) (ar_seen ar) 5) scored"
  show ?thesis
  proof (cases ?x)
    case (Inl e)
    then show ?thesis using \<open>get_snapshot _ _ = _\<close>
      by (simp add: refresh_state_def build_state_def score_state_def detect_state_def step_bind_def on_engine_def
          l2_snapshot_def shifted_def r)
  next
    case (Inr fs)
    then show ?thesis using \<open>get_snapshot _ _ = _\<close> assms
      by (cases "log_tail (cf_window (ar_config ar)) (en_log (ar_engine ar))")
        (simp_all add: refresh_state_def build_state_def score_state_def detect_state_def conclude_state_def
          assemble_state_def step_bind_def on_engine_def l2_snapshot_def shifted_def r update_arena_def
          raise_incidents_def arena_tracker_def controller_tracker_def)
  qed
qed

lemma reset_fields_shifted:
  "reset_fields ar = (shifted (ar_generation ar + 1) (exchange_stream_id (ar_config ar) (ar_generation ar + 1))
     (ct_counter (ar_controller ar)) (ar_loop ar) (raw_arena (ar_config ar)))\<lparr>ar_state := ar_state ar\<rparr>"
  by (cases ar) (simp add: reset_fields_def shifted_def raw_arena_def controller_reset_def Let_def)

section \<open>Quotes\<close>

lemma agent_level_indexed:
  "dget (orders (fst (update_agent_level s p q aid ow None ts sid snm sfm b))) (agent_level_order_id s p aid) =
    (if 0 < q then Some (agent_order s p q aid ow (agent_level_order_id s p aid) ts sid snm sfm) else None)"
proof (cases "0 < q")
  case True
  then show ?thesis by (simp add: update_agent_level_def Let_def dict_simps)
next
  case False
  then show ?thesis by (simp add: update_agent_level_nonpos agent_oid_def cancel_order_gone)
qed

definition demo_intent :: agent_intent where
  "demo_intent = (mk_intent 1 ''MM_01'' ''set_level'')
     \<lparr>i_side := Some ''bid'', i_price := Some 98, i_quantity := 40\<rparr>"

section \<open>Properties\<close>

text \<open>C13. In every arena that the public methods and the background loop reach, in any order and with
  any agents, answers and clock, the incidents are numbered from one without gaps, there is at most one
  per scenario and detector, each has a confidence from 0.8 to 1, a high or critical severity and at
  least two interpreted evidence items, and looking an incident's id up finds it. At most twenty
  events are kept and no mutation context is left behind.\<close>

theorem incident_ledger:
  assumes "reachable_arena ar"
  shows "map in_id (ar_incidents ar) = map incident_id [1..<Suc (length (ar_incidents ar))] \<and>
    distinct (map (\<lambda>i. (in_scenario_id i, in_type i)) (ar_incidents ar)) \<and>
    (\<forall>i\<in>set (ar_incidents ar). flit (8/10) \<le> in_confidence i \<and> in_confidence i \<le> 1 \<and>
       in_severity i \<in> {SevHigh, SevCritical} \<and> 2 \<le> length (in_evidence i) \<and>
       get_incident (in_id i) ar = (ar, Inr (Some i))) \<and>
    length (ar_events ar) \<le> 20 \<and> en_context (ar_engine ar) = empty_context"
proof -
  have ok: "arena_ok ar" by (rule reachable_arena_ok [OF assms])
  let ?is = "ar_incidents ar"
  have ids: "map in_id ?is = map incident_id [1..<Suc (ar_counter ar)]"
    using ok by (simp add: arena_ok_def ledger_ok_def)
  have n: "length ?is = ar_counter ar" using arg_cong [OF ids, of length] by simp
  have d: "distinct (map in_id ?is)"
    unfolding ids by (auto simp: distinct_map inj_on_def incident_id_def simp del: upt_Suc)
  have "\<forall>i\<in>set ?is. in_scenario_id i \<noteq> None" and dk: "distinct (map incident_key ?is)"
    using ok by (auto simp: arena_ok_def ledger_ok_def incident_sound_def list_all_iff)
  then have "incident_key i = incident_key j"
    if "i \<in> set ?is" "j \<in> set ?is" "(in_scenario_id i, in_type i) = (in_scenario_id j, in_type j)" for i j
    using that by (auto simp: incident_key_def)
  with dk have k: "distinct (map (\<lambda>i. (in_scenario_id i, in_type i)) ?is)"
    unfolding distinct_map inj_on_def by blast
  have "get_incident (in_id i) ar = (ar, Inr (Some i))" if "i \<in> set ?is" for i
  proof -
    have "find (\<lambda>j. in_id j = in_id i) ?is = Some i"
      using d that by (auto simp: find_Some_iff distinct_conv_nth in_set_conv_nth)
    then show ?thesis by (simp add: get_incident_def read_arena_def)
  qed
  then show ?thesis
    using ok ids k by (auto simp: n arena_ok_def ledger_ok_def list_all_iff incident_sound_def)
qed

theorem incident_ledger_witness:
  "\<exists>ar. new_arena demo_config = Inr ar \<and> length (ar_events ar) \<le> 20 \<and> en_context (ar_engine ar) = empty_context"
proof -
  obtain ar where ar: "new_arena demo_config = Inr ar" by (rule demo_arena_exists)
  then show ?thesis using incident_ledger [OF arena_new [OF ar]] by blast
qed

text \<open>C14. In every reachable arena the event log is well formed: sequence numbers from one without gaps,
  distinct event ids and valid events. A method call or loop turn either extends the log or is a reset,
  which starts an empty log under a new generation.\<close>

theorem arena_log_grows:
  assumes "reachable_arena ar" and "arena_trans ar ar'"
  shows "log_ok (en_log (ar_engine ar)) \<and>
    (prefix (log_events (en_log (ar_engine ar))) (log_events (en_log (ar_engine ar'))) \<or>
     log_events (en_log (ar_engine ar')) = [] \<and> ar_generation ar' = ar_generation ar + 1 \<and>
     ar_stream_id ar' = exchange_stream_id (ar_config ar') (ar_generation ar'))"
proof -
  have ok: "arena_ok ar" by (rule reachable_arena_ok [OF assms(1)])
  have "same_frame (reset_fields ar) (fst (arena_reset ar))"
    using refresh_state_frame [of "reset_fields ar" False "[]" None]
    by (auto simp: arena_reset_def step_bind_def update_arena_def read_arena_def split: prod.splits sum.splits)
  then have "log_events (en_log (ar_engine (fst (arena_reset ar)))) = [] \<and>
      ar_generation (fst (arena_reset ar)) = ar_generation ar + 1 \<and>
      ar_stream_id (fst (arena_reset ar)) = exchange_stream_id (ar_config (fst (arena_reset ar))) (ar_generation (fst (arena_reset ar)))"
    by (simp add: same_frame_def reset_fields_def Let_def new_matching_engine_def new_engine_def empty_log_def)
  then show ?thesis using arena_trans_ok [OF assms(2) ok] ok by (auto simp: arena_ok_def)
qed

theorem arena_log_grows_witness:
  "\<exists>ar. new_arena demo_config = Inr ar \<and> log_ok (en_log (ar_engine ar)) \<and> arena_trans ar (fst (arena_reset ar))"
proof -
  obtain ar where ar: "new_arena demo_config = Inr ar" by (rule demo_arena_exists)
  have t: "arena_trans ar (fst (arena_reset ar))" by (rule trans_reset [of _ _ "snd (arena_reset ar)"]) simp
  then show ?thesis using arena_log_grows [OF arena_new [OF ar] t] ar by blast
qed

text \<open>C15. A tick advances the clock by one whatever happens and never shortens the log. When it succeeds,
  the log ends with the tick's snapshot of the book, and the published state shows this tick, the
  incidents raised so far and the kept events; when it raises, the published state stays the old one.\<close>

theorem tick_outcome:
  assumes "reachable_arena ar" and "advance_tick clk collect running ar = (ar', r)"
  shows "ar_tick ar' = ar_tick ar + 1 \<and>
    prefix (log_events (en_log (ar_engine ar))) (log_events (en_log (ar_engine ar'))) \<and>
    (case r of
       Inl _ \<Rightarrow> ar_state ar' = ar_state ar
     | Inr _ \<Rightarrow> snapshot_last (ar_tick ar') ar' \<and>
         st_tick (ar_state ar') = ar_tick ar' \<and> st_incidents (ar_state ar') = ar_incidents ar' \<and>
         st_events (ar_state ar') = ar_events ar')"
proof -
  have "arena_ok ar" by (rule reachable_arena_ok [OF assms(1)])
  then have "grown (log_events (en_log (ar_engine ar))) empty_context (ar_engine ar)"
    by (simp add: arena_ok_def grown_def)
  from grows_inD [OF arena_grows_advance_tick this, of clk collect running]
  have "prefix (log_events (en_log (ar_engine ar))) (log_events (en_log (ar_engine ar')))"
    by (simp add: assms(2) grown_def)
  then show ?thesis using advance_tick_outcome [OF assms(2)] by (simp split: sum.splits)
qed

theorem tick_outcome_witness:
  "\<exists>ar. new_arena demo_config = Inr ar \<and>
     ar_tick (fst (advance_tick (\<lambda>_ _. 0) (\<lambda>_. Inr []) True ar)) = ar_tick ar + 1"
proof -
  obtain ar where ar: "new_arena demo_config = Inr ar" by (rule demo_arena_exists)
  obtain ar' r where t: "advance_tick (\<lambda>_ _. 0) (\<lambda>_. Inr []) True ar = (ar', r)" by fastforce
  show ?thesis using tick_outcome [OF arena_new [OF ar] t] ar t by auto
qed

text \<open>Scoring appends exactly one incident for each detector whose score for the active scenario reaches
  0.8 with at least two evidence items and was not reported for this scenario before, with the next
  free numbers and the scenario's id.\<close>

theorem incidents_raised:
  "\<exists>new. ar_incidents (maybe_create_incident t scores ar) = ar_incidents ar @ new \<and>
    map in_id new = map (\<lambda>k. incident_id (ar_counter ar + k)) [1..<Suc (length new)] \<and>
    distinct (map in_type new) \<and> list_all (\<lambda>i. in_scenario_id i = Some (tr_scenario_id t)) new \<and>
    set (map in_type new) = ds_name ` {s \<in> set scores. flit (8/10) \<le> ds_confidence s \<and>
      2 \<le> length (score_evidence s) \<and> (tr_scenario_id t, ds_name s) \<notin> ar_keys ar}"
  unfolding maybe_create_incident_def
proof (induction scores arbitrary: ar)
  case (Cons s scores)
  show ?case
  proof (cases "incident_due t s ar")
    case False
    then have k: "foldl (consider_score t) ar (s # scores) = foldl (consider_score t) ar scores"
      by (simp add: consider_score_def)
    have "{u \<in> set (s # scores). flit (8/10) \<le> ds_confidence u \<and> 2 \<le> length (score_evidence u) \<and>
        (tr_scenario_id t, ds_name u) \<notin> ar_keys ar} =
      {u \<in> set scores. flit (8/10) \<le> ds_confidence u \<and> 2 \<le> length (score_evidence u) \<and>
        (tr_scenario_id t, ds_name u) \<notin> ar_keys ar}"
      using False by (auto simp: incident_due_def)
    then show ?thesis using Cons.IH [of ar] by (simp only: k)
  next
    case True
    let ?i = "new_incident (Suc (ar_counter ar)) t s" and ?ar = "consider_score t ar s"
    obtain new where 1: "ar_incidents (foldl (consider_score t) ?ar scores) = ar_incidents ?ar @ new"
      "map in_id new = map (\<lambda>k. incident_id (ar_counter ?ar + k)) [1..<Suc (length new)]"
      "distinct (map in_type new)" "list_all (\<lambda>i. in_scenario_id i = Some (tr_scenario_id t)) new"
      "set (map in_type new) = ds_name ` {s \<in> set scores. flit (8/10) \<le> ds_confidence s \<and>
         2 \<le> length (score_evidence s) \<and> (tr_scenario_id t, ds_name s) \<notin> ar_keys ?ar}"
      using Cons.IH [of ?ar] by blast
    have ar: "ar_incidents ?ar = ar_incidents ar @ [?i]" "ar_counter ?ar = Suc (ar_counter ar)"
      "ar_keys ?ar = insert (tr_scenario_id t, ds_name s) (ar_keys ar)"
      using True by (simp_all add: consider_score_def Let_def)
    have i: "in_type ?i = ds_name s" "in_id ?i = incident_id (Suc (ar_counter ar))" "in_scenario_id ?i = Some (tr_scenario_id t)"
      by (simp_all add: new_incident_def)
    have "map in_id (?i # new) = map (\<lambda>k. incident_id (ar_counter ar + k)) [1..<Suc (length (?i # new))]"
    proof -
      have "[1..<Suc (length (?i # new))] = 1 # map Suc [1..<Suc (length new)]"
        by (simp add: upt_conv_Cons map_Suc_upt del: upt_Suc)
      then show ?thesis using 1(2) by (simp add: i ar(2) del: upt_Suc)
    qed
    moreover have "set (map in_type (?i # new)) = ds_name ` {u \<in> set (s # scores). flit (8/10) \<le> ds_confidence u \<and>
      2 \<le> length (score_evidence u) \<and> (tr_scenario_id t, ds_name u) \<notin> ar_keys ar}"
      using True 1(5) by (auto simp: i(1) ar(3) incident_due_def)
    moreover have "distinct (map in_type (?i # new))" using 1(3,5) by (auto simp: i(1) ar(3))
    ultimately show ?thesis
      using 1(1,4) by (intro exI [of _ "?i # new"]) (simp add: ar(1) i(3))
  qed
qed simp

text \<open>A name that no scenario has is answered with a rejection by \<open>launch_scenario\<close> and with a
  ValueError by \<open>start_scenario\<close>; neither changes anything, so the controller, the flags and the
  published state stay as they were.\<close>

theorem unknown_scenario_changes_nothing:
  assumes "\<forall>t. scenario_value t \<noteq> str_lower (str_strip name)"
  shows "launch_scenario clk name ar = (ar, Inr (LaunchRejected (''unknown scenario: '' @ name))) \<and>
    arena_start_scenario clk name ar = (ar, Inl (ValueError (''unknown scenario: '' @ name)))"
proof -
  have "find (\<lambda>t. scenario_value t = str_lower (str_strip name)) scenario_types = None"
    using assms by (simp add: find_None_iff)
  then have "start_scenario_locked clk name ar = (ar, Inl (ValueError (''unknown scenario: '' @ name)))"
    by (simp add: start_scenario_locked_def start_scenario_def parse_scenario_type_def Let_def)
  then show ?thesis by (simp add: launch_scenario_def arena_start_scenario_def step_bind_def)
qed

theorem unknown_scenario_changes_nothing_witness:
  "launch_scenario (\<lambda>_ _. 0) ''Wash trading'' (raw_arena demo_config) =
     (raw_arena demo_config, Inr (LaunchRejected ''unknown scenario: Wash trading''))"
proof -
  have e: "str_lower (str_strip ''Wash trading'') = ''wash trading''" by code_simp
  have "scenario_value t \<noteq> str_lower (str_strip ''Wash trading'')" for t
    by (cases t) (simp_all add: e scenario_value_def)
  then show ?thesis
    using unknown_scenario_changes_nothing [of "''Wash trading''" "\<lambda>_ _. 0" "raw_arena demo_config"] by simp
qed

text \<open>C17. Setting a level leaves the agent's order at that price with the requested quantity bounded to the
  range from 0 to the largest quote size, or removes it when that is not positive. The event reports
  the requested quantity, also when the book got less.\<close>

theorem set_level_bounded:
  assumes "i_side i = Some sd" and "i_price i = Some p" and "apply_set_level max_quote i en = (en', r)"
  defines "s \<equiv> intent_book_side i" and "q \<equiv> min (max 0 (i_quantity i)) max_quote"
  shows "dget (orders (en_book en')) (agent_level_order_id s p (i_agent_id i)) =
      (if 0 < q then Some (agent_order s p q (i_agent_id i) ''normal'' (agent_level_order_id s p (i_agent_id i)) (i_tick i) None None None)
       else None) \<and>
    (\<forall>e. r = Inr (Some e) \<longrightarrow> ae_quantity e = Some (i_quantity i) \<and> ae_price e = Some p)"
proof -
  let ?u = "update_agent_level s p q (i_agent_id i) ''normal'' None (i_tick i) None None None"
  obtain r1 where b: "book_step ?u en = (en', r1)"
    and e: "\<And>e. r = Inr (Some e) \<Longrightarrow> ae_quantity e = Some (i_quantity i) \<and> ae_price e = Some p"
    using assms(3)
    by (auto simp: apply_set_level_def assms(1,2) quote_size_def s_def q_def step_bind_def step_return_def
        intent_event_def with_trade_def blank_event_def split: prod.splits sum.splits)
  have "en_book en' = fst (?u (en_book en))"
    using b by (auto simp: book_step_def split: prod.splits dest: record_mutations_same_book)
  then show ?thesis
    using e by (simp add: agent_level_indexed)
qed

theorem set_level_bounded_witness:
  "ae_quantity (case snd (apply_set_level 25 demo_intent (new_matching_engine demo_config)) of
       Inr (Some e) \<Rightarrow> e | _ \<Rightarrow> blank_event []) = Some 40 \<and>
   map_option o_quantity (dget (orders (en_book (fst (apply_set_level 25 demo_intent (new_matching_engine demo_config)))))
     (agent_level_order_id Bid 98 ''MM_01'')) = Some 25"
proof -
  let ?r = "apply_set_level 25 demo_intent (new_matching_engine demo_config)"
  have i: "i_side demo_intent = Some ''bid''" "i_price demo_intent = Some 98" "i_quantity demo_intent = 40"
    "i_agent_id demo_intent = ''MM_01''" "intent_book_side demo_intent = Bid"
    by (simp_all add: demo_intent_def mk_intent_def intent_book_side_def)
  have "case snd ?r of Inr (Some e) \<Rightarrow> True | _ \<Rightarrow> False" by code_simp
  then obtain en' e where r: "?r = (en', Inr (Some e))"
    by (cases ?r) (auto split: sum.splits option.splits)
  show ?thesis using set_level_bounded [OF i(1,2) r] by (simp add: i r agent_order_def)
qed










text \<open>C16. A reset gives the arena that the constructor gives for the same configuration, except for the
  generation and the stream id, which are new, the scenario counter, which goes on, and the background
  loop, which is left running. Later scenario ids and streams are therefore never those of an earlier
  generation.\<close>

theorem reset_is_fresh:
  assumes "reachable_arena ar" and "arena_reset ar = (ar', Inr st)"
  shows "\<exists>fresh. new_arena (ar_config ar) = Inr fresh \<and> st = ar_state fresh \<and>
    ar' = fresh\<lparr>ar_generation := ar_generation ar + 1,
      ar_stream_id := exchange_stream_id (ar_config ar) (ar_generation ar + 1),
      ar_controller := \<lparr>ct_active = None, ct_counter = ct_counter (ar_controller ar)\<rparr>, ar_loop := ar_loop ar\<rparr>"
proof -
  let ?c = "ar_config ar" and ?g = "ar_generation ar + 1"
  have c: "clamp_config ?c = ?c"
    using reachable_arena_ok [OF assms(1)] by (simp add: arena_ok_def ledger_ok_def)
  obtain ar1 r where 1: "refresh_state False [] None (raw_arena ?c) = (ar1, r)"
    by (cases "refresh_state False [] None (raw_arena ?c)")
  have i: "ct_active (ar_controller (raw_arena ?c)) = None" by (simp add: raw_arena_def new_controller_def)
  have "refresh_state False [] None (reset_fields ar) = (ar', Inr ()) \<and> st = ar_state ar'"
    using assms(2) by (auto simp: arena_reset_def step_bind_def update_arena_def read_arena_def split: prod.splits sum.splits)
  then have r: "r = Inr ()" and ar': "ar' = shifted ?g (exchange_stream_id ?c ?g) (ct_counter (ar_controller ar)) (ar_loop ar) ar1"
    and st: "st = ar_state ar'"
    unfolding reset_fields_shifted refresh_shifted [OF i] by (auto simp: 1 split: sum.splits)
  have "new_arena ?c = Inr ar1" by (simp add: new_arena_def c 1 r)
  then show ?thesis by (intro exI [of _ ar1]) (simp add: ar' st shifted_def)
qed

theorem reset_is_fresh_witness:
  "\<exists>ar ar' st. new_arena demo_config = Inr ar \<and> arena_reset ar = (ar', Inr st) \<and> ar_generation ar' = ar_generation ar + 1"
proof -
  obtain ar where ar: "new_arena demo_config = Inr ar" by (rule demo_arena_exists)
  have f: "same_frame (raw_arena (clamp_config demo_config)) ar"
    using refresh_state_frame [of "raw_arena (clamp_config demo_config)"] new_arena_Inr [OF ar] by (metis fst_conv)
  then have c: "ar_config ar = clamp_config demo_config" by (simp add: same_frame_def raw_arena_def)
  have i: "ct_active (ar_controller (raw_arena (ar_config ar))) = None" by (simp add: raw_arena_def new_controller_def)
  have "\<exists>ar' st. arena_reset ar = (ar', Inr st)"
    unfolding arena_reset_def step_bind_def update_arena_def read_arena_def reset_fields_shifted
    by (simp add: refresh_shifted [OF i]) (simp add: c new_arena_Inr [OF ar])
  then obtain ar' st where r: "arena_reset ar = (ar', Inr st)" by blast
  show ?thesis using reset_is_fresh [OF arena_new [OF ar] r] ar r by auto
qed

end
