(* ===== verification/Determinism.thy ===== *)
theory Determinism
  imports PyDecimal "HOL-Library.Word" "HOL-Library.Product_Lexorder"
begin

text \<open>
  The determinism contract, \<open>backend/app/contracts/determinism.py\<close>: the SplitMix64 generator with its
  rejection sampling, the keys that order simultaneous events, stream seeds, and the conversions from
  decimal values to integer units. Machine integers are 64-bit words, so the masks are implicit; the
  digest function is a parameter.
\<close>

unbundle bit_operations_syntax

section \<open>SplitMix64\<close>

record splitmix =
  sm_state :: "64 word"

definition gamma :: "64 word" where "gamma = 0x9E3779B97F4A7C15"
definition mix_1 :: "64 word" where "mix_1 = 0xBF58476D1CE4E5B9"
definition mix_2 :: "64 word" where "mix_2 = 0x94D049BB133111EB"

definition new_splitmix :: "int \<Rightarrow> splitmix" where
  "new_splitmix seed = \<lparr>sm_state = word_of_int seed\<rparr>"

definition xorshift :: "nat \<Rightarrow> 64 word \<Rightarrow> 64 word" where
  "xorshift k v = v XOR drop_bit k v"

definition mix64 :: "64 word \<Rightarrow> 64 word" where
  "mix64 v = xorshift 31 (xorshift 27 (xorshift 30 v * mix_1) * mix_2)"

definition next_u64 :: "splitmix \<Rightarrow> splitmix \<times> 64 word" where
  "next_u64 s = (s\<lparr>sm_state := sm_state s + gamma\<rparr>, mix64 (sm_state s + gamma))"

definition rejection_limit :: "int \<Rightarrow> int" where
  "rejection_limit bound = 2 ^ 64 - 2 ^ 64 mod bound"

text \<open>The loop draws until a candidate is below the limit; \<open>None\<close> stands for a loop that never ends.\<close>

partial_function (option) draw_below :: "int \<Rightarrow> int \<Rightarrow> splitmix \<Rightarrow> (splitmix \<times> int) option" where
  "draw_below limit bound s =
     (case next_u64 s of (s', candidate) \<Rightarrow>
        if uint candidate < limit then Some (s', uint candidate mod bound) else draw_below limit bound s')"

declare draw_below.simps [code]

definition next_int :: "int \<Rightarrow> splitmix \<Rightarrow> (splitmix \<times> (py_error + int)) option" where
  "next_int bound s =
     (if bound \<le> 0 \<or> 2 ^ 63 < bound then Some (s, Inl (ValueError ''bound must be in the range 1..2^63''))
      else map_option (\<lambda>(s', v). (s', Inr v)) (draw_below (rejection_limit bound) bound s))"

section \<open>Event order keys\<close>

datatype event_phase = AgentPhase | ScenarioPhase | BaselinePhase | SnapshotPhase | MetricsPhase

definition phase_value :: "event_phase \<Rightarrow> int" where
  "phase_value p = (case p of
     AgentPhase \<Rightarrow> 10 | ScenarioPhase \<Rightarrow> 20 | BaselinePhase \<Rightarrow> 30 | SnapshotPhase \<Rightarrow> 40 | MetricsPhase \<Rightarrow> 50)"

datatype event_order_key =
  EventOrderKey (ek_logical_time: int) (ek_phase: int) (ek_source_priority: int) (ek_actor_id: string)
    (ek_source_sequence: int) (ek_insertion_sequence: int)

text \<open>\<open>dataclass(order=True)\<close> compares the tuples of the fields.\<close>

fun key_tuple :: "event_order_key \<Rightarrow> int \<times> int \<times> int \<times> string \<times> int \<times> int" where
  "key_tuple (EventOrderKey t p s a q i) = (t, p, s, a, q, i)"

lemma key_tuple_inject: "key_tuple k = key_tuple k' \<longleftrightarrow> k = k'"
  by (cases k; cases k') simp

instantiation event_order_key :: linorder
begin

definition less_event_order_key :: "event_order_key \<Rightarrow> event_order_key \<Rightarrow> bool" where
  "k < k' \<longleftrightarrow> key_tuple k < key_tuple k'"

definition less_eq_event_order_key :: "event_order_key \<Rightarrow> event_order_key \<Rightarrow> bool" where
  "k \<le> k' \<longleftrightarrow> key_tuple k \<le> key_tuple k'"

instance
proof
  fix x y z :: event_order_key
  show "(x < y) = (x \<le> y \<and> \<not> y \<le> x)"
    unfolding less_event_order_key_def less_eq_event_order_key_def by (rule less_le_not_le)
  show "x \<le> x" unfolding less_eq_event_order_key_def by (rule order_refl)
  show "x \<le> y \<Longrightarrow> y \<le> z \<Longrightarrow> x \<le> z"
    unfolding less_eq_event_order_key_def by (rule order_trans)
  show "x \<le> y \<Longrightarrow> y \<le> x \<Longrightarrow> x = y"
    unfolding less_eq_event_order_key_def by (simp add: key_tuple_inject [symmetric])
  show "x \<le> y \<or> y \<le> x" unfolding less_eq_event_order_key_def by (rule linear)
qed

end

definition mk_event_order_key ::
  "int \<Rightarrow> int \<Rightarrow> int \<Rightarrow> string \<Rightarrow> int \<Rightarrow> int \<Rightarrow> py_error + event_order_key" where
  "mk_event_order_key t p s a q i =
     (case find (\<lambda>(_, v). v < 0) [(''logical_time'', t), (''phase'', p), (''source_priority'', s),
             (''source_sequence'', q), (''insertion_sequence'', i)] of
        Some (field, _) \<Rightarrow> Inl (ValueError (field @ '' must be non-negative''))
      | None \<Rightarrow>
          if \<not> is_ascii a then Inl (ValueError ''actor_id must contain ASCII characters only'')
          else if a = [] then Inl (ValueError ''actor_id must not be empty'')
          else Inr (EventOrderKey t p s a q i))"

section \<open>Stream seeds\<close>

definition byte_of_char :: "char \<Rightarrow> int" where
  "byte_of_char c = of_char c"

fun int_to_bytes :: "nat \<Rightarrow> int \<Rightarrow> int list" where
  "int_to_bytes 0 n = []"
| "int_to_bytes (Suc w) n = int_to_bytes w (n div 256) @ [n mod 256]"

definition int_from_bytes :: "int list \<Rightarrow> int" where
  "int_from_bytes bs = foldl (\<lambda>n b. n * 256 + b) 0 bs"

definition stream_seed_domain :: "int list" where
  "stream_seed_domain = map byte_of_char ''lob-arena-prng-v1'' @ [0]"

definition stream_payload :: "int \<Rightarrow> string \<Rightarrow> int list" where
  "stream_payload root_seed name = stream_seed_domain @ int_to_bytes 8 root_seed @ map byte_of_char name"

text \<open>\<open>sha256\<close> is the digest of \<open>hashlib\<close>, a parameter.\<close>

definition derive_stream_seed :: "(int list \<Rightarrow> int list) \<Rightarrow> int \<Rightarrow> string \<Rightarrow> py_error + int" where
  "derive_stream_seed sha256 root_seed name =
     (if root_seed < 0 \<or> 2 ^ 64 - 1 < root_seed then Inl (ValueError ''root_seed must be an unsigned 64-bit integer'')
      else if \<not> is_ascii name then Inl (ValueError ''stream_name must contain ASCII characters only'')
      else if name = [] then Inl (ValueError ''stream_name must not be empty'')
      else Inr (int_from_bytes (take 8 (sha256 (stream_payload root_seed name)))))"

section \<open>Units and ids\<close>

definition require_int64 :: "int \<Rightarrow> py_error + int" where
  "require_int64 v =
     (if v < - (2 ^ 63) \<or> 2 ^ 63 - 1 < v then Inl (OverflowError ''value does not fit signed int64'') else Inr v)"

text \<open>A \<open>Decimal\<close> argument is its finite value, with the text it prints as.\<close>

definition decimal_to_units :: "string \<Rightarrow> rat \<Rightarrow> int \<Rightarrow> py_error + int" where
  "decimal_to_units shown v unit_size_nanos =
     (if unit_size_nanos \<le> 0 then Inl (ValueError ''unit_size_nanos must be positive'')
      else
        let scaled = dec_div (dec_mul v (10 ^ 9)) (of_int unit_size_nanos); integral = rhe scaled
        in if scaled \<noteq> of_int integral then Inl (ValueError (shown @ '' is not an exact multiple of unit size '' @ int_dec unit_size_nanos @ '' nanos''))
           else require_int64 integral)"

text \<open>\<open>quantize\<close> raises when the result has more than 28 digits.\<close>

definition quantize_metric :: "rat \<Rightarrow> int \<Rightarrow> py_error + int" where
  "quantize_metric v decimal_scale =
     (if decimal_scale < 0 \<or> 18 < decimal_scale then Inl (ValueError ''decimal_scale must be in the range 0..18'')
      else
        let n = rhe (dec_mul v (10 ^ nat decimal_scale))
        in if 10 ^ 28 \<le> \<bar>n\<bar> then Inl (ArithmeticError ''InvalidOperation'') else require_int64 n)"

definition midpoint_ticks_x2 :: "int \<Rightarrow> int \<Rightarrow> py_error + int" where
  "midpoint_ticks_x2 best_bid_ticks best_ask_ticks = require_int64 (best_bid_ticks + best_ask_ticks)"

definition check_id_part :: "string \<Rightarrow> string \<Rightarrow> py_error + unit" where
  "check_id_part field v =
     (if \<not> is_ascii v then Inl (ValueError (field @ '' must contain ASCII characters only''))
      else if v = [] \<or> CHR '':'' \<in> set v then Inl (ValueError (field @ '' must be non-empty ASCII without '' @ [CHR 0x27, CHR '':'', CHR 0x27]))
      else Inr ())"

definition simulation_event_id :: "string \<Rightarrow> string \<Rightarrow> int \<Rightarrow> py_error + string" where
  "simulation_event_id venue event_type sequence =
     (if sequence \<le> 0 then Inl (ValueError ''sequence must start at 1'')
      else try_bind (check_id_part ''venue'' venue) (\<lambda>_.
        try_bind (check_id_part ''event_type'' event_type) (\<lambda>_.
          Inr (venue @ '':'' @ str_lower event_type @ '':'' @ int_dec sequence))))"

end
