(* ===== verification/CanonicalHashing.thy ===== *)
theory CanonicalHashing
  imports Determinism
begin

text \<open>
  Canonical hashing, \<open>backend/app/contracts/hashing.py\<close>: the length-prefixed encoding of exchange events
  and books, and the rolling digest of an event stream. Messages are those of
  \<open>contracts/proto/lob/exchange/v1/exchange.proto\<close>: a field the schema declares optional is an option,
  an enum is its number. A Python string is its list of code points. The digest \<open>sha256\<close> and the
  normal form \<open>nfc\<close> of the Unicode tables are parameters.
\<close>

section \<open>The canonical writer\<close>

record canonical_writer =
  cw_buffer :: "int list"

type_synonym 'a put = "'a \<Rightarrow> canonical_writer \<Rightarrow> py_error + canonical_writer"

definition new_writer :: canonical_writer where
  "new_writer = \<lparr>cw_buffer = []\<rparr>"

definition cw_raw :: "int list \<Rightarrow> canonical_writer \<Rightarrow> canonical_writer" where
  "cw_raw v w = w\<lparr>cw_buffer := cw_buffer w @ v\<rparr>"

definition cw_boolean :: "bool put" where
  "cw_boolean v w = Inr (cw_raw (if v then [1] else [0]) w)"

text \<open>\<open>struct.pack\<close> is \<open>int_to_bytes\<close>, whose division rounds down: a negative number becomes its
  two's complement.\<close>

definition cw_u8 :: "int put" where
  "cw_u8 v w =
     (if v < 0 \<or> 0xFF < v then Inl (ValueError ''value does not fit uint8'')
      else Inr (cw_raw (int_to_bytes 1 v) w))"

definition cw_u32 :: "int put" where
  "cw_u32 v w =
     (if v < 0 \<or> 0xFFFFFFFF < v then Inl (ValueError ''value does not fit uint32'')
      else Inr (cw_raw (int_to_bytes 4 v) w))"

definition cw_u64 :: "int put" where
  "cw_u64 v w =
     (if v < 0 \<or> 0xFFFFFFFFFFFFFFFF < v then Inl (ValueError ''value does not fit uint64'')
      else Inr (cw_raw (int_to_bytes 8 v) w))"

definition cw_i64 :: "int put" where
  "cw_i64 v w =
     (if v < - (2 ^ 63) \<or> 2 ^ 63 - 1 < v then Inl (ValueError ''value does not fit int64'')
      else Inr (cw_raw (int_to_bytes 8 v) w))"

definition utf8_char :: "int \<Rightarrow> int list" where
  "utf8_char c =
     (if c < 0x80 then [c]
      else if c < 0x800 then [0xC0 + c div 64, 0x80 + c mod 64]
      else if c < 0x10000 then [0xE0 + c div 4096, 0x80 + c div 64 mod 64, 0x80 + c mod 64]
      else [0xF0 + c div 262144, 0x80 + c div 4096 mod 64, 0x80 + c div 64 mod 64, 0x80 + c mod 64])"

definition is_scalar :: "int \<Rightarrow> bool" where
  "is_scalar c \<longleftrightarrow> 0 \<le> c \<and> c < 0x110000 \<and> \<not> (0xD800 \<le> c \<and> c \<le> 0xDFFF)"

definition utf8_encode :: "int list \<Rightarrow> py_error + int list" where
  "utf8_encode s =
     (if list_all is_scalar s then Inr (concat (map utf8_char s))
      else Inl (ValueError ''surrogates not allowed''))"

definition cw_string :: "(int list \<Rightarrow> int list) \<Rightarrow> int list put" where
  "cw_string nfc s w =
     (if nfc s \<noteq> s then Inl (ValueError ''canonical strings must already be Unicode NFC'')
      else try_bind (utf8_encode s) (\<lambda>encoded.
        try_bind (cw_u32 (int (length encoded)) w) (\<lambda>w. Inr (cw_raw encoded w))))"

definition cw_optional :: "'a put \<Rightarrow> 'a option put" where
  "cw_optional put v w =
     (case v of
        None \<Rightarrow> cw_boolean False w
      | Some x \<Rightarrow> try_bind (cw_boolean True w) (put x))"

definition cw_optional_u64 :: "int option put" where
  "cw_optional_u64 = cw_optional cw_u64"

definition cw_optional_i64 :: "int option put" where
  "cw_optional_i64 = cw_optional cw_i64"

definition cw_optional_string :: "(int list \<Rightarrow> int list) \<Rightarrow> int list option put" where
  "cw_optional_string nfc = cw_optional (cw_string nfc)"

text \<open>A loop that writes every element.\<close>

fun put_each :: "'a put \<Rightarrow> 'a list put" where
  "put_each put [] w = Inr w"
| "put_each put (x # xs) w = try_bind (put x w) (put_each put xs)"

section \<open>Messages\<close>

record wire_metadata =
  wm_schema_version :: int
  wm_event_id :: "int list"
  wm_sequence :: int
  wm_source :: int
  wm_source_sequence :: "int option"
  wm_symbol :: "int list"
  wm_venue :: "int list"
  wm_tick :: "int option"
  wm_exchange_timestamp_ns :: "int option"
  wm_received_timestamp_ns :: "int option"
  wm_scenario_id :: "int list option"
  wm_scenario_name :: "int list option"
  wm_scenario_family :: "int list option"

record wire_level =
  wl_price_ticks :: int
  wl_quantity_lots :: int
  wl_owner :: "int list option"

record wire_book =
  wb_bids :: "wire_level list"
  wb_asks :: "wire_level list"
  wb_best_bid_ticks :: "int option"
  wb_best_ask_ticks :: "int option"
  wb_mid_price_ticks_x2 :: "int option"
  wb_spread_ticks :: "int option"

text \<open>The messages \<open>AddOrder\<close> and \<open>CancelOrder\<close> have the same fields.\<close>

record wire_order =
  wo_order_id :: "int list"
  wo_agent_id :: "int list"
  wo_side :: int
  wo_price_ticks :: int
  wo_quantity_lots :: int
  wo_owner :: "int list"

record wire_modify =
  wy_order_id :: "int list"
  wy_agent_id :: "int list"
  wy_side :: int
  wy_previous_price_ticks :: int
  wy_previous_quantity_lots :: int
  wy_price_ticks :: int
  wy_quantity_lots :: int
  wy_priority_preserved :: bool
  wy_owner :: "int list"

record wire_execute =
  wx_execution_id :: "int list"
  wx_aggressor_order_id :: "int list"
  wx_resting_order_id :: "int list"
  wx_aggressor_agent_id :: "int list"
  wx_resting_agent_id :: "int list"
  wx_aggressor_side :: int
  wx_price_ticks :: int
  wx_quantity_lots :: int
  wx_aggressor_remaining_quantity_lots :: int
  wx_resting_remaining_quantity_lots :: int

text \<open>Whether the book sub-message is present is not represented: an unset book reads as the empty one, and the
  hashing code never asks which it was.\<close>

record wire_snapshot =
  ws_depth :: int
  ws_book :: wire_book

datatype wire_payload =
    WireAdd wire_order
  | WireModify wire_modify
  | WireCancel wire_order
  | WireExecute wire_execute
  | WireSnapshot wire_snapshot

record wire_event =
  we_metadata :: wire_metadata
  we_payload :: "wire_payload option"

section \<open>Canonical bytes\<close>

definition write_metadata :: "(int list \<Rightarrow> int list) \<Rightarrow> wire_metadata put" where
  "write_metadata nfc m w =
     (if wm_schema_version m \<noteq> 1 then Inl (ValueError ''canonical event hashing supports schema version 1'')
      else if wm_sequence m = 0 then Inl (ValueError ''canonical event sequence must start at 1'')
      else
        try_bind (cw_u32 (wm_schema_version m) w) (\<lambda>w.
        try_bind (cw_string nfc (wm_event_id m) w) (\<lambda>w.
        try_bind (cw_u64 (wm_sequence m) w) (\<lambda>w.
        try_bind (cw_u8 (wm_source m) w) (\<lambda>w.
        try_bind (cw_optional_u64 (wm_source_sequence m) w) (\<lambda>w.
        try_bind (cw_string nfc (wm_symbol m) w) (\<lambda>w.
        try_bind (cw_string nfc (wm_venue m) w) (\<lambda>w.
        try_bind (cw_optional_u64 (wm_tick m) w) (\<lambda>w.
        try_bind (cw_optional_i64 (wm_exchange_timestamp_ns m) w) (\<lambda>w.
        try_bind (cw_optional_i64 (wm_received_timestamp_ns m) w) (\<lambda>w.
        try_bind (cw_optional_string nfc (wm_scenario_id m) w) (\<lambda>w.
        try_bind (cw_optional_string nfc (wm_scenario_name m) w) (\<lambda>w.
        cw_optional_string nfc (wm_scenario_family m) w)))))))))))))"

definition write_resting_order :: "(int list \<Rightarrow> int list) \<Rightarrow> wire_order put" where
  "write_resting_order nfc m w =
     try_bind (cw_string nfc (wo_order_id m) w) (\<lambda>w.
     try_bind (cw_string nfc (wo_agent_id m) w) (\<lambda>w.
     try_bind (cw_u8 (wo_side m) w) (\<lambda>w.
     try_bind (cw_i64 (wo_price_ticks m) w) (\<lambda>w.
     try_bind (cw_i64 (wo_quantity_lots m) w) (\<lambda>w.
     cw_string nfc (wo_owner m) w)))))"

definition write_modify :: "(int list \<Rightarrow> int list) \<Rightarrow> wire_modify put" where
  "write_modify nfc m w =
     try_bind (cw_string nfc (wy_order_id m) w) (\<lambda>w.
     try_bind (cw_string nfc (wy_agent_id m) w) (\<lambda>w.
     try_bind (cw_u8 (wy_side m) w) (\<lambda>w.
     try_bind (cw_i64 (wy_previous_price_ticks m) w) (\<lambda>w.
     try_bind (cw_i64 (wy_previous_quantity_lots m) w) (\<lambda>w.
     try_bind (cw_i64 (wy_price_ticks m) w) (\<lambda>w.
     try_bind (cw_i64 (wy_quantity_lots m) w) (\<lambda>w.
     try_bind (cw_boolean (wy_priority_preserved m) w) (\<lambda>w.
     cw_string nfc (wy_owner m) w))))))))"

definition write_execute :: "(int list \<Rightarrow> int list) \<Rightarrow> wire_execute put" where
  "write_execute nfc m w =
     try_bind (cw_string nfc (wx_execution_id m) w) (\<lambda>w.
     try_bind (cw_string nfc (wx_aggressor_order_id m) w) (\<lambda>w.
     try_bind (cw_string nfc (wx_resting_order_id m) w) (\<lambda>w.
     try_bind (cw_string nfc (wx_aggressor_agent_id m) w) (\<lambda>w.
     try_bind (cw_string nfc (wx_resting_agent_id m) w) (\<lambda>w.
     try_bind (cw_u8 (wx_aggressor_side m) w) (\<lambda>w.
     try_bind (cw_i64 (wx_price_ticks m) w) (\<lambda>w.
     try_bind (cw_i64 (wx_quantity_lots m) w) (\<lambda>w.
     try_bind (cw_i64 (wx_aggressor_remaining_quantity_lots m) w) (\<lambda>w.
     cw_i64 (wx_resting_remaining_quantity_lots m) w)))))))))"

definition write_price_level :: "(int list \<Rightarrow> int list) \<Rightarrow> wire_level put" where
  "write_price_level nfc l w =
     try_bind (cw_i64 (wl_price_ticks l) w) (\<lambda>w.
     try_bind (cw_i64 (wl_quantity_lots l) w) (\<lambda>w.
     cw_optional_string nfc (wl_owner l) w))"

definition write_levels :: "(int list \<Rightarrow> int list) \<Rightarrow> wire_level list put" where
  "write_levels nfc ls w = try_bind (cw_u32 (int (length ls)) w) (put_each (write_price_level nfc) ls)"

definition write_book_body :: "(int list \<Rightarrow> int list) \<Rightarrow> wire_book put" where
  "write_book_body nfc b w =
     try_bind (write_levels nfc (wb_bids b) w) (\<lambda>w.
     try_bind (write_levels nfc (wb_asks b) w) (\<lambda>w.
     try_bind (cw_optional_i64 (wb_best_bid_ticks b) w) (\<lambda>w.
     try_bind (cw_optional_i64 (wb_best_ask_ticks b) w) (\<lambda>w.
     try_bind (cw_optional_i64 (wb_mid_price_ticks_x2 b) w) (\<lambda>w.
     cw_optional_i64 (wb_spread_ticks b) w)))))"

definition write_snapshot :: "(int list \<Rightarrow> int list) \<Rightarrow> wire_snapshot put" where
  "write_snapshot nfc s w = try_bind (cw_u32 (ws_depth s) w) (write_book_body nfc (ws_book s))"

definition write_payload :: "(int list \<Rightarrow> int list) \<Rightarrow> wire_payload option put" where
  "write_payload nfc p w =
     (case p of
        Some (WireAdd m) \<Rightarrow> try_bind (cw_u8 1 w) (write_resting_order nfc m)
      | Some (WireModify m) \<Rightarrow> try_bind (cw_u8 2 w) (write_modify nfc m)
      | Some (WireCancel m) \<Rightarrow> try_bind (cw_u8 3 w) (write_resting_order nfc m)
      | Some (WireExecute m) \<Rightarrow> try_bind (cw_u8 4 w) (write_execute nfc m)
      | Some (WireSnapshot m) \<Rightarrow> try_bind (cw_u8 5 w) (write_snapshot nfc m)
      | None \<Rightarrow> Inl (ValueError ''exchange event must contain exactly one supported payload''))"

definition write_event :: "(int list \<Rightarrow> int list) \<Rightarrow> wire_event put" where
  "write_event nfc e w = try_bind (write_metadata nfc (we_metadata e) w) (write_payload nfc (we_payload e))"

definition event_domain :: "int list" where "event_domain = map byte_of_char ''LOB-EVENT-V1'' @ [0]"
definition book_domain :: "int list" where "book_domain = map byte_of_char ''LOB-BOOK-V1'' @ [0]"
definition stream_init_domain :: "int list" where
  "stream_init_domain = map byte_of_char ''LOB-STREAM-INIT-V1'' @ [0]"
definition stream_step_domain :: "int list" where
  "stream_step_domain = map byte_of_char ''LOB-STREAM-STEP-V1'' @ [0]"
definition sha256_size :: nat where "sha256_size = 32"

definition canonical_event_bytes :: "(int list \<Rightarrow> int list) \<Rightarrow> wire_event \<Rightarrow> py_error + int list" where
  "canonical_event_bytes nfc e =
     try_bind (write_event nfc e (cw_raw event_domain new_writer)) (\<lambda>w. Inr (cw_buffer w))"

definition canonical_book_bytes :: "(int list \<Rightarrow> int list) \<Rightarrow> wire_book \<Rightarrow> py_error + int list" where
  "canonical_book_bytes nfc b =
     try_bind (write_book_body nfc b (cw_raw book_domain new_writer)) (\<lambda>w. Inr (cw_buffer w))"

section \<open>Digests\<close>

definition event_hash ::
  "(int list \<Rightarrow> int list) \<Rightarrow> (int list \<Rightarrow> int list) \<Rightarrow> wire_event \<Rightarrow> py_error + int list" where
  "event_hash sha256 nfc e = try_bind (canonical_event_bytes nfc e) (\<lambda>bs. Inr (sha256 bs))"

definition book_hash ::
  "(int list \<Rightarrow> int list) \<Rightarrow> (int list \<Rightarrow> int list) \<Rightarrow> wire_book \<Rightarrow> py_error + int list" where
  "book_hash sha256 nfc b = try_bind (canonical_book_bytes nfc b) (\<lambda>bs. Inr (sha256 bs))"

definition initial_stream_hash :: "(int list \<Rightarrow> int list) \<Rightarrow> int \<Rightarrow> py_error + int list" where
  "initial_stream_hash sha256 version =
     try_bind (cw_u32 version (cw_raw stream_init_domain new_writer)) (\<lambda>w. Inr (sha256 (cw_buffer w)))"

definition advance_stream_hash ::
  "(int list \<Rightarrow> int list) \<Rightarrow> int list \<Rightarrow> int list \<Rightarrow> py_error + int list" where
  "advance_stream_hash sha256 previous_hash next_event_hash =
     (if length previous_hash \<noteq> sha256_size \<or> length next_event_hash \<noteq> sha256_size
      then Inl (ValueError ''stream hash inputs must be 32-byte SHA-256 digests'')
      else Inr (sha256 (stream_step_domain @ previous_hash @ next_event_hash)))"

fun stream_steps ::
  "(int list \<Rightarrow> int list) \<Rightarrow> (int list \<Rightarrow> int list) \<Rightarrow> int \<Rightarrow> wire_event list \<Rightarrow> int list \<Rightarrow> int
    \<Rightarrow> py_error + int list" where
  "stream_steps sha256 nfc version [] digest expected = Inr digest"
| "stream_steps sha256 nfc version (e # es) digest expected =
     (if wm_schema_version (we_metadata e) \<noteq> version
      then Inl (ValueError ''event schema version does not match stream contract version'')
      else if wm_sequence (we_metadata e) \<noteq> expected
      then Inl (ValueError (''expected contiguous event sequence '' @ int_dec expected @ '', got '' @
        int_dec (wm_sequence (we_metadata e))))
      else
        try_bind (event_hash sha256 nfc e) (\<lambda>h.
        try_bind (advance_stream_hash sha256 digest h) (\<lambda>digest.
        stream_steps sha256 nfc version es digest (expected + 1))))"

definition event_stream_hash ::
  "(int list \<Rightarrow> int list) \<Rightarrow> (int list \<Rightarrow> int list) \<Rightarrow> wire_event list \<Rightarrow> int \<Rightarrow> py_error + int list" where
  "event_stream_hash sha256 nfc es version =
     try_bind (initial_stream_hash sha256 version) (\<lambda>digest. stream_steps sha256 nfc version es digest 1)"

end
