(* ===== verification/DeterminismProps.thy ===== *)
theory DeterminismProps
  imports Determinism
begin

text \<open>
  What the determinism contract promises: the generator's output function is a permutation of the
  64-bit words, so a full period visits every word once; hence \<open>next_int\<close> always returns and draws every
  residue equally often. Stream payloads and simulation event ids determine what they were built from,
  and the unit conversions are exact within the precision of the decimal context.
\<close>

section \<open>The mixing function is a permutation\<close>

lemma xorshift_inj:
  assumes "0 < k" and "xorshift k v = xorshift k w"
  shows "v = w"
proof (rule bit_eqI)
  fix n :: nat
  have step: "bit v n = bit w n" if "bit v (k + n) = bit w (k + n)" for n
  proof -
    have "bit (xorshift k v) n = bit (xorshift k w) n" using assms(2) by simp
    then have "(bit v n = (\<not> bit v (k + n))) = (bit w n = (\<not> bit w (k + n)))"
      by (simp add: xorshift_def bit_simps)
    with that show ?thesis by argo
  qed
  have "bit v n = bit w n" for n
  proof (induction "64 - n" arbitrary: n rule: less_induct)
    case less
    show ?case
    proof (cases "n < 64")
      case True
      then show ?thesis using assms(1) by (intro step [OF less]) simp
    next
      case False
      then show ?thesis by (simp add: bit_word.rep_eq)
    qed
  qed
  then show "bit v n = bit w n" .
qed

lemma odd_mult_inj:
  fixes c i :: "64 word"
  assumes "c * i = 1" and "v * c = w * c"
  shows "v = w"
proof -
  have "v * (c * i) = w * (c * i)" by (simp only: mult.assoc [symmetric] assms(2))
  then show ?thesis by (simp add: assms(1))
qed

lemma multiplier_inverses:
  "gamma * 17428512612931826493 = 1"
  "mix_1 * 10871156337175269513 = 1"
  "mix_2 * 3573116690164977347 = 1"
  by (simp_all add: gamma_def mix_1_def mix_2_def)

lemma mix64_inj: "mix64 v = mix64 w \<Longrightarrow> v = w"
  unfolding mix64_def
  by (drule xorshift_inj [rotated], simp, drule odd_mult_inj [OF multiplier_inverses(3)],
      drule xorshift_inj [rotated], simp, drule odd_mult_inj [OF multiplier_inverses(2)],
      drule xorshift_inj [rotated], simp_all)

lemma mix64_bij: "bij mix64"
  using mix64_inj finite_UNIV_inj_surj [of mix64] by (auto simp: bij_def inj_def)

section \<open>The sequence of outputs\<close>

definition draw_state :: "splitmix \<Rightarrow> nat \<Rightarrow> splitmix" where
  "draw_state s n = ((fst \<circ> next_u64) ^^ n) s"

definition nth_draw :: "splitmix \<Rightarrow> nat \<Rightarrow> 64 word" where
  "nth_draw s n = snd (next_u64 (draw_state s n))"

text \<open>The vectors of \<open>contracts/golden/determinism-v1.json\<close>.\<close>

lemma splitmix_golden:
  "map (nth_draw (new_splitmix 0)) [0..<5] =
     [0xe220a8397b1dcdaf, 0x6e789e6aa1b965f4, 0x06c45d188009454f, 0xf88bb8a8724c81ec, 0x1b39896a51a8749b]"
  "map (nth_draw (new_splitmix 1)) [0..<3] = [0x910a2dec89025cc1, 0xbeeb8da1658eec67, 0xf893a2eefb32555e]"
  by code_simp+

lemma quantize_golden:
  "quantize_metric (9250005 / 10 ^ 7) 6 = Inr 925000" "quantize_metric (9250015 / 10 ^ 7) 6 = Inr 925002"
  by code_simp+

lemma nth_draw_state: "nth_draw s n = mix64 (sm_state (draw_state s (Suc n)))"
  by (simp add: nth_draw_def draw_state_def next_u64_def)

lemma draw_state_Suc: "draw_state s (Suc n) = draw_state (fst (next_u64 s)) n"
  by (simp add: draw_state_def funpow_swap1)

lemma draw_state_eq: "draw_state s n = s\<lparr>sm_state := sm_state s + of_nat n * gamma\<rparr>"
  by (induction n) (simp_all add: draw_state_def next_u64_def algebra_simps)

lemma nth_draw_eq: "nth_draw s n = mix64 (sm_state s + of_nat (Suc n) * gamma)"
  by (simp add: nth_draw_def draw_state_eq next_u64_def algebra_simps)

lemma nth_draw_inj:
  assumes "m < 2 ^ 64" and "n < 2 ^ 64" and "nth_draw s m = nth_draw s n"
  shows "m = n"
proof -
  have "of_nat (Suc m) * gamma = of_nat (Suc n) * gamma"
    using mix64_inj [of "sm_state s + of_nat (Suc m) * gamma" "sm_state s + of_nat (Suc n) * gamma"] assms(3)
    by (simp only: nth_draw_eq add_left_cancel)
  then have "(of_nat (Suc m) :: 64 word) = of_nat (Suc n)" by (rule odd_mult_inj [OF multiplier_inverses(1)])
  then have "(of_nat m :: 64 word) = of_nat n" by simp
  then have "unat (of_nat m :: 64 word) = unat (of_nat n :: 64 word)" by simp
  then show ?thesis using assms(1,2) by (simp add: unat_of_nat)
qed

lemma full_period: "bij_betw (nth_draw s) {..<2 ^ 64} UNIV"
proof -
  have inj: "inj_on (nth_draw s) {..<2 ^ 64}" by (rule inj_onI) (auto intro: nth_draw_inj)
  have "card (nth_draw s ` {..<2 ^ 64}) = card (UNIV :: 64 word set)"
    unfolding card_image [OF inj] by (simp add: card_word)
  then have "nth_draw s ` {..<2 ^ 64} = UNIV" by (intro card_subset_eq) auto
  with inj show ?thesis by (simp add: bij_betw_def)
qed

lemma every_word_drawn:
  obtains n where "n < 2 ^ 64" and "nth_draw s n = w"
proof -
  have "w \<in> nth_draw s ` {..<2 ^ 64}" unfolding bij_betw_imp_surj_on [OF full_period] by simp
  then show thesis using that by blast
qed

lemma period_card: "card {n. n < 2 ^ 64 \<and> P (nth_draw s n)} = card {w. P w}"
proof -
  have "nth_draw s ` {n. n < 2 ^ 64 \<and> P (nth_draw s n)} = {w. P w}" (is "?L = ?R")
  proof (rule subset_antisym)
    show "?L \<subseteq> ?R" by blast
    show "?R \<subseteq> ?L"
    proof
      fix w assume w: "w \<in> ?R"
      obtain n where "n < 2 ^ 64" "nth_draw s n = w" by (rule every_word_drawn)
      with w show "w \<in> ?L" by blast
    qed
  qed
  moreover have "inj_on (nth_draw s) {n. n < 2 ^ 64 \<and> P (nth_draw s n)}"
    using bij_betw_imp_inj_on [OF full_period] by (rule inj_on_subset) blast
  ultimately show ?thesis using card_image by fastforce
qed

section \<open>Rejection sampling\<close>

lemma rejection_limit_bounds:
  assumes "0 < bound" and "bound \<le> 2 ^ 63"
  shows "0 < rejection_limit bound" and "rejection_limit bound \<le> 2 ^ 64"
    and "rejection_limit bound = 2 ^ 64 div bound * bound"
proof -
  have "2 ^ 64 mod bound < bound" "0 \<le> 2 ^ 64 mod bound" using assms(1) by simp_all
  then show "0 < rejection_limit bound" "rejection_limit bound \<le> 2 ^ 64"
    using assms(2) unfolding rejection_limit_def by simp_all
  show "rejection_limit bound = 2 ^ 64 div bound * bound"
    unfolding rejection_limit_def by (rule minus_mod_eq_div_mult)
qed

lemma draw_below_returns:
  assumes "uint (nth_draw s n) < limit"
  shows "\<exists>m \<le> n. uint (nth_draw s m) < limit \<and>
    draw_below limit bound s = Some (draw_state s (Suc m), uint (nth_draw s m) mod bound)"
  using assms
proof (induction n arbitrary: s)
  case 0
  then show ?case
    by (auto simp: nth_draw_def draw_state_def draw_below.simps [of _ _ s] split: prod.splits)
next
  case (Suc n)
  have shift: "nth_draw s (Suc k) = nth_draw (fst (next_u64 s)) k" for k
    by (simp add: nth_draw_def draw_state_Suc)
  show ?case
  proof (cases "uint (nth_draw s 0) < limit")
    case True
    then show ?thesis
      by (intro exI [of _ 0])
        (auto simp: nth_draw_def draw_state_def draw_below.simps [of _ _ s] split: prod.splits)
  next
    case False
    then have "draw_below limit bound s = draw_below limit bound (fst (next_u64 s))"
      by (subst draw_below.simps) (simp add: nth_draw_def draw_state_def case_prod_beta)
    then show ?thesis
      using Suc.IH [of "fst (next_u64 s)"] Suc.prems unfolding shift
      by (metis Suc_le_mono draw_state_Suc shift)
  qed
qed

text \<open>C21. \<open>next_int\<close> terminates for every legal bound and every generator state, within one period of
  the generator, and its value lies in the half-open range below the bound.\<close>

theorem next_int_returns:
  assumes "0 < bound" and "bound \<le> 2 ^ 63"
  shows "\<exists>n v. n < 2 ^ 64 \<and> next_int bound s = Some (draw_state s (Suc n), Inr v) \<and> 0 \<le> v \<and> v < bound"
proof -
  obtain n where n: "n < 2 ^ 64" "nth_draw s n = 0" by (rule every_word_drawn)
  then have "uint (nth_draw s n) < rejection_limit bound"
    using rejection_limit_bounds(1) [OF assms] by simp
  then obtain m where "m \<le> n" "draw_below (rejection_limit bound) bound s =
      Some (draw_state s (Suc m), uint (nth_draw s m) mod bound)"
    using draw_below_returns by blast
  then have "m < 2 ^ 64" and
    draw: "next_int bound s = Some (draw_state s (Suc m), Inr (uint (nth_draw s m) mod bound))"
    using n(1) assms unfolding next_int_def by simp_all
  moreover have "0 \<le> uint (nth_draw s m) mod bound" "uint (nth_draw s m) mod bound < bound" using assms(1) by simp_all
  ultimately show ?thesis by blast
qed

theorem next_int_returns_witness:
  "\<exists>n v. n < 2 ^ 64 \<and> next_int 6 (new_splitmix 42) = Some (draw_state (new_splitmix 42) (Suc n), Inr v)
     \<and> 0 \<le> v \<and> v < 6"
  by (rule next_int_returns [of 6 "new_splitmix 42"]) simp_all

lemma int_div_less:
  fixes c :: int
  assumes "0 < b" and "c < q * b"
  shows "c div b < q"
proof (rule ccontr)
  assume "\<not> c div b < q"
  then have "q * b \<le> c div b * b" using assms(1) by (intro mult_right_mono) auto
  also have "\<dots> \<le> c" using div_mult_mod_eq [of c b] pos_mod_sign [OF assms(1), of c] by linarith
  finally show False using assms(2) by simp
qed

lemma accepted_words:
  assumes "0 < bound" and "bound \<le> 2 ^ 63" and "0 \<le> r" and "r < bound"
  shows "card {w :: 64 word. uint w < rejection_limit bound \<and> uint w mod bound = r} = nat (2 ^ 64 div bound)"
proof -
  let ?q = "2 ^ 64 div bound"
  let ?W = "{w :: 64 word. uint w < rejection_limit bound \<and> uint w mod bound = r}"
  have image: "uint ` ?W = (\<lambda>k. k * bound + r) ` {0..<?q}" (is "?L = ?R")
  proof (intro set_eqI iffI)
    fix c assume "c \<in> ?L"
    then have c: "0 \<le> c" "c < ?q * bound" "c mod bound = r"
      using rejection_limit_bounds(3) [OF assms(1,2)] by auto
    then have "c div bound < ?q" using int_div_less [OF assms(1)] by blast
    moreover have "c = c div bound * bound + r" using div_mult_mod_eq [of c bound] c(3) by simp
    moreover have "0 \<le> c div bound" using c(1) assms(1) by (simp add: pos_imp_zdiv_nonneg_iff)
    ultimately show "c \<in> ?R" by (intro image_eqI [of _ _ "c div bound"]) auto
  next
    fix c assume "c \<in> ?R"
    then obtain k where k: "0 \<le> k" "k < ?q" "c = k * bound + r" by auto
    have "(k + 1) * bound \<le> ?q * bound" using k(2) assms(1) by (intro mult_right_mono) auto
    then have lim: "c < rejection_limit bound"
      using k(3) assms(4) rejection_limit_bounds(3) [OF assms(1,2)] by (simp add: algebra_simps)
    have "0 \<le> c" using k assms(1,3) by simp
    moreover have "c < 2 ^ 64" using lim rejection_limit_bounds(2) [OF assms(1,2)] by linarith
    ultimately have "uint (word_of_int c :: 64 word) = c" by (simp add: uint_word_of_int)
    moreover have "c mod bound = r" using k(3) assms(3,4) by simp
    ultimately show "c \<in> ?L" using lim by (intro image_eqI [of _ _ "word_of_int c"]) auto
  qed
  have inj: "inj_on (\<lambda>k. k * bound + r) {0..<?q}" using assms(1) by (auto simp: inj_on_def)
  have "inj_on uint ?W" by (rule inj_onI) (simp add: word_uint_eq_iff)
  then have "card ?W = card (uint ` ?W)" by (rule card_image [symmetric])
  also have "\<dots> = card {0..<?q}" unfolding image by (rule card_image [OF inj])
  finally show ?thesis by simp
qed

lemma next_int_ends:
  assumes "0 < bound" and "bound \<le> 2 ^ 63"
  shows "(\<exists>t. next_int bound t = Some (draw_state s (Suc n), Inr r)) \<longleftrightarrow>
    uint (nth_draw s n) < rejection_limit bound \<and> uint (nth_draw s n) mod bound = r" (is "?L \<longleftrightarrow> ?R")
proof
  assume ?L
  then obtain t where t: "next_int bound t = Some (draw_state s (Suc n), Inr r)" ..
  obtain k where "nth_draw t k = 0" by (rule every_word_drawn)
  then have "uint (nth_draw t k) < rejection_limit bound" using rejection_limit_bounds(1) [OF assms] by simp
  then obtain m where m: "uint (nth_draw t m) < rejection_limit bound"
    "draw_below (rejection_limit bound) bound t = Some (draw_state t (Suc m), uint (nth_draw t m) mod bound)"
    using draw_below_returns by blast
  with t assms have e: "draw_state t (Suc m) = draw_state s (Suc n)" and r: "uint (nth_draw t m) mod bound = r"
    by (auto simp: next_int_def)
  have "nth_draw t m = nth_draw s n" unfolding nth_draw_state e ..
  with m(1) r show ?R by simp
next
  assume r: ?R
  have "draw_below (rejection_limit bound) bound (draw_state s n) = Some (draw_state s (Suc n), r)"
    using r by (subst draw_below.simps) (auto simp: nth_draw_def draw_state_def split: prod.split)
  with assms show ?L by (intro exI [of _ "draw_state s n"]) (simp add: next_int_def)
qed

text \<open>C22. No modulo bias: the calls of \<open>next_int\<close> that return a value \<open>r\<close> end, over one full period of the
  generator from any state, at exactly \<open>2 ^ 64 div bound\<close> positions, the same number for every \<open>r\<close> below the
  bound.\<close>

theorem next_int_unbiased:
  assumes "0 < bound" and "bound \<le> 2 ^ 63" and "0 \<le> r" and "r < bound"
  shows "card {n. n < 2 ^ 64 \<and> (\<exists>t. next_int bound t = Some (draw_state s (Suc n), Inr r))} = nat (2 ^ 64 div bound)"
  unfolding next_int_ends [OF assms(1,2)]
    period_card [where P = "\<lambda>w. uint w < rejection_limit bound \<and> uint w mod bound = r"]
  by (rule accepted_words [OF assms])

theorem next_int_unbiased_witness:
  "card {n. n < 2 ^ 64 \<and> (\<exists>t. next_int 10 t = Some (draw_state (new_splitmix 7) (Suc n), Inr 3))} = nat (2 ^ 64 div 10)"
  by (rule next_int_unbiased) simp_all

section \<open>Seeds and event ids\<close>

lemma length_int_to_bytes [simp]: "length (int_to_bytes w n) = w"
  by (induction w arbitrary: n) simp_all

lemma int_to_bytes_roundtrip:
  assumes "0 \<le> n" and "n < 256 ^ w"
  shows "int_from_bytes (int_to_bytes w n) = n"
  using assms
proof (induction w arbitrary: n)
  case (Suc w)
  then have "n div 256 < 256 ^ w" by (intro int_div_less) simp_all
  then show ?case using Suc by (simp add: int_from_bytes_def)
qed (simp add: int_from_bytes_def)

lemma int_to_bytes_range: "b \<in> set (int_to_bytes w n) \<Longrightarrow> 0 \<le> b \<and> b < 256"
  by (induction w arbitrary: n) auto

lemma byte_of_char_inject: "map byte_of_char s = map byte_of_char t \<longleftrightarrow> s = t"
  unfolding byte_of_char_def by (simp add: inj_map_eq_map inj_on_def)

lemma foldl_bytes:
  "\<forall>b \<in> set bs. 0 \<le> b \<and> b < (256::int) \<Longrightarrow>
    n * 256 ^ length bs \<le> foldl (\<lambda>n b. n * 256 + b) n bs \<and>
    foldl (\<lambda>n b. n * 256 + b) n bs < (n + 1) * 256 ^ length bs"
proof (induction bs arbitrary: n)
  case (Cons b bs)
  then have "(n * 256 + b) * 256 ^ length bs \<le> foldl (\<lambda>n b. n * 256 + b) (n * 256 + b) bs"
    "foldl (\<lambda>n b. n * 256 + b) (n * 256 + b) bs < (n * 256 + b + 1) * 256 ^ length bs" by simp_all
  moreover have "n * 256 * 256 ^ length bs \<le> (n * 256 + b) * 256 ^ length bs"
    "(n * 256 + b + 1) * 256 ^ length bs \<le> (n + 1) * 256 * 256 ^ length bs"
    using Cons.prems by (intro mult_right_mono; simp)+
  ultimately have "n * 256 * 256 ^ length bs \<le> foldl (\<lambda>n b. n * 256 + b) (n * 256 + b) bs"
    "foldl (\<lambda>n b. n * 256 + b) (n * 256 + b) bs < (n + 1) * 256 * 256 ^ length bs" by linarith+
  then show ?case by (simp only: foldl_Cons list.size power_add power_Suc power_one_right mult.assoc One_nat_def) simp
qed simp

lemma int_from_eight_bytes:
  assumes "\<forall>b \<in> set bs. 0 \<le> b \<and> b < (256::int)"
  shows "0 \<le> int_from_bytes (take 8 bs) \<and> int_from_bytes (take 8 bs) < 2 ^ 64"
proof -
  let ?l = "length (take 8 bs)"
  have "0 * 256 ^ ?l \<le> int_from_bytes (take 8 bs) \<and> int_from_bytes (take 8 bs) < (0 + 1) * 256 ^ ?l"
    unfolding int_from_bytes_def using assms by (intro foldl_bytes) (meson in_set_takeD)
  moreover have "(256::int) ^ ?l \<le> 256 ^ 8" by (intro power_increasing) simp_all
  ultimately show ?thesis by simp
qed

lemma stream_payload_inject:
  assumes "0 \<le> seed" and "seed < 2 ^ 64" and "0 \<le> seed'" and "seed' < 2 ^ 64"
  shows "stream_payload seed name = stream_payload seed' name' \<longleftrightarrow> seed = seed' \<and> name = name'"
proof -
  have "int_to_bytes 8 seed = int_to_bytes 8 seed' \<longleftrightarrow> seed = seed'"
  proof
    assume e: "int_to_bytes 8 seed = int_to_bytes 8 seed'"
    have "int_from_bytes (int_to_bytes 8 seed) = seed" "int_from_bytes (int_to_bytes 8 seed') = seed'"
      using assms by (simp_all add: int_to_bytes_roundtrip)
    with e show "seed = seed'" by metis
  qed simp
  moreover have "(int_to_bytes 8 seed @ map byte_of_char name = int_to_bytes 8 seed' @ map byte_of_char name')
      = (int_to_bytes 8 seed = int_to_bytes 8 seed' \<and> map byte_of_char name = map byte_of_char name')"
    by (rule append_eq_append_conv) (simp only: length_int_to_bytes simp_thms)
  ultimately show ?thesis unfolding stream_payload_def by (simp only: same_append_eq byte_of_char_inject)
qed

text \<open>C24. Domain separation of the stream seeds: two accepted calls hash the same payload only for the
  same root seed and the same stream name, whatever the digest; and if the digest yields bytes the
  derived seed is again an unsigned 64-bit integer, a legal root seed.\<close>

theorem stream_seed_separation:
  assumes "0 \<le> seed" and "seed < 2 ^ 64" and "0 \<le> seed'" and "seed' < 2 ^ 64"
    and "\<And>p. \<forall>b \<in> set (sha256 p). 0 \<le> b \<and> b < 256"
  shows "(stream_payload seed name = stream_payload seed' name' \<longleftrightarrow> seed = seed' \<and> name = name') \<and>
    (\<forall>r. derive_stream_seed sha256 seed name = Inr r \<longrightarrow> 0 \<le> r \<and> r < 2 ^ 64)"
  using stream_payload_inject [OF assms(1-4)] int_from_eight_bytes [OF assms(5)]
  unfolding derive_stream_seed_def by simp

theorem stream_seed_separation_witness:
  "(stream_payload 42 ''noise'' = stream_payload 42 ''maker'' \<longleftrightarrow> (42 :: int) = 42 \<and> ''noise'' = ''maker'') \<and>
    derive_stream_seed (\<lambda>p. replicate 32 255) 42 ''noise'' = Inr 18446744073709551615 \<and>
    0 \<le> (18446744073709551615 :: int) \<and> (18446744073709551615 :: int) < 2 ^ 64"
proof -
  have "derive_stream_seed (\<lambda>p. replicate 32 255) 42 ''noise'' = Inr 18446744073709551615" by code_simp
  then show ?thesis
    using stream_seed_separation [of 42 42 "\<lambda>p. replicate 32 255" "''noise''" "''maker''"] by simp
qed

lemma split_at_colon:
  assumes "CHR '':'' \<notin> set a" and "CHR '':'' \<notin> set b" and "a @ CHR '':'' # x = b @ CHR '':'' # y"
  shows "a = b \<and> x = y"
  using assms
proof (induction a arbitrary: b)
  case Nil
  then show ?case by (cases b) auto
next
  case (Cons c a)
  then show ?case by (cases b) auto
qed

lemma colon_free_lower:
  assumes "CHR '':'' \<notin> set s"
  shows "CHR '':'' \<notin> set (str_lower s)"
proof
  assume "CHR '':'' \<in> set (str_lower s)"
  then obtain c where c: "c \<in> set s" "ascii_lower c = CHR '':''" by (auto simp: str_lower_def)
  have "ascii_lower c = CHR '':'' \<longrightarrow> c = CHR '':''"
  proof (cases "65 \<le> (of_char c :: nat) \<and> (of_char c :: nat) \<le> 90")
    case True
    then have "ascii_lower c = char_of ((of_char c :: nat) + 32)" by (simp add: ascii_lower_def)
    moreover have "of_char (char_of ((of_char c :: nat) + 32)) = (of_char c :: nat) + 32" using True by simp
    ultimately have "97 \<le> (of_char (ascii_lower c) :: nat)" using True by simp
    then show ?thesis by auto
  next
    case False
    then have "ascii_lower c = c" unfolding ascii_lower_def Let_def by (simp only: if_False)
    then show ?thesis by simp
  qed
  with c assms show False by auto
qed

lemma simulation_event_id_ok:
  assumes "simulation_event_id venue event_type n = Inr i"
  shows "i = venue @ CHR '':'' # str_lower event_type @ CHR '':'' # int_dec n"
    and "CHR '':'' \<notin> set venue" and "CHR '':'' \<notin> set event_type"
  using assms
  by (auto simp: simulation_event_id_def check_id_part_def try_bind_def split: if_splits sum.splits)

text \<open>Event ids are unambiguous: two accepted calls give the same id only for the same venue, the
  same sequence number and event types that differ at most in case, because neither part may contain
  the separator.\<close>

theorem simulation_event_id_injective:
  assumes "simulation_event_id venue event_type n = Inr i"
    and "simulation_event_id venue' event_type' n' = Inr i"
  shows "venue = venue' \<and> str_lower event_type = str_lower event_type' \<and> n = n'"
  using split_at_colon [OF simulation_event_id_ok(2) [OF assms(1)] simulation_event_id_ok(2) [OF assms(2)]]
    split_at_colon [OF colon_free_lower [OF simulation_event_id_ok(3) [OF assms(1)]]
      colon_free_lower [OF simulation_event_id_ok(3) [OF assms(2)]]]
    simulation_event_id_ok(1) [OF assms(1)] simulation_event_id_ok(1) [OF assms(2)]
  by (metis int_dec_inject)

theorem simulation_event_id_injective_witness:
  "simulation_event_id ''XNAS'' ''TRADE'' 7 = Inr ''XNAS:trade:7'' \<and>
   simulation_event_id ''XNAS'' ''Trade'' 7 = Inr ''XNAS:trade:7'' \<and>
   ''XNAS'' = ''XNAS'' \<and> str_lower ''TRADE'' = str_lower ''Trade'' \<and> (7::int) = 7"
proof -
  have "simulation_event_id ''XNAS'' ''TRADE'' 7 = Inr ''XNAS:trade:7''"
    "simulation_event_id ''XNAS'' ''Trade'' 7 = Inr ''XNAS:trade:7''" by code_simp+
  then show ?thesis using simulation_event_id_injective by blast
qed

section \<open>Exact unit conversion\<close>

lemma int64_range: "require_int64 v = Inr u \<longleftrightarrow> u = v \<and> - (2 ^ 63) \<le> v \<and> v < 2 ^ 63"
  by (auto simp: require_int64_def)

lemma quotient_near_integer:
  assumes "0 < unit" and "unit \<le> 10 ^ 9" and "\<bar>of_int m - of_int n / of_int unit\<bar> \<le> (1 / (2 * 10 ^ 9) :: rat)"
  shows "n = m * unit"
proof -
  have u: "(0::rat) < of_int unit" "of_int unit \<le> (10::rat) ^ 9" using assms(1,2) by simp_all
  have "\<bar>of_int (m * unit - n)\<bar> = \<bar>of_int m - of_int n / of_int unit\<bar> * (of_int unit :: rat)"
    using u(1) by (simp add: abs_mult [symmetric] field_simps)
  also have "\<dots> \<le> 1 / (2 * 10 ^ 9) * of_int unit" using assms(3) u(1) by (intro mult_right_mono) auto
  also have "\<dots> \<le> 1 / 2" using u(2) by simp
  finally have "of_int \<bar>m * unit - n\<bar> \<le> (1 / 2 :: rat)" by simp
  then have "of_int \<bar>m * unit - n\<bar> < (of_int 1 :: rat)" by simp
  then have "\<bar>m * unit - n\<bar> < 1" unfolding of_int_less_iff .
  then show ?thesis by simp
qed

text \<open>C23. The conversion to integer units is exact for a value of at most nine decimals that has at most 28
  digits when counted in nanos, and a unit of at most one (\<open>10 ^ 9\<close> nanos): it succeeds with \<open>u\<close> exactly when
  the value is \<open>u\<close> units and \<open>u\<close> is a signed 64-bit integer, so nothing is rounded to a unit. Outside this
  range the arithmetic context rounds first; see \<open>inexact_value_accepted\<close> below.\<close>

theorem decimal_to_units_exact:
  assumes "0 < unit" and "unit \<le> 10 ^ 9" and "v * 10 ^ 9 = of_int n" and "\<bar>n\<bar> < 10 ^ 28"
  shows "decimal_to_units shown v unit = Inr u \<longleftrightarrow> n = u * unit \<and> - (2 ^ 63) \<le> u \<and> u < 2 ^ 63"
proof -
  define q :: rat where "q = of_int n / of_int unit"
  define s where "s = dec_round28 q"
  have mul: "dec_mul v (10 ^ 9) = of_int n" unfolding dec_mul_def assms(3) by (rule dec_round28_int [OF assms(4)])
  have units: "decimal_to_units shown v unit = Inr u \<longleftrightarrow> s = of_int (rhe s) \<and> u = rhe s \<and> - (2 ^ 63) \<le> u \<and> u < 2 ^ 63"
    using assms(1) unfolding decimal_to_units_def mul dec_div_def
    by (auto simp: Let_def q_def [symmetric] s_def [symmetric] int64_range)
  have q: "q = of_int u \<longleftrightarrow> n = u * unit"
    using assms(1) unfolding q_def by (simp add: field_simps) (metis of_int_eq_iff of_int_mult)
  show ?thesis
  proof
    assume l: "decimal_to_units shown v unit = Inr u"
    then have su: "s = of_int u" "- (2 ^ 63) \<le> u" "u < 2 ^ 63" unfolding units by auto
    have "\<bar>q\<bar> < 10 ^ 19"
    proof (rule ccontr)
      assume "\<not> \<bar>q\<bar> < 10 ^ 19"
      then have "95 * 10 ^ 17 \<le> \<bar>s\<bar>" using dec_round28_large [of q] by (simp add: s_def)
      then have "of_int (95 * 10 ^ 17) \<le> (of_int \<bar>u\<bar> :: rat)" using su(1) by simp
      then have "95 * 10 ^ 17 \<le> \<bar>u\<bar>" unfolding of_int_le_iff .
      then show False using su(2,3) by simp
    qed
    then have "\<bar>of_int u - q\<bar> \<le> 1 / (2 * 10 ^ 9)" using dec_round28_near [of q] su(1) by (simp add: s_def)
    then have "n = u * unit" unfolding q_def by (rule quotient_near_integer [OF assms(1,2)])
    with su show "n = u * unit \<and> - (2 ^ 63) \<le> u \<and> u < 2 ^ 63" by simp
  next
    assume r: "n = u * unit \<and> - (2 ^ 63) \<le> u \<and> u < 2 ^ 63"
    then have "q = of_int u" using q by simp
    moreover have "\<bar>u\<bar> < 10 ^ 28" using r by auto
    ultimately have "s = of_int u" unfolding s_def by (simp only: dec_round28_int)
    with r show "decimal_to_units shown v unit = Inr u" unfolding units by simp
  qed
qed

theorem decimal_to_units_exact_witness:
  "decimal_to_units ''100.25'' (401 / 4) 10000000 = Inr 10025 \<longleftrightarrow>
    (100250000000 :: int) = 10025 * 10000000 \<and> - (2 ^ 63) \<le> (10025 :: int) \<and> (10025 :: int) < 2 ^ 63"
  by (rule decimal_to_units_exact) simp_all

text \<open>Beyond 28 digits the exactness test no longer sees the value: the scaled product is rounded first,
  so a price of one plus \<open>10 ^ -28\<close> is accepted as one unit.\<close>

theorem inexact_value_accepted:
  "decimal_to_units ''1.0000000000000000000000000001'' (1 + 1 / 10 ^ 28) (10 ^ 9) = Inr 1"
  by code_simp

end
