(* ===== verification/CanonicalHashingProps.thy ===== *)
theory CanonicalHashingProps
  imports CanonicalHashing DeterminismProps
begin

text \<open>
  The canonical encoding is unambiguous. The interface is a \<open>prefix_writer\<close>: what it appends does not
  depend on what was written before, and no encoding is a proper prefix of another. Each method of the
  writer is an instance, sequencing, optional fields and counted lists preserve it, hence so do all
  messages; the digest of a stream then binds the whole sequence of events.
\<close>

section \<open>Self-delimiting writers\<close>

definition writes :: "(canonical_writer \<Rightarrow> py_error + canonical_writer) \<Rightarrow> int list \<Rightarrow> bool" where
  "writes f c \<longleftrightarrow> (\<forall>w. f w = Inr (cw_raw c w))"

definition raises :: "(canonical_writer \<Rightarrow> py_error + canonical_writer) \<Rightarrow> bool" where
  "raises f \<longleftrightarrow> (\<forall>w. \<exists>e. f w = Inl e)"

lemma cw_raw_raw [simp]: "cw_raw d (cw_raw c w) = cw_raw (c @ d) w"
  by (simp add: cw_raw_def)

lemma cw_buffer_raw [simp]: "cw_buffer (cw_raw c w) = cw_buffer w @ c"
  by (simp add: cw_raw_def)

lemma cw_raw_inject [simp]: "cw_raw c w = cw_raw d w \<longleftrightarrow> c = d"
  by (metis cw_buffer_raw same_append_eq)

lemma cw_raw_Nil [simp]: "cw_raw [] w = w"
  by (simp add: cw_raw_def)

lemma writes_Inr [simp]: "writes (\<lambda>w. Inr (cw_raw d w)) c \<longleftrightarrow> c = d"
  by (auto simp: writes_def)

lemma writes_same [simp]: "writes Inr c \<longleftrightarrow> c = []"
  using writes_Inr [of "[]" c] by simp

lemma not_emits_raise [simp]: "\<not> writes (\<lambda>w. Inl e) c"
  by (simp add: writes_def)

lemma raises_raise [simp]: "raises (\<lambda>w. Inl e)"
  by (simp add: raises_def)

lemma writes_start:
  assumes "(\<exists>c. writes f c) \<or> raises f"
  shows "f w = Inr (cw_raw c w) \<longleftrightarrow> writes f c"
  using assms unfolding writes_def raises_def by (metis Inl_Inr_False cw_raw_inject sum.inject(2))

lemma writes_bind:
  assumes f: "(\<exists>c. writes f c) \<or> raises f" and g: "(\<exists>c. writes g c) \<or> raises g"
  shows "writes (\<lambda>w. try_bind (f w) g) c \<longleftrightarrow> (\<exists>a b. writes f a \<and> writes g b \<and> c = a @ b)"
proof
  assume l: "writes (\<lambda>w. try_bind (f w) g) c"
  then have start: "try_bind (f new_writer) g = Inr (cw_raw c new_writer)" by (simp add: writes_def)
  then have "\<not> raises f" unfolding raises_def by (metis Inl_Inr_False try_bind_simps(1))
  then obtain a where a: "writes f a" using f by blast
  then have "g (cw_raw a new_writer) = Inr (cw_raw c new_writer)" using start by (simp add: writes_def)
  moreover from this obtain b where b: "writes g b" using g unfolding raises_def by (metis Inl_Inr_False)
  ultimately have "c = a @ b" by (simp add: writes_def)
  with a b show "\<exists>a b. writes f a \<and> writes g b \<and> c = a @ b" by blast
next
  assume "\<exists>a b. writes f a \<and> writes g b \<and> c = a @ b"
  then obtain a b where "writes f a" "writes g b" "c = a @ b" by blast
  then show "writes (\<lambda>w. try_bind (f w) g) c" by (simp add: writes_def)
qed

lemma raises_bind:
  assumes "(\<exists>c. writes f c) \<or> raises f" and "raises f \<or> raises g"
  shows "raises (\<lambda>w. try_bind (f w) g)"
  unfolding raises_def
proof
  fix w
  show "\<exists>e. try_bind (f w) g = Inl e"
  proof (cases "raises f")
    case True
    then obtain e where "f w = Inl e" unfolding raises_def by blast
    then show ?thesis by simp
  next
    case False
    then obtain c where "f w = Inr (cw_raw c w)" using assms(1) unfolding writes_def by blast
    moreover have "\<exists>e. g (cw_raw c w) = Inl e" using False assms(2) unfolding raises_def by blast
    ultimately show ?thesis by simp
  qed
qed

locale canonical_put =
  fixes put :: "'a \<Rightarrow> canonical_writer \<Rightarrow> py_error + canonical_writer"
  assumes uniform: "(\<exists>c. writes (put x) c) \<or> raises (put x)"

locale prefix_writer = canonical_put put
  for put :: "'a \<Rightarrow> canonical_writer \<Rightarrow> py_error + canonical_writer" +
  fixes key :: "'a \<Rightarrow> 'k"
  assumes prefix_free: "writes (put x) c \<Longrightarrow> writes (put y) d \<Longrightarrow> c @ r = d @ s \<Longrightarrow> key x = key y \<and> r = s"

context canonical_put
begin

lemma put_Inr: "put x w = Inr u \<longleftrightarrow> (\<exists>c. writes (put x) c \<and> u = cw_raw c w)"
  using uniform [of x] unfolding writes_def raises_def by (metis sum.inject(2) Inl_Inr_False)

lemma each_uniform: "(\<exists>c. writes (put_each put xs) c) \<or> raises (put_each put xs)"
proof (induction xs)
  case (Cons x xs)
  have "put_each put (x # xs) = (\<lambda>w. try_bind (put x w) (put_each put xs))" by (rule ext) simp
  then show ?case using writes_bind [OF uniform [of x] Cons] raises_bind [OF uniform [of x]] uniform [of x] Cons by metis
next
  case Nil
  have "put_each put [] = Inr" by (rule ext) simp
  then show ?case by simp
qed

lemma each_emits_Cons:
  "writes (put_each put (x # xs)) c \<longleftrightarrow> (\<exists>a b. writes (put x) a \<and> writes (put_each put xs) b \<and> c = a @ b)"
proof -
  have "put_each put (x # xs) = (\<lambda>w. try_bind (put x w) (put_each put xs))" by (rule ext) simp
  then show ?thesis using writes_bind [OF uniform [of x] each_uniform [of xs]] by metis
qed

end

context prefix_writer
begin

lemma unambiguous: "put x w = Inr u \<Longrightarrow> put y w = Inr u \<Longrightarrow> key x = key y"
  unfolding put_Inr using prefix_free by (metis cw_raw_inject)

lemma each_prefix_free:
  assumes "writes (put_each put xs) c" and "writes (put_each put ys) d" and "length xs = length ys"
    and "c @ r = d @ s"
  shows "map key xs = map key ys \<and> r = s"
  using assms
proof (induction xs arbitrary: ys c d)
  case Nil
  have "put_each put [] = Inr" by (rule ext) simp
  with Nil show ?case by simp
next
  case (Cons x xs)
  from Cons.prems(3) obtain y ys' where ys: "ys = y # ys'" by (cases ys) simp_all
  obtain a b a' b' where e: "writes (put x) a" "writes (put_each put xs) b" "c = a @ b"
    "writes (put y) a'" "writes (put_each put ys') b'" "d = a' @ b'"
    using Cons.prems(1,2) unfolding ys each_emits_Cons by blast
  have "a @ (b @ r) = a' @ (b' @ s)" using Cons.prems(4) e by simp
  then have "key x = key y \<and> b @ r = b' @ s" by (rule prefix_free [OF e(1,4)])
  moreover have "length xs = length ys'" using Cons.prems(3) ys by simp
  ultimately show ?case using Cons.IH [OF e(2,5)] ys by simp
qed

lemma weaken:
  assumes "\<And>x y. key x = key y \<Longrightarrow> h x = h y"
  shows "prefix_writer put h"
  using assms uniform prefix_free by unfold_locales blast+

lemma project: "prefix_writer (\<lambda>m. put (f m)) (\<lambda>m. key (f m))"
  using uniform prefix_free by unfold_locales blast+

end

section \<open>Building writers\<close>

lemma prefix_writer_uniform: "prefix_writer p k \<Longrightarrow> (\<exists>c. writes (p x) c) \<or> raises (p x)"
  unfolding prefix_writer_def canonical_put_def by blast

lemma prefix_writer_bind:
  assumes p: "prefix_writer p k" and q: "prefix_writer q l"
  shows "prefix_writer (\<lambda>m w. try_bind (p m w) (q m)) (\<lambda>m. (k m, l m))" (is "prefix_writer ?b _")
proof unfold_locales
  note up = prefix_writer_uniform [OF p] and uq = prefix_writer_uniform [OF q]
  fix x
  show "(\<exists>c. writes (?b x) c) \<or> raises (?b x)"
    using raises_bind [OF up [of x], of "q x"] up [of x] uq [of x] unfolding writes_bind [OF up uq] by blast
  fix y c d r s
  assume "writes (?b x) c" "writes (?b y) d" and eq: "c @ r = d @ s"
  then obtain a a' b b' where e: "writes (p x) a" "writes (p y) a'" "writes (q x) b" "writes (q y) b'"
    and cd: "c = a @ b" "d = a' @ b'" unfolding writes_bind [OF up uq] by blast
  have "a @ (b @ r) = a' @ (b' @ s)" using eq by (simp add: cd)
  then have "k x = k y" "b @ r = b' @ s" using prefix_writer.prefix_free [OF p e(1,2)] by auto
  then show "(k x, l x) = (k y, l y) \<and> r = s" using prefix_writer.prefix_free [OF q e(3,4)] by auto
qed

lemma prefix_writer_guard:
  assumes "prefix_writer p k"
  shows "prefix_writer (\<lambda>m w. if b m then Inl (e m) else p m w) k" (is "prefix_writer ?g _")
proof unfold_locales
  have writes: "writes (?g m) c \<longleftrightarrow> \<not> b m \<and> writes (p m) c" for m c
    by (cases "b m") (simp_all add: writes_def)
  fix m
  show "(\<exists>c. writes (?g m) c) \<or> raises (?g m)"
    using prefix_writer_uniform [OF assms, of m] unfolding writes by (cases "b m") simp_all
  fix y c d r s
  assume "writes (?g m) c" "writes (?g y) d" "c @ r = d @ s"
  then show "k m = k y \<and> r = s"
    unfolding writes using prefix_writer.prefix_free [OF assms, of m c y d r s] by blast
qed

lemma fixed_length_writer:
  assumes "\<And>x w. put x w = (if bad x then Inl (e x) else Inr (cw_raw (code x) w))"
    and "\<And>x. length (code x) = n"
    and "\<And>x y. \<not> bad x \<Longrightarrow> \<not> bad y \<Longrightarrow> code x = code y \<Longrightarrow> x = y"
  shows "prefix_writer put (\<lambda>x. x)"
proof unfold_locales
  have put: "put x = (if bad x then \<lambda>w. Inl (e x) else (\<lambda>w. Inr (cw_raw (code x) w)))" for x
    by (rule ext) (simp add: assms(1))
  fix x
  show "(\<exists>c. writes (put x) c) \<or> raises (put x)" unfolding put by simp
  fix y c d r s
  assume "writes (put x) c" "writes (put y) d" "c @ r = d @ s"
  then show "x = y \<and> r = s"
    unfolding put using assms(2,3) by (metis append_eq_append_conv writes_Inr not_emits_raise)
qed

section \<open>The writer's methods\<close>

lemma int_from_bytes_mod: "int_from_bytes (int_to_bytes w n) = n mod 256 ^ w"
proof (induction w arbitrary: n)
  case (Suc w)
  have "n mod (256 * 256 ^ w) = 256 * (n div 256 mod 256 ^ w) + n mod 256"
    by (rule zmod_zmult2_eq) simp
  with Suc [of "n div 256"] show ?case by (simp add: int_from_bytes_def)
qed (simp add: int_from_bytes_def)

lemma int_to_bytes_mod_inject: "int_to_bytes w m = int_to_bytes w n \<Longrightarrow> m mod 256 ^ w = n mod 256 ^ w"
  by (metis int_from_bytes_mod)

interpretation boolean_writer: prefix_writer cw_boolean "\<lambda>x. x"
  by (rule fixed_length_writer [where bad = "\<lambda>x. False" and n = 1]) (auto simp: cw_boolean_def split: if_splits)

interpretation u8_writer: prefix_writer cw_u8 "\<lambda>x. x"
  by (rule fixed_length_writer [where n = 1, OF cw_u8_def]) (auto dest!: int_to_bytes_mod_inject)

interpretation u32_writer: prefix_writer cw_u32 "\<lambda>x. x"
  by (rule fixed_length_writer [where n = 4, OF cw_u32_def]) (auto dest!: int_to_bytes_mod_inject)

interpretation u64_writer: prefix_writer cw_u64 "\<lambda>x. x"
  by (rule fixed_length_writer [where n = 8, OF cw_u64_def]) (auto dest!: int_to_bytes_mod_inject)

lemma int64_mod_inject:
  fixes x y :: int
  assumes "x mod 2 ^ 64 = y mod 2 ^ 64" and "- (2 ^ 63) \<le> x" and "x < 2 ^ 63" and "- (2 ^ 63) \<le> y" and "y < 2 ^ 63"
  shows "x = y"
proof -
  have "2 ^ 64 dvd x - y" using assms(1) by (simp only: mod_eq_dvd_iff)
  then obtain k where "x - y = 2 ^ 64 * k" by blast
  moreover have "k \<le> - 1 \<or> k = 0 \<or> 1 \<le> k" by linarith
  ultimately show ?thesis using assms(2-) by (elim disjE) simp_all
qed

interpretation i64_writer: prefix_writer cw_i64 "\<lambda>x. x"
proof (rule fixed_length_writer [where n = 8, OF cw_i64_def])
  fix x y :: int
  assume r: "\<not> (x < - (2 ^ 63) \<or> 2 ^ 63 - 1 < x)" "\<not> (y < - (2 ^ 63) \<or> 2 ^ 63 - 1 < y)"
    and "int_to_bytes 8 x = int_to_bytes 8 y"
  then have "x mod 256 ^ 8 = y mod 256 ^ 8" by (intro int_to_bytes_mod_inject)
  then have "x mod 2 ^ 64 = y mod 2 ^ 64" by simp
  then show "x = y" by (rule int64_mod_inject) (use r in linarith)+
qed (rule length_int_to_bytes)

section \<open>Strings, optional fields and counted lists\<close>

lemma utf8_char_parts:
  obtains h1 l1 h2 l2 h3 l3 where
    "utf8_char c = (if c < 0x80 then [c] else if c < 0x800 then [0xC0 + h1, 0x80 + l1]
       else if c < 0x10000 then [0xE0 + h2, 0x80 + l2, 0x80 + l1] else [0xF0 + h3, 0x80 + l3, 0x80 + l2, 0x80 + l1])"
    and "c = 64 * h1 + l1" and "h1 = 64 * h2 + l2" and "h2 = 64 * h3 + l3"
    and "0 \<le> l1" and "l1 < 64" and "0 \<le> l2" and "l2 < 64" and "0 \<le> l3" and "l3 < 64"
proof (rule that)
  have "c div 4096 = c div 64 div 64" "c div 262144 = c div 4096 div 64"
    using zdiv_zmult2_eq [of 64 c 64] zdiv_zmult2_eq [of 64 c 4096] by (simp_all add: mult.commute)
  then show "c div 64 = 64 * (c div 4096) + c div 64 mod 64" "c div 4096 = 64 * (c div 262144) + c div 4096 mod 64"
    by (simp_all only: mult_div_mod_eq)
  show "c = 64 * (c div 64) + c mod 64" by (simp only: mult_div_mod_eq)
qed (simp_all only: utf8_char_def pos_mod_sign pos_mod_bound zero_less_numeral)

lemma utf8_char_prefix_free:
  assumes c: "is_scalar c" and d: "is_scalar d" and eq: "utf8_char c @ r = utf8_char d @ s"
  shows "c = d \<and> r = s"
proof -
  obtain h1 l1 h2 l2 h3 l3 where C: "utf8_char c = (if c < 0x80 then [c] else if c < 0x800 then [0xC0 + h1, 0x80 + l1]
       else if c < 0x10000 then [0xE0 + h2, 0x80 + l2, 0x80 + l1] else [0xF0 + h3, 0x80 + l3, 0x80 + l2, 0x80 + l1])"
    and cp: "c = 64 * h1 + l1" "h1 = 64 * h2 + l2" "h2 = 64 * h3 + l3"
      "0 \<le> l1" "l1 < 64" "0 \<le> l2" "l2 < 64" "0 \<le> l3" "l3 < 64" by (rule utf8_char_parts)
  obtain k1 m1 k2 m2 k3 m3 where D: "utf8_char d = (if d < 0x80 then [d] else if d < 0x800 then [0xC0 + k1, 0x80 + m1]
       else if d < 0x10000 then [0xE0 + k2, 0x80 + m2, 0x80 + m1] else [0xF0 + k3, 0x80 + m3, 0x80 + m2, 0x80 + m1])"
    and dp: "d = 64 * k1 + m1" "k1 = 64 * k2 + m2" "k2 = 64 * k3 + m3"
      "0 \<le> m1" "m1 < 64" "0 \<le> m2" "m2 < 64" "0 \<le> m3" "m3 < 64" by (rule utf8_char_parts)
  have range: "0 \<le> c" "c < 0x110000" "0 \<le> d" "d < 0x110000" using c d by (simp_all add: is_scalar_def)
  have classes: "x < 0x80 \<or> 0x80 \<le> x \<and> x < 0x800 \<or> 0x800 \<le> x \<and> x < 0x10000 \<or> 0x10000 \<le> x" for x :: int
    by linarith
  show ?thesis
    using classes [of c]
  proof (elim disjE conjE)
    assume "c < 0x80"
    then show ?thesis
      using eq range dp classes [of d] unfolding C D by (elim disjE conjE) simp_all
  next
    assume "0x80 \<le> c" "c < 0x800"
    then show ?thesis
      using eq range cp dp classes [of d] unfolding C D by (elim disjE conjE) simp_all
  next
    assume "0x800 \<le> c" "c < 0x10000"
    then show ?thesis
      using eq range cp dp classes [of d] unfolding C D by (elim disjE conjE) simp_all
  next
    assume "0x10000 \<le> c"
    then show ?thesis
      using eq range cp dp classes [of d] unfolding C D by (elim disjE conjE) simp_all
  qed
qed

lemma utf8_char_nonempty: "utf8_char c \<noteq> []"
  by (simp add: utf8_char_def)

lemma utf8_concat_inject:
  assumes "list_all is_scalar s" and "list_all is_scalar t"
    and "concat (map utf8_char s) = concat (map utf8_char t)"
  shows "s = t"
  using assms
proof (induction s arbitrary: t)
  case Nil
  then show ?case by (cases t) (simp_all add: utf8_char_nonempty)
next
  case (Cons c s)
  obtain d t' where t: "t = d # t'" using Cons.prems(3) by (cases t) (simp_all add: utf8_char_nonempty)
  have "is_scalar c" "is_scalar d" "utf8_char c @ concat (map utf8_char s) = utf8_char d @ concat (map utf8_char t')"
    using Cons.prems by (simp_all add: t)
  from utf8_char_prefix_free [OF this]
  have eq: "c = d" "concat (map utf8_char s) = concat (map utf8_char t')" by blast+
  have "list_all is_scalar s" "list_all is_scalar t'" using Cons.prems(1,2) by (simp_all add: t)
  from Cons.IH [OF this eq(2)] show ?case by (simp only: t eq(1))
qed

lemma utf8_encode_inject: "utf8_encode s = Inr bs \<Longrightarrow> utf8_encode t = Inr bs \<Longrightarrow> s = t"
  unfolding utf8_encode_def using utf8_concat_inject [of s t] by (simp split: if_splits)

lemma cw_string_eq:
  "cw_string nfc s =
     (if nfc s \<noteq> s then \<lambda>w. Inl (ValueError ''canonical strings must already be Unicode NFC'')
      else case utf8_encode s of
          Inl e \<Rightarrow> \<lambda>w. Inl e
        | Inr bs \<Rightarrow> \<lambda>w. try_bind (cw_u32 (int (length bs)) w) (\<lambda>w. Inr (cw_raw bs w)))"
  by (rule ext) (auto simp: cw_string_def split: sum.splits)

lemma string_writes:
  "writes (cw_string nfc s) c \<longleftrightarrow> nfc s = s \<and> (\<exists>bs n. utf8_encode s = Inr bs \<and>
     writes (cw_u32 (int (length bs))) n \<and> c = n @ bs)"
  unfolding cw_string_eq
  by (simp add: writes_bind [OF u32_writer.uniform] split: sum.splits)

interpretation string_writer: prefix_writer "cw_string nfc" "\<lambda>x. x" for nfc
proof unfold_locales
  fix s
  show "(\<exists>c. writes (cw_string nfc s) c) \<or> raises (cw_string nfc s)"
  proof (cases "utf8_encode s")
    case (Inr bs)
    then show ?thesis
      using raises_bind [OF u32_writer.uniform [of "int (length bs)"], of "\<lambda>w. Inr (cw_raw bs w)"]
        u32_writer.uniform [of "int (length bs)"]
      by (auto simp: cw_string_eq writes_bind [OF u32_writer.uniform])
  qed (simp add: cw_string_eq)
  fix t c d r u
  assume "writes (cw_string nfc s) c" "writes (cw_string nfc t) d" and eq: "c @ r = d @ u"
  then obtain bs m ds n where *: "utf8_encode s = Inr bs" "writes (cw_u32 (int (length bs))) m" "c = m @ bs"
    "utf8_encode t = Inr ds" "writes (cw_u32 (int (length ds))) n" "d = n @ ds" unfolding string_writes by blast
  have "m @ (bs @ r) = n @ (ds @ u)" using eq *(3,6) by simp
  then have "int (length bs) = int (length ds) \<and> bs @ r = ds @ u" by (rule u32_writer.prefix_free [OF *(2,5)])
  then have "bs = ds \<and> r = u" by (metis append_eq_append_conv of_nat_eq_iff)
  then show "s = t \<and> r = u" using utf8_encode_inject *(1,4) by blast
qed

lemma cw_optional_eq:
  "cw_optional p v = (case v of None \<Rightarrow> \<lambda>w. Inr (cw_raw [0] w) | Some x \<Rightarrow> \<lambda>w. try_bind (Inr (cw_raw [1] w)) (p x))"
  by (rule ext) (simp add: cw_optional_def cw_boolean_def split: option.splits)

lemma prefix_writer_optional:
  assumes "prefix_writer p k"
  shows "prefix_writer (cw_optional p) (map_option k)"
proof unfold_locales
  note up = prefix_writer_uniform [OF assms]
  have one: "(\<exists>c. writes (\<lambda>w. Inr (cw_raw [1] w)) c) \<or> raises (\<lambda>w. Inr (cw_raw [1] w))" by simp
  have absent: "writes (cw_optional p None) c \<longleftrightarrow> c = [0]" for c by (simp add: cw_optional_eq)
  have present: "writes (cw_optional p (Some x)) c \<longleftrightarrow> (\<exists>b. writes (p x) b \<and> c = 1 # b)" for x c
    unfolding cw_optional_eq option.case writes_bind [OF one up] by simp
  fix v
  show "(\<exists>c. writes (cw_optional p v) c) \<or> raises (cw_optional p v)"
  proof (cases v)
    case None
    then show ?thesis using absent by blast
  next
    case (Some x)
    have "raises (p x) \<Longrightarrow> raises (cw_optional p (Some x))"
      unfolding cw_optional_eq option.case by (intro raises_bind [OF one]) blast
    then show ?thesis using up [of x] present [of x] unfolding Some by blast
  qed
  fix u c d r s
  assume e: "writes (cw_optional p v) c" "writes (cw_optional p u) d" "c @ r = d @ s"
  show "map_option k v = map_option k u \<and> r = s"
  proof (cases v)
    case None
    with e show ?thesis by (cases u) (auto simp: absent present)
  next
    case (Some x)
    with e obtain y where u: "u = Some y" by (cases u) (auto simp: absent present)
    from e obtain b b' where "writes (p x) b" "writes (p y) b'" "b @ r = b' @ s"
      unfolding Some u present by (elim exE conjE) simp
    from prefix_writer.prefix_free [OF assms this] show ?thesis by (simp add: Some u)
  qed
qed

lemma prefix_writer_counted:
  assumes "prefix_writer p k"
  shows "prefix_writer (\<lambda>xs w. try_bind (cw_u32 (int (length xs)) w) (put_each p xs)) (map k)"
    (is "prefix_writer ?b _")
proof unfold_locales
  have put: "canonical_put p" using assms by (rule prefix_writer.axioms)
  note up = canonical_put.each_uniform [OF put] and un = u32_writer.uniform
  fix xs
  show "(\<exists>c. writes (?b xs) c) \<or> raises (?b xs)"
    using raises_bind [OF un, of "int (length xs)" "put_each p xs"] un [of "int (length xs)"] up [of xs]
    unfolding writes_bind [OF un up] by blast
  fix ys c d r s
  assume "writes (?b xs) c" "writes (?b ys) d" and eq: "c @ r = d @ s"
  then obtain m b n b' where e: "writes (cw_u32 (int (length xs))) m" "writes (put_each p xs) b" "c = m @ b"
    "writes (cw_u32 (int (length ys))) n" "writes (put_each p ys) b'" "d = n @ b'"
    unfolding writes_bind [OF un up] by blast
  have "m @ (b @ r) = n @ (b' @ s)" using eq e by simp
  then have "int (length xs) = int (length ys) \<and> b @ r = b' @ s" by (rule u32_writer.prefix_free [OF e(1,4)])
  then have "length xs = length ys" "b @ r = b' @ s" by simp_all
  then show "map k xs = map k ys \<and> r = s" by (rule prefix_writer.each_prefix_free [OF assms e(2,5)])
qed

section \<open>Messages\<close>

lemmas field_writers =
  boolean_writer.prefix_writer_axioms u8_writer.prefix_writer_axioms u32_writer.prefix_writer_axioms
  u64_writer.prefix_writer_axioms i64_writer.prefix_writer_axioms string_writer.prefix_writer_axioms

lemma optional_writers:
  "prefix_writer cw_optional_u64 (\<lambda>x. x)" "prefix_writer cw_optional_i64 (\<lambda>x. x)"
  "prefix_writer (cw_optional_string nfc) (\<lambda>x. x)"
  using prefix_writer_optional [OF u64_writer.prefix_writer_axioms]
    prefix_writer_optional [OF i64_writer.prefix_writer_axioms]
    prefix_writer_optional [OF string_writer.prefix_writer_axioms [of nfc]]
  unfolding cw_optional_u64_def cw_optional_i64_def cw_optional_string_def option.map_ident by simp_all

lemmas fields = field_writers [THEN prefix_writer.project] optional_writers [THEN prefix_writer.project]

interpretation level_writer: prefix_writer "write_price_level nfc" "\<lambda>x. x" for nfc
  unfolding write_price_level_def [abs_def]
  by (rule prefix_writer.weaken, (rule prefix_writer_bind fields)+) simp

interpretation metadata_writer: prefix_writer "write_metadata nfc" "\<lambda>x. x" for nfc
  unfolding write_metadata_def [abs_def]
  by (rule prefix_writer.weaken, (rule prefix_writer_guard prefix_writer_bind fields)+) simp

interpretation order_writer: prefix_writer "write_resting_order nfc" "\<lambda>x. x" for nfc
  unfolding write_resting_order_def [abs_def]
  by (rule prefix_writer.weaken, (rule prefix_writer_bind fields)+) simp

interpretation modify_writer: prefix_writer "write_modify nfc" "\<lambda>x. x" for nfc
  unfolding write_modify_def [abs_def]
  by (rule prefix_writer.weaken, (rule prefix_writer_bind fields)+) simp

interpretation execute_writer: prefix_writer "write_execute nfc" "\<lambda>x. x" for nfc
  unfolding write_execute_def [abs_def]
  by (rule prefix_writer.weaken, (rule prefix_writer_bind fields)+) simp

interpretation levels_writer: prefix_writer "write_levels nfc" "\<lambda>x. x" for nfc
  using prefix_writer_counted [OF level_writer.prefix_writer_axioms [of nfc]]
  unfolding write_levels_def [abs_def] list.map_ident .

lemmas level_fields = levels_writer.prefix_writer_axioms [THEN prefix_writer.project]

interpretation book_writer: prefix_writer "write_book_body nfc" "\<lambda>x. x" for nfc
  unfolding write_book_body_def [abs_def]
  by (rule prefix_writer.weaken, (rule prefix_writer_bind fields level_fields)+) simp

lemmas book_fields = book_writer.prefix_writer_axioms [THEN prefix_writer.project]

interpretation snapshot_writer: prefix_writer "write_snapshot nfc" "\<lambda>x. x" for nfc
  unfolding write_snapshot_def [abs_def]
  by (rule prefix_writer.weaken, (rule prefix_writer_bind fields book_fields)+) simp

definition payload_tag :: "wire_payload \<Rightarrow> int" where
  "payload_tag p = (case p of WireAdd m \<Rightarrow> 1 | WireModify m \<Rightarrow> 2 | WireCancel m \<Rightarrow> 3 | WireExecute m \<Rightarrow> 4
     | WireSnapshot m \<Rightarrow> 5)"

definition write_payload_body :: "(int list \<Rightarrow> int list) \<Rightarrow> wire_payload put" where
  "write_payload_body nfc p = (case p of WireAdd m \<Rightarrow> write_resting_order nfc m | WireModify m \<Rightarrow> write_modify nfc m
     | WireCancel m \<Rightarrow> write_resting_order nfc m | WireExecute m \<Rightarrow> write_execute nfc m
     | WireSnapshot m \<Rightarrow> write_snapshot nfc m)"

lemma write_payload_eq:
  "write_payload nfc p = (case p of
     None \<Rightarrow> \<lambda>w. Inl (ValueError ''exchange event must contain exactly one supported payload'')
   | Some q \<Rightarrow> \<lambda>w. try_bind (cw_u8 (payload_tag q) w) (write_payload_body nfc q))"
  by (rule ext) (simp add: write_payload_def payload_tag_def write_payload_body_def split: option.splits wire_payload.splits)

lemma payload_body_uniform:
  "(\<exists>c. writes (write_payload_body nfc p) c) \<or> raises (write_payload_body nfc p)"
  unfolding write_payload_body_def
  by (cases p) (simp_all only: wire_payload.case order_writer.uniform modify_writer.uniform
      execute_writer.uniform snapshot_writer.uniform)

lemma payload_body_prefix_free:
  assumes "payload_tag p = payload_tag q" and "writes (write_payload_body nfc p) c"
    and "writes (write_payload_body nfc q) d" and "c @ r = d @ s"
  shows "p = q \<and> r = s"
  using assms order_writer.prefix_free [OF _ _ assms(4)] modify_writer.prefix_free [OF _ _ assms(4)]
    execute_writer.prefix_free [OF _ _ assms(4)] snapshot_writer.prefix_free [OF _ _ assms(4)]
  by (cases p; cases q) (simp_all add: write_payload_body_def payload_tag_def)

interpretation payload_writer: prefix_writer "write_payload nfc" "\<lambda>x. x" for nfc
proof unfold_locales
  fix p
  show "(\<exists>c. writes (write_payload nfc p) c) \<or> raises (write_payload nfc p)"
  proof (cases p)
    case (Some q)
    then show ?thesis
      using raises_bind [OF u8_writer.uniform [of "payload_tag q"], of "write_payload_body nfc q"]
        u8_writer.uniform [of "payload_tag q"] payload_body_uniform [of nfc q]
      unfolding write_payload_eq Some option.case writes_bind [OF u8_writer.uniform payload_body_uniform] by blast
  qed (simp add: write_payload_eq)
  fix q c d r s
  assume e: "writes (write_payload nfc p) c" "writes (write_payload nfc q) d" and eq: "c @ r = d @ s"
  then obtain x y where xy: "p = Some x" "q = Some y" by (cases p; cases q) (simp_all add: write_payload_eq)
  from e obtain a b a' b' where f: "writes (cw_u8 (payload_tag x)) a" "writes (write_payload_body nfc x) b" "c = a @ b"
    "writes (cw_u8 (payload_tag y)) a'" "writes (write_payload_body nfc y) b'" "d = a' @ b'"
    unfolding write_payload_eq xy option.case writes_bind [OF u8_writer.uniform payload_body_uniform] by blast
  have "a @ (b @ r) = a' @ (b' @ s)" using eq f by simp
  then have t: "payload_tag x = payload_tag y \<and> b @ r = b' @ s" by (rule u8_writer.prefix_free [OF f(1,4)])
  show "p = q \<and> r = s" unfolding xy using payload_body_prefix_free [OF conjunct1 [OF t] f(2,5) conjunct2 [OF t]] by simp
qed

interpretation event_writer: prefix_writer "write_event nfc" "\<lambda>x. x" for nfc
  unfolding write_event_def [abs_def]
  by (rule prefix_writer.weaken, (rule prefix_writer_bind metadata_writer.prefix_writer_axioms [THEN prefix_writer.project]
      payload_writer.prefix_writer_axioms [THEN prefix_writer.project])+) simp

section \<open>Canonical bytes\<close>

lemma canonical_event_bytes_Inr:
  "canonical_event_bytes nfc e = Inr bs \<longleftrightarrow> (\<exists>c. writes (write_event nfc e) c \<and> bs = event_domain @ c)"
  unfolding canonical_event_bytes_def try_bind_Inr event_writer.put_Inr
  by (auto simp: new_writer_def)

lemma canonical_book_bytes_Inr:
  "canonical_book_bytes nfc b = Inr bs \<longleftrightarrow> (\<exists>c. writes (write_book_body nfc b) c \<and> bs = book_domain @ c)"
  unfolding canonical_book_bytes_def try_bind_Inr book_writer.put_Inr
  by (auto simp: new_writer_def)

lemma event_bytes_inject:
  assumes "canonical_event_bytes nfc e = Inr bs" and "canonical_event_bytes nfc e' = Inr bs"
  shows "e = e'"
proof -
  obtain c d where "writes (write_event nfc e) c" "writes (write_event nfc e') d" "c @ [] = d @ []"
    using assms unfolding canonical_event_bytes_Inr by auto
  then show ?thesis using event_writer.prefix_free by blast
qed

lemma book_bytes_inject:
  assumes "canonical_book_bytes nfc b = Inr bs" and "canonical_book_bytes nfc b' = Inr bs"
  shows "b = b'"
proof -
  obtain c d where "writes (write_book_body nfc b) c" "writes (write_book_body nfc b') d" "c @ [] = d @ []"
    using assms unfolding canonical_book_bytes_Inr by auto
  then show ?thesis using book_writer.prefix_free by blast
qed

lemma domains_differ:
  "stream_init_domain @ x \<noteq> stream_step_domain @ y" "event_domain @ x \<noteq> book_domain @ y"
  "event_domain @ x \<noteq> stream_step_domain @ y" "event_domain @ x \<noteq> stream_init_domain @ y"
  by (simp_all add: stream_init_domain_def stream_step_domain_def event_domain_def book_domain_def byte_of_char_def)

text \<open>C25. The canonical encoding is unambiguous: two events, or two books, with the same canonical bytes are
  equal in every field, presence of optional fields included; and the bytes of an event are never the
  bytes of a book or an input of the stream digest.\<close>

theorem canonical_bytes_unambiguous:
  assumes "canonical_event_bytes nfc e = Inr bs"
  shows "(canonical_event_bytes nfc e' = Inr bs \<longleftrightarrow> e' = e) \<and> canonical_book_bytes nfc b \<noteq> Inr bs \<and>
    bs \<noteq> stream_init_domain @ x \<and> bs \<noteq> stream_step_domain @ x"
proof (intro conjI)
  show "canonical_event_bytes nfc e' = Inr bs \<longleftrightarrow> e' = e" using assms event_bytes_inject [of nfc e' bs e] by blast
  obtain c where bs: "bs = event_domain @ c" using assms unfolding canonical_event_bytes_Inr by blast
  show "canonical_book_bytes nfc b \<noteq> Inr bs"
    unfolding canonical_book_bytes_Inr bs using domains_differ(2) by simp
  show "bs \<noteq> stream_init_domain @ x" "bs \<noteq> stream_step_domain @ x" unfolding bs by (rule domains_differ)+
qed

text \<open>The first event of \<open>contracts/golden/hashing-v1.json\<close> and its canonical bytes.\<close>

definition ascii_text :: "string \<Rightarrow> int list" where
  "ascii_text = map byte_of_char"

definition golden_event :: wire_event where
  "golden_event = \<lparr>we_metadata = \<lparr>wm_schema_version = 1, wm_event_id = ascii_text ''SIM:event:1'', wm_sequence = 1,
       wm_source = 1, wm_source_sequence = None, wm_symbol = ascii_text ''LOB'', wm_venue = ascii_text ''SIM'',
       wm_tick = Some 7, wm_exchange_timestamp_ns = None, wm_received_timestamp_ns = None,
       wm_scenario_id = Some (ascii_text ''scenario-1''), wm_scenario_name = Some (ascii_text ''spoofing_like_wall''),
       wm_scenario_family = Some (ascii_text ''spoofing_like_wall'')\<rparr>,
     we_payload = Some (WireAdd \<lparr>wo_order_id = ascii_text ''o1'', wo_agent_id = ascii_text ''maker'', wo_side = 1,
       wo_price_ticks = 99, wo_quantity_lots = 5, wo_owner = ascii_text ''normal''\<rparr>)\<rparr>"

definition golden_bytes :: "int list" where
  "golden_bytes = [76, 79, 66, 45, 69, 86, 69, 78, 84, 45, 86, 49, 0, 0, 0, 0, 1, 0, 0, 0, 11, 83, 73, 77, 58, 101, 118, 101,
      110, 116, 58, 49, 0, 0, 0, 0, 0, 0, 0, 1, 1, 0, 0, 0, 0, 3, 76, 79, 66, 0, 0, 0, 3, 83, 73, 77,
      1, 0, 0, 0, 0, 0, 0, 0, 7, 0, 0, 1, 0, 0, 0, 10, 115, 99, 101, 110, 97, 114, 105, 111, 45, 49, 1, 0,
      0, 0, 18, 115, 112, 111, 111, 102, 105, 110, 103, 95, 108, 105, 107, 101, 95, 119, 97, 108, 108, 1, 0, 0, 0, 18, 115, 112,
      111, 111, 102, 105, 110, 103, 95, 108, 105, 107, 101, 95, 119, 97, 108, 108, 1, 0, 0, 0, 2, 111, 49, 0, 0, 0, 5, 109,
      97, 107, 101, 114, 1, 0, 0, 0, 0, 0, 0, 0, 99, 0, 0, 0, 0, 0, 0, 0, 5, 0, 0, 0, 6, 110, 111, 114,
      109, 97, 108]"

lemma try_bind_weak_cong: "m = m' \<Longrightarrow> try_bind m f = try_bind m' f"
  by simp

lemma int_to_bytes_widths:
  "int_to_bytes 1 n = [n mod 256]"
  "int_to_bytes 4 n = [n div 16777216 mod 256, n div 65536 mod 256, n div 256 mod 256, n mod 256]"
  "int_to_bytes 8 n = [n div 256 ^ 7 mod 256, n div 256 ^ 6 mod 256, n div 256 ^ 5 mod 256, n div 256 ^ 4 mod 256,
     n div 16777216 mod 256, n div 65536 mod 256, n div 256 mod 256, n mod 256]"
  by (simp_all add: eval_nat_numeral zdiv_zmult2_eq [symmetric])

lemmas evaluate_writer =
  cw_boolean_def cw_u8_def cw_u32_def cw_u64_def cw_i64_def cw_string_def cw_optional_def cw_optional_u64_def
  cw_optional_i64_def cw_optional_string_def int_to_bytes_widths utf8_encode_def is_scalar_def utf8_char_def
  ascii_text_def byte_of_char_def

lemma golden_event_bytes: "canonical_event_bytes (\<lambda>s. s) golden_event = Inr golden_bytes"
  by (simp add: canonical_event_bytes_def write_event_def write_metadata_def write_payload_def
      write_resting_order_def golden_event_def golden_bytes_def event_domain_def new_writer_def evaluate_writer
      cong: try_bind_weak_cong)

theorem canonical_bytes_unambiguous_witness:
  "\<forall>e b x. (canonical_event_bytes (\<lambda>s. s) e = Inr golden_bytes \<longleftrightarrow> e = golden_event) \<and>
    canonical_book_bytes (\<lambda>s. s) b \<noteq> Inr golden_bytes \<and>
    golden_bytes \<noteq> stream_init_domain @ x \<and> golden_bytes \<noteq> stream_step_domain @ x"
  using canonical_bytes_unambiguous [OF golden_event_bytes] by blast

section \<open>The stream digest\<close>

lemma stream_steps_snoc:
  "stream_steps sha256 nfc v (es @ [e]) d k = Inr h \<longleftrightarrow>
     (\<exists>d' bs. stream_steps sha256 nfc v es d k = Inr d' \<and> wm_schema_version (we_metadata e) = v \<and>
        wm_sequence (we_metadata e) = k + int (length es) \<and> canonical_event_bytes nfc e = Inr bs \<and>
        length d' = 32 \<and> length (sha256 bs) = 32 \<and> h = sha256 (stream_step_domain @ d' @ sha256 bs))"
proof (induction es arbitrary: d k)
  case Nil
  show ?case
    by (auto simp: try_bind_Inr event_hash_def advance_stream_hash_def sha256_size_def)
next
  case (Cons x es)
  show ?case
    by (auto simp: try_bind_Inr Cons.IH algebra_simps split: if_splits)
qed

text \<open>What the computation feeds to the digest function.\<close>

definition init_payload :: "int \<Rightarrow> int list" where
  "init_payload v = stream_init_domain @ int_to_bytes 4 v"

fun step_payloads ::
  "(int list \<Rightarrow> int list) \<Rightarrow> (int list \<Rightarrow> int list) \<Rightarrow> wire_event list \<Rightarrow> int list \<Rightarrow> int list list" where
  "step_payloads sha256 nfc [] d = []"
| "step_payloads sha256 nfc (e # es) d =
     (case canonical_event_bytes nfc e of
        Inl err \<Rightarrow> []
      | Inr bs \<Rightarrow> let p = stream_step_domain @ d @ sha256 bs in bs # p # step_payloads sha256 nfc es (sha256 p))"

definition hashed_payloads ::
  "(int list \<Rightarrow> int list) \<Rightarrow> (int list \<Rightarrow> int list) \<Rightarrow> wire_event list \<Rightarrow> int \<Rightarrow> int list list" where
  "hashed_payloads sha256 nfc es v = init_payload v # step_payloads sha256 nfc es (sha256 (init_payload v))"

lemma step_payloads_snoc:
  assumes "stream_steps sha256 nfc v es d k = Inr d'" and "canonical_event_bytes nfc e = Inr bs"
  shows "step_payloads sha256 nfc (es @ [e]) d =
    step_payloads sha256 nfc es d @ [bs, stream_step_domain @ d' @ sha256 bs]"
  using assms(1)
proof (induction es arbitrary: d k)
  case Nil
  then show ?case using assms(2) by simp
next
  case (Cons x es)
  then show ?case
    by (auto simp: try_bind_Inr event_hash_def advance_stream_hash_def Let_def split: if_splits)
qed

lemma initial_stream_hash_Inr:
  "initial_stream_hash sha256 v = Inr h \<longleftrightarrow> 0 \<le> v \<and> v < 2 ^ 32 \<and> h = sha256 (init_payload v)"
  by (auto simp: initial_stream_hash_def cw_u32_def init_payload_def new_writer_def cw_raw_def)

lemma init_differs_from_step: "init_payload v \<noteq> stream_step_domain @ y"
  unfolding init_payload_def by (rule domains_differ(1))

lemma stream_last_step:
  assumes "stream_steps sha256 nfc v (es @ [e]) d k = Inr h"
  obtains d' bs where "stream_steps sha256 nfc v es d k = Inr d'" and "canonical_event_bytes nfc e = Inr bs"
    and "h = sha256 (stream_step_domain @ d' @ sha256 bs)" and "length d' = 32"
    and "step_payloads sha256 nfc (es @ [e]) d =
      step_payloads sha256 nfc es d @ [bs, stream_step_domain @ d' @ sha256 bs]"
proof -
  obtain d' bs where *: "stream_steps sha256 nfc v es d k = Inr d'" "canonical_event_bytes nfc e = Inr bs"
    "h = sha256 (stream_step_domain @ d' @ sha256 bs)" "length d' = 32"
    using assms unfolding stream_steps_snoc by blast
  show thesis by (rule that [OF * step_payloads_snoc [OF *(1,2)]])
qed

lemma stream_never_initial:
  assumes "stream_steps sha256 nfc v (es @ [e]) d k = Inr (sha256 (init_payload u))"
    and "inj_on sha256 S" and "set (step_payloads sha256 nfc (es @ [e]) d) \<subseteq> S" and "init_payload u \<in> S"
  shows False
proof -
  obtain d' bs where *: "sha256 (init_payload u) = sha256 (stream_step_domain @ d' @ sha256 bs)"
    "step_payloads sha256 nfc (es @ [e]) d = step_payloads sha256 nfc es d @ [bs, stream_step_domain @ d' @ sha256 bs]"
    using assms(1) by (rule stream_last_step)
  have "stream_step_domain @ d' @ sha256 bs \<in> S" using assms(3) unfolding *(2) by simp
  then have "init_payload u = stream_step_domain @ d' @ sha256 bs" by (rule inj_onD [OF assms(2) *(1) assms(4)])
  then show False using init_differs_from_step by blast
qed

lemma stream_steps_binding:
  assumes "stream_steps sha256 nfc v es (sha256 (init_payload v)) 1 = Inr h"
    and "stream_steps sha256 nfc v' es' (sha256 (init_payload v')) 1 = Inr h"
    and "inj_on sha256 S" and "init_payload v \<in> S" and "init_payload v' \<in> S"
    and "set (step_payloads sha256 nfc es (sha256 (init_payload v))) \<subseteq> S"
    and "set (step_payloads sha256 nfc es' (sha256 (init_payload v'))) \<subseteq> S"
  shows "init_payload v = init_payload v' \<and> es = es'"
  using assms(1,2,6,7)
proof (induction es arbitrary: es' h rule: rev_induct)
  case Nil
  then have h: "h = sha256 (init_payload v)" by simp
  show ?case
  proof (cases es' rule: rev_cases)
    case Nil
    then have "sha256 (init_payload v) = sha256 (init_payload v')" using \<open>stream_steps _ _ _ es' _ _ = _\<close> h by simp
    then show ?thesis using inj_onD [OF assms(3) _ assms(4,5)] Nil by blast
  next
    case (snoc fs f)
    have False
      by (rule stream_never_initial [OF _ assms(3) _ assms(4)])
        (use \<open>stream_steps _ _ _ es' _ _ = _\<close> \<open>set (step_payloads _ _ es' _) \<subseteq> S\<close> h snoc in blast)+
    then show ?thesis ..
  qed
next
  case (snoc e es)
  obtain d bs where 1: "stream_steps sha256 nfc v es (sha256 (init_payload v)) 1 = Inr d"
    "canonical_event_bytes nfc e = Inr bs" "h = sha256 (stream_step_domain @ d @ sha256 bs)" "length d = 32"
    "step_payloads sha256 nfc (es @ [e]) (sha256 (init_payload v)) =
      step_payloads sha256 nfc es (sha256 (init_payload v)) @ [bs, stream_step_domain @ d @ sha256 bs]"
    using snoc.prems(1) by (rule stream_last_step)
  show ?case
  proof (cases es' rule: rev_cases)
    case Nil
    then have "stream_steps sha256 nfc v (es @ [e]) (sha256 (init_payload v)) 1 = Inr (sha256 (init_payload v'))"
      using snoc.prems(1,2) by simp
    then show ?thesis using stream_never_initial [OF _ assms(3) snoc.prems(3) assms(5)] by blast
  next
    case es': (snoc fs f)
    obtain d' bs' where 2: "stream_steps sha256 nfc v' fs (sha256 (init_payload v')) 1 = Inr d'"
      "canonical_event_bytes nfc f = Inr bs'" "h = sha256 (stream_step_domain @ d' @ sha256 bs')" "length d' = 32"
      "step_payloads sha256 nfc (fs @ [f]) (sha256 (init_payload v')) =
        step_payloads sha256 nfc fs (sha256 (init_payload v')) @ [bs', stream_step_domain @ d' @ sha256 bs']"
      using snoc.prems(2) unfolding es' by (rule stream_last_step)
    have mem: "bs \<in> S" "stream_step_domain @ d @ sha256 bs \<in> S" "bs' \<in> S" "stream_step_domain @ d' @ sha256 bs' \<in> S"
      using snoc.prems(3,4) unfolding es' 1(5) 2(5) by simp_all
    have "sha256 (stream_step_domain @ d @ sha256 bs) = sha256 (stream_step_domain @ d' @ sha256 bs')"
      using 1(3) 2(3) by simp
    from inj_onD [OF assms(3) this mem(2,4)] have eq: "d = d'" "sha256 bs = sha256 bs'" using 1(4) 2(4) by simp_all
    have "bs = bs'" by (rule inj_onD [OF assms(3) eq(2) mem(1,3)])
    then have "e = f" using event_bytes_inject 1(2) 2(2) by blast
    moreover have "init_payload v = init_payload v' \<and> es = fs"
      by (rule snoc.IH [OF 1(1)]) (use 2(1) eq(1) snoc.prems(3,4) in \<open>simp_all add: es' 1(5) 2(5)\<close>)
    ultimately show ?thesis by (simp add: es')
  qed
qed

text \<open>C26. The stream digest binds the stream: two accepted computations with the same final digest are over
  the same contract version and the same events in the same order, provided the digest function has no
  collision among the inputs these two computations feed it.\<close>

theorem stream_hash_binds_events:
  assumes "event_stream_hash sha256 nfc es v = Inr h" and "event_stream_hash sha256 nfc es' v' = Inr h"
    and "inj_on sha256 (set (hashed_payloads sha256 nfc es v) \<union> set (hashed_payloads sha256 nfc es' v'))"
  shows "v = v' \<and> es = es'"
proof -
  have v: "0 \<le> v" "v < 2 ^ 32" "stream_steps sha256 nfc v es (sha256 (init_payload v)) 1 = Inr h"
    "0 \<le> v'" "v' < 2 ^ 32" "stream_steps sha256 nfc v' es' (sha256 (init_payload v')) 1 = Inr h"
    using assms(1,2) by (auto simp: event_stream_hash_def try_bind_Inr initial_stream_hash_Inr)
  have "init_payload v = init_payload v' \<and> es = es'"
    by (rule stream_steps_binding [OF v(3,6) assms(3)]) (auto simp: hashed_payloads_def)
  moreover from this have "v mod 256 ^ 4 = v' mod 256 ^ 4"
    unfolding init_payload_def by (intro int_to_bytes_mod_inject) simp
  then have "v = v'" using v by simp
  ultimately show ?thesis by simp
qed

definition length_digest :: "int list \<Rightarrow> int list" where
  "length_digest p = int_to_bytes 32 (int (length p))"

lemma length_digest_length [simp]: "length (length_digest p) = 32"
  by (simp add: length_digest_def)

lemma golden_stream:
  "event_stream_hash length_digest (\<lambda>s. s) [golden_event] 1 =
     Inr (length_digest (stream_step_domain @ length_digest (init_payload 1) @ length_digest golden_bytes))"
  "hashed_payloads length_digest (\<lambda>s. s) [golden_event] 1 =
     [init_payload 1, golden_bytes, stream_step_domain @ length_digest (init_payload 1) @ length_digest golden_bytes]"
proof -
  have "wm_schema_version (we_metadata golden_event) = 1" "wm_sequence (we_metadata golden_event) = 1"
    by (simp_all add: golden_event_def)
  moreover have "initial_stream_hash length_digest 1 = Inr (length_digest (init_payload 1))"
    by (simp add: initial_stream_hash_Inr)
  ultimately show "event_stream_hash length_digest (\<lambda>s. s) [golden_event] 1 =
     Inr (length_digest (stream_step_domain @ length_digest (init_payload 1) @ length_digest golden_bytes))"
    by (simp add: event_stream_hash_def event_hash_def golden_event_bytes advance_stream_hash_def sha256_size_def)
qed (simp add: hashed_payloads_def golden_event_bytes Let_def)

lemma golden_lengths:
  "length (init_payload 1) = 23" "length golden_bytes = 171"
  "length (stream_step_domain @ length_digest p @ length_digest q) = 83"
  by (simp_all add: init_payload_def stream_init_domain_def stream_step_domain_def golden_bytes_def)

theorem stream_hash_binds_events_witness:
  "\<exists>h. event_stream_hash length_digest (\<lambda>s. s) [golden_event] 1 = Inr h \<and>
    (1 :: int) = 1 \<and> [golden_event] = [golden_event]"
proof -
  have "length_digest p = length_digest q \<longleftrightarrow> length p = length q" if "length p < 256" "length q < 256" for p q
    using int_to_bytes_mod_inject [of 32 "int (length p)" "int (length q)"] that
    by (auto simp: length_digest_def mod_pos_pos_trivial)
  then have "inj_on length_digest (set (hashed_payloads length_digest (\<lambda>s. s) [golden_event] 1) \<union>
      set (hashed_payloads length_digest (\<lambda>s. s) [golden_event] 1))"
    unfolding golden_stream(2) using golden_lengths by (simp add: inj_on_def)
  from stream_hash_binds_events [OF golden_stream(1) golden_stream(1) this] golden_stream(1) show ?thesis by blast
qed

text \<open>A stream is hashed exactly when the version fits 32 bits and the events are numbered 1, 2, ... under
  that version and each has canonical bytes, given that digests have 32 bytes; otherwise the computation
  raises.\<close>

theorem stream_hash_accepts:
  assumes "\<And>p. length (sha256 p) = 32"
  shows "(\<exists>h. event_stream_hash sha256 nfc es v = Inr h) \<longleftrightarrow>
    0 \<le> v \<and> v < 2 ^ 32 \<and> (\<forall>i < length es. wm_schema_version (we_metadata (es ! i)) = v \<and>
      wm_sequence (we_metadata (es ! i)) = int i + 1 \<and> (\<exists>bs. canonical_event_bytes nfc (es ! i) = Inr bs))"
proof -
  have "length d = 32 \<Longrightarrow> (\<exists>h. stream_steps sha256 nfc v es d k = Inr h) \<longleftrightarrow>
    (\<forall>i < length es. wm_schema_version (we_metadata (es ! i)) = v \<and>
      wm_sequence (we_metadata (es ! i)) = int i + k \<and> (\<exists>bs. canonical_event_bytes nfc (es ! i) = Inr bs))" for d k
  proof (induction es arbitrary: d k)
    case (Cons e es)
    have "(\<exists>h. stream_steps sha256 nfc v (e # es) d k = Inr h) \<longleftrightarrow>
        wm_schema_version (we_metadata e) = v \<and> wm_sequence (we_metadata e) = k \<and>
        (\<exists>bs. canonical_event_bytes nfc e = Inr bs \<and>
          (\<exists>h. stream_steps sha256 nfc v es (sha256 (stream_step_domain @ d @ sha256 bs)) (k + 1) = Inr h))"
      using Cons.prems assms by (auto simp: try_bind_Inr event_hash_def advance_stream_hash_def sha256_size_def)
    then show ?case
      unfolding Cons.IH [OF assms] by (simp add: All_less_Suc2 algebra_simps)
  qed simp
  from this [OF assms [of "init_payload v"], of 1] show ?thesis
    by (auto simp: event_stream_hash_def try_bind_Inr initial_stream_hash_Inr)
qed

theorem stream_hash_accepts_witness:
  "(\<exists>h. event_stream_hash length_digest (\<lambda>s. s) [golden_event, golden_event] 1 = Inr h) \<longleftrightarrow>
    0 \<le> (1 :: int) \<and> (1 :: int) < 2 ^ 32 \<and> (\<forall>i < length [golden_event, golden_event].
      wm_schema_version (we_metadata ([golden_event, golden_event] ! i)) = 1 \<and>
      wm_sequence (we_metadata ([golden_event, golden_event] ! i)) = int i + 1 \<and>
      (\<exists>bs. canonical_event_bytes (\<lambda>s. s) ([golden_event, golden_event] ! i) = Inr bs))"
  by (rule stream_hash_accepts) (simp add: length_digest_def)

end
