(* ===== verification/FeatureModels.thy ===== *)
theory FeatureModels
  imports ExchangeSchemas "HOL-Library.Product_Lexorder"
begin

text \<open>
  The models of the feature pipeline, \<open>backend/app/features/models.py\<close>: the window configuration, the
  provenance of a run, and the ground-truth labels with \<open>assign_label\<close>. The constraints pydantic checks
  on a single field (lengths, ranges, literals) are not repeated here; the validators the file itself
  defines are.
\<close>

section \<open>Configuration and provenance\<close>

record feature_pipeline_config =
  fp_schema_version :: string
  fp_short_window_ns :: int
  fp_long_window_ns :: int
  fp_depth_levels :: int
  fp_zscore_min_periods :: int
  fp_rapid_cancel_ns :: int
  fp_replenishment_ns :: int
  fp_burst_gap_ns :: int
  fp_large_order_quantity :: rat
  fp_wall_size_multiple :: rat
  fp_layering_min_levels :: int
  fp_fail_on_invalid_rows :: bool

definition validate_windows :: "feature_pipeline_config \<Rightarrow> py_error + feature_pipeline_config" where
  "validate_windows c =
     (if fp_long_window_ns c \<le> fp_short_window_ns c
      then Inl (ValueError ''short_window_ns must be smaller than long_window_ns'')
      else case find (\<lambda>(name, v). fp_long_window_ns c < v)
          [(''rapid_cancel_ns'', fp_rapid_cancel_ns c), (''replenishment_ns'', fp_replenishment_ns c),
           (''burst_gap_ns'', fp_burst_gap_ns c)] of
        Some (name, _) \<Rightarrow> Inl (ValueError (name @ '' must not exceed long_window_ns''))
      | None \<Rightarrow> Inr c)"

datatype source_type = LobsterSource | ItchSource | SyntheticSource | HybridSource

record feature_run_metadata =
  fr_run_id :: string
  fr_dataset_id :: "string option"
  fr_source_type :: source_type
  fr_historical_source_type :: "source_type option"
  fr_instrument :: string
  fr_venue :: string
  fr_session_id :: string
  fr_session_date :: string
  fr_seed :: "int option"
  fr_price_tick_size :: rat
  fr_quantity_lot_size :: rat
  fr_tick_interval_ns :: int

definition validate_source_provenance :: "feature_run_metadata \<Rightarrow> py_error + feature_run_metadata" where
  "validate_source_provenance m =
     (let historical = fr_source_type m \<in> {LobsterSource, ItchSource} in
      if historical \<and> fr_historical_source_type m \<notin> {None, Some (fr_source_type m)}
      then Inl (ValueError ''historical feature source provenance is inconsistent'')
      else
        let m' = (if historical \<and> fr_historical_source_type m = None
                  then m\<lparr>fr_historical_source_type := Some (fr_source_type m)\<rparr> else m)
        in if fr_source_type m' = SyntheticSource \<and> fr_historical_source_type m' \<noteq> None
           then Inl (ValueError ''synthetic feature rows cannot claim a historical source'') else Inr m')"

section \<open>Label windows\<close>

datatype binary_label = Label0 | Label1

record label_window =
  lw_label :: binary_label
  lw_attack_family :: "string option"
  lw_label_source :: string
  lw_provenance_id :: "string option"
  lw_start_tick :: "int option"
  lw_end_tick :: "int option"
  lw_start_timestamp_ns :: "int option"
  lw_end_timestamp_ns :: "int option"
  lw_end_inclusive :: bool
  lw_phases :: "(string \<times> int \<times> int) list"

definition blank_window :: label_window where
  "blank_window = \<lparr>lw_label = Label1, lw_attack_family = None, lw_label_source = ''synthetic_scenario'',
     lw_provenance_id = None, lw_start_tick = None, lw_end_tick = None, lw_start_timestamp_ns = None,
     lw_end_timestamp_ns = None, lw_end_inclusive = True, lw_phases = []\<rparr>"

definition pair_of :: "'a option \<Rightarrow> 'b option \<Rightarrow> ('a \<times> 'b) option" where
  "pair_of a b = (case (a, b) of (Some x, Some y) \<Rightarrow> Some (x, y) | _ \<Rightarrow> None)"

definition tick_range :: "label_window \<Rightarrow> (int \<times> int) option" where
  "tick_range w = pair_of (lw_start_tick w) (lw_end_tick w)"

definition time_range :: "label_window \<Rightarrow> (int \<times> int) option" where
  "time_range w = pair_of (lw_start_timestamp_ns w) (lw_end_timestamp_ns w)"

text \<open>The loop over the phases, and the overlap check on the sorted phases.\<close>

fun check_phases :: "int \<times> int \<Rightarrow> (string \<times> int \<times> int) list \<Rightarrow> py_error + unit" where
  "check_phases r [] = Inr ()"
| "check_phases r ((phase, lo, hi) # ps) =
     (if phase = [] \<or> hi < lo then Inl (ValueError ''phase names must be non-empty and bounds ordered'')
      else if lo < fst r \<or> snd r < hi
      then Inl (ValueError ''label phases must stay within the label tick range'')
      else check_phases r ps)"

fun any_adjacent :: "('a \<Rightarrow> 'a \<Rightarrow> bool) \<Rightarrow> 'a list \<Rightarrow> bool" where
  "any_adjacent bad (x # y # xs) = (bad x y \<or> any_adjacent bad (y # xs))"
| "any_adjacent bad xs = False"

definition sorted_phases :: "(string \<times> int \<times> int) list \<Rightarrow> (int \<times> int \<times> string) list" where
  "sorted_phases ps = sort (map (\<lambda>(phase, lo, hi). (lo, hi, phase)) ps)"

definition validate_bounds :: "label_window \<Rightarrow> py_error + label_window" where
  "validate_bounds w =
     (let tick_pair = tick_range w \<noteq> None; time_pair = time_range w \<noteq> None;
          tick_present = (lw_start_tick w \<noteq> None \<or> lw_end_tick w \<noteq> None);
          time_present = (lw_start_timestamp_ns w \<noteq> None \<or> lw_end_timestamp_ns w \<noteq> None);
          reversed = (\<lambda>r. case r of Some (a, b) \<Rightarrow> b < a | None \<Rightarrow> False);
          empty = (\<lambda>r. case r of Some (a, b) \<Rightarrow> a = b | None \<Rightarrow> False) in
      if tick_present \<noteq> tick_pair \<or> time_present \<noteq> time_pair
      then Inl (ValueError ''label ranges require both start and end'')
      else if tick_pair = time_pair
      then Inl (ValueError ''label window requires exactly one complete tick or timestamp range'')
      else if reversed (tick_range w) then Inl (ValueError ''label tick start must not exceed end'')
      else if reversed (time_range w) then Inl (ValueError ''label timestamp start must not exceed end'')
      else if \<not> lw_end_inclusive w \<and> (empty (tick_range w) \<or> empty (time_range w))
      then Inl (ValueError ''half-open label windows must have positive width'')
      else if lw_label w = Label1 \<and> \<not> opt_truthy (lw_attack_family w)
      then Inl (ValueError ''positive label windows require an attack family'')
      else if lw_label w = Label0 \<and> lw_attack_family w \<noteq> None
      then Inl (ValueError ''negative label windows cannot have an attack family'')
      else if lw_label w = Label0 \<and> lw_phases w \<noteq> []
      then Inl (ValueError ''negative label windows cannot have attack phases'')
      else if lw_phases w \<noteq> [] \<and> \<not> tick_pair then Inl (ValueError ''label phases require tick bounds'')
      else
        try_bind (case tick_range w of None \<Rightarrow> Inr () | Some r \<Rightarrow> check_phases r (lw_phases w)) (\<lambda>_.
          if any_adjacent (\<lambda>(lo, hi, p) (lo', hi', p'). lo' \<le> hi) (sorted_phases (lw_phases w))
          then Inl (ValueError ''label phases must not overlap'') else Inr w))"

section \<open>Label specifications\<close>

record label_spec =
  sp_schema_version :: string
  sp_labels :: "label_window list"
  sp_default_label :: "binary_label option"
  sp_default_attack_family :: "string option"
  sp_default_label_source :: "string option"

definition span_key :: "label_window \<Rightarrow> int \<times> int \<Rightarrow> int \<times> int \<times> bool \<times> string" where
  "span_key w r = (fst r, snd r, lw_end_inclusive w, case lw_provenance_id w of None \<Rightarrow> [] | Some s \<Rightarrow> s)"

definition tick_spans :: "label_window list \<Rightarrow> (int \<times> int \<times> bool \<times> string) list" where
  "tick_spans ws = sort (List.map_filter (\<lambda>w. map_option (span_key w) (tick_range w)) ws)"

definition time_spans :: "label_window list \<Rightarrow> (int \<times> int \<times> bool \<times> string) list" where
  "time_spans ws = sort (List.map_filter (\<lambda>w. map_option (span_key w) (time_range w)) ws)"

definition spans_clash :: "int \<times> int \<times> bool \<times> string \<Rightarrow> int \<times> int \<times> bool \<times> string \<Rightarrow> bool" where
  "spans_clash previous current =
     (case (previous, current) of ((a, b, incl, p), (a', b', incl', p')) \<Rightarrow> a' < b \<or> a' = b \<and> incl)"

definition validate_default :: "label_spec \<Rightarrow> py_error + label_spec" where
  "validate_default s =
     (if sp_default_label s \<noteq> None \<and> \<not> opt_truthy (sp_default_label_source s)
      then Inl (ValueError ''an explicit default label requires default_label_source'')
      else if sp_default_label s = Some Label1 \<and> \<not> opt_truthy (sp_default_attack_family s)
      then Inl (ValueError ''a positive default label requires default_attack_family'')
      else if sp_default_label s = Some Label0 \<and> sp_default_attack_family s \<noteq> None
      then Inl (ValueError ''a negative default label cannot have an attack family'')
      else if any_adjacent spans_clash (tick_spans (sp_labels s)) \<or> any_adjacent spans_clash (time_spans (sp_labels s))
      then Inl (ValueError ''label windows must not overlap'')
      else Inr s)"

text \<open>The constructor runs the validators of the windows first.\<close>

definition mk_label_spec :: "label_spec \<Rightarrow> py_error + label_spec" where
  "mk_label_spec s = try_bind (try_map validate_bounds (sp_labels s)) (\<lambda>ws. validate_default (s\<lparr>sp_labels := ws\<rparr>))"

record assigned_label =
  al_label :: "binary_label option"
  al_attack_family :: "string option"
  al_attack_phase :: "string option"
  al_label_source :: "string option"

definition in_range :: "bool \<Rightarrow> int \<Rightarrow> int \<times> int \<Rightarrow> bool" where
  "in_range inclusive t r = (fst r \<le> t \<and> (if inclusive then t \<le> snd r else t < snd r))"

definition window_matches :: "int \<Rightarrow> int \<Rightarrow> label_window \<Rightarrow> bool" where
  "window_matches tick ts w =
     ((case tick_range w of None \<Rightarrow> False | Some r \<Rightarrow> in_range (lw_end_inclusive w) tick r) \<or>
      (case time_range w of None \<Rightarrow> False | Some r \<Rightarrow> in_range (lw_end_inclusive w) ts r))"

definition phase_at :: "int \<Rightarrow> label_window \<Rightarrow> string" where
  "phase_at tick w =
     (case find (\<lambda>(name, lo, hi). lo \<le> tick \<and> tick \<le> hi) (sort (lw_phases w)) of
        Some (name, _) \<Rightarrow> name
      | None \<Rightarrow> if lw_label w = Label1 then ''attack'' else ''none'')"

definition default_assignment :: "label_spec \<Rightarrow> assigned_label" where
  "default_assignment s =
     \<lparr>al_label = sp_default_label s,
      al_attack_family = (if sp_default_label s = Some Label1 then sp_default_attack_family s else None),
      al_attack_phase = (case sp_default_label s of
        Some Label1 \<Rightarrow> Some ''attack'' | Some Label0 \<Rightarrow> Some ''none'' | None \<Rightarrow> None),
      al_label_source = sp_default_label_source s\<rparr>"

definition assign_label :: "label_spec \<Rightarrow> int \<Rightarrow> int \<Rightarrow> py_error + assigned_label" where
  "assign_label s tick ts =
     (case filter (window_matches tick ts) (sp_labels s) of
        [] \<Rightarrow> Inr (default_assignment s)
      | [w] \<Rightarrow>
          Inr \<lparr>al_label = Some (lw_label w),
               al_attack_family = (if lw_label w = Label1 then lw_attack_family w else None),
               al_attack_phase = Some (phase_at tick w), al_label_source = Some (lw_label_source w)\<rparr>
      | matches \<Rightarrow>
          Inl (ValueError (''feature row matches multiple ground-truth windows: '' @
            str_join '', '' (sort (map (\<lambda>w. case lw_provenance_id w of
              None \<Rightarrow> ''<unidentified>'' | Some s \<Rightarrow> if s = [] then ''<unidentified>'' else s) matches)))))"

end
