(* ===== verification/CorpusGovernance.thy ===== *)
theory CorpusGovernance
  imports FeatureModels PyFloat
begin

text \<open>
  Corpus governance: the benchmark protocol of \<open>backend/app/corpus/models.py\<close> and the sessions, manifests
  and label adjudications of \<open>backend/app/corpus/governance.py\<close>. Digests over JSON dumps, and everything
  that reads files under the artifact root, are parameters; the constraints pydantic checks on a single
  field are not repeated, the validators the files define are.
\<close>

section \<open>Dates\<close>

datatype calendar_date = CalendarDate (cd_year: int) (cd_month: int) (cd_day: int)

definition date_tuple :: "calendar_date \<Rightarrow> int \<times> int \<times> int" where
  "date_tuple d = (cd_year d, cd_month d, cd_day d)"

lemma date_tuple_inject: "date_tuple c = date_tuple d \<longleftrightarrow> c = d"
  by (cases c; cases d) (simp add: date_tuple_def)

instantiation calendar_date :: linorder
begin

definition less_calendar_date :: "calendar_date \<Rightarrow> calendar_date \<Rightarrow> bool" where
  "c < d \<longleftrightarrow> date_tuple c < date_tuple d"

definition less_eq_calendar_date :: "calendar_date \<Rightarrow> calendar_date \<Rightarrow> bool" where
  "c \<le> d \<longleftrightarrow> date_tuple c \<le> date_tuple d"

instance
proof
  fix c d e :: calendar_date
  show "(c < d) = (c \<le> d \<and> \<not> d \<le> c)"
    unfolding less_calendar_date_def less_eq_calendar_date_def by (rule less_le_not_le)
  show "c \<le> c" unfolding less_eq_calendar_date_def by (rule order_refl)
  show "c \<le> d \<Longrightarrow> d \<le> e \<Longrightarrow> c \<le> e" unfolding less_eq_calendar_date_def by (rule order_trans)
  show "c \<le> d \<Longrightarrow> d \<le> c \<Longrightarrow> c = d"
    unfolding less_eq_calendar_date_def by (simp add: date_tuple_inject [symmetric])
  show "c \<le> d \<or> d \<le> c" unfolding less_eq_calendar_date_def by (rule linear)
qed

end

definition isoformat :: "calendar_date \<Rightarrow> string" where
  "isoformat d = zpad 4 (int_dec (cd_year d)) @ ''-'' @ zpad 2 (int_dec (cd_month d)) @ ''-'' @
     zpad 2 (int_dec (cd_day d))"

section \<open>The benchmark protocol\<close>

record corpus_minimums =
  mn_complete_sessions :: int
  mn_instruments :: int
  mn_distinct_dates :: int
  mn_seeds_per_attack_family :: int
  mn_require_all_attack_families :: bool
  mn_required_attack_families :: "string list"

definition validate_attack_families :: "corpus_minimums \<Rightarrow> py_error + corpus_minimums" where
  "validate_attack_families m =
     (if mn_required_attack_families m = [] \<or> [] \<in> set (mn_required_attack_families m)
      then Inl (ValueError ''at least one non-empty required attack family is required'')
      else if \<not> distinct (mn_required_attack_families m)
      then Inl (ValueError ''required attack families must be unique'') else Inr m)"

record clean_label_policy =
  cl_negative_label_source :: string
  cl_independent_reviewers :: int
  cl_blind_to_model_outputs :: bool
  cl_conflicts_require_adjudicator :: bool
  cl_transferable_only_after_exact_equivalence :: bool
  cl_statuses :: "string list"

definition governed_statuses :: "string list" where
  "governed_statuses = [''unreviewed'', ''candidate_clean'', ''verified_clean'', ''ambiguous'', ''excluded'',
     ''synthetic_attack'']"

definition validate_status_contract :: "clean_label_policy \<Rightarrow> py_error + clean_label_policy" where
  "validate_status_contract p =
     (if set (cl_statuses p) \<noteq> set governed_statuses \<or> length (cl_statuses p) \<noteq> length governed_statuses
      then Inl (ValueError ''clean-label statuses must contain the complete unique governed status set'')
      else Inr p)"

record split_policy =
  po_strategy :: string
  po_group_fields :: "string list"
  po_purge_feature_window_ns :: int
  po_purge_alert_horizon_ns :: int
  po_purge_causal_tail_ns :: int
  po_purge_label_uncertainty_ns :: int
  po_embargo_sessions :: nat
  po_train_fraction :: rat
  po_validation_fraction :: rat
  po_test_fraction :: rat

definition validate_split_contract :: "split_policy \<Rightarrow> py_error + split_policy" where
  "validate_split_contract p =
     (if \<not> {''venue'', ''instrument'', ''session_date'', ''session_id''} \<subseteq> set (po_group_fields p)
      then Inl (ValueError ''split group must bind venue, instrument, session date, and session id'')
      else if \<not> distinct (po_group_fields p) then Inl (ValueError ''split group fields must be unique'')
      else
        let total = fadd (fadd (po_train_fraction p) (po_validation_fraction p)) (po_test_fraction p)
        in if flit (1 / 10 ^ 12) < \<bar>fsub total 1\<bar>
           then Inl (ValueError ''train, validation, and test fractions must sum to one'') else Inr p)"

definition purge_ns :: "split_policy \<Rightarrow> int" where
  "purge_ns p = max (max (po_purge_feature_window_ns p) (po_purge_alert_horizon_ns p))
     (max (po_purge_causal_tail_ns p) (po_purge_label_uncertainty_ns p))"

text \<open>The policies for bootstrap, metrics and streaming are not read here; they enter the protocol only
  through its hash.\<close>

record benchmark_protocol =
  bp_protocol_id :: string
  bp_corpus :: corpus_minimums
  bp_clean_labels :: clean_label_policy
  bp_splits :: split_policy

section \<open>Sessions and manifests\<close>

record artifact_reference =
  af_name :: string
  af_uri :: string
  af_sha256 :: string
  af_size_bytes :: int
  af_schema_version :: string

record campaign_manifest =
  cp_campaign_id :: string
  cp_attack_family :: string
  cp_master_seed :: int
  cp_derived_seed :: int
  cp_injection_timestamp_ns :: int
  cp_canonical_events :: artifact_reference
  cp_ground_truth :: artifact_reference
  cp_validation :: artifact_reference

record governed_session =
  gs_base_session_id :: string
  gs_dataset_id :: string
  gs_instrument :: string
  gs_venue :: string
  gs_session_id :: string
  gs_session_date :: calendar_date
  gs_timezone :: string
  gs_start_timestamp_ns :: int
  gs_end_timestamp_ns :: int
  gs_complete_session :: bool
  gs_source_manifest :: artifact_reference
  gs_canonical_control_events :: artifact_reference
  gs_control_validation :: artifact_reference
  gs_campaigns :: "campaign_manifest list"

definition validate_session :: "governed_session \<Rightarrow> py_error + governed_session" where
  "validate_session s =
     (if gs_end_timestamp_ns s \<le> gs_start_timestamp_ns s
      then Inl (ValueError ''session start must be before session end'')
      else if \<not> distinct (map cp_campaign_id (gs_campaigns s))
      then Inl (ValueError ''campaign IDs must be unique within a session'')
      else if \<not> list_all (\<lambda>c. gs_start_timestamp_ns s \<le> cp_injection_timestamp_ns c \<and>
          cp_injection_timestamp_ns c < gs_end_timestamp_ns s) (gs_campaigns s)
      then Inl (ValueError ''campaign injection timestamp must be inside the complete session'')
      else Inr s)"

record corpus_coverage =
  cv_complete_sessions :: nat
  cv_instruments :: "string list"
  cv_distinct_dates :: "calendar_date list"
  cv_attack_families :: "string list"
  cv_seeds_by_attack_family :: "(string \<times> int list) list"

definition family_seeds :: "governed_session list \<Rightarrow> string \<Rightarrow> int list" where
  "family_seeds ss f =
     map cp_derived_seed (filter (\<lambda>c. cp_attack_family c = f) (concat (map gs_campaigns ss)))"

definition coverage_of :: "governed_session list \<Rightarrow> corpus_coverage" where
  "coverage_of ss =
     (let families = sorted_set (map cp_attack_family (concat (map gs_campaigns ss))) in
      \<lparr>cv_complete_sessions = length (filter gs_complete_session ss),
       cv_instruments = sorted_set (map gs_instrument ss),
       cv_distinct_dates = sorted_set (map gs_session_date ss),
       cv_attack_families = families,
       cv_seeds_by_attack_family = map (\<lambda>f. (f, sorted_set (family_seeds ss f))) families\<rparr>)"

record corpus_manifest =
  cm_corpus_id :: string
  cm_protocol_id :: string
  cm_protocol_hash :: string
  cm_generated_at :: string
  cm_sessions :: "governed_session list"
  cm_coverage :: corpus_coverage

definition session_identity :: "governed_session \<Rightarrow> string \<times> string \<times> calendar_date \<times> string" where
  "session_identity s = (gs_venue s, gs_instrument s, gs_session_date s, gs_session_id s)"

definition validate_unique_sessions :: "corpus_manifest \<Rightarrow> py_error + corpus_manifest" where
  "validate_unique_sessions m =
     (if \<not> distinct (map gs_base_session_id (cm_sessions m))
      then Inl (ValueError ''base session IDs must be unique'')
      else if \<not> distinct (map session_identity (cm_sessions m))
      then Inl (ValueError ''venue/instrument/date/session identities must be unique'') else Inr m)"

definition build_corpus_manifest ::
  "(benchmark_protocol \<Rightarrow> string) \<Rightarrow> string \<Rightarrow> governed_session list \<Rightarrow> benchmark_protocol \<Rightarrow> string
    \<Rightarrow> py_error + corpus_manifest" where
  "build_corpus_manifest phash cid ss protocol now =
     validate_unique_sessions
       \<lparr>cm_corpus_id = cid, cm_protocol_id = bp_protocol_id protocol, cm_protocol_hash = phash protocol,
        cm_generated_at = now, cm_sessions = ss, cm_coverage = coverage_of ss\<rparr>"

section \<open>Corpus checks\<close>

text \<open>The names and verdicts of the checks, in the order of the report; the two checks that read artifacts
  come in as their verdicts.\<close>

definition seeds_of :: "corpus_coverage \<Rightarrow> string \<Rightarrow> int list" where
  "seeds_of cv f = (case map_of (cv_seeds_by_attack_family cv) f of None \<Rightarrow> [] | Some ss \<Rightarrow> ss)"

definition corpus_checks ::
  "(benchmark_protocol \<Rightarrow> string) \<Rightarrow> corpus_manifest \<Rightarrow> benchmark_protocol \<Rightarrow> bool \<Rightarrow> bool \<Rightarrow> (string \<times> bool) list" where
  "corpus_checks phash m protocol artifacts_ok reports_ok =
     (let cv = coverage_of (cm_sessions m); mn = bp_corpus protocol in
      [(''coverage_consistency'', cm_coverage m = cv),
       (''protocol_binding'', cm_protocol_id m = bp_protocol_id protocol \<and> cm_protocol_hash m = phash protocol),
       (''complete_session_coverage'', mn_complete_sessions mn \<le> int (cv_complete_sessions cv)),
       (''instrument_coverage'', mn_instruments mn \<le> int (length (cv_instruments cv))),
       (''date_coverage'', mn_distinct_dates mn \<le> int (length (cv_distinct_dates cv))),
       (''attack_family_coverage'', \<not> mn_require_all_attack_families mn \<or>
          set (mn_required_attack_families mn) \<subseteq> set (cv_attack_families cv)),
       (''attack_seed_coverage'', list_all (\<lambda>f. mn_seeds_per_attack_family mn \<le> int (length (seeds_of cv f)))
          (mn_required_attack_families mn)),
       (''complete_session_boundaries'', list_all gs_complete_session (cm_sessions m)),
       (''artifact_integrity'', artifacts_ok),
       (''validation_report_semantics'', reports_ok)])"

definition corpus_verdict ::
  "(benchmark_protocol \<Rightarrow> string) \<Rightarrow> corpus_manifest \<Rightarrow> benchmark_protocol \<Rightarrow> bool \<Rightarrow> bool \<Rightarrow> bool" where
  "corpus_verdict phash m protocol artifacts_ok reports_ok =
     list_all snd (corpus_checks phash m protocol artifacts_ok reports_ok)"

end
