(* ===== verification/LabelAdjudication.thy ===== *)
theory LabelAdjudication
  imports CorpusGovernance
begin

text \<open>
  Clean-label adjudication, the second half of \<open>backend/app/corpus/governance.py\<close>: review windows, their
  validation against the corpus, and the labels merged into a feature run. Access to the artifact root
  is the record \<open>artifact_access\<close> of what the code learns from it: whether a reference's file has the
  declared size and digest, how the failed ones are printed, and the parsed JSON of a report.
\<close>

section \<open>Review windows\<close>

datatype review_verdict = ReviewClean | ReviewNotClean | ReviewAmbiguous

record review_decision =
  rd_reviewer_id :: string
  rd_decision :: review_verdict
  rd_reviewed_at :: string
  rd_method :: string
  rd_evidence :: "artifact_reference list"

record adjudicator_decision =
  aj_adjudicator_id :: string
  aj_decision :: review_verdict
  aj_decided_at :: string
  aj_rationale :: string

datatype window_status =
  Unreviewed | CandidateClean | VerifiedClean | AmbiguousWindow | ExcludedWindow | SyntheticAttack

record clean_window =
  aw_window_id :: string
  aw_base_session_id :: string
  aw_start_timestamp_ns :: int
  aw_end_timestamp_ns :: int
  aw_status :: window_status
  aw_reviewer_decisions :: "review_decision list"
  aw_adjudicator_decision :: "adjudicator_decision option"
  aw_exclusion_reason :: "string option"
  aw_label_source :: "string option"
  aw_transferred_from :: "string option"
  aw_equivalence_validation :: "artifact_reference option"

definition validate_window :: "clean_window \<Rightarrow> py_error + clean_window" where
  "validate_window w =
     (if aw_end_timestamp_ns w \<le> aw_start_timestamp_ns w
      then Inl (ValueError ''adjudication window start must be before end'')
      else if \<not> distinct (map rd_reviewer_id (aw_reviewer_decisions w))
      then Inl (ValueError ''adjudication reviewers must be independent unique identities'')
      else if aw_status w = ExcludedWindow \<and> \<not> opt_truthy (aw_exclusion_reason w)
      then Inl (ValueError ''excluded windows require a reason'')
      else if aw_status w = SyntheticAttack \<and> aw_label_source w \<noteq> Some ''synthetic_scenario''
      then Inl (ValueError ''synthetic attack labels require synthetic_scenario provenance'')
      else if (aw_transferred_from w \<noteq> None) \<noteq> (aw_equivalence_validation w \<noteq> None)
      then Inl (ValueError ''hybrid clean-label transfer requires source window and equivalence validation'')
      else Inr w)"

definition validate_verified_clean :: "clean_window \<Rightarrow> benchmark_protocol \<Rightarrow> py_error + unit" where
  "validate_verified_clean w protocol =
     (let decisions = aw_reviewer_decisions w; policy = bp_clean_labels protocol;
          checks = (if aw_label_source w \<noteq> Some ''independently_verified_clean''
            then Inl (ValueError ''verified clean windows require independently_verified_clean provenance'')
            else if opt_truthy (aw_transferred_from w) \<and>
              \<not> (cl_transferable_only_after_exact_equivalence policy \<and> aw_equivalence_validation w \<noteq> None)
            then Inl (ValueError ''hybrid clean transfer lacks exact equivalence evidence'')
            else Inr ()) in
      if int (length decisions) < cl_independent_reviewers policy
      then Inl (ValueError (''verified clean window lacks independent reviewers: '' @ aw_window_id w))
      else if set (map rd_decision decisions) = {ReviewClean} then checks
      else case aw_adjudicator_decision w of
          Some a \<Rightarrow>
            if cl_conflicts_require_adjudicator policy \<and> aj_decision a = ReviewClean
            then if aj_adjudicator_id a \<in> set (map rd_reviewer_id decisions)
                 then Inl (ValueError ''adjudicator must be independent from reviewers'') else checks
            else Inl (ValueError (''verified clean window has unresolved reviewer disagreement: '' @ aw_window_id w))
        | None \<Rightarrow> Inl (ValueError (''verified clean window has unresolved reviewer disagreement: '' @ aw_window_id w)))"

section \<open>Validation against the corpus\<close>

definition session_table :: "governed_session list \<Rightarrow> string \<Rightarrow> governed_session option" where
  "session_table ss = map_of (rev (map (\<lambda>s. (gs_base_session_id s, s)) ss))"

definition window_table :: "clean_window list \<Rightarrow> string \<Rightarrow> clean_window option" where
  "window_table ws = map_of (rev (map (\<lambda>w. (aw_window_id w, w)) ws))"

definition replay_domain :: "clean_window \<Rightarrow> string" where
  "replay_domain w =
     (if aw_status w = SyntheticAttack \<or> aw_transferred_from w \<noteq> None then ''hybrid'' else ''control'')"

definition supervised_status :: "window_status \<Rightarrow> bool" where
  "supervised_status st = (st = VerifiedClean \<or> st = SyntheticAttack)"

definition supervised_key :: "clean_window \<Rightarrow> string \<times> string" where
  "supervised_key w = (aw_base_session_id w, replay_domain w)"

definition supervised_span :: "clean_window \<Rightarrow> int \<times> int \<times> string" where
  "supervised_span w = (aw_start_timestamp_ns w, aw_end_timestamp_ns w, aw_window_id w)"

type_synonym supervised_windows = "(string \<times> string, (int \<times> int \<times> string) list) dict"

fun collect_windows ::
  "governed_session list \<Rightarrow> benchmark_protocol \<Rightarrow> clean_window list \<Rightarrow> string set \<Rightarrow> supervised_windows
    \<Rightarrow> py_error + supervised_windows" where
  "collect_windows ss protocol [] seen supw = Inr supw"
| "collect_windows ss protocol (w # ws) seen supw =
     (if aw_window_id w \<in> seen
      then Inl (ValueError (''duplicate adjudication window ID: '' @ aw_window_id w))
      else case session_table ss (aw_base_session_id w) of
          None \<Rightarrow> Inl (ValueError (''adjudication references unknown base session: '' @ aw_base_session_id w))
        | Some s \<Rightarrow>
            if \<not> (gs_start_timestamp_ns s \<le> aw_start_timestamp_ns w \<and> aw_end_timestamp_ns w \<le> gs_end_timestamp_ns s)
            then Inl (ValueError (''adjudication window is outside session boundaries: '' @ aw_window_id w))
            else
              try_bind (if aw_status w = VerifiedClean then validate_verified_clean w protocol else Inr ()) (\<lambda>_.
                collect_windows ss protocol ws (insert (aw_window_id w) seen)
                  (if supervised_status (aw_status w)
                   then dset (supervised_key w) (dget_or [] supw (supervised_key w) @ [supervised_span w]) supw
                   else supw)))"

definition transfer_matches :: "clean_window list \<Rightarrow> clean_window \<Rightarrow> bool" where
  "transfer_matches ws w =
     (case aw_transferred_from w of
        None \<Rightarrow> True
      | Some source_id \<Rightarrow>
          (case window_table ws source_id of
             None \<Rightarrow> False
           | Some source \<Rightarrow>
               aw_status source = VerifiedClean \<and> aw_transferred_from source = None \<and>
               aw_base_session_id source = aw_base_session_id w \<and>
               aw_start_timestamp_ns source = aw_start_timestamp_ns w \<and>
               aw_end_timestamp_ns source = aw_end_timestamp_ns w))"

fun first_overlap :: "(int \<times> int \<times> string) list \<Rightarrow> ((int \<times> int \<times> string) \<times> int \<times> int \<times> string) option" where
  "first_overlap (x # y # xs) = (if fst y < fst (snd x) then Some (x, y) else first_overlap (y # xs))"
| "first_overlap xs = None"

fun check_overlaps :: "supervised_windows \<Rightarrow> py_error + unit" where
  "check_overlaps [] = Inr ()"
| "check_overlaps (((session, domain), spans) # rest) =
     (case first_overlap (sort spans) of
        Some (x, y) \<Rightarrow> Inl (ValueError (''supervised adjudication windows overlap in '' @ session @ ''/'' @ domain @
          '': '' @ snd (snd x) @ '' and '' @ snd (snd y)))
      | None \<Rightarrow> check_overlaps rest)"

section \<open>Evidence\<close>

record artifact_access =
  ax_verified :: "artifact_reference \<Rightarrow> bool"
  ax_show_failures :: "artifact_reference list \<Rightarrow> string"
  ax_load :: "artifact_reference \<Rightarrow> py_error + json"

definition evidence_of :: "clean_window \<Rightarrow> artifact_reference list" where
  "evidence_of w = concat (map rd_evidence (aw_reviewer_decisions w)) @
     (case aw_equivalence_validation w of None \<Rightarrow> [] | Some r \<Rightarrow> [r])"

text \<open>Comparison of a JSON value with a string or an integer; \<open>True\<close> counts as 1.\<close>

definition json_is_str :: "json option \<Rightarrow> string \<Rightarrow> bool" where
  "json_is_str j s = (j = Some (JStr s))"

definition json_int :: "json option \<Rightarrow> int option" where
  "json_int j = (case j of Some (JInt n) \<Rightarrow> Some n | Some (JBool b) \<Rightarrow> Some (if b then 1 else 0) | _ \<Rightarrow> None)"

definition json_is_int :: "json option \<Rightarrow> int \<Rightarrow> bool" where
  "json_is_int j n = (case j of Some (JFloat x) \<Rightarrow> x = of_int n | _ \<Rightarrow> json_int j = Some n)"

definition report_identity :: "clean_window \<Rightarrow> clean_window \<Rightarrow> governed_session \<Rightarrow> payload \<Rightarrow> bool" where
  "report_identity w source s p =
     (json_is_str (dget p ''schema_version'') ''governed_clean_window_equivalence_v1'' \<and>
      json_is_str (dget p ''verdict'') ''pass'' \<and>
      json_is_str (dget p ''base_session_id'') (gs_base_session_id s) \<and>
      json_is_str (dget p ''dataset_id'') (gs_dataset_id s) \<and>
      json_is_str (dget p ''source_control_window_id'') (aw_window_id source) \<and>
      json_is_str (dget p ''transferred_window_id'') (aw_window_id w) \<and>
      json_is_int (dget p ''window_start_timestamp_ns'') (aw_start_timestamp_ns w) \<and>
      json_is_int (dget p ''window_end_timestamp_ns'') (aw_end_timestamp_ns w) \<and>
      json_is_str (dget p ''control_events_sha256'') (af_sha256 (gs_canonical_control_events s)))"

definition campaign_table :: "campaign_manifest list \<Rightarrow> string \<Rightarrow> campaign_manifest option" where
  "campaign_table cs = map_of (rev (map (\<lambda>c. (cp_campaign_id c, c)) cs))"

definition find_campaign :: "governed_session \<Rightarrow> json option \<Rightarrow> py_error + campaign_manifest option" where
  "find_campaign s j =
     (case j of
        Some (JStr cid) \<Rightarrow> Inr (campaign_table (gs_campaigns s) cid)
      | Some (JList _) \<Rightarrow> Inl (TypeError ''unhashable type'')
      | Some (JObj _) \<Rightarrow> Inl (TypeError ''unhashable type'')
      | _ \<Rightarrow> Inr None)"

definition causal_gap :: "clean_window \<Rightarrow> json option \<Rightarrow> json option \<Rightarrow> bool" where
  "causal_gap w a b =
     (case (json_int a, json_int b) of
        (Some lo, Some hi) \<Rightarrow> lo \<le> hi \<and> (aw_end_timestamp_ns w \<le> lo \<or> hi < aw_start_timestamp_ns w)
      | _ \<Rightarrow> False)"

definition validate_equivalence_report ::
  "artifact_access \<Rightarrow> clean_window \<Rightarrow> clean_window \<Rightarrow> governed_session \<Rightarrow> py_error + unit" where
  "validate_equivalence_report ax w source s =
     (case aw_equivalence_validation w of
        None \<Rightarrow> Inl (ValueError ''hybrid clean transfer lacks exact equivalence evidence'')
      | Some reference \<Rightarrow>
          try_bind (ax_load ax reference) (\<lambda>j.
            case j of
              JObj p \<Rightarrow>
                if \<not> report_identity w source s p
                then Inl (ValueError ''hybrid clean equivalence evidence identity or verdict is invalid'')
                else
                  try_bind (find_campaign s (dget p ''campaign_id'')) (\<lambda>campaign.
                    if case campaign of
                         None \<Rightarrow> True
                       | Some c \<Rightarrow>
                           \<not> json_is_str (dget p ''hybrid_events_sha256'') (af_sha256 (cp_canonical_events c)) \<or>
                           dget p ''outside_causal_neighbourhood_equivalent'' \<noteq> Some (JBool True) \<or>
                           \<not> json_is_int (dget p ''exact_book_match_rate'') 1
                    then Inl (ValueError ''hybrid clean equivalence evidence is not bound to a passing campaign'')
                    else if \<not> causal_gap w (dget p ''causal_start_timestamp_ns'') (dget p ''causal_end_timestamp_ns'')
                    then Inl (ValueError ''hybrid clean window intersects the attack causal neighbourhood'')
                    else Inr ())
            | _ \<Rightarrow> Inl (ValueError ''hybrid clean equivalence evidence identity or verdict is invalid'')))"

fun validate_reports ::
  "artifact_access \<Rightarrow> governed_session list \<Rightarrow> clean_window list \<Rightarrow> clean_window list \<Rightarrow> py_error + unit" where
  "validate_reports ax ss all [] = Inr ()"
| "validate_reports ax ss all (w # ws) =
     (case aw_transferred_from w of
        None \<Rightarrow> validate_reports ax ss all ws
      | Some source_id \<Rightarrow>
          (case (window_table all source_id, session_table ss (aw_base_session_id w)) of
             (Some source, Some s) \<Rightarrow>
               try_bind (validate_equivalence_report ax w source s) (\<lambda>_. validate_reports ax ss all ws)
           | (None, _) \<Rightarrow> Inl (KeyError source_id)
           | (_, None) \<Rightarrow> Inl (KeyError (aw_base_session_id w))))"

definition validate_evidence ::
  "artifact_access \<Rightarrow> governed_session list \<Rightarrow> clean_window list \<Rightarrow> py_error + unit" where
  "validate_evidence ax ss ws =
     (let failures = filter (\<lambda>r. \<not> ax_verified ax r) (concat (map evidence_of ws)) in
      if failures \<noteq> []
      then Inl (ValueError (''adjudication evidence failed artifact verification: '' @ ax_show_failures ax failures))
      else validate_reports ax ss ws ws)"

definition validate_adjudications ::
  "clean_window list \<Rightarrow> corpus_manifest \<Rightarrow> benchmark_protocol \<Rightarrow> artifact_access option \<Rightarrow> py_error + unit" where
  "validate_adjudications ws m protocol ax =
     try_bind (collect_windows (cm_sessions m) protocol ws {} []) (\<lambda>supw.
       case find (\<lambda>w. \<not> transfer_matches ws w) ws of
         Some w \<Rightarrow> Inl (ValueError (''hybrid clean-label transfer does not match a verified control window: '' @
           aw_window_id w))
       | None \<Rightarrow>
           try_bind (check_overlaps supw) (\<lambda>_.
             case ax of None \<Rightarrow> Inr () | Some a \<Rightarrow> validate_evidence a (cm_sessions m) ws))"

section \<open>Merging verified labels\<close>

datatype replay_mode = HistoricalControl | SyntheticReplay | HybridReplay

definition eligible_windows :: "clean_window list \<Rightarrow> string \<Rightarrow> replay_mode \<Rightarrow> clean_window list" where
  "eligible_windows ws base mode =
     (let own = filter (\<lambda>w. aw_base_session_id w = base \<and> aw_status w = VerifiedClean) ws in
      case mode of
        HistoricalControl \<Rightarrow> filter (\<lambda>w. aw_transferred_from w = None) own
      | HybridReplay \<Rightarrow> filter (\<lambda>w. aw_transferred_from w \<noteq> None) own
      | SyntheticReplay \<Rightarrow> [])"

definition negative_window :: "clean_window \<Rightarrow> label_window" where
  "negative_window w = blank_window
     \<lparr>lw_label := Label0, lw_attack_family := None, lw_label_source := ''independently_verified_clean'',
      lw_provenance_id := Some (aw_window_id w), lw_start_timestamp_ns := Some (aw_start_timestamp_ns w),
      lw_end_timestamp_ns := Some (aw_end_timestamp_ns w), lw_end_inclusive := False\<rparr>"

definition merge_verified_clean_feature_labels ::
  "label_spec \<Rightarrow> clean_window list \<Rightarrow> string \<Rightarrow> replay_mode \<Rightarrow> py_error + label_spec" where
  "merge_verified_clean_feature_labels base ws session mode =
     (if sp_default_label base \<noteq> None
      then Inl (ValueError ''governed feature labels cannot use a session-wide default label'')
      else
        let eligible = eligible_windows ws session mode in
        case find (\<lambda>w. aw_label_source w \<noteq> Some ''independently_verified_clean'') eligible of
          Some w \<Rightarrow> Inl (ValueError (''verified clean feature window has invalid provenance: '' @ aw_window_id w))
        | None \<Rightarrow>
            try_bind (try_map validate_bounds (map negative_window (sort_key supervised_span eligible))) (\<lambda>negative.
              mk_label_spec \<lparr>sp_schema_version = ''feature_labels_v2'', sp_labels = sp_labels base @ negative,
                sp_default_label = None, sp_default_attack_family = None, sp_default_label_source = None\<rparr>))"

end
