(* ===== verification/LabelProps.thy ===== *)
theory LabelProps
  imports FeatureModels
begin

text \<open>
  Ground-truth labels are unambiguous: the validator's check of neighbouring windows in sorted order is
  enough to keep all windows of one coordinate disjoint, so a row gets the label of the one window that
  contains it.
\<close>

section \<open>Neighbours suffice\<close>

lemma any_adjacent_Cons:
  assumes "\<And>x y z. x \<in> S \<Longrightarrow> y \<in> S \<Longrightarrow> z \<in> S \<Longrightarrow> \<not> bad x y \<Longrightarrow> \<not> bad y z \<Longrightarrow> \<not> bad x z"
    and "set (x # xs) \<subseteq> S" and "\<not> any_adjacent bad (x # xs)"
  shows "\<forall>y \<in> set xs. \<not> bad x y"
  using assms(2,3)
proof (induction xs arbitrary: x)
  case (Cons y ys)
  then have xy: "\<not> bad x y" and "\<forall>z \<in> set ys. \<not> bad y z" by simp_all
  then have "\<forall>z \<in> set ys. \<not> bad x z" using assms(1) Cons.prems(1) by (metis insert_subset list.simps(15) subsetD)
  with xy show ?case by simp
qed simp

lemma any_adjacent_tl: "\<not> any_adjacent bad (x # xs) \<Longrightarrow> \<not> any_adjacent bad xs"
  by (cases xs) auto

definition span_ok :: "int \<times> int \<times> bool \<times> string \<Rightarrow> bool" where
  "span_ok s = (case s of (a, b, incl, p) \<Rightarrow> a \<le> b)"

definition span_has :: "int \<Rightarrow> int \<times> int \<times> bool \<times> string \<Rightarrow> bool" where
  "span_has t s = (case s of (a, b, incl, p) \<Rightarrow> in_range incl t (a, b))"

lemma spans_clash_trans:
  "span_ok y \<Longrightarrow> \<not> spans_clash x y \<Longrightarrow> \<not> spans_clash y z \<Longrightarrow> \<not> spans_clash x z"
  by (cases x; cases y; cases z) (auto simp: span_ok_def spans_clash_def)

lemma clash_free_disjoint: "\<not> spans_clash x y \<Longrightarrow> span_has t x \<Longrightarrow> \<not> span_has t y"
  by (cases x; cases y) (auto simp: spans_clash_def span_has_def in_range_def split: if_splits)

lemma clash_free_unique:
  assumes "\<not> any_adjacent spans_clash xs" and "\<forall>x \<in> set xs. span_ok x"
  shows "length (filter (span_has t) xs) \<le> 1"
  using assms
proof (induction xs)
  case (Cons x xs)
  have "\<forall>y \<in> set xs. \<not> spans_clash x y"
  proof (rule any_adjacent_Cons [where S = "{s. span_ok s}"])
    show "\<not> spans_clash a c" if "b \<in> {s. span_ok s}" "\<not> spans_clash a b" "\<not> spans_clash b c" for a b c
      using spans_clash_trans [of b a c] that by blast
  qed (use Cons.prems in auto)
  then have "span_has t x \<Longrightarrow> filter (span_has t) xs = []"
    using clash_free_disjoint [of x _ t] by (auto simp: filter_empty_conv)
  moreover have "length (filter (span_has t) xs) \<le> 1" using Cons any_adjacent_tl [OF Cons.prems(1)] by auto
  ultimately show ?case by auto
qed simp

lemma length_filter_sort: "length (filter P (sort xs)) = length (filter P xs)"
  by (metis mset_filter mset_sort size_mset)

lemma spans_of_range:
  "length (filter (span_has t) (List.map_filter (\<lambda>w. map_option (span_key w) (rg w)) ws)) =
    length (filter (\<lambda>w. case rg w of None \<Rightarrow> False | Some p \<Rightarrow> in_range (lw_end_inclusive w) t p) ws)"
  by (induction ws) (auto simp: List.map_filter_simps span_has_def span_key_def split: option.splits)

lemma validate_bounds_Inr:
  assumes "validate_bounds w = Inr w'"
  shows "w' = w" and "tick_range w = None \<longleftrightarrow> time_range w \<noteq> None"
    and "tick_range w = Some r \<Longrightarrow> fst r \<le> snd r" and "time_range w = Some r \<Longrightarrow> fst r \<le> snd r"
    and "lw_start_tick w = None \<longleftrightarrow> tick_range w = None" and "lw_start_timestamp_ns w = None \<longleftrightarrow> time_range w = None"
  using assms
  by (auto simp: validate_bounds_def Let_def tick_range_def time_range_def pair_of_def try_bind_Inr
      split: if_splits option.splits)

section \<open>Assignment\<close>

lemma mk_label_spec_Inr:
  assumes "mk_label_spec s = Inr s'"
  shows "s' = s" and "\<forall>w \<in> set (sp_labels s). validate_bounds w = Inr w"
    and "\<not> any_adjacent spans_clash (tick_spans (sp_labels s))"
    and "\<not> any_adjacent spans_clash (time_spans (sp_labels s))"
proof -
  have "try_map validate_bounds ws = Inr vs \<Longrightarrow> vs = ws \<and> (\<forall>w \<in> set ws. validate_bounds w = Inr w)" for ws vs
    by (induction ws arbitrary: vs) (auto simp: try_bind_Inr dest: validate_bounds_Inr(1))
  moreover from assms obtain ws where "try_map validate_bounds (sp_labels s) = Inr ws"
    "validate_default (s\<lparr>sp_labels := ws\<rparr>) = Inr s'" by (auto simp: mk_label_spec_def try_bind_Inr)
  ultimately have "\<forall>w \<in> set (sp_labels s). validate_bounds w = Inr w" and d: "validate_default s = Inr s'"
    by (metis label_spec.surjective label_spec.update_convs(2))+
  then show "\<forall>w \<in> set (sp_labels s). validate_bounds w = Inr w" by blast
  show "s' = s" "\<not> any_adjacent spans_clash (tick_spans (sp_labels s))"
    "\<not> any_adjacent spans_clash (time_spans (sp_labels s))"
    using d by (auto simp: validate_default_def split: if_splits)
qed

lemma spans_ok:
  assumes "\<forall>w \<in> set ws. validate_bounds w = Inr w"
  shows "\<forall>x \<in> set (tick_spans ws). span_ok x" and "\<forall>x \<in> set (time_spans ws). span_ok x"
  using assms validate_bounds_Inr(3,4)
  by (auto simp: tick_spans_def time_spans_def List.map_filter_def span_ok_def span_key_def)

lemma one_window_at:
  assumes "mk_label_spec s = Inr s'"
  shows "length (filter (\<lambda>w. case tick_range w of None \<Rightarrow> False | Some p \<Rightarrow> in_range (lw_end_inclusive w) t p) (sp_labels s)) \<le> 1"
    and "length (filter (\<lambda>w. case time_range w of None \<Rightarrow> False | Some p \<Rightarrow> in_range (lw_end_inclusive w) t p) (sp_labels s)) \<le> 1"
  using clash_free_unique [OF mk_label_spec_Inr(3) [OF assms] spans_ok(1) [OF mk_label_spec_Inr(2) [OF assms]], of t]
    clash_free_unique [OF mk_label_spec_Inr(4) [OF assms] spans_ok(2) [OF mk_label_spec_Inr(2) [OF assms]], of t]
  unfolding tick_spans_def time_spans_def length_filter_sort spans_of_range by blast+

lemma at_most_one_match:
  assumes "mk_label_spec s = Inr s'"
    and "(\<forall>w \<in> set (sp_labels s). lw_start_tick w = None) \<or> (\<forall>w \<in> set (sp_labels s). lw_start_timestamp_ns w = None)"
  shows "length (filter (window_matches tick ts) (sp_labels s)) \<le> 1"
proof -
  let ?m = "filter (window_matches tick ts) (sp_labels s)"
  have v: "validate_bounds w = Inr w" if "w \<in> set (sp_labels s)" for w
    using mk_label_spec_Inr(2) [OF assms(1)] that by blast
  show ?thesis
    using assms(2)
  proof
    assume "\<forall>w \<in> set (sp_labels s). lw_start_tick w = None"
    then have "?m = filter (\<lambda>w. case time_range w of None \<Rightarrow> False | Some p \<Rightarrow> in_range (lw_end_inclusive w) ts p) (sp_labels s)"
      using validate_bounds_Inr(5) [OF v] by (intro filter_cong) (auto simp: window_matches_def)
    then show ?thesis using one_window_at(2) [OF assms(1), of ts] by simp
  next
    assume "\<forall>w \<in> set (sp_labels s). lw_start_timestamp_ns w = None"
    then have "?m = filter (\<lambda>w. case tick_range w of None \<Rightarrow> False | Some p \<Rightarrow> in_range (lw_end_inclusive w) tick p) (sp_labels s)"
      using validate_bounds_Inr(6) [OF v] by (intro filter_cong) (auto simp: window_matches_def)
    then show ?thesis using one_window_at(1) [OF assms(1), of tick] by simp
  qed
qed

text \<open>C32. A validated specification whose windows use one coordinate (ticks or timestamps) never makes
  \<open>assign_label\<close> raise: a row inside a window gets that window's label and source, a row outside all of
  them the default assignment.\<close>

theorem labels_unambiguous:
  assumes "mk_label_spec s = Inr s'"
    and "(\<forall>w \<in> set (sp_labels s). lw_start_tick w = None) \<or> (\<forall>w \<in> set (sp_labels s). lw_start_timestamp_ns w = None)"
  shows "\<exists>a. assign_label s' tick ts = Inr a \<and>
    ({w \<in> set (sp_labels s). window_matches tick ts w} = {} \<and> a = default_assignment s \<or>
     (\<exists>w. {v \<in> set (sp_labels s). window_matches tick ts v} = {w} \<and> al_label a = Some (lw_label w) \<and>
        al_label_source a = Some (lw_label_source w)))"
proof -
  let ?m = "filter (window_matches tick ts) (sp_labels s)"
  have "length ?m \<le> 1" by (rule at_most_one_match [OF assms])
  then consider "?m = []" | w where "?m = [w]" by (cases ?m) auto
  then show ?thesis
  proof cases
    case 1
    then have "{w \<in> set (sp_labels s). window_matches tick ts w} = {}" by (auto simp: filter_empty_conv)
    with 1 show ?thesis by (simp add: assign_label_def mk_label_spec_Inr(1) [OF assms(1)])
  next
    case (2 w)
    then have "set ?m = {w}" by simp
    then have "{v \<in> set (sp_labels s). window_matches tick ts v} = {w}" by simp
    with 2 show ?thesis by (auto simp: assign_label_def mk_label_spec_Inr(1) [OF assms(1)])
  qed
qed

definition demo_spec :: label_spec where
  "demo_spec = \<lparr>sp_schema_version = ''feature_labels_v2'',
     sp_labels = [blank_window\<lparr>lw_attack_family := Some ''layering_like'', lw_start_tick := Some 5, lw_end_tick := Some 9\<rparr>,
       blank_window\<lparr>lw_attack_family := Some ''spoofing_like_wall'', lw_start_tick := Some 1, lw_end_tick := Some 5,
         lw_end_inclusive := False\<rparr>],
     sp_default_label = Some Label0, sp_default_attack_family = None, sp_default_label_source = Some ''benign''\<rparr>"

theorem labels_unambiguous_witness:
  "mk_label_spec demo_spec = Inr demo_spec \<and> (\<exists>a. assign_label demo_spec 5 0 = Inr a \<and>
    ({w \<in> set (sp_labels demo_spec). window_matches 5 0 w} = {} \<and> a = default_assignment demo_spec \<or>
     (\<exists>w. {v \<in> set (sp_labels demo_spec). window_matches 5 0 v} = {w} \<and> al_label a = Some (lw_label w) \<and>
        al_label_source a = Some (lw_label_source w))))"
proof -
  have s: "mk_label_spec demo_spec = Inr demo_spec" by code_simp
  have "\<forall>w \<in> set (sp_labels demo_spec). lw_start_timestamp_ns w = None" by (simp add: demo_spec_def blank_window_def)
  then show ?thesis using labels_unambiguous [OF s] s by blast
qed

text \<open>Windows in different coordinates are not compared, so a validated specification can still make a
  row ambiguous.\<close>

theorem mixed_coordinates_clash:
  "\<exists>s. mk_label_spec s = Inr s \<and>
     assign_label s 3 30 = Inl (ValueError ''feature row matches multiple ground-truth windows: <unidentified>, b'')"
  by (rule exI [of _ "demo_spec\<lparr>sp_labels := [blank_window\<lparr>lw_attack_family := Some ''x'', lw_start_tick := Some 1,
       lw_end_tick := Some 5\<rparr>, blank_window\<lparr>lw_attack_family := Some ''y'', lw_provenance_id := Some ''b'',
       lw_start_timestamp_ns := Some 10, lw_end_timestamp_ns := Some 50\<rparr>]\<rparr>"]) code_simp

end
