(* ===== verification/AdjudicationProps.thy ===== *)
theory AdjudicationProps
  imports LabelAdjudication LabelProps
begin

text \<open>
  What an accepted set of adjudications promises, and what the merged labels of a feature run are.
\<close>

section \<open>The collecting loop\<close>

lemma collect_windows_Inr:
  assumes "collect_windows ss protocol ws seen sp = Inr sp'"
  shows "distinct (map aw_window_id ws) \<and> set (map aw_window_id ws) \<inter> seen = {}"
    and "w \<in> set ws \<Longrightarrow> \<exists>s. session_table ss (aw_base_session_id w) = Some s \<and>
      gs_start_timestamp_ns s \<le> aw_start_timestamp_ns w \<and> aw_end_timestamp_ns w \<le> gs_end_timestamp_ns s"
    and "w \<in> set ws \<Longrightarrow> aw_status w = VerifiedClean \<Longrightarrow> validate_verified_clean w protocol = Inr ()"
    and "dget_or [] sp' k = dget_or [] sp k @
      map supervised_span (filter (\<lambda>w. supervised_status (aw_status w) \<and> supervised_key w = k) ws)"
  using assms
proof (induction ws arbitrary: seen sp)
  case (Cons v ws)
  {
    case 1
    then show ?case using Cons.IH(1) by (fastforce simp: try_bind_Inr split: if_splits option.splits)
  next
    case 2
    then show ?case using Cons.IH(2) by (fastforce simp: try_bind_Inr split: if_splits option.splits)
  next
    case 3
    then show ?case using Cons.IH(3) by (fastforce simp: try_bind_Inr split: if_splits option.splits)
  next
    case 4
    then obtain seen' where "collect_windows ss protocol ws seen'
        (if supervised_status (aw_status v)
         then dset (supervised_key v) (dget_or [] sp (supervised_key v) @ [supervised_span v]) sp else sp) = Inr sp'"
      by (auto simp: try_bind_Inr split: if_splits option.splits)
    from Cons.IH(4) [OF this] show ?case by (auto simp: dget_or_def dict_laws)
  }
qed auto

lemma first_overlap_None: "first_overlap xs = None \<longleftrightarrow> \<not> any_adjacent (\<lambda>x y. fst y < fst (snd x)) xs"
  by (induction xs rule: first_overlap.induct) auto

lemma check_overlaps_Inr:
  "check_overlaps d = Inr () \<longleftrightarrow> (\<forall>(k, spans) \<in> set d. first_overlap (sort spans) = None)"
  by (induction d rule: check_overlaps.induct) (auto split: option.splits)

lemma chained_pairs:
  assumes "\<not> any_adjacent bad xs" and "set xs \<subseteq> S" and "x \<in> set xs" and "y \<in> set xs" and "x \<noteq> y"
    and trans: "\<And>x y z. x \<in> S \<Longrightarrow> y \<in> S \<Longrightarrow> z \<in> S \<Longrightarrow> \<not> bad x y \<Longrightarrow> \<not> bad y z \<Longrightarrow> \<not> bad x z"
  shows "\<not> bad x y \<or> \<not> bad y x"
  using assms(1-5)
proof (induction xs)
  case (Cons z zs)
  have "\<forall>u \<in> set zs. \<not> bad z u" by (rule any_adjacent_Cons [OF trans Cons.prems(2,1)])
  moreover have "\<not> any_adjacent bad zs" using Cons.prems(1) by (rule any_adjacent_tl)
  ultimately show ?case using Cons by auto
qed simp

lemma validate_window_span: "validate_window w = Inr w \<Longrightarrow> aw_start_timestamp_ns w < aw_end_timestamp_ns w"
  by (auto simp: validate_window_def split: if_splits)

lemma validate_adjudications_Inr:
  assumes "validate_adjudications ws m protocol ax = Inr ()"
  obtains sp where "collect_windows (cm_sessions m) protocol ws {} [] = Inr sp"
    and "\<forall>w \<in> set ws. transfer_matches ws w" and "check_overlaps sp = Inr ()"
  using assms
  by (auto simp: validate_adjudications_def try_bind_Inr find_None_iff split: option.splits)

text \<open>C30. After \<open>validate_adjudications\<close> accepts, two different supervised windows of one session and replay
  domain never share an instant, and each lies inside its session.\<close>

theorem supervised_windows_disjoint:
  assumes "validate_adjudications ws m protocol ax = Inr ()" and "list_all (\<lambda>w. validate_window w = Inr w) ws"
    and "v \<in> set ws" and "w \<in> set ws" and "v \<noteq> w" and "supervised_key v = supervised_key w"
    and "supervised_status (aw_status v)" and "supervised_status (aw_status w)"
  shows "(aw_end_timestamp_ns v \<le> aw_start_timestamp_ns w \<or> aw_end_timestamp_ns w \<le> aw_start_timestamp_ns v) \<and>
    (\<exists>s. session_table (cm_sessions m) (aw_base_session_id v) = Some s \<and>
       gs_start_timestamp_ns s \<le> aw_start_timestamp_ns v \<and> aw_end_timestamp_ns v \<le> gs_end_timestamp_ns s)"
proof
  obtain sp where sp: "collect_windows (cm_sessions m) protocol ws {} [] = Inr sp" "check_overlaps sp = Inr ()"
    using assms(1) by (rule validate_adjudications_Inr)
  show "\<exists>s. session_table (cm_sessions m) (aw_base_session_id v) = Some s \<and>
       gs_start_timestamp_ns s \<le> aw_start_timestamp_ns v \<and> aw_end_timestamp_ns v \<le> gs_end_timestamp_ns s"
    using collect_windows_Inr(2) [OF sp(1) assms(3)] .
  let ?k = "supervised_key v" and ?bad = "\<lambda>x y :: int \<times> int \<times> string. fst y < fst (snd x)"
  let ?spans = "map supervised_span (filter (\<lambda>w. supervised_status (aw_status w) \<and> supervised_key w = ?k) ws)"
  have "dget_or [] sp ?k = ?spans" using collect_windows_Inr(4) [OF sp(1), of ?k] by (simp add: dget_or_def)
  moreover have in_spans: "supervised_span v \<in> set ?spans" "supervised_span w \<in> set ?spans" using assms(3-8) by auto
  ultimately have "(?k, ?spans) \<in> set sp"
    by (cases "dget sp ?k") (auto simp: dget_or_def dest!: map_of_SomeD)
  then have free: "\<not> any_adjacent ?bad (sort ?spans)"
    using sp(2) unfolding check_overlaps_Inr first_overlap_None by blast
  have "aw_window_id v \<noteq> aw_window_id w"
    using collect_windows_Inr(1) [OF sp(1)] assms(3-5) by (auto simp: distinct_map dest: inj_onD)
  then have "supervised_span v \<noteq> supervised_span w" by (simp add: supervised_span_def)
  moreover have "set (sort ?spans) \<subseteq> {x. fst x \<le> fst (snd x)}"
    using assms(2) validate_window_span by (fastforce simp: supervised_span_def list_all_iff)
  ultimately have "\<not> ?bad (supervised_span v) (supervised_span w) \<or> \<not> ?bad (supervised_span w) (supervised_span v)"
    using in_spans by (intro chained_pairs [OF free]) auto
  then show "aw_end_timestamp_ns v \<le> aw_start_timestamp_ns w \<or> aw_end_timestamp_ns w \<le> aw_start_timestamp_ns v"
    by (auto simp: supervised_span_def)
qed

definition artifact :: "string \<Rightarrow> artifact_reference" where
  "artifact n = \<lparr>af_name = n, af_uri = n, af_sha256 = replicate 64 (CHR ''a''), af_size_bytes = 1, af_schema_version = ''v1''\<rparr>"

definition demo_session :: governed_session where
  "demo_session = \<lparr>gs_base_session_id = ''s1'', gs_dataset_id = ''d'', gs_instrument = ''AAPL'', gs_venue = ''XNAS'',
     gs_session_id = ''open'', gs_session_date = CalendarDate 2024 1 2, gs_timezone = ''UTC'', gs_start_timestamp_ns = 0,
     gs_end_timestamp_ns = 100, gs_complete_session = True, gs_source_manifest = artifact ''src'',
     gs_canonical_control_events = artifact ''control'', gs_control_validation = artifact ''check'', gs_campaigns = []\<rparr>"

definition review :: "string \<Rightarrow> review_decision" where
  "review r = \<lparr>rd_reviewer_id = r, rd_decision = ReviewClean, rd_reviewed_at = ''t'', rd_method = ''manual'',
     rd_evidence = [artifact r]\<rparr>"

definition clean_demo :: "string \<Rightarrow> int \<Rightarrow> int \<Rightarrow> clean_window" where
  "clean_demo i a b = \<lparr>aw_window_id = i, aw_base_session_id = ''s1'', aw_start_timestamp_ns = a, aw_end_timestamp_ns = b,
     aw_status = VerifiedClean, aw_reviewer_decisions = [review ''ann'', review ''bob''], aw_adjudicator_decision = None,
     aw_exclusion_reason = None, aw_label_source = Some ''independently_verified_clean'', aw_transferred_from = None,
     aw_equivalence_validation = None\<rparr>"

definition demo_policy :: benchmark_protocol where
  "demo_policy = \<lparr>bp_protocol_id = ''p'',
     bp_corpus = \<lparr>mn_complete_sessions = 30, mn_instruments = 3, mn_distinct_dates = 10, mn_seeds_per_attack_family = 3,
       mn_require_all_attack_families = True, mn_required_attack_families = [''spoofing_like_wall'']\<rparr>,
     bp_clean_labels = \<lparr>cl_negative_label_source = ''independently_verified_clean'', cl_independent_reviewers = 2,
       cl_blind_to_model_outputs = True, cl_conflicts_require_adjudicator = True,
       cl_transferable_only_after_exact_equivalence = True, cl_statuses = governed_statuses\<rparr>,
     bp_splits = \<lparr>po_strategy = ''chronological_session_grouped_purged'',
       po_group_fields = [''venue'', ''instrument'', ''session_date'', ''session_id''],
       po_purge_feature_window_ns = 10000000000, po_purge_alert_horizon_ns = 5000000000,
       po_purge_causal_tail_ns = 10000000000, po_purge_label_uncertainty_ns = 0, po_embargo_sessions = 1,
       po_train_fraction = flit (6 / 10), po_validation_fraction = flit (2 / 10), po_test_fraction = flit (2 / 10)\<rparr>\<rparr>"

definition demo_corpus :: corpus_manifest where
  "demo_corpus = \<lparr>cm_corpus_id = ''c'', cm_protocol_id = ''p'', cm_protocol_hash = ''h'', cm_generated_at = ''t'',
     cm_sessions = [demo_session], cm_coverage = coverage_of [demo_session]\<rparr>"

definition demo_windows :: "clean_window list" where
  "demo_windows = [clean_demo ''w2'' 40 70, clean_demo ''w1'' 10 40]"

lemma demo_adjudications:
  "validate_adjudications demo_windows demo_corpus demo_policy None = Inr ()"
  "list_all (\<lambda>w. validate_window w = Inr w) demo_windows"
  by code_simp+

theorem supervised_windows_disjoint_witness:
  "(aw_end_timestamp_ns (clean_demo ''w2'' 40 70) \<le> aw_start_timestamp_ns (clean_demo ''w1'' 10 40) \<or>
    aw_end_timestamp_ns (clean_demo ''w1'' 10 40) \<le> aw_start_timestamp_ns (clean_demo ''w2'' 40 70)) \<and>
    (\<exists>s. session_table (cm_sessions demo_corpus) ''s1'' = Some s \<and>
       gs_start_timestamp_ns s \<le> 40 \<and> 70 \<le> gs_end_timestamp_ns s)"
  using supervised_windows_disjoint [OF demo_adjudications, of "clean_demo ''w2'' 40 70" "clean_demo ''w1'' 10 40"]
  by (simp add: demo_windows_def clean_demo_def supervised_key_def replay_domain_def supervised_status_def)

section \<open>Merged labels\<close>

lemma negative_window_fields [simp]:
  "lw_label (negative_window w) = Label0" "lw_start_tick (negative_window w) = None"
  "lw_label_source (negative_window w) = ''independently_verified_clean''"
  "time_range (negative_window w) = Some (aw_start_timestamp_ns w, aw_end_timestamp_ns w)"
  "lw_end_inclusive (negative_window w) = False" "tick_range (negative_window w) = None"
  by (simp_all add: negative_window_def blank_window_def time_range_def tick_range_def pair_of_def)

lemma try_map_id: "try_map validate_bounds ws = Inr vs \<Longrightarrow> vs = ws"
  by (induction ws arbitrary: vs) (auto simp: try_bind_Inr dest: validate_bounds_Inr(1))

lemma merge_Inr:
  assumes "merge_verified_clean_feature_labels base ws session mode = Inr s"
  shows "sp_labels s = sp_labels base @ map negative_window (sort_key supervised_span (eligible_windows ws session mode))"
    and "mk_label_spec s = Inr s" and "sp_default_label s = None"
proof -
  obtain ns where n: "try_map validate_bounds (map negative_window (sort_key supervised_span (eligible_windows ws session mode))) = Inr ns"
    and m: "mk_label_spec \<lparr>sp_schema_version = ''feature_labels_v2'', sp_labels = sp_labels base @ ns,
      sp_default_label = None, sp_default_attack_family = None, sp_default_label_source = None\<rparr> = Inr s"
    using assms by (auto simp: merge_verified_clean_feature_labels_def Let_def try_bind_Inr split: if_splits option.splits)
  have s: "s = \<lparr>sp_schema_version = ''feature_labels_v2'', sp_labels = sp_labels base @ ns,
      sp_default_label = None, sp_default_attack_family = None, sp_default_label_source = None\<rparr>"
    by (rule mk_label_spec_Inr(1) [OF m])
  show "sp_labels s = sp_labels base @ map negative_window (sort_key supervised_span (eligible_windows ws session mode))"
    "sp_default_label s = None" using try_map_id [OF n] by (simp_all add: s)
  show "mk_label_spec s = Inr s" using m by (simp add: s)
qed

lemma eligible_windows_verified:
  "w \<in> set (eligible_windows ws session mode) \<longleftrightarrow> w \<in> set ws \<and> aw_base_session_id w = session \<and>
    aw_status w = VerifiedClean \<and> (mode = HistoricalControl \<and> aw_transferred_from w = None \<or>
      mode = HybridReplay \<and> aw_transferred_from w \<noteq> None)"
  by (cases mode) (auto simp: eligible_windows_def Let_def)

lemma negative_window_matches:
  "window_matches tick ts (negative_window w) \<longleftrightarrow> aw_start_timestamp_ns w \<le> ts \<and> ts < aw_end_timestamp_ns w"
  by (simp add: window_matches_def in_range_def)

lemma merged_matches:
  assumes "merge_verified_clean_feature_labels base ws session mode = Inr s"
  shows "set (filter (window_matches tick ts) (sp_labels s)) =
    {v \<in> set (sp_labels base). window_matches tick ts v} \<union>
    negative_window ` {w \<in> set (eligible_windows ws session mode). aw_start_timestamp_ns w \<le> ts \<and> ts < aw_end_timestamp_ns w}"
proof -
  have "set (sp_labels s) = set (sp_labels base) \<union> negative_window ` set (eligible_windows ws session mode)"
    unfolding merge_Inr(1) [OF assms] by simp
  moreover have "{w \<in> set (eligible_windows ws session mode). aw_start_timestamp_ns w \<le> ts \<and> ts < aw_end_timestamp_ns w}
      = {w \<in> set (eligible_windows ws session mode). window_matches tick ts (negative_window w)}"
    by (simp only: negative_window_matches)
  ultimately show ?thesis unfolding set_filter by blast
qed

lemma short_list: "length xs \<le> 1 \<Longrightarrow> xs = [] \<or> (\<exists>x. xs = [x])"
  by (cases xs) auto

lemma merged_at_most_one:
  assumes "merge_verified_clean_feature_labels base ws session mode = Inr s"
    and "list_all (\<lambda>w. lw_start_tick w = None) (sp_labels base)"
  shows "length (filter (window_matches tick ts) (sp_labels s)) \<le> 1"
proof (rule at_most_one_match [OF merge_Inr(2) [OF assms(1)]])
  have "\<forall>w \<in> set (sp_labels s). lw_start_tick w = None"
    using assms(2) unfolding merge_Inr(1) [OF assms(1)] by (auto simp: list_all_iff)
  then show "(\<forall>w \<in> set (sp_labels s). lw_start_tick w = None) \<or> (\<forall>w \<in> set (sp_labels s). lw_start_timestamp_ns w = None)" ..
qed

text \<open>C31. Governed labels: merging verified windows into base labels given in timestamps never changes what a
  labelled instant is (an instant the base calls negative stays so); an instant outside the base labels
  becomes negative exactly when it lies in a verified window that the replay mode admits, and every other
  instant stays unlabelled.\<close>

theorem merged_labels_sound:
  assumes "merge_verified_clean_feature_labels base ws session mode = Inr s"
    and "list_all (\<lambda>w. lw_start_tick w = None) (sp_labels base)"
  shows "\<exists>a. assign_label s tick ts = Inr a \<and>
    ((\<exists>w. {v \<in> set (sp_labels base). window_matches tick ts v} = {w} \<and> al_label a = Some (lw_label w) \<and>
        al_label_source a = Some (lw_label_source w)) \<or>
     {v \<in> set (sp_labels base). window_matches tick ts v} = {} \<and>
       (\<exists>w. w \<in> set (eligible_windows ws session mode) \<and> aw_start_timestamp_ns w \<le> ts \<and> ts < aw_end_timestamp_ns w \<and>
        al_label a = Some Label0 \<and> al_label_source a = Some ''independently_verified_clean'') \<or>
     {v \<in> set (sp_labels base). window_matches tick ts v} = {} \<and>
       {w \<in> set (eligible_windows ws session mode). aw_start_timestamp_ns w \<le> ts \<and> ts < aw_end_timestamp_ns w} = {} \<and>
       al_label a = None)"
proof -
  let ?e = "eligible_windows ws session mode" and ?m = "filter (window_matches tick ts) (sp_labels s)"
  have shape: "?m = [] \<or> (\<exists>w. ?m = [w])" by (rule short_list [OF merged_at_most_one [OF assms]])
  define B where "B = {v \<in> set (sp_labels base). window_matches tick ts v}"
  define E where "E = {w \<in> set ?e. aw_start_timestamp_ns w \<le> ts \<and> ts < aw_end_timestamp_ns w}"
  have split: "set ?m = B \<union> negative_window ` E" unfolding B_def E_def by (rule merged_matches [OF assms(1)])
  have E: "u \<in> E \<longleftrightarrow> u \<in> set ?e \<and> aw_start_timestamp_ns u \<le> ts \<and> ts < aw_end_timestamp_ns u" for u
    by (simp add: E_def)
  show ?thesis
    unfolding B_def [symmetric] E_def [symmetric]
    using shape
  proof (elim disjE exE)
    assume 1: "?m = []"
    have a: "assign_label s tick ts = Inr (default_assignment s)" unfolding assign_label_def 1 list.case ..
    have d: "al_label (default_assignment s) = None" by (simp add: default_assignment_def merge_Inr(3) [OF assms(1)])
    have "B \<union> negative_window ` E = set []" using split unfolding 1 ..
    then have e: "B = {}" "E = {}" by simp_all
    show "\<exists>a. assign_label s tick ts = Inr a \<and>
      ((\<exists>w. B = {w} \<and> al_label a = Some (lw_label w) \<and> al_label_source a = Some (lw_label_source w)) \<or>
       B = {} \<and> (\<exists>w. w \<in> set ?e \<and> aw_start_timestamp_ns w \<le> ts \<and> ts < aw_end_timestamp_ns w \<and>
         al_label a = Some Label0 \<and> al_label_source a = Some ''independently_verified_clean'') \<or>
       B = {} \<and> E = {} \<and> al_label a = None)"
      by (rule exI [of _ "default_assignment s"], rule conjI [OF a], rule disjI2, rule disjI2) (intro conjI e d)
  next
    fix w
    assume 2: "?m = [w]"
    define x where "x = \<lparr>al_label = Some (lw_label w),
        al_attack_family = (if lw_label w = Label1 then lw_attack_family w else None),
        al_attack_phase = Some (phase_at tick w), al_label_source = Some (lw_label_source w)\<rparr>"
    have a: "assign_label s tick ts = Inr x" unfolding assign_label_def 2 x_def list.case ..
    have x: "al_label x = Some (lw_label w)" "al_label_source x = Some (lw_label_source w)" by (simp_all add: x_def)
    have "B \<union> negative_window ` E = set [w]" using split unfolding 2 ..
    then have one: "B \<union> negative_window ` E = {w}" by simp
    show "\<exists>a. assign_label s tick ts = Inr a \<and>
      ((\<exists>w. B = {w} \<and> al_label a = Some (lw_label w) \<and> al_label_source a = Some (lw_label_source w)) \<or>
       B = {} \<and> (\<exists>w. w \<in> set ?e \<and> aw_start_timestamp_ns w \<le> ts \<and> ts < aw_end_timestamp_ns w \<and>
         al_label a = Some Label0 \<and> al_label_source a = Some ''independently_verified_clean'') \<or>
       B = {} \<and> E = {} \<and> al_label a = None)"
    proof (cases "B = {}")
      case True
      then obtain u where "w = negative_window u" "u \<in> E" using one by blast
      then have "u \<in> set ?e" "aw_start_timestamp_ns u \<le> ts" "ts < aw_end_timestamp_ns u"
        "al_label x = Some Label0" "al_label_source x = Some ''independently_verified_clean''"
        using x unfolding E by simp_all
      then have "\<exists>w. w \<in> set ?e \<and> aw_start_timestamp_ns w \<le> ts \<and> ts < aw_end_timestamp_ns w \<and>
         al_label x = Some Label0 \<and> al_label_source x = Some ''independently_verified_clean''"
        by (intro exI [of _ u] conjI)
      then show ?thesis by (intro exI [of _ x] conjI [OF a] disjI2 [OF disjI1] conjI [OF True])
    next
      case False
      have "B \<subseteq> {w}" unfolding one [symmetric] by (rule Un_upper1)
      then have "B = {w}" using False subset_singletonD by metis
      then have "\<exists>w. B = {w} \<and> al_label x = Some (lw_label w) \<and> al_label_source x = Some (lw_label_source w)"
        using x by (intro exI [of _ w] conjI)
      then show ?thesis by (intro exI [of _ x] conjI [OF a] disjI1)
    qed
  qed
qed

definition demo_attack_labels :: label_spec where
  "demo_attack_labels = \<lparr>sp_schema_version = ''feature_labels_v2'',
     sp_labels = [blank_window\<lparr>lw_attack_family := Some ''layering_like'', lw_start_timestamp_ns := Some 0,
       lw_end_timestamp_ns := Some 9\<rparr>],
     sp_default_label = None, sp_default_attack_family = None, sp_default_label_source = None\<rparr>"

definition demo_merged :: label_spec where
  "demo_merged = demo_attack_labels
     \<lparr>sp_labels := sp_labels demo_attack_labels @ map negative_window [clean_demo ''w1'' 10 40, clean_demo ''w2'' 40 70]\<rparr>"

theorem merged_labels_sound_witness:
  "merge_verified_clean_feature_labels demo_attack_labels demo_windows ''s1'' HistoricalControl = Inr demo_merged \<and>
    (\<exists>a. assign_label demo_merged 0 40 = Inr a \<and> al_label a = Some Label0)"
proof -
  have m: "merge_verified_clean_feature_labels demo_attack_labels demo_windows ''s1'' HistoricalControl = Inr demo_merged"
    by code_simp
  have "{v \<in> set (sp_labels demo_attack_labels). window_matches 0 40 v} = {}"
    by (simp add: demo_attack_labels_def blank_window_def window_matches_def tick_range_def time_range_def pair_of_def in_range_def)
  moreover have "clean_demo ''w2'' 40 70 \<in> set (eligible_windows demo_windows ''s1'' HistoricalControl)"
    by (simp add: eligible_windows_verified demo_windows_def clean_demo_def)
  moreover have "aw_start_timestamp_ns (clean_demo ''w2'' 40 70) = 40" "aw_end_timestamp_ns (clean_demo ''w2'' 40 70) = 70"
    by (simp_all add: clean_demo_def)
  ultimately have "{w \<in> set (eligible_windows demo_windows ''s1'' HistoricalControl).
      aw_start_timestamp_ns w \<le> 40 \<and> 40 < aw_end_timestamp_ns w} \<noteq> {}"
    "{v \<in> set (sp_labels demo_attack_labels). window_matches 0 40 v} = {}" by fastforce+
  moreover have "list_all (\<lambda>w. lw_start_tick w = None) (sp_labels demo_attack_labels)" by code_simp
  ultimately show ?thesis using merged_labels_sound [OF m, of 0 40] m by auto
qed

end
