(* ===== verification/CorpusSplits.thy ===== *)
theory CorpusSplits
  imports CorpusGovernance
begin

text \<open>
  Chronological corpus splits, \<open>backend/app/corpus/splits.py\<close>: how sessions are grouped by date into
  train, validation and test folds with embargoed dates between them, and the validator a stored
  manifest has to pass. \<open>split_digests\<close> holds the digests over JSON dumps; writing and loading the file
  is not modelled.
\<close>

section \<open>Manifests\<close>

datatype fold_name = TrainFold | ValidationFold | TestFold

definition fold_str :: "fold_name \<Rightarrow> string" where
  "fold_str f = (case f of TrainFold \<Rightarrow> ''train'' | ValidationFold \<Rightarrow> ''validation'' | TestFold \<Rightarrow> ''test'')"

definition all_folds :: "fold_name list" where
  "all_folds = [TrainFold, ValidationFold, TestFold]"

record split_assignment =
  sa_base_session_id :: string
  sa_split_group :: string
  sa_source_session_hash :: string
  sa_fold :: fold_name
  sa_session_date :: calendar_date
  sa_instrument :: string
  sa_venue :: string
  sa_campaign_ids :: "string list"

record fold_summary =
  fs_fold :: fold_name
  fs_first_date :: calendar_date
  fs_last_date :: calendar_date
  fs_session_count :: nat
  fs_campaign_count :: nat
  fs_instruments :: "string list"
  fs_base_session_ids :: "string list"

datatype embargo_boundary = TrainValidation | ValidationTest

definition boundary_str :: "embargo_boundary \<Rightarrow> string" where
  "boundary_str b = (case b of TrainValidation \<Rightarrow> ''train_validation'' | ValidationTest \<Rightarrow> ''validation_test'')"

definition all_boundaries :: "embargo_boundary list" where
  "all_boundaries = [TrainValidation, ValidationTest]"

record embargo_group =
  eg_between :: embargo_boundary
  eg_session_dates :: "calendar_date list"
  eg_base_session_ids :: "string list"

record split_manifest =
  mf_schema_version :: string
  mf_split_id :: string
  mf_corpus_id :: string
  mf_corpus_hash :: string
  mf_protocol_id :: string
  mf_protocol_hash :: string
  mf_generated_at :: string
  mf_strategy :: string
  mf_split_group_fields :: "string list"
  mf_purge_ns :: int
  mf_embargo_date_groups :: nat
  mf_assignments :: "split_assignment list"
  mf_embargo :: "embargo_group list"
  mf_folds :: "fold_summary list"
  mf_test_frozen :: bool
  mf_assignment_hash :: string

text \<open>What the assignment hash covers: neither the time of generation nor the summaries, and the lists in
  a canonical order.\<close>

definition assignment_payload :: "split_manifest \<Rightarrow> split_manifest" where
  "assignment_payload m =
     m\<lparr>mf_generated_at := [], mf_folds := [], mf_assignment_hash := [],
       mf_assignments := sort_key sa_base_session_id (mf_assignments m),
       mf_embargo := sort_key (\<lambda>g. boundary_str (eg_between g)) (mf_embargo m)\<rparr>"

record split_digests =
  sd_corpus_hash :: "corpus_manifest \<Rightarrow> string"
  sd_protocol_hash :: "benchmark_protocol \<Rightarrow> string"
  sd_payload_hash :: "split_manifest \<Rightarrow> string"
  sd_sha256_hex :: "string \<Rightarrow> string"

definition assignment_hash :: "split_digests \<Rightarrow> split_manifest \<Rightarrow> string" where
  "assignment_hash D m = sd_payload_hash D (assignment_payload m)"

definition validate_fold_inventory :: "split_digests \<Rightarrow> split_manifest \<Rightarrow> py_error + split_manifest" where
  "validate_fold_inventory D m =
     (if set (map fs_fold (mf_folds m)) \<noteq> set all_folds \<or> length (mf_folds m) \<noteq> 3
      then Inl (ValueError ''split manifest requires exactly one train, validation, and test summary'')
      else if \<not> distinct (map sa_base_session_id (mf_assignments m))
      then Inl (ValueError ''base sessions must have exactly one split assignment'')
      else if mf_assignment_hash m \<noteq> assignment_hash D m
      then Inl (ValueError ''split assignment hash does not match manifest content'') else Inr m)"

text \<open>\<open>model_validate\<close>: the constraints of the fields that a generated manifest may violate, then the
  validator.\<close>

definition validate_manifest_model :: "split_digests \<Rightarrow> split_manifest \<Rightarrow> py_error + split_manifest" where
  "validate_manifest_model D m =
     (if mf_split_id m = [] \<or> length (mf_assignments m) < 3
      then Inl (ValueError ''validation error for GovernedSplitManifest'') else validate_fold_inventory D m)"

section \<open>Fractions\<close>

text \<open>A slice \<open>xs[:n]\<close>; a negative bound counts from the end.\<close>

definition py_prefix :: "int \<Rightarrow> 'a list \<Rightarrow> 'a list" where
  "py_prefix n xs = (if 0 \<le> n then take (nat n) xs else take (length xs - nat (- n)) xs)"

definition raw_shares :: "int \<Rightarrow> rat list \<Rightarrow> rat list" where
  "raw_shares remaining fs = map (\<lambda>f. fmul f (flit (of_int remaining))) fs"

definition share_order :: "rat list \<Rightarrow> nat list" where
  "share_order raw = sorted_desc (\<lambda>i. (fsub (raw ! i) (flit (of_int \<lfloor>raw ! i\<rfloor>)), - int i)) [0..<3]"

definition fractional_counts :: "int \<Rightarrow> rat list \<Rightarrow> py_error + int list" where
  "fractional_counts groups fs =
     (if groups < 3 then Inl (ValueError ''at least three date groups are required'')
      else
        let remaining = groups - 3; raw = raw_shares remaining fs; extra = map floor raw;
            leftover = remaining - sum_list extra; chosen = py_prefix leftover (share_order raw)
        in Inr (map (\<lambda>i. extra ! i + (if i \<in> set chosen then 1 else 0) + 1) [0..<3]))"

section \<open>Partition of the dates\<close>

definition dates_of :: "governed_session list \<Rightarrow> calendar_date list" where
  "dates_of ss = sorted_set (map gs_session_date ss)"

definition sessions_on :: "governed_session list \<Rightarrow> calendar_date \<Rightarrow> governed_session list" where
  "sessions_on ss d = filter (\<lambda>s. gs_session_date s = d) ss"

definition slice_list :: "nat \<Rightarrow> nat \<Rightarrow> 'a list \<Rightarrow> 'a list" where
  "slice_list a b xs = take (b - a) (drop a xs)"

definition fold_dates :: "calendar_date list \<Rightarrow> nat \<Rightarrow> int list \<Rightarrow> fold_name \<Rightarrow> calendar_date list" where
  "fold_dates ds e ns f =
     (let train_end = nat (ns ! 0); first_embargo_end = train_end + e;
          validation_end = first_embargo_end + nat (ns ! 1); second_embargo_end = validation_end + e in
      case f of
        TrainFold \<Rightarrow> slice_list 0 train_end ds
      | ValidationFold \<Rightarrow> slice_list first_embargo_end validation_end ds
      | TestFold \<Rightarrow> slice_list second_embargo_end (second_embargo_end + nat (ns ! 2)) ds)"

definition embargo_dates :: "calendar_date list \<Rightarrow> nat \<Rightarrow> int list \<Rightarrow> embargo_boundary \<Rightarrow> calendar_date list" where
  "embargo_dates ds e ns b =
     (let train_end = nat (ns ! 0); first_embargo_end = train_end + e;
          validation_end = first_embargo_end + nat (ns ! 1); second_embargo_end = validation_end + e in
      case b of
        TrainValidation \<Rightarrow> slice_list train_end first_embargo_end ds
      | ValidationTest \<Rightarrow> slice_list validation_end second_embargo_end ds)"

definition split_fractions :: "split_policy \<Rightarrow> rat list" where
  "split_fractions p = [po_train_fraction p, po_validation_fraction p, po_test_fraction p]"

definition split_group :: "split_digests \<Rightarrow> governed_session \<Rightarrow> string" where
  "split_group D s = sd_sha256_hex D
     (str_join ''|'' [gs_venue s, gs_instrument s, isoformat (gs_session_date s), gs_session_id s])"

definition sorted_campaigns :: "governed_session \<Rightarrow> string list" where
  "sorted_campaigns s = sort (map cp_campaign_id (gs_campaigns s))"

definition mk_assignment :: "split_digests \<Rightarrow> governed_session \<Rightarrow> fold_name \<Rightarrow> split_assignment" where
  "mk_assignment D s f =
     \<lparr>sa_base_session_id = gs_base_session_id s, sa_split_group = split_group D s,
      sa_source_session_hash = af_sha256 (gs_canonical_control_events s), sa_fold = f,
      sa_session_date = gs_session_date s, sa_instrument = gs_instrument s, sa_venue = gs_venue s,
      sa_campaign_ids = sorted_campaigns s\<rparr>"

definition session_sort_key :: "governed_session \<Rightarrow> string \<times> string \<times> string" where
  "session_sort_key s = (gs_venue s, gs_instrument s, gs_session_id s)"

definition py_min :: "'a::linorder list \<Rightarrow> py_error + 'a" where
  "py_min xs = (case min_opt xs of None \<Rightarrow> Inl (ValueError ''min() iterable argument is empty'') | Some x \<Rightarrow> Inr x)"

definition py_max :: "'a::linorder list \<Rightarrow> py_error + 'a" where
  "py_max xs = (case max_opt xs of None \<Rightarrow> Inl (ValueError ''max() iterable argument is empty'') | Some x \<Rightarrow> Inr x)"

definition mk_fold_summary ::
  "fold_name \<Rightarrow> calendar_date list \<Rightarrow> split_assignment list \<Rightarrow> py_error + fold_summary" where
  "mk_fold_summary f ds as =
     (let items = filter (\<lambda>a. sa_fold a = f) as in
      try_bind (py_min ds) (\<lambda>lo. try_bind (py_max ds) (\<lambda>hi.
        if items = [] then Inl (ValueError ''validation error for FoldSummary'')
        else Inr \<lparr>fs_fold = f, fs_first_date = lo, fs_last_date = hi, fs_session_count = length items,
               fs_campaign_count = sum_list (map (\<lambda>a. length (sa_campaign_ids a)) items),
               fs_instruments = sorted_set (map sa_instrument items),
               fs_base_session_ids = sort (map sa_base_session_id items)\<rparr>)))"

definition fold_assignments ::
  "split_digests \<Rightarrow> governed_session list \<Rightarrow> (fold_name \<Rightarrow> calendar_date list) \<Rightarrow> split_assignment list" where
  "fold_assignments D ss fd =
     concat (map (\<lambda>f. concat (map (\<lambda>d.
       map (\<lambda>s. mk_assignment D s f) (sort_key session_sort_key (sessions_on ss d))) (fd f))) all_folds)"

definition embargo_ids :: "governed_session list \<Rightarrow> calendar_date list \<Rightarrow> string list" where
  "embargo_ids ss ds = concat (map (\<lambda>d. map gs_base_session_id (sessions_on ss d)) ds)"

definition embargo_groups ::
  "governed_session list \<Rightarrow> (embargo_boundary \<Rightarrow> calendar_date list) \<Rightarrow> embargo_group list" where
  "embargo_groups ss ed =
     map (\<lambda>b. \<lparr>eg_between = b, eg_session_dates = ed b, eg_base_session_ids = sort (embargo_ids ss (ed b))\<rparr>)
       (filter (\<lambda>b. ed b \<noteq> []) all_boundaries)"

section \<open>Validation\<close>

definition observed_embargo :: "split_manifest \<Rightarrow> embargo_boundary \<Rightarrow> embargo_group option" where
  "observed_embargo m b = find (\<lambda>g. eg_between g = b) (rev (mf_embargo m))"

text \<open>A dictionary is compared as its set of items: both the base session IDs of a corpus and those of the
  assignments of a manifest are distinct, the models reject anything else.\<close>

definition validate_expected_partition ::
  "split_manifest \<Rightarrow> corpus_manifest \<Rightarrow> benchmark_protocol \<Rightarrow> py_error + unit" where
  "validate_expected_partition m corpus protocol =
     (let ss = cm_sessions corpus; ds = dates_of ss; e = po_embargo_sessions (bp_splits protocol) in
      try_bind (fractional_counts (int (length ds) - 2 * int e) (split_fractions (bp_splits protocol))) (\<lambda>ns.
        let expected = concat (map (\<lambda>f. concat (map (\<lambda>d.
              map (\<lambda>s. (gs_base_session_id s, f)) (sessions_on ss d)) (fold_dates ds e ns f))) all_folds);
            observed = map (\<lambda>a. (sa_base_session_id a, sa_fold a)) (mf_assignments m) in
        if set observed \<noteq> set expected
        then Inl (ValueError ''split assignments do not match the deterministic chronological partition'')
        else if \<not> list_all (\<lambda>b.
            case observed_embargo m b of
              None \<Rightarrow> embargo_dates ds e ns b = []
            | Some g \<Rightarrow> embargo_dates ds e ns b \<noteq> [] \<and>
                set (eg_session_dates g) = set (embargo_dates ds e ns b) \<and>
                set (eg_base_session_ids g) = set (embargo_ids ss (embargo_dates ds e ns b))) all_boundaries
        then Inl (ValueError ''split embargo inventory does not match the deterministic partition'')
        else Inr ()))"

definition session_lookup :: "corpus_manifest \<Rightarrow> string \<Rightarrow> py_error + governed_session" where
  "session_lookup corpus i =
     (case map_of (rev (map (\<lambda>s. (gs_base_session_id s, s)) (cm_sessions corpus))) i of
        None \<Rightarrow> Inl (KeyError i) | Some s \<Rightarrow> Inr s)"

definition assigned_dates :: "split_manifest \<Rightarrow> corpus_manifest \<Rightarrow> fold_name \<Rightarrow> py_error + calendar_date list" where
  "assigned_dates m corpus f =
     try_map (\<lambda>a. try_bind (session_lookup corpus (sa_base_session_id a)) (\<lambda>s. Inr (gs_session_date s)))
       (filter (\<lambda>a. sa_fold a = f) (mf_assignments m))"

definition strictly_before :: "calendar_date list \<Rightarrow> calendar_date list \<Rightarrow> py_error + bool" where
  "strictly_before xs ys = try_bind (py_max xs) (\<lambda>a. try_bind (py_min ys) (\<lambda>b. Inr (a < b)))"

text \<open>The digests whose assignments lie in more than one fold, as the code prints them.\<close>

definition first_occurrences :: "'a list \<Rightarrow> 'a list" where
  "first_occurrences xs = rev (remdups (rev xs))"

definition leaked_sources :: "(string \<times> fold_name) list \<Rightarrow> (string \<times> string list) list" where
  "leaked_sources ps =
     filter (\<lambda>(h, fs). 1 < length fs)
       (map (\<lambda>h. (h, sorted_set (map (\<lambda>(h', f). fold_str f) (filter (\<lambda>(h', f). h' = h) ps))))
         (first_occurrences (map fst ps)))"

definition quoted_str :: "string \<Rightarrow> string" where
  "quoted_str s = [CHR 0x27] @ s @ [CHR 0x27]"

definition show_leaks :: "(string \<times> string list) list \<Rightarrow> string" where
  "show_leaks ls = ''{'' @ str_join '', '' (map (\<lambda>(h, fs).
     quoted_str h @ '': ['' @ str_join '', '' (map quoted_str fs) @ '']'') ls) @ ''}''"

definition validate_assignment ::
  "split_digests \<Rightarrow> corpus_manifest \<Rightarrow> split_assignment \<Rightarrow> py_error + unit" where
  "validate_assignment D corpus a =
     try_bind (session_lookup corpus (sa_base_session_id a)) (\<lambda>s.
       if sa_campaign_ids a \<noteq> sorted_campaigns s
       then Inl (ValueError (''session campaign inventory is incomplete: '' @ sa_base_session_id a))
       else if sa_split_group a \<noteq> split_group D s
       then Inl (ValueError (''session split group is invalid: '' @ sa_base_session_id a))
       else if sa_source_session_hash a \<noteq> af_sha256 (gs_canonical_control_events s) \<or>
          sa_session_date a \<noteq> gs_session_date s \<or> sa_instrument a \<noteq> gs_instrument s \<or> sa_venue a \<noteq> gs_venue s
       then Inl (ValueError (''session split assignment metadata is invalid: '' @ sa_base_session_id a))
       else Inr ())"

definition expected_summary :: "split_manifest \<Rightarrow> corpus_manifest \<Rightarrow> fold_name \<Rightarrow> py_error + fold_summary" where
  "expected_summary m corpus f =
     try_bind (assigned_dates m corpus f) (\<lambda>ds. mk_fold_summary f (sorted_set ds) (mf_assignments m))"

definition validate_summaries :: "split_manifest \<Rightarrow> corpus_manifest \<Rightarrow> py_error + unit" where
  "validate_summaries m corpus =
     try_bind (try_map (expected_summary m corpus) all_folds) (\<lambda>expected.
       if list_ex (\<lambda>s. map_of (zip all_folds expected) (fs_fold s) \<noteq> Some s) (mf_folds m)
       then Inl (ValueError ''split fold summaries do not match assignments'') else Inr ())"

definition validate_bindings ::
  "split_digests \<Rightarrow> split_manifest \<Rightarrow> corpus_manifest \<Rightarrow> benchmark_protocol \<Rightarrow> py_error + unit" where
  "validate_bindings D m corpus protocol =
     (let p = bp_splits protocol in
      if mf_assignment_hash m \<noteq> assignment_hash D m
      then Inl (ValueError ''split assignment hash does not match manifest contents'')
      else if mf_corpus_id m \<noteq> cm_corpus_id corpus \<or> mf_corpus_hash m \<noteq> sd_corpus_hash D corpus
      then Inl (ValueError ''split manifest corpus binding is invalid'')
      else if mf_protocol_id m \<noteq> bp_protocol_id protocol \<or> mf_protocol_hash m \<noteq> sd_protocol_hash D protocol
      then Inl (ValueError ''split manifest protocol binding is invalid'')
      else if mf_strategy m \<noteq> po_strategy p \<or> mf_split_group_fields m \<noteq> po_group_fields p \<or>
        mf_purge_ns m \<noteq> purge_ns p \<or> mf_embargo_date_groups m \<noteq> po_embargo_sessions p
      then Inl (ValueError ''split manifest policy fields do not match the governed protocol'')
      else Inr ())"

definition validate_inventory :: "split_manifest \<Rightarrow> corpus_manifest \<Rightarrow> py_error + unit" where
  "validate_inventory m corpus =
     (let assigned = set (map sa_base_session_id (mf_assignments m));
          embargoed = set (concat (map eg_base_session_ids (mf_embargo m)));
          known = set (map gs_base_session_id (cm_sessions corpus)) in
      if assigned \<inter> embargoed \<noteq> {}
      then Inl (ValueError ''embargo sessions must not have train, validation, or test assignments'')
      else if assigned \<union> embargoed \<noteq> known
      then Inl (ValueError ''every corpus session must be assigned to a fold or explicit embargo'')
      else Inr ())"

definition validate_chronology :: "split_manifest \<Rightarrow> corpus_manifest \<Rightarrow> py_error + unit" where
  "validate_chronology m corpus =
     try_bind (assigned_dates m corpus TrainFold) (\<lambda>tr.
     try_bind (assigned_dates m corpus ValidationFold) (\<lambda>va.
     try_bind (assigned_dates m corpus TestFold) (\<lambda>te.
     try_bind (strictly_before tr va) (\<lambda>a.
     try_bind (if a then strictly_before va te else Inr False) (\<lambda>ok.
       if ok then Inr () else Inl (ValueError ''split folds must be strictly chronological''))))))"

definition validate_sources :: "split_manifest \<Rightarrow> corpus_manifest \<Rightarrow> py_error + unit" where
  "validate_sources m corpus =
     try_bind (try_map (\<lambda>a. try_bind (session_lookup corpus (sa_base_session_id a)) (\<lambda>s.
         Inr (af_sha256 (gs_canonical_control_events s), sa_fold a))) (mf_assignments m)) (\<lambda>ps.
       if leaked_sources ps \<noteq> []
       then Inl (ValueError (''duplicate source sessions cross folds: '' @ show_leaks (leaked_sources ps)))
       else Inr ())"

definition validate_split_manifest ::
  "split_digests \<Rightarrow> split_manifest \<Rightarrow> corpus_manifest \<Rightarrow> benchmark_protocol \<Rightarrow> py_error + unit" where
  "validate_split_manifest D m corpus protocol =
     try_bind (validate_bindings D m corpus protocol) (\<lambda>_.
     try_bind (validate_inventory m corpus) (\<lambda>_.
     try_bind (validate_chronology m corpus) (\<lambda>_.
     try_bind (validate_sources m corpus) (\<lambda>_.
     try_bind (try_map (validate_assignment D corpus) (mf_assignments m)) (\<lambda>_.
     try_bind (validate_expected_partition m corpus protocol) (\<lambda>_.
     validate_summaries m corpus))))))"

section \<open>Generation\<close>

definition provisional_manifest ::
  "split_digests \<Rightarrow> string \<Rightarrow> corpus_manifest \<Rightarrow> benchmark_protocol \<Rightarrow> string \<Rightarrow> split_assignment list \<Rightarrow>
    embargo_group list \<Rightarrow> fold_summary list \<Rightarrow> split_manifest" where
  "provisional_manifest D split_id corpus protocol now as es fs =
     \<lparr>mf_schema_version = ''governed_split_manifest_v1'', mf_split_id = split_id, mf_corpus_id = cm_corpus_id corpus,
      mf_corpus_hash = sd_corpus_hash D corpus, mf_protocol_id = bp_protocol_id protocol,
      mf_protocol_hash = sd_protocol_hash D protocol, mf_generated_at = now,
      mf_strategy = po_strategy (bp_splits protocol), mf_split_group_fields = po_group_fields (bp_splits protocol),
      mf_purge_ns = purge_ns (bp_splits protocol), mf_embargo_date_groups = po_embargo_sessions (bp_splits protocol),
      mf_assignments = as, mf_embargo = es, mf_folds = fs, mf_test_frozen = True,
      mf_assignment_hash = replicate 64 (CHR ''0'')\<rparr>"

definition generate_split_manifest ::
  "split_digests \<Rightarrow> string \<Rightarrow> corpus_manifest \<Rightarrow> benchmark_protocol \<Rightarrow> string \<Rightarrow> py_error + split_manifest" where
  "generate_split_manifest D split_id corpus protocol now =
     (if cm_protocol_id corpus \<noteq> bp_protocol_id protocol \<or> cm_protocol_hash corpus \<noteq> sd_protocol_hash D protocol
      then Inl (ValueError ''corpus protocol binding does not match split protocol'')
      else
        let ss = cm_sessions corpus; ds = dates_of ss; e = po_embargo_sessions (bp_splits protocol);
            allocatable = int (length ds) - 2 * int e in
        if allocatable < 3
        then Inl (ValueError ''chronological split requires three evaluable date groups plus both embargo boundaries'')
        else
          try_bind (fractional_counts allocatable (split_fractions (bp_splits protocol))) (\<lambda>ns.
            let fd = fold_dates ds e ns; as = fold_assignments D ss fd;
                es = embargo_groups ss (embargo_dates ds e ns) in
            try_bind (try_map (\<lambda>f. mk_fold_summary f (fd f) as) all_folds) (\<lambda>fs.
              let m = provisional_manifest D split_id corpus protocol now as es fs in
              try_bind (validate_manifest_model D (m\<lparr>mf_assignment_hash := assignment_hash D m\<rparr>)) (\<lambda>m.
                try_bind (validate_split_manifest D m corpus protocol) (\<lambda>_. Inr m)))))"

end
