(* ===== verification/SplitCounts.thy ===== *)
theory SplitCounts
  imports CorpusSplits
begin

text \<open>
  How many date groups each fold gets: the shares are computed in floating point, floored, and the
  remainder is handed out by largest fraction. The counts still add up to the number of date groups.
\<close>

section \<open>The error of one rounding\<close>

lemma rnd64_error: "\<bar>rnd64 x - x\<bar> \<le> \<bar>x\<bar> / 2 ^ 53"
proof (cases "x = 0")
  case False
  define u where "u = pow2 (expo x - 52)"
  have u: "0 < u" by (simp add: u_def)
  have "rnd64 x = of_int (rhe (x / u)) * u" using False by (simp add: rnd64_def u_def Let_def)
  then have "rnd64 x - x = (of_int (rhe (x / u)) - x / u) * u" using u by (simp add: left_diff_distrib)
  then have "\<bar>rnd64 x - x\<bar> = \<bar>of_int (rhe (x / u)) - x / u\<bar> * u" using u by (simp add: abs_mult)
  also have "\<dots> \<le> 1 / 2 * u" using u by (intro mult_right_mono rhe_near) simp
  also have "\<dots> = pow2 (expo x) / 2 ^ 53"
    unfolding u_def using pow2_diff [of "expo x" 52] pow2_nat [of 52] by simp
  also have "\<dots> \<le> \<bar>x\<bar> / 2 ^ 53" by (rule divide_right_mono [OF expo_bounds(1) [OF False]]) simp
  finally show ?thesis .
qed (simp add: rnd64_def)

definition ulp :: rat where
  "ulp = 1 / 2 ^ 53"

lemma ulp_small: "0 < ulp" "ulp \<le> 1 / 1000" "2 ^ 30 * ulp \<le> 1 / 10 ^ 6"
  by (simp_all add: ulp_def)

lemma rnd64_close: "\<bar>x\<bar> \<le> b \<Longrightarrow> \<bar>rnd64 x - x\<bar> \<le> b * ulp"
proof -
  assume "\<bar>x\<bar> \<le> b"
  then have "\<bar>x\<bar> / 2 ^ 53 \<le> b / 2 ^ 53" by (rule divide_right_mono) simp
  with rnd64_error [of x] show ?thesis by (simp add: ulp_def)
qed

lemma abs_sum3:
  fixes a b c :: rat
  shows "\<bar>a - x\<bar> \<le> e \<Longrightarrow> \<bar>b - y\<bar> \<le> e \<Longrightarrow> \<bar>c - z\<bar> \<le> e \<Longrightarrow> \<bar>(a + b + c) - (x + y + z)\<bar> \<le> 3 * e"
  by linarith

section \<open>Fractions of an accepted protocol\<close>

definition fractions_in_range :: "split_policy \<Rightarrow> bool" where
  "fractions_in_range p = list_all (\<lambda>f. 0 < f \<and> f < 1) (split_fractions p)"

lemma fraction_sum:
  assumes "fractions_in_range p" and "validate_split_contract p = Inr q"
  shows "\<bar>sum_list (split_fractions p) - 1\<bar> \<le> 1 / 10 ^ 11"
proof -
  let ?a = "po_train_fraction p" and ?b = "po_validation_fraction p" and ?c = "po_test_fraction p"
  have r: "0 < ?a" "?a < 1" "0 < ?b" "?b < 1" "0 < ?c" "?c < 1"
    using assms(1) by (simp_all add: fractions_in_range_def split_fractions_def)
  have ab: "\<bar>fadd ?a ?b - (?a + ?b)\<bar> \<le> 2 * ulp"
    unfolding fadd_def using r by (intro rnd64_close) auto
  have abc: "\<bar>fadd (fadd ?a ?b) ?c - (fadd ?a ?b + ?c)\<bar> \<le> 4 * ulp"
    unfolding fadd_def [of "fadd ?a ?b"] using r ab ulp_small by (intro rnd64_close) linarith
  let ?d = "fadd (fadd ?a ?b) ?c - 1"
  have d4: "\<bar>?d\<bar> \<le> 4" using ab abc r ulp_small by linarith
  have "\<bar>fsub (fadd (fadd ?a ?b) ?c) 1\<bar> \<le> flit (1 / 10 ^ 12)"
    using assms(2) by (auto simp: validate_split_contract_def Let_def split: if_splits)
  moreover have "\<bar>flit (1 / 10 ^ 12) - 1 / 10 ^ 12\<bar> \<le> 1 * ulp"
    unfolding flit_def by (rule rnd64_close) simp
  moreover have "\<bar>fsub (fadd (fadd ?a ?b) ?c) 1 - ?d\<bar> \<le> 4 * ulp"
    unfolding fsub_def using d4 by (rule rnd64_close)
  ultimately have "\<bar>?d\<bar> \<le> 1 / 10 ^ 12 + 5 * ulp" by linarith
  then have "\<bar>?a + ?b + ?c - 1\<bar> \<le> 1 / 10 ^ 12 + 11 * ulp" using ab abc by linarith
  also have "\<dots> \<le> 1 / 10 ^ 11" by (simp add: ulp_def)
  finally show ?thesis by (simp add: split_fractions_def add.assoc)
qed

lemma raw_share_bounds:
  assumes "0 < f" and "f < 1" and "0 \<le> r" and "r \<le> 2 ^ 30"
  shows "0 \<le> fmul f (flit (of_int r))" and "\<bar>fmul f (flit (of_int r)) - f * of_int r\<bar> \<le> 2 ^ 30 * ulp"
proof -
  have e: "flit (of_int r) = of_int r" unfolding flit_def using assms by (intro rnd64_of_int) auto
  have r: "of_int r \<le> (2 ^ 30 :: rat)" using assms(4) by (metis of_int_le_iff of_int_numeral of_int_power)
  show "0 \<le> fmul f (flit (of_int r))" unfolding e using assms by (intro fmul_nonneg) auto
  have "f * of_int r \<le> 1 * 2 ^ 30" using assms r by (intro mult_mono) auto
  then show "\<bar>fmul f (flit (of_int r)) - f * of_int r\<bar> \<le> 2 ^ 30 * ulp"
    unfolding e fmul_def using assms by (intro rnd64_close) auto
qed

lemma share_order_upt: "mset (share_order raw) = mset [0..<3]"
  by (simp only: share_order_def mset_sorted_desc)

lemma raw_total:
  assumes f: "fractions_in_range p" "validate_split_contract p = Inr q" and r: "0 \<le> r" "r \<le> 2 ^ 30"
  shows "\<bar>sum_list (raw_shares r (split_fractions p)) - of_int r\<bar> < 1"
proof -
  let ?fs = "split_fractions p" and ?r = "of_int r :: rat"
  have fr: "\<forall>f\<in>set ?fs. 0 < f \<and> f < 1" using f(1) by (simp add: fractions_in_range_def list_all_iff)
  have b: "\<bar>fmul f (flit ?r) - f * ?r\<bar> \<le> 2 ^ 30 * ulp" if "f \<in> set ?fs" for f
    using fr that r by (intro raw_share_bounds(2)) auto
  have "\<bar>sum_list (raw_shares r ?fs) - sum_list ?fs * ?r\<bar> \<le> 3 * (2 ^ 30 * ulp)"
    using abs_sum3 [OF b b b, of "po_train_fraction p" "po_validation_fraction p" "po_test_fraction p"]
    by (simp add: raw_shares_def split_fractions_def distrib_right add.assoc)
  moreover have "\<bar>sum_list ?fs * ?r - ?r\<bar> \<le> 1 / 10 ^ 11 * 2 ^ 30"
  proof -
    have "sum_list ?fs * ?r - ?r = (sum_list ?fs - 1) * ?r" by (simp add: left_diff_distrib)
    then have "\<bar>sum_list ?fs * ?r - ?r\<bar> = \<bar>sum_list ?fs - 1\<bar> * ?r" using r(1) by (simp add: abs_mult)
    also have "\<dots> \<le> 1 / 10 ^ 11 * 2 ^ 30"
    proof (rule mult_mono [OF fraction_sum [OF f]])
      show "?r \<le> 2 ^ 30" using r(2) by (metis of_int_le_iff of_int_numeral of_int_power)
    qed (use r(1) in simp_all)
    finally show ?thesis .
  qed
  moreover have "3 * (1 / 10 ^ 6) + 1 / 10 ^ 11 * 2 ^ 30 < (1 :: rat)" by simp
  ultimately show ?thesis using ulp_small(3) by linarith
qed

section \<open>The counts\<close>

lemma upt3: "[0..<3] = [0, 1, 2 :: nat]"
  by (simp add: upt_rec)

lemma permutation_upt3:
  assumes "mset xs = mset [0..<3]"
  shows "set xs = {0, 1, 2}" and "distinct xs" and "length xs = 3"
proof -
  show "set xs = {0, 1, 2}" using mset_eq_setD [OF assms] by (simp add: upt3)
  show "distinct xs" using mset_eq_imp_distinct_iff [OF assms] by (simp only: distinct_upt)
  show "length xs = 3" using mset_eq_length [OF assms] by (simp only: length_upt)
qed

lemma chosen_count:
  assumes "set xs = {0, 1, 2 :: nat}" and "distinct xs" and "length xs = 3" and "n \<le> 3"
  shows "(\<Sum>i\<leftarrow>[0..<3]. if i \<in> set (take n xs) then 1 else 0 :: int) = int n"
proof -
  have "(\<Sum>i\<leftarrow>[0..<3]. if i \<in> set (take n xs) then 1 else 0 :: int)
      = (\<Sum>i\<in>{0, 1, 2}. if i \<in> set (take n xs) then 1 else 0)"
    by (simp add: upt3)
  also have "\<dots> = int (card ({0, 1, 2} \<inter> set (take n xs)))" by (simp add: sum.inter_restrict [symmetric] del: Int_insert_left)
  also have "{0, 1, 2} \<inter> set (take n xs) = set (take n xs)" using assms(1) set_take_subset [of n xs] by auto
  also have "card (set (take n xs)) = n" using assms by (simp add: distinct_card)
  finally show ?thesis .
qed

lemma floor_total:
  assumes "\<bar>(a + b + c) - of_int r\<bar> < (1 :: rat)"
  shows "\<lfloor>a\<rfloor> + \<lfloor>b\<rfloor> + \<lfloor>c\<rfloor> \<le> r" and "r - (\<lfloor>a\<rfloor> + \<lfloor>b\<rfloor> + \<lfloor>c\<rfloor>) \<le> 3"
proof -
  have f: "of_int \<lfloor>a\<rfloor> \<le> a" "of_int \<lfloor>b\<rfloor> \<le> b" "of_int \<lfloor>c\<rfloor> \<le> c"
    "a < of_int \<lfloor>a\<rfloor> + 1" "b < of_int \<lfloor>b\<rfloor> + 1" "c < of_int \<lfloor>c\<rfloor> + 1" by linarith+
  have "of_int (\<lfloor>a\<rfloor> + \<lfloor>b\<rfloor> + \<lfloor>c\<rfloor>) < (of_int (r + 1) :: rat)"
    "(of_int r :: rat) < of_int (\<lfloor>a\<rfloor> + \<lfloor>b\<rfloor> + \<lfloor>c\<rfloor> + 4)"
    using f assms by simp_all linarith+
  then show "\<lfloor>a\<rfloor> + \<lfloor>b\<rfloor> + \<lfloor>c\<rfloor> \<le> r" "r - (\<lfloor>a\<rfloor> + \<lfloor>b\<rfloor> + \<lfloor>c\<rfloor>) \<le> 3"
    unfolding of_int_less_iff by linarith+
qed

lemma counts_of_shares:
  assumes fs: "fs = [f, g, h]" and tot: "\<bar>sum_list (raw_shares (groups - 3) fs) - of_int (groups - 3)\<bar> < 1"
    and nonneg: "\<forall>x\<in>set (raw_shares (groups - 3) fs). 0 \<le> x" and "3 \<le> groups"
  shows "\<exists>ns. fractional_counts groups fs = Inr ns \<and> length ns = 3 \<and> (\<forall>n\<in>set ns. 1 \<le> n) \<and> sum_list ns = groups \<and>
    (\<forall>i<3. \<bar>of_int (ns ! i - 1) - raw_shares (groups - 3) fs ! i\<bar> \<le> 1)"
proof -
  let ?r = "groups - 3"
  obtain a b c where raw: "raw_shares ?r fs = [a, b, c]" by (simp add: fs raw_shares_def)
  define left where "left = ?r - (\<lfloor>a\<rfloor> + \<lfloor>b\<rfloor> + \<lfloor>c\<rfloor>)"
  have left: "0 \<le> left" "left \<le> 3" using floor_total [of a b c ?r] tot by (simp_all add: raw left_def add.assoc)
  define ch where "ch = set (py_prefix left (share_order [a, b, c]))"
  have ch: "ch = set (take (nat left) (share_order [a, b, c]))" using left by (simp add: ch_def py_prefix_def)
  define n where "n i = [\<lfloor>a\<rfloor>, \<lfloor>b\<rfloor>, \<lfloor>c\<rfloor>] ! i + (if i \<in> ch then 1 else 0) + 1" for i
  have res: "fractional_counts groups fs = Inr [n 0, n 1, n 2]"
    using \<open>3 \<le> groups\<close> unfolding n_def ch_def left_def
    by (simp add: fractional_counts_def raw upt3 Let_def add.assoc)
  note ord = permutation_upt3 [OF share_order_upt [of "[a, b, c]"]]
  have "(\<Sum>i\<leftarrow>[0..<3]. if i \<in> ch then 1 else 0 :: int) = int (nat left)"
    unfolding ch using ord left by (intro chosen_count) auto
  then have sum: "n 0 + n 1 + n 2 = groups" using left by (simp add: n_def upt3 left_def)
  have ge: "0 \<le> \<lfloor>a\<rfloor>" "0 \<le> \<lfloor>b\<rfloor>" "0 \<le> \<lfloor>c\<rfloor>" using nonneg by (simp_all add: raw)
  have close: "\<bar>of_int (n i - 1) - [a, b, c] ! i\<bar> \<le> 1" if "i < 3" for i
  proof -
    have i: "i = 0 \<or> i = 1 \<or> i = 2" using that by auto
    show ?thesis using i by (elim disjE) (simp_all add: n_def, linarith+)
  qed
  have "\<forall>m\<in>set [n 0, n 1, n 2]. 1 \<le> m" using ge by (simp add: n_def)
  moreover have "\<forall>i<3. \<bar>of_int ([n 0, n 1, n 2] ! i - 1) - [a, b, c] ! i\<bar> \<le> 1"
  proof (intro allI impI)
    fix i :: nat
    assume "i < 3"
    then have i: "i = 0 \<or> i = 1 \<or> i = 2" by auto
    then show "\<bar>of_int ([n 0, n 1, n 2] ! i - 1) - [a, b, c] ! i\<bar> \<le> 1" using close [OF \<open>i < 3\<close>] by (elim disjE) simp_all
  qed
  ultimately show ?thesis using res sum raw by (intro exI [of _ "[n 0, n 1, n 2]"]) simp
qed

end
