(* ===== verification/SplitPartition.thy ===== *)
theory SplitPartition
  imports SplitCounts
begin

text \<open>
  The partition of the dates that a split cuts, and the assignments it makes of them: the facts that
  generation and validation share.
\<close>

section \<open>Cutting the dates\<close>

definition cut_ok :: "calendar_date list \<Rightarrow> nat \<Rightarrow> int list \<Rightarrow> bool" where
  "cut_ok ds e ns = (length ns = 3 \<and> list_all (\<lambda>n. 1 \<le> n) ns \<and> sum_list ns + 2 * int e = int (length ds))"

lemma take_drop_split: "a \<le> b \<Longrightarrow> take a xs @ take (b - a) (drop a xs) = take b xs"
  by (metis le_add_diff_inverse take_add)

lemma slice_list_append: "a \<le> b \<Longrightarrow> b \<le> c \<Longrightarrow> slice_list a b xs @ slice_list b c xs = slice_list a c xs"
proof -
  assume ab: "a \<le> b" "b \<le> c"
  have "c - a = (b - a) + (c - b)" using ab by simp
  then have "slice_list a c xs = take (b - a) (drop a xs) @ take (c - b) (drop (b - a) (drop a xs))"
    unfolding slice_list_def by (simp only: take_add)
  also have "drop (b - a) (drop a xs) = drop b xs" using ab by simp
  finally show ?thesis by (simp add: slice_list_def)
qed

lemma length_slice_list: "b \<le> length xs \<Longrightarrow> length (slice_list a b xs) = b - a"
  by (simp add: slice_list_def)

lemma cut_indices:
  assumes "cut_ok ds e ns"
  obtains a b c where "ns = [int a, int b, int c]" and "1 \<le> a" and "1 \<le> b" and "1 \<le> c"
    and "a + b + c + 2 * e = length ds"
proof -
  obtain x y z where ns: "ns = [x, y, z]"
    using assms by (auto simp: cut_ok_def numeral_3_eq_3 length_Suc_conv)
  with assms have "1 \<le> x" "1 \<le> y" "1 \<le> z" "x + y + z + 2 * int e = int (length ds)"
    by (simp_all add: cut_ok_def)
  then show ?thesis using that [of "nat x" "nat y" "nat z"] ns by simp
qed

lemma cut_partition:
  assumes "cut_ok ds e ns"
  shows "fold_dates ds e ns TrainFold @ embargo_dates ds e ns TrainValidation @ fold_dates ds e ns ValidationFold @
    embargo_dates ds e ns ValidationTest @ fold_dates ds e ns TestFold = ds" (is "?T @ ?E @ ?V @ ?F @ ?L = ds")
    and "fold_dates ds e ns f \<noteq> []"
    and "length (embargo_dates ds e ns b) = e"
proof -
  obtain a v c where ns: "ns = [int a, int v, int c]" "1 \<le> a" "1 \<le> v" "1 \<le> c"
    and len: "a + v + c + 2 * e = length ds"
    by (rule cut_indices [OF assms])
  have parts: "?T = slice_list 0 a ds" "?E = slice_list a (a + e) ds" "?V = slice_list (a + e) (a + e + v) ds"
    "?F = slice_list (a + e + v) (a + e + v + e) ds" "?L = slice_list (a + e + v + e) (a + e + v + e + c) ds"
    by (simp_all add: fold_dates_def embargo_dates_def ns Let_def)
  have "slice_list 0 (a + e + v + e + c) ds = ds" using len by (simp add: slice_list_def)
  then show "?T @ ?E @ ?V @ ?F @ ?L = ds" unfolding parts by (simp add: slice_list_append)
  have "length (fold_dates ds e ns f) = (case f of TrainFold \<Rightarrow> a | ValidationFold \<Rightarrow> v | TestFold \<Rightarrow> c)"
    using len by (cases f) (simp_all add: fold_dates_def ns Let_def length_slice_list)
  then show "fold_dates ds e ns f \<noteq> []" using ns by (cases f) auto
  show "length (embargo_dates ds e ns b) = e"
    using len by (cases b) (simp_all add: parts length_slice_list)
qed

section \<open>The dates of a corpus\<close>

lemma set_dates_of: "set (dates_of ss) = gs_session_date ` set ss"
  by (simp add: dates_of_def)

lemma dates_of_sorted: "sorted (dates_of ss)" "distinct (dates_of ss)"
  by (simp_all add: dates_of_def)

lemma set_sessions_on: "s \<in> set (sessions_on ss d) \<longleftrightarrow> s \<in> set ss \<and> gs_session_date s = d"
  by (auto simp: sessions_on_def)

lemma sessions_on_nonempty: "d \<in> set (dates_of ss) \<Longrightarrow> sessions_on ss d \<noteq> []"
  by (auto simp: set_dates_of sessions_on_def filter_empty_conv)

lemma sorted_append_less:
  "sorted (xs @ ys) \<Longrightarrow> distinct (xs @ ys) \<Longrightarrow> x \<in> set xs \<Longrightarrow> y \<in> set ys \<Longrightarrow> x < y"
  by (fastforce simp: sorted_append order_less_le)

fun fold_rank :: "fold_name \<Rightarrow> nat" where
  "fold_rank TrainFold = 0"
| "fold_rank ValidationFold = 1"
| "fold_rank TestFold = 2"

lemma fold_rank_inject: "fold_rank f = fold_rank g \<longleftrightarrow> f = g"
  by (cases f; cases g) auto

lemma fold_dates_chronological:
  assumes cut: "cut_ok (dates_of ss) e ns" and rank: "fold_rank f < fold_rank g"
    and x: "x \<in> set (fold_dates (dates_of ss) e ns f)" and y: "y \<in> set (fold_dates (dates_of ss) e ns g)"
  shows "x < y"
proof -
  let ?fd = "fold_dates (dates_of ss) e ns" and ?ed = "embargo_dates (dates_of ss) e ns"
  have p: "?fd TrainFold @ ?ed TrainValidation @ ?fd ValidationFold @ ?ed ValidationTest @ ?fd TestFold = dates_of ss"
    by (rule cut_partition(1) [OF cut])
  have s: "sorted (?fd TrainFold @ ?ed TrainValidation @ ?fd ValidationFold @ ?ed ValidationTest @ ?fd TestFold)"
    and d: "distinct (?fd TrainFold @ ?ed TrainValidation @ ?fd ValidationFold @ ?ed ValidationTest @ ?fd TestFold)"
    unfolding p by (rule dates_of_sorted)+
  show ?thesis using sorted_append_less [OF s d, of x y] s d rank x y
    by (cases f; cases g) (auto simp: sorted_append order_less_le)
qed

lemma fold_dates_disjoint:
  assumes "cut_ok (dates_of ss) e ns" and "x \<in> set (fold_dates (dates_of ss) e ns f)"
    and "x \<in> set (fold_dates (dates_of ss) e ns g)"
  shows "f = g"
  using fold_dates_chronological [OF assms(1), of f g x x] fold_dates_chronological [OF assms(1), of g f x x] assms(2,3)
    fold_rank_inject [of f g] by (meson less_irrefl linorder_neqE_nat)

lemma fold_embargo_disjoint:
  assumes cut: "cut_ok (dates_of ss) e ns" and x: "x \<in> set (fold_dates (dates_of ss) e ns f)"
  shows "x \<notin> set (embargo_dates (dates_of ss) e ns b)"
proof -
  let ?fd = "fold_dates (dates_of ss) e ns" and ?ed = "embargo_dates (dates_of ss) e ns"
  have p: "?fd TrainFold @ ?ed TrainValidation @ ?fd ValidationFold @ ?ed ValidationTest @ ?fd TestFold = dates_of ss"
    by (rule cut_partition(1) [OF cut])
  have d: "distinct (?fd TrainFold @ ?ed TrainValidation @ ?fd ValidationFold @ ?ed ValidationTest @ ?fd TestFold)"
    unfolding p by (rule dates_of_sorted)
  show ?thesis using d x by (cases f; cases b) auto
qed

lemma date_cases:
  assumes "cut_ok (dates_of ss) e ns" and "s \<in> set ss"
  shows "(\<exists>f. gs_session_date s \<in> set (fold_dates (dates_of ss) e ns f)) \<or>
    (\<exists>b. gs_session_date s \<in> set (embargo_dates (dates_of ss) e ns b))"
proof -
  have "gs_session_date s \<in> set (dates_of ss)" using assms(2) by (simp add: set_dates_of)
  then show ?thesis by (subst (asm) cut_partition(1) [OF assms(1), symmetric]) auto
qed

section \<open>Looking sessions up\<close>

lemma map_of_rev_distinct: "distinct (map fst xs) \<Longrightarrow> map_of (rev xs) = map_of xs"
  by (intro map_of_inject_set [THEN iffD2]) (simp_all add: rev_map [symmetric])

lemma session_lookup_Inr:
  assumes "distinct (map gs_base_session_id (cm_sessions c))" and "s \<in> set (cm_sessions c)"
  shows "session_lookup c (gs_base_session_id s) = Inr s"
proof -
  let ?xs = "map (\<lambda>s. (gs_base_session_id s, s)) (cm_sessions c)"
  have d: "distinct (map fst ?xs)" using assms(1) by (simp add: comp_def)
  have "(gs_base_session_id s, s) \<in> set ?xs" using assms(2) by auto
  with d have "map_of ?xs (gs_base_session_id s) = Some s" by (rule map_of_is_SomeI)
  then show ?thesis by (simp add: session_lookup_def map_of_rev_distinct [OF d])
qed

lemma session_lookup_in: "session_lookup c i = Inr s \<Longrightarrow> s \<in> set (cm_sessions c) \<and> gs_base_session_id s = i"
  by (auto simp: session_lookup_def dest: map_of_SomeD split: option.splits)

section \<open>The assignments of a partition\<close>

abbreviation source_hash :: "governed_session \<Rightarrow> string" where
  "source_hash s \<equiv> af_sha256 (gs_canonical_control_events s)"

lemma mk_assignment_fields [simp]:
  "sa_base_session_id (mk_assignment D s f) = gs_base_session_id s"
  "sa_fold (mk_assignment D s f) = f"
  "sa_session_date (mk_assignment D s f) = gs_session_date s"
  "sa_source_session_hash (mk_assignment D s f) = source_hash s"
  "sa_campaign_ids (mk_assignment D s f) = sorted_campaigns s"
  "sa_split_group (mk_assignment D s f) = split_group D s"
  "sa_instrument (mk_assignment D s f) = gs_instrument s"
  "sa_venue (mk_assignment D s f) = gs_venue s"
  by (simp_all add: mk_assignment_def)

lemma set_fold_assignments:
  "a \<in> set (fold_assignments D ss fd) \<longleftrightarrow>
     (\<exists>s f. s \<in> set ss \<and> gs_session_date s \<in> set (fd f) \<and> a = mk_assignment D s f)"
proof -
  have "set all_folds = UNIV" using fold_name.exhaust by (auto simp: all_folds_def)
  then have "a \<in> set (fold_assignments D ss fd) \<longleftrightarrow>
      (\<exists>f. \<exists>d\<in>set (fd f). \<exists>s\<in>set (sessions_on ss d). a = mk_assignment D s f)"
    by (simp add: fold_assignments_def image_iff)
  also have "\<dots> \<longleftrightarrow> (\<exists>s f. s \<in> set ss \<and> gs_session_date s \<in> set (fd f) \<and> a = mk_assignment D s f)"
    unfolding Bex_def set_sessions_on by blast
  finally show ?thesis .
qed

lemma distinct_grouped:
  assumes "distinct (map h ss)" and "distinct ds"
  shows "distinct (concat (map (\<lambda>d. map h (sort_key k (sessions_on ss d))) ds))"
  using assms(2)
proof (induction ds)
  case (Cons d ds)
  have "distinct (map h (sort_key k (sessions_on ss d)))"
    using assms(1) by (simp add: distinct_map sessions_on_def inj_on_def)
  moreover have "h s \<noteq> h t" if "s \<in> set (sessions_on ss d)" "t \<in> set (sessions_on ss d')" "d' \<in> set ds" for s t d'
    using that Cons.prems assms(1) by (auto simp: set_sessions_on distinct_map dest!: inj_onD)
  ultimately show ?case using Cons by (auto simp: image_iff)
qed simp

lemma distinct_assignments:
  assumes ids: "distinct (map gs_base_session_id ss)" and cut: "cut_ok (dates_of ss) e ns"
  shows "distinct (map sa_base_session_id (fold_assignments D ss (fold_dates (dates_of ss) e ns)))"
proof -
  let ?fd = "fold_dates (dates_of ss) e ns"
  have "distinct (?fd TrainFold @ ?fd ValidationFold @ ?fd TestFold)"
    using dates_of_sorted(2) [of ss] by (subst (asm) cut_partition(1) [OF cut, symmetric]) auto
  from distinct_grouped [OF ids this, of session_sort_key]
  show ?thesis by (simp add: fold_assignments_def all_folds_def map_concat comp_def)
qed

lemma assignments_of_fold:
  assumes "cut_ok (dates_of ss) e ns"
  shows "sa_session_date ` set (filter (\<lambda>a. sa_fold a = f) (fold_assignments D ss (fold_dates (dates_of ss) e ns))) =
    set (fold_dates (dates_of ss) e ns f)" (is "?L = set (?fd f)")
proof
  show "?L \<subseteq> set (?fd f)" by (auto simp: set_fold_assignments)
  have "set (?fd f) \<subseteq> set (dates_of ss)"
    by (subst (2) cut_partition(1) [OF assms, symmetric]) (cases f; auto)
  then show "set (?fd f) \<subseteq> ?L" by (force simp: set_dates_of set_fold_assignments)
qed

end
