(* ===== verification/SplitGeneration.thy ===== *)
theory SplitGeneration
  imports SplitPartition
begin

text \<open>
  Each check of \<open>validate_split_manifest\<close>, on a manifest whose assignments and embargo groups are those
  of the partition of the corpus.
\<close>

lemma set_all_boundaries: "set all_boundaries = UNIV"
  using embargo_boundary.exhaust by (auto simp: all_boundaries_def)

lemma set_all_folds: "set all_folds = UNIV"
  using fold_name.exhaust by (auto simp: all_folds_def)

lemma set_embargo_ids: "set (embargo_ids ss ds) = gs_base_session_id ` {s \<in> set ss. gs_session_date s \<in> set ds}"
  by (auto simp: embargo_ids_def set_sessions_on)

lemma embargoed_ids:
  "set (concat (map eg_base_session_ids (embargo_groups ss ed))) =
     gs_base_session_id ` {s \<in> set ss. \<exists>b. gs_session_date s \<in> set (ed b)}" (is "?L = ?R")
proof (intro equalityI subsetI)
  fix i
  assume "i \<in> ?L"
  then obtain b where "i \<in> set (embargo_ids ss (ed b))" by (auto simp: embargo_groups_def)
  then show "i \<in> ?R" unfolding set_embargo_ids by blast
next
  fix i
  assume "i \<in> ?R"
  then obtain s b where s: "s \<in> set ss" "gs_session_date s \<in> set (ed b)" "i = gs_base_session_id s" by auto
  then have "ed b \<noteq> []" by auto
  then have "b \<in> set (filter (\<lambda>b. ed b \<noteq> []) all_boundaries)" by (simp add: set_all_boundaries)
  moreover have "i \<in> set (sort (embargo_ids ss (ed b)))" using s by (simp add: set_embargo_ids)
  ultimately show "i \<in> ?L" unfolding embargo_groups_def set_concat set_map image_image by (intro UN_I) simp_all
qed

lemma assigned_ids:
  "set (map sa_base_session_id (fold_assignments D ss fd)) =
     gs_base_session_id ` {s \<in> set ss. \<exists>f. gs_session_date s \<in> set (fd f)}"
proof (intro equalityI subsetI)
  fix i
  assume "i \<in> gs_base_session_id ` {s \<in> set ss. \<exists>f. gs_session_date s \<in> set (fd f)}"
  then obtain s f where "s \<in> set ss" "gs_session_date s \<in> set (fd f)" "i = gs_base_session_id s" by auto
  then have "mk_assignment D s f \<in> set (fold_assignments D ss fd)" "i = sa_base_session_id (mk_assignment D s f)"
    by (auto simp: set_fold_assignments)
  then show "i \<in> set (map sa_base_session_id (fold_assignments D ss fd))" by (metis imageI set_map)
next
  fix i
  assume "i \<in> set (map sa_base_session_id (fold_assignments D ss fd))"
  then obtain s f where "s \<in> set ss" "gs_session_date s \<in> set (fd f)" "i = gs_base_session_id s"
    by (auto simp: set_fold_assignments)
  then show "i \<in> gs_base_session_id ` {s \<in> set ss. \<exists>f. gs_session_date s \<in> set (fd f)}" by blast
qed

definition partitioned :: "split_digests \<Rightarrow> split_manifest \<Rightarrow> corpus_manifest \<Rightarrow> nat \<Rightarrow> int list \<Rightarrow> bool" where
  "partitioned D m corpus e ns =
     (distinct (map gs_base_session_id (cm_sessions corpus)) \<and> cut_ok (dates_of (cm_sessions corpus)) e ns \<and>
      mf_assignments m = fold_assignments D (cm_sessions corpus) (fold_dates (dates_of (cm_sessions corpus)) e ns) \<and>
      mf_embargo m = embargo_groups (cm_sessions corpus) (embargo_dates (dates_of (cm_sessions corpus)) e ns))"

lemma partitionedD:
  assumes "partitioned D m corpus e ns"
  shows "distinct (map gs_base_session_id (cm_sessions corpus))" and "cut_ok (dates_of (cm_sessions corpus)) e ns"
    and "mf_assignments m = fold_assignments D (cm_sessions corpus) (fold_dates (dates_of (cm_sessions corpus)) e ns)"
    and "mf_embargo m = embargo_groups (cm_sessions corpus) (embargo_dates (dates_of (cm_sessions corpus)) e ns)"
  using assms by (simp_all add: partitioned_def)

lemma in_assignments:
  assumes "partitioned D m corpus e ns"
  shows "a \<in> set (mf_assignments m) \<longleftrightarrow>
    (\<exists>s f. s \<in> set (cm_sessions corpus) \<and> gs_session_date s \<in> set (fold_dates (dates_of (cm_sessions corpus)) e ns f) \<and>
      a = mk_assignment D s f)"
  by (simp add: partitionedD(3) [OF assms] set_fold_assignments)

lemma inventory_accepted:
  assumes p: "partitioned D m corpus e ns"
  shows "validate_inventory m corpus = Inr ()"
proof -
  let ?ss = "cm_sessions corpus"
  let ?A = "{s \<in> set ?ss. \<exists>f. gs_session_date s \<in> set (fold_dates (dates_of ?ss) e ns f)}"
  let ?E = "{s \<in> set ?ss. \<exists>b. gs_session_date s \<in> set (embargo_dates (dates_of ?ss) e ns b)}"
  have inj: "inj_on gs_base_session_id (set ?ss)" using partitionedD(1) [OF p] by (simp add: distinct_map)
  have a: "set (map sa_base_session_id (mf_assignments m)) = gs_base_session_id ` ?A"
    unfolding partitionedD(3) [OF p] by (rule assigned_ids)
  have b: "set (concat (map eg_base_session_ids (mf_embargo m))) = gs_base_session_id ` ?E"
    unfolding partitionedD(4) [OF p] by (rule embargoed_ids)
  have "?A \<inter> ?E = {}" using fold_embargo_disjoint [OF partitionedD(2) [OF p]] by blast
  then have "gs_base_session_id ` ?A \<inter> gs_base_session_id ` ?E = {}"
    using inj_on_image_Int [OF inj, of ?A ?E] by simp
  moreover have "?A \<union> ?E = set ?ss" using date_cases [OF partitionedD(2) [OF p]] by blast
  then have "gs_base_session_id ` ?A \<union> gs_base_session_id ` ?E = set (map gs_base_session_id ?ss)"
    by (simp flip: image_Un)
  ultimately show ?thesis unfolding validate_inventory_def Let_def a b by simp
qed

lemma lookup_assignment:
  assumes p: "partitioned D m corpus e ns" and a: "a \<in> set (mf_assignments m)"
  obtains s where "session_lookup corpus (sa_base_session_id a) = Inr s" and "s \<in> set (cm_sessions corpus)"
    and "gs_session_date s \<in> set (fold_dates (dates_of (cm_sessions corpus)) e ns (sa_fold a))"
    and "a = mk_assignment D s (sa_fold a)"
  using a session_lookup_Inr [OF partitionedD(1) [OF p]] by (auto simp: in_assignments [OF p])

lemma assigned_dates_partition:
  assumes p: "partitioned D m corpus e ns"
  shows "assigned_dates m corpus f = Inr (map sa_session_date (filter (\<lambda>a. sa_fold a = f) (mf_assignments m)))"
  unfolding assigned_dates_def
proof (rule try_map_Inr)
  fix a
  assume "a \<in> set (filter (\<lambda>a. sa_fold a = f) (mf_assignments m))"
  then have "a \<in> set (mf_assignments m)" by simp
  then obtain s where "session_lookup corpus (sa_base_session_id a) = Inr s" "a = mk_assignment D s (sa_fold a)"
    by (rule lookup_assignment [OF p])
  then show "try_bind (session_lookup corpus (sa_base_session_id a)) (\<lambda>s. Inr (gs_session_date s)) = Inr (sa_session_date a)"
    by (metis mk_assignment_fields(3) try_bind_simps(2))
qed

lemma assigned_dates_set:
  assumes p: "partitioned D m corpus e ns"
  shows "set (map sa_session_date (filter (\<lambda>a. sa_fold a = f) (mf_assignments m))) =
    set (fold_dates (dates_of (cm_sessions corpus)) e ns f)"
  using assignments_of_fold [OF partitionedD(2) [OF p], of f D] by (simp add: partitionedD(3) [OF p])

lemma py_max_Inr: "py_max xs = Inr m \<longleftrightarrow> m \<in> set xs \<and> (\<forall>x\<in>set xs. x \<le> m)"
  using max_opt_Some [of xs m] by (auto simp: py_max_def split: option.splits)

lemma py_min_Inr: "py_min xs = Inr m \<longleftrightarrow> m \<in> set xs \<and> (\<forall>x\<in>set xs. m \<le> x)"
  using min_opt_Some [of xs m] by (auto simp: py_min_def split: option.splits)

lemma py_max_nonempty: "xs \<noteq> [] \<Longrightarrow> \<exists>m. py_max xs = Inr m"
  by (auto simp: py_max_def split: option.splits)

lemma py_min_nonempty: "xs \<noteq> [] \<Longrightarrow> \<exists>m. py_min xs = Inr m"
  by (auto simp: py_min_def split: option.splits)

lemma strictly_before_True:
  "strictly_before xs ys = Inr True \<longleftrightarrow> xs \<noteq> [] \<and> ys \<noteq> [] \<and> (\<forall>x\<in>set xs. \<forall>y\<in>set ys. x < y)"
proof
  assume "strictly_before xs ys = Inr True"
  then obtain a b where "py_max xs = Inr a" "py_min ys = Inr b" "a < b"
    by (auto simp: strictly_before_def try_bind_Inr)
  then show "xs \<noteq> [] \<and> ys \<noteq> [] \<and> (\<forall>x\<in>set xs. \<forall>y\<in>set ys. x < y)"
    by (auto simp: py_max_Inr py_min_Inr) (meson le_less_trans less_le_trans)
next
  assume r: "xs \<noteq> [] \<and> ys \<noteq> [] \<and> (\<forall>x\<in>set xs. \<forall>y\<in>set ys. x < y)"
  then obtain a b where ab: "py_max xs = Inr a" "py_min ys = Inr b" using py_max_nonempty py_min_nonempty by blast
  then have "a < b" using r by (simp add: py_max_Inr py_min_Inr)
  with ab show "strictly_before xs ys = Inr True" by (simp add: strictly_before_def)
qed

lemma chronology_accepted:
  assumes p: "partitioned D m corpus e ns"
  shows "validate_chronology m corpus = Inr ()"
proof -
  let ?d = "\<lambda>f. map sa_session_date (filter (\<lambda>a. sa_fold a = f) (mf_assignments m))"
  have before: "strictly_before (?d f) (?d g) = Inr True" if "fold_rank f < fold_rank g" for f g
  proof -
    have "set (?d h) \<noteq> {}" for h
      unfolding assigned_dates_set [OF p] using cut_partition(2) [OF partitionedD(2) [OF p]] by simp
    then have "?d f \<noteq> []" "?d g \<noteq> []" by (metis list.set(1))+
    moreover have "\<forall>x\<in>set (?d f). \<forall>y\<in>set (?d g). x < y"
      unfolding assigned_dates_set [OF p] using fold_dates_chronological [OF partitionedD(2) [OF p] that] by blast
    ultimately show ?thesis by (simp only: strictly_before_True) simp
  qed
  show ?thesis
    unfolding validate_chronology_def assigned_dates_partition [OF p] try_bind_simps
    by (simp only: before [of TrainFold ValidationFold] before [of ValidationFold TestFold] fold_rank.simps
      try_bind_simps if_True less_numeral_extra one_less_numeral_iff semiring_norm)
qed

section \<open>Sources, assignments and the expected partition\<close>

lemma sorted_set_constant: "\<forall>x\<in>set xs. x = c \<Longrightarrow> length (sorted_set xs) \<le> 1"
proof -
  assume "\<forall>x\<in>set xs. x = c"
  then have "card (set (sorted_set xs)) \<le> card {c}" by (intro card_mono) auto
  then show ?thesis by (simp add: distinct_card del: set_sorted_set)
qed

lemma no_leaks:
  assumes "\<And>h f g. (h, f) \<in> set ps \<Longrightarrow> (h, g) \<in> set ps \<Longrightarrow> f = g"
  shows "leaked_sources ps = []"
proof -
  have "length (sorted_set (map (\<lambda>(h', f). fold_str f) (filter (\<lambda>(h', f). h' = h) ps))) \<le> 1" for h
  proof (cases "\<exists>f. (h, f) \<in> set ps")
    case True
    then obtain f where "(h, f) \<in> set ps" ..
    then show ?thesis using assms by (intro sorted_set_constant [where c = "fold_str f"]) auto
  next
    case False
    then show ?thesis by (intro sorted_set_constant [where c = "[]"]) auto
  qed
  then show ?thesis by (auto simp: leaked_sources_def filter_empty_conv not_less)
qed

lemma sources_accepted:
  assumes p: "partitioned D m corpus e ns" and inj: "distinct (map source_hash (cm_sessions corpus))"
  shows "validate_sources m corpus = Inr ()"
proof -
  let ?fd = "fold_dates (dates_of (cm_sessions corpus)) e ns"
  let ?g = "\<lambda>a. (sa_source_session_hash a, sa_fold a)"
  have "try_map (\<lambda>a. try_bind (session_lookup corpus (sa_base_session_id a)) (\<lambda>s. Inr (source_hash s, sa_fold a)))
      (mf_assignments m) = Inr (map ?g (mf_assignments m))"
  proof (rule try_map_Inr)
    fix a
    assume "a \<in> set (mf_assignments m)"
    then obtain s where "session_lookup corpus (sa_base_session_id a) = Inr s" "a = mk_assignment D s (sa_fold a)"
      by (rule lookup_assignment [OF p])
    then show "try_bind (session_lookup corpus (sa_base_session_id a)) (\<lambda>s. Inr (source_hash s, sa_fold a)) = Inr (?g a)"
      by (metis mk_assignment_fields(4) try_bind_simps(2))
  qed
  moreover have "leaked_sources (map ?g (mf_assignments m)) = []"
  proof (rule no_leaks)
    fix h f g
    assume "(h, f) \<in> set (map ?g (mf_assignments m))" "(h, g) \<in> set (map ?g (mf_assignments m))"
    then obtain s t where st: "s \<in> set (cm_sessions corpus)" "gs_session_date s \<in> set (?fd f)" "source_hash s = h"
      "t \<in> set (cm_sessions corpus)" "gs_session_date t \<in> set (?fd g)" "source_hash t = h"
      by (auto simp: in_assignments [OF p])
    then have "s = t" using inj by (metis distinct_map inj_onD)
    with st show "f = g" using fold_dates_disjoint [OF partitionedD(2) [OF p]] by blast
  qed
  ultimately show ?thesis by (simp add: validate_sources_def)
qed

lemma assignments_accepted:
  assumes p: "partitioned D m corpus e ns"
  shows "try_map (validate_assignment D corpus) (mf_assignments m) = Inr (map (\<lambda>_. ()) (mf_assignments m))"
proof (rule try_map_Inr)
  fix a
  assume "a \<in> set (mf_assignments m)"
  then obtain s where s: "session_lookup corpus (sa_base_session_id a) = Inr s" "a = mk_assignment D s (sa_fold a)"
    by (rule lookup_assignment [OF p])
  then have "sa_campaign_ids a = sorted_campaigns s" "sa_split_group a = split_group D s"
    "sa_source_session_hash a = source_hash s" "sa_session_date a = gs_session_date s"
    "sa_instrument a = gs_instrument s" "sa_venue a = gs_venue s"
    by (metis mk_assignment_fields)+
  with s(1) show "validate_assignment D corpus a = Inr ()" by (simp add: validate_assignment_def)
qed

lemma observed_embargo_groups:
  assumes "mf_embargo m = embargo_groups ss ed"
  shows "observed_embargo m b = (if ed b = [] then None
    else Some \<lparr>eg_between = b, eg_session_dates = ed b, eg_base_session_ids = sort (embargo_ids ss (ed b))\<rparr>)"
  by (cases b) (simp_all add: observed_embargo_def assms embargo_groups_def all_boundaries_def)

lemma partition_accepted:
  assumes p: "partitioned D m corpus (po_embargo_sessions (bp_splits protocol)) ns"
    and ns: "fractional_counts (int (length (dates_of (cm_sessions corpus))) - 2 * int (po_embargo_sessions (bp_splits protocol)))
      (split_fractions (bp_splits protocol)) = Inr ns"
  shows "validate_expected_partition m corpus protocol = Inr ()"
proof -
  let ?ss = "cm_sessions corpus" and ?e = "po_embargo_sessions (bp_splits protocol)"
  let ?fd = "fold_dates (dates_of ?ss) ?e ns" and ?ed = "embargo_dates (dates_of ?ss) ?e ns"
  have "set (map (\<lambda>a. (sa_base_session_id a, sa_fold a)) (mf_assignments m)) =
      set (concat (map (\<lambda>f. concat (map (\<lambda>d. map (\<lambda>s. (gs_base_session_id s, f)) (sessions_on ?ss d)) (?fd f))) all_folds))"
    unfolding partitionedD(3) [OF p] fold_assignments_def by (simp add: image_UN image_image)
  moreover have "list_all (\<lambda>b. case observed_embargo m b of None \<Rightarrow> ?ed b = []
      | Some g \<Rightarrow> ?ed b \<noteq> [] \<and> set (eg_session_dates g) = set (?ed b) \<and>
          set (eg_base_session_ids g) = set (embargo_ids ?ss (?ed b))) all_boundaries"
    unfolding list_all_iff observed_embargo_groups [OF partitionedD(4) [OF p]] by simp
  ultimately show ?thesis unfolding validate_expected_partition_def Let_def ns try_bind_simps by simp
qed

lemma mk_fold_summary_set: "set ds = set ds' \<Longrightarrow> mk_fold_summary f ds as = mk_fold_summary f ds' as"
proof -
  assume s: "set ds = set ds'"
  then have "(ds = []) = (ds' = [])" by (metis list.set(1) set_empty)
  with s have "py_min ds = py_min ds'" "py_max ds = py_max ds'"
    by (simp_all add: py_min_def py_max_def min_opt_def max_opt_def)
  then show ?thesis by (simp only: mk_fold_summary_def)
qed

lemma try_map_Inr_nth: "try_map f xs = Inr ys \<Longrightarrow> i < length xs \<Longrightarrow> f (xs ! i) = Inr (ys ! i)"
  by (induction xs arbitrary: ys i) (auto simp: try_bind_Inr nth_Cons split: nat.splits)

lemma mk_fold_summary_fold: "mk_fold_summary f ds as = Inr s \<Longrightarrow> fs_fold s = f"
  by (auto simp: mk_fold_summary_def Let_def try_bind_Inr split: if_splits)

lemma all_folds_cases: "try_map h all_folds = Inr ys \<Longrightarrow>
   \<exists>a b c. ys = [a, b, c] \<and> h TrainFold = Inr a \<and> h ValidationFold = Inr b \<and> h TestFold = Inr c"
  by (auto simp: all_folds_def try_bind_Inr)

lemma summaries_accepted:
  assumes p: "partitioned D m corpus e ns"
    and fs: "try_map (\<lambda>f. mk_fold_summary f (fold_dates (dates_of (cm_sessions corpus)) e ns f) (mf_assignments m)) all_folds =
      Inr (mf_folds m)"
  shows "validate_summaries m corpus = Inr ()"
proof -
  let ?fd = "fold_dates (dates_of (cm_sessions corpus)) e ns"
  have "expected_summary m corpus f = mk_fold_summary f (?fd f) (mf_assignments m)" for f
    unfolding expected_summary_def assigned_dates_partition [OF p] try_bind_simps
    by (rule mk_fold_summary_set) (simp only: set_sorted_set assigned_dates_set [OF p])
  then have e: "try_map (expected_summary m corpus) all_folds = Inr (mf_folds m)"
    using fs by (simp cong: try_map_cong)
  obtain a b c where abc: "mf_folds m = [a, b, c]" "mk_fold_summary TrainFold (?fd TrainFold) (mf_assignments m) = Inr a"
    "mk_fold_summary ValidationFold (?fd ValidationFold) (mf_assignments m) = Inr b"
    "mk_fold_summary TestFold (?fd TestFold) (mf_assignments m) = Inr c"
    using all_folds_cases [OF fs] by auto
  then show ?thesis
    by (simp add: validate_summaries_def e) (simp add: abc(1) all_folds_def mk_fold_summary_fold [OF abc(2)]
      mk_fold_summary_fold [OF abc(3)] mk_fold_summary_fold [OF abc(4)])
qed

end
