(* ===== verification/CorpusValidation.thy ===== *)
theory CorpusValidation
  imports LabelAdjudication
begin

text \<open>
  \<open>validate_corpus\<close> of \<open>backend/app/corpus/governance.py\<close>: the artifacts a manifest refers to, the verdict
  each validation report has to carry, and the report over all checks. The details the report repeats
  beside each verdict are left out.
\<close>

definition session_references :: "governed_session \<Rightarrow> artifact_reference list" where
  "session_references s =
     [gs_source_manifest s, gs_canonical_control_events s, gs_control_validation s] @
     concat (map (\<lambda>c. [cp_canonical_events c, cp_ground_truth c, cp_validation c]) (gs_campaigns s))"

definition verify_manifest_artifacts :: "corpus_manifest \<Rightarrow> artifact_access option \<Rightarrow> bool list" where
  "verify_manifest_artifacts m ax =
     map (\<lambda>r. case ax of None \<Rightarrow> True | Some a \<Rightarrow> ax_verified a r) (concat (map session_references (cm_sessions m)))"

definition report_passes :: "governed_session \<Rightarrow> string option \<Rightarrow> json \<Rightarrow> bool" where
  "report_passes s campaign j =
     (case j of
        JObj p \<Rightarrow>
          json_is_str (dget p ''verdict'') ''pass'' \<and>
          json_is_str (dget p ''base_session_id'') (gs_base_session_id s) \<and>
          json_is_str (dget p ''dataset_id'') (gs_dataset_id s) \<and>
          (case campaign of
             None \<Rightarrow> dget p ''campaign_id'' \<in> {None, Some JNull}
           | Some c \<Rightarrow> json_is_str (dget p ''campaign_id'') c) \<and>
          json_is_int (dget p ''session_start_timestamp_ns'') (gs_start_timestamp_ns s) \<and>
          json_is_int (dget p ''session_end_timestamp_ns'') (gs_end_timestamp_ns s) \<and>
          json_is_int (dget p ''complete_session'') 1
      | _ \<Rightarrow> False)"

definition report_references :: "governed_session \<Rightarrow> (string option \<times> artifact_reference) list" where
  "report_references s =
     (None, gs_control_validation s) # map (\<lambda>c. (Some (cp_campaign_id c), cp_validation c)) (gs_campaigns s)"

definition verify_validation_report_semantics :: "corpus_manifest \<Rightarrow> artifact_access option \<Rightarrow> bool list" where
  "verify_validation_report_semantics m ax =
     concat (map (\<lambda>s. map (\<lambda>(campaign, r). case ax of
         None \<Rightarrow> True
       | Some a \<Rightarrow> (case ax_load a r of Inl _ \<Rightarrow> False | Inr j \<Rightarrow> report_passes s campaign j)) (report_references s))
       (cm_sessions m))"

record corpus_validation_report =
  vr_corpus_id :: string
  vr_corpus_hash :: string
  vr_protocol_hash :: string
  vr_artifact_verification_mode :: string
  vr_verdict :: string
  vr_checks :: "(string \<times> bool) list"

definition validate_corpus ::
  "(corpus_manifest \<Rightarrow> string) \<Rightarrow> (benchmark_protocol \<Rightarrow> string) \<Rightarrow> corpus_manifest \<Rightarrow> benchmark_protocol
    \<Rightarrow> artifact_access option \<Rightarrow> corpus_validation_report" where
  "validate_corpus chash phash m protocol ax =
     (let artifacts_ok = list_all id (verify_manifest_artifacts m ax);
          reports_ok = list_all id (verify_validation_report_semantics m ax) in
      \<lparr>vr_corpus_id = cm_corpus_id m, vr_corpus_hash = chash m, vr_protocol_hash = phash protocol,
       vr_artifact_verification_mode = (case ax of None \<Rightarrow> ''metadata_only'' | Some _ \<Rightarrow> ''local''),
       vr_verdict = (if corpus_verdict phash m protocol artifacts_ok reports_ok then ''pass'' else ''fail''),
       vr_checks = corpus_checks phash m protocol artifacts_ok reports_ok\<rparr>)"

lemma passing_corpus:
  assumes "vr_verdict (validate_corpus chash phash m protocol ax) = ''pass''"
  shows "cm_protocol_id m = bp_protocol_id protocol" and "cm_protocol_hash m = phash protocol"
    and "mn_distinct_dates (bp_corpus protocol) \<le> int (length (sorted_set (map gs_session_date (cm_sessions m))))"
    and "s \<in> set (cm_sessions m) \<Longrightarrow> gs_complete_session s"
  using assms
  by (auto simp: validate_corpus_def corpus_verdict_def corpus_checks_def coverage_of_def Let_def list_all_iff split: if_splits)

end
