(* ===== verification/SplitProps.thy ===== *)
theory SplitProps
  imports SplitGeneration CorpusValidation
begin

text \<open>
  What a corpus split promises: exact fold sizes, a manifest that its own validator accepts, and folds
  that neither overlap in time nor share a source.
\<close>

section \<open>A small corpus\<close>

definition no_digests :: split_digests where
  "no_digests = \<lparr>sd_corpus_hash = (\<lambda>_. ''corpus''), sd_protocol_hash = bp_protocol_id,
     sd_payload_hash = (\<lambda>m. concat (map sa_base_session_id (mf_assignments m))), sd_sha256_hex = rev\<rparr>"

definition split_artifact :: "string \<Rightarrow> artifact_reference" where
  "split_artifact n = \<lparr>af_name = n, af_uri = n, af_sha256 = n, af_size_bytes = 1, af_schema_version = ''v1''\<rparr>"

definition session_on :: "int \<Rightarrow> string \<Rightarrow> governed_session" where
  "session_on day i =
     \<lparr>gs_base_session_id = i, gs_dataset_id = ''itch'', gs_instrument = ''AAPL'', gs_venue = ''XNAS'', gs_session_id = i,
      gs_session_date = CalendarDate 2026 7 day, gs_timezone = ''UTC'', gs_start_timestamp_ns = 0,
      gs_end_timestamp_ns = 100, gs_complete_session = True, gs_source_manifest = split_artifact ''m'',
      gs_canonical_control_events = split_artifact (''e'' @ i), gs_control_validation = split_artifact ''v'', gs_campaigns = []\<rparr>"

definition week_corpus :: corpus_manifest where
  "week_corpus = (let ss = [session_on 7 ''e'', session_on 1 ''a'', session_on 2 ''b'', session_on 6 ''d'', session_on 3 ''c'',
       session_on 8 ''f'', session_on 1 ''g''] in
     \<lparr>cm_corpus_id = ''week'', cm_protocol_id = ''p'', cm_protocol_hash = ''p'', cm_generated_at = ''now'',
      cm_sessions = ss, cm_coverage = coverage_of ss\<rparr>)"

definition week_protocol :: benchmark_protocol where
  "week_protocol =
     \<lparr>bp_protocol_id = ''p'',
      bp_corpus = \<lparr>mn_complete_sessions = 1, mn_instruments = 1, mn_distinct_dates = 5, mn_seeds_per_attack_family = 0,
        mn_require_all_attack_families = False, mn_required_attack_families = [''spoofing'']\<rparr>,
      bp_clean_labels = \<lparr>cl_negative_label_source = ''verified_clean_only'', cl_independent_reviewers = 2,
        cl_blind_to_model_outputs = True, cl_conflicts_require_adjudicator = True,
        cl_transferable_only_after_exact_equivalence = True, cl_statuses = governed_statuses\<rparr>,
      bp_splits = \<lparr>po_strategy = ''chronological_session_grouped_purged'',
        po_group_fields = [''venue'', ''instrument'', ''session_date'', ''session_id''],
        po_purge_feature_window_ns = 10, po_purge_alert_horizon_ns = 5, po_purge_causal_tail_ns = 10,
        po_purge_label_uncertainty_ns = 0, po_embargo_sessions = 1, po_train_fraction = flit (3 / 5),
        po_validation_fraction = flit (1 / 5), po_test_fraction = flit (1 / 5)\<rparr>\<rparr>"

lemma week_facts:
  "cm_protocol_id week_corpus = bp_protocol_id week_protocol"
  "cm_protocol_hash week_corpus = sd_protocol_hash no_digests week_protocol"
  "validate_unique_sessions week_corpus = Inr week_corpus" "distinct (map source_hash (cm_sessions week_corpus))"
  "fractions_in_range (bp_splits week_protocol)"
  "validate_split_contract (bp_splits week_protocol) = Inr (bp_splits week_protocol)"
  "3 + 2 * po_embargo_sessions (bp_splits week_protocol) \<le> length (dates_of (cm_sessions week_corpus))"
  "length (dates_of (cm_sessions week_corpus)) \<le> 2 ^ 30" "''s'' \<noteq> []"
proof -
  have six: "length (dates_of (cm_sessions week_corpus)) = 6" by code_simp
  show "length (dates_of (cm_sessions week_corpus)) \<le> 2 ^ 30" unfolding six by simp
  show "3 + 2 * po_embargo_sessions (bp_splits week_protocol) \<le> length (dates_of (cm_sessions week_corpus))"
    unfolding six by (simp add: week_protocol_def)
qed (code_simp | simp)+

section \<open>Fold sizes\<close>

lemma shares_counted:
  assumes "fractions_in_range p" and "validate_split_contract p = Inr q" and "3 \<le> groups" and "groups \<le> 2 ^ 30"
  shows "\<exists>ns. fractional_counts groups (split_fractions p) = Inr ns \<and> length ns = 3 \<and> (\<forall>n\<in>set ns. 1 \<le> n) \<and>
    sum_list ns = groups \<and> (\<forall>i<3. \<bar>of_int (ns ! i - 1) - raw_shares (groups - 3) (split_fractions p) ! i\<bar> \<le> 1)"
proof (rule counts_of_shares [OF split_fractions_def])
  show "\<bar>sum_list (raw_shares (groups - 3) (split_fractions p)) - of_int (groups - 3)\<bar> < 1"
    using assms by (intro raw_total) auto
  show "\<forall>x\<in>set (raw_shares (groups - 3) (split_fractions p)). 0 \<le> x"
    using assms raw_share_bounds(1) [of _ "groups - 3"] by (auto simp: raw_shares_def fractions_in_range_def list_all_iff)
qed (use assms in simp)

text \<open>C29. For every accepted split policy and up to \<open>2 ^ 30\<close> date groups, \<open>_fractional_counts\<close> returns three counts of
  at least one that add up to the number of groups. One group is reserved for every fold; what a count has
  beyond that one is within one of the fold's floating-point share of the groups left.
\<close>

theorem split_counts_exact:
  assumes "fractions_in_range p" and "validate_split_contract p = Inr q" and "3 \<le> groups" and "groups \<le> 2 ^ 30"
  shows "\<exists>ns. fractional_counts groups (split_fractions p) = Inr ns \<and> length ns = 3 \<and> (\<forall>n\<in>set ns. 1 \<le> n) \<and>
    sum_list ns = groups \<and> (\<forall>i<3. \<bar>of_int (ns ! i - 1) - raw_shares (groups - 3) (split_fractions p) ! i\<bar> \<le> 1)"
  using assms by (rule shares_counted)

theorem split_counts_exact_witness:
  "\<exists>ns. fractional_counts 10 (split_fractions (bp_splits week_protocol)) = Inr ns \<and> length ns = 3 \<and> sum_list ns = 10"
  using split_counts_exact [of "bp_splits week_protocol" "bp_splits week_protocol" 10] week_facts(5,6) by auto

lemma counts_cut:
  assumes "fractions_in_range p" and "validate_split_contract p = Inr q"
    and "3 \<le> int (length ds) - 2 * int e" and "length ds \<le> 2 ^ 30"
  shows "\<exists>ns. fractional_counts (int (length ds) - 2 * int e) (split_fractions p) = Inr ns \<and> cut_ok ds e ns"
proof -
  have "int (length ds) \<le> int (2 ^ 30)" using assms(4) by (simp only: of_nat_le_iff)
  then have "int (length ds) - 2 * int e \<le> 2 ^ 30" by simp
  from shares_counted [OF assms(1-3) this] show ?thesis by (auto simp: cut_ok_def list_all_iff)
qed

section \<open>Generation\<close>

lemma summary_exists:
  assumes "ds \<noteq> []" and "\<exists>a\<in>set as. sa_fold a = f"
  shows "\<exists>s. mk_fold_summary f ds as = Inr s"
proof -
  obtain lo hi where "py_min ds = Inr lo" "py_max ds = Inr hi"
    using py_min_nonempty [OF assms(1)] py_max_nonempty [OF assms(1)] by blast
  then show ?thesis using assms(2) by (auto simp: mk_fold_summary_def filter_empty_conv Let_def)
qed

lemma fold_assigned:
  assumes "cut_ok (dates_of ss) e ns"
  shows "\<exists>a\<in>set (fold_assignments D ss (fold_dates (dates_of ss) e ns)). sa_fold a = f"
proof -
  have "set (fold_dates (dates_of ss) e ns f) \<noteq> {}" using cut_partition(2) [OF assms, of f] by simp
  then show ?thesis unfolding assignments_of_fold [OF assms, of f D, symmetric] by auto
qed

lemma three_assignments:
  assumes "cut_ok (dates_of ss) e ns"
  shows "3 \<le> length (fold_assignments D ss (fold_dates (dates_of ss) e ns))" (is "3 \<le> length ?as")
proof -
  have "sa_fold ` set ?as = UNIV" using fold_assigned [OF assms, of D] by (metis UNIV_eq_I imageI)
  also have "UNIV = {TrainFold, ValidationFold, TestFold}" using fold_name.exhaust by auto
  finally have "card (sa_fold ` set ?as) = 3" by simp
  then show ?thesis using card_image_le [of "set ?as" sa_fold] card_length [of ?as] by simp
qed

lemma summaries_generated:
  assumes cut: "cut_ok (dates_of ss) e ns"
  obtains a b c where "try_map (\<lambda>f. mk_fold_summary f (fold_dates (dates_of ss) e ns f)
      (fold_assignments D ss (fold_dates (dates_of ss) e ns))) all_folds = Inr [a, b, c]"
    and "fs_fold a = TrainFold" and "fs_fold b = ValidationFold" and "fs_fold c = TestFold"
proof -
  let ?h = "\<lambda>f. mk_fold_summary f (fold_dates (dates_of ss) e ns f) (fold_assignments D ss (fold_dates (dates_of ss) e ns))"
  have "\<exists>s. ?h f = Inr s" for f by (rule summary_exists [OF cut_partition(2) [OF cut] fold_assigned [OF cut]])
  then obtain a b c where abc: "?h TrainFold = Inr a" "?h ValidationFold = Inr b" "?h TestFold = Inr c" by metis
  then have "try_map ?h all_folds = Inr [a, b, c]" by (simp add: all_folds_def)
  then show ?thesis using that abc mk_fold_summary_fold by blast
qed

lemma assignment_hash_stable: "assignment_hash D (m\<lparr>mf_assignment_hash := h\<rparr>) = assignment_hash D m"
  by (simp add: assignment_hash_def assignment_payload_def)

lemma split_generated:
  assumes "cm_protocol_id corpus = bp_protocol_id protocol" and "cm_protocol_hash corpus = sd_protocol_hash D protocol"
    and "validate_unique_sessions corpus = Inr corpus" and "distinct (map source_hash (cm_sessions corpus))"
    and "fractions_in_range (bp_splits protocol)" and "validate_split_contract (bp_splits protocol) = Inr (bp_splits protocol)"
    and "3 + 2 * po_embargo_sessions (bp_splits protocol) \<le> length (dates_of (cm_sessions corpus))"
    and "length (dates_of (cm_sessions corpus)) \<le> 2 ^ 30" and "split_id \<noteq> []"
  shows "\<exists>m. generate_split_manifest D split_id corpus protocol now = Inr m \<and>
    validate_manifest_model D m = Inr m \<and> validate_split_manifest D m corpus protocol = Inr () \<and>
    (\<forall>ns. fractional_counts (int (length (dates_of (cm_sessions corpus))) - 2 * int (po_embargo_sessions (bp_splits protocol)))
        (split_fractions (bp_splits protocol)) = Inr ns \<longrightarrow>
      partitioned D m corpus (po_embargo_sessions (bp_splits protocol)) ns)"
proof -
  let ?ss = "cm_sessions corpus" and ?e = "po_embargo_sessions (bp_splits protocol)"
  let ?ds = "dates_of ?ss"
  have g: "3 \<le> int (length ?ds) - 2 * int ?e" using assms(7) by linarith
  obtain ns where ns: "fractional_counts (int (length ?ds) - 2 * int ?e) (split_fractions (bp_splits protocol)) = Inr ns"
    and cut: "cut_ok ?ds ?e ns"
    using counts_cut [OF assms(5,6) g assms(8)] by blast
  let ?fd = "fold_dates ?ds ?e ns" and ?ed = "embargo_dates ?ds ?e ns"
  let ?as = "fold_assignments D ?ss ?fd"
  obtain a b c where sums: "try_map (\<lambda>f. mk_fold_summary f (?fd f) ?as) all_folds = Inr [a, b, c]"
    and abc: "fs_fold a = TrainFold" "fs_fold b = ValidationFold" "fs_fold c = TestFold"
    by (rule summaries_generated [OF cut])
  define p where "p = provisional_manifest D split_id corpus protocol now ?as (embargo_groups ?ss ?ed) [a, b, c]"
  define m where "m = p\<lparr>mf_assignment_hash := assignment_hash D p\<rparr>"
  have m: "mf_assignments m = ?as" "mf_embargo m = embargo_groups ?ss ?ed" "mf_folds m = [a, b, c]"
    "mf_assignment_hash m = assignment_hash D m" "mf_split_id m = split_id"
    by (simp_all add: m_def assignment_hash_stable) (simp_all add: p_def provisional_manifest_def)
  have ids: "distinct (map gs_base_session_id ?ss)"
    using assms(3) by (auto simp: validate_unique_sessions_def split: if_splits)
  have part: "partitioned D m corpus ?e ns" using ids cut m by (simp add: partitioned_def)
  have "validate_bindings D m corpus protocol = Inr ()"
    using m(4) by (simp add: validate_bindings_def Let_def) (simp add: m_def p_def provisional_manifest_def)
  then have valid: "validate_split_manifest D m corpus protocol = Inr ()"
    unfolding validate_split_manifest_def inventory_accepted [OF part] chronology_accepted [OF part]
      sources_accepted [OF part assms(4)] assignments_accepted [OF part] partition_accepted [OF part ns]
    using summaries_accepted [OF part] sums by (simp add: m)
  have "distinct (map sa_base_session_id (mf_assignments m))"
    unfolding m(1) by (rule distinct_assignments [OF ids cut])
  then have model: "validate_manifest_model D m = Inr m"
    using three_assignments [OF cut, of D] abc assms(9)
    by (simp add: validate_manifest_model_def validate_fold_inventory_def m all_folds_def insert_commute)
  then show ?thesis
    using assms(1,2) g ns sums valid model part
    by (simp add: generate_split_manifest_def Let_def flip: p_def) (simp flip: m_def)
qed

text \<open>C28. \<open>generate_split_manifest\<close> succeeds on every corpus whose sessions and source artifacts are distinct and
  which has at least three dates beside the two embargo gaps, under every accepted split policy, and the
  manifest it returns passes its model's validator and \<open>validate_split_manifest\<close>.
\<close>
theorem generated_split_accepted:
  assumes "cm_protocol_id corpus = bp_protocol_id protocol" and "cm_protocol_hash corpus = sd_protocol_hash D protocol"
    and "validate_unique_sessions corpus = Inr corpus" and "distinct (map source_hash (cm_sessions corpus))"
    and "fractions_in_range (bp_splits protocol)" and "validate_split_contract (bp_splits protocol) = Inr (bp_splits protocol)"
    and "3 + 2 * po_embargo_sessions (bp_splits protocol) \<le> length (dates_of (cm_sessions corpus))"
    and "length (dates_of (cm_sessions corpus)) \<le> 2 ^ 30" and "split_id \<noteq> []"
  shows "\<exists>m. generate_split_manifest D split_id corpus protocol now = Inr m \<and>
    validate_manifest_model D m = Inr m \<and> validate_split_manifest D m corpus protocol = Inr ()"
  using split_generated [OF assms, of now] by blast

theorem generated_split_accepted_witness:
  "\<exists>m. generate_split_manifest no_digests ''s'' week_corpus week_protocol ''now'' = Inr m \<and>
    validate_manifest_model no_digests m = Inr m \<and> validate_split_manifest no_digests m week_corpus week_protocol = Inr ()"
  by (rule generated_split_accepted [OF week_facts])

text \<open>Building, validating and splitting a corpus fit together: when the manifest is built, its validation report
  passes, the protocol asks for at least three dates beside the two embargo gaps and the source artifacts are
  distinct, then \<open>generate_split_manifest\<close> returns a manifest that passes its own validation.
\<close>
theorem validated_corpus_splits:
  assumes "build_corpus_manifest (sd_protocol_hash D) cid ss protocol made = Inr corpus"
    and "vr_verdict (validate_corpus (sd_corpus_hash D) (sd_protocol_hash D) corpus protocol ax) = ''pass''"
    and "3 + 2 * int (po_embargo_sessions (bp_splits protocol)) \<le> mn_distinct_dates (bp_corpus protocol)"
    and "fractions_in_range (bp_splits protocol)" and "validate_split_contract (bp_splits protocol) = Inr (bp_splits protocol)"
    and "distinct (map source_hash ss)" and "length ss \<le> 2 ^ 30" and "split_id \<noteq> []"
  shows "\<exists>m. generate_split_manifest D split_id corpus protocol now = Inr m \<and>
    validate_split_manifest D m corpus protocol = Inr ()"
proof -
  have s: "cm_sessions corpus = ss" and u: "validate_unique_sessions corpus = Inr corpus"
    using assms(1) by (auto simp: build_corpus_manifest_def validate_unique_sessions_def split: if_splits)
  note v = passing_corpus [OF assms(2)]
  have "mn_distinct_dates (bp_corpus protocol) \<le> int (length (dates_of (cm_sessions corpus)))"
    using v(3) by (simp add: dates_of_def)
  with assms(3) have d: "3 + 2 * po_embargo_sessions (bp_splits protocol) \<le> length (dates_of (cm_sessions corpus))"
    by linarith
  have "length (dates_of (cm_sessions corpus)) \<le> length ss"
    unfolding dates_of_def sorted_set_def s length_sort using length_remdups_leq [of "map gs_session_date ss"] by simp
  with assms(7) have l: "length (dates_of (cm_sessions corpus)) \<le> 2 ^ 30" by (rule order_trans [rotated])
  have i: "distinct (map source_hash (cm_sessions corpus))" using assms(6) by (simp add: s)
  show ?thesis
    using split_generated [OF v(1,2) u i assms(4,5) d l assms(8), of now] by blast
qed

lemma week_facts_built:
  "build_corpus_manifest (sd_protocol_hash no_digests) ''week'' (cm_sessions week_corpus) week_protocol ''now'' = Inr week_corpus"
  "vr_verdict (validate_corpus (sd_corpus_hash no_digests) (sd_protocol_hash no_digests) week_corpus week_protocol None) = ''pass''"
  "3 + 2 * int (po_embargo_sessions (bp_splits week_protocol)) \<le> mn_distinct_dates (bp_corpus week_protocol)"
  by code_simp+

theorem validated_corpus_splits_witness:
  "\<exists>m. generate_split_manifest no_digests ''s'' week_corpus week_protocol ''later'' = Inr m \<and>
    validate_split_manifest no_digests m week_corpus week_protocol = Inr ()"
  by (rule validated_corpus_splits [OF week_facts_built week_facts(5,6,4)]) (simp_all add: week_corpus_def Let_def)

section \<open>Accepted manifests\<close>

definition fold_of :: "split_manifest \<Rightarrow> string \<Rightarrow> fold_name option" where
  "fold_of m = map_of (map (\<lambda>a. (sa_base_session_id a, sa_fold a)) (mf_assignments m))"

lemma try_map_mem: "try_map f xs = Inr ys \<Longrightarrow> x \<in> set xs \<Longrightarrow> \<exists>y\<in>set ys. f x = Inr y"
  by (induction xs arbitrary: ys) (auto simp: try_bind_Inr)

lemma validate_split_manifest_Inr:
  assumes "validate_split_manifest D m corpus protocol = Inr ()"
  shows "validate_inventory m corpus = Inr ()" and "validate_chronology m corpus = Inr ()"
    and "validate_sources m corpus = Inr ()" and "a \<in> set (mf_assignments m) \<Longrightarrow> validate_assignment D corpus a = Inr ()"
    and "validate_expected_partition m corpus protocol = Inr ()"
proof -
  show "validate_inventory m corpus = Inr ()" "validate_chronology m corpus = Inr ()"
    "validate_sources m corpus = Inr ()" "validate_expected_partition m corpus protocol = Inr ()"
    using assms by (simp_all add: validate_split_manifest_def try_bind_Inr del: split_paired_Ex)
  obtain us where "try_map (validate_assignment D corpus) (mf_assignments m) = Inr us"
    using assms by (auto simp: validate_split_manifest_def try_bind_Inr)
  then show "validate_assignment D corpus a = Inr ()" if "a \<in> set (mf_assignments m)"
    using try_map_mem [OF _ that, of "validate_assignment D corpus" us] by auto
qed

lemma validate_inventory_Inr:
  assumes "validate_inventory m corpus = Inr ()"
  shows "set (map sa_base_session_id (mf_assignments m)) \<inter> set (concat (map eg_base_session_ids (mf_embargo m))) = {}"
    and "set (map sa_base_session_id (mf_assignments m)) \<union> set (concat (map eg_base_session_ids (mf_embargo m))) =
      set (map gs_base_session_id (cm_sessions corpus))"
proof -
  let ?A = "set (map sa_base_session_id (mf_assignments m))" and ?E = "set (concat (map eg_base_session_ids (mf_embargo m)))"
  have "?A \<inter> ?E = {} \<and> ?A \<union> ?E = set (map gs_base_session_id (cm_sessions corpus))"
  proof (rule ccontr)
    assume "\<not> ?thesis"
    then show False using assms unfolding validate_inventory_def Let_def by (auto simp only: if_True if_False sum.distinct split: if_splits)
  qed
  then show "?A \<inter> ?E = {}" "?A \<union> ?E = set (map gs_base_session_id (cm_sessions corpus))" by blast+
qed

lemma chronology_Inr:
  assumes "validate_chronology m corpus = Inr ()"
  obtains dt where "\<And>f. assigned_dates m corpus f = Inr (dt f)" and "\<And>f. dt f \<noteq> []"
    and "\<And>f g x y. fold_rank f < fold_rank g \<Longrightarrow> x \<in> set (dt f) \<Longrightarrow> y \<in> set (dt g) \<Longrightarrow> x < y"
proof -
  from assms obtain tr va te where d: "assigned_dates m corpus TrainFold = Inr tr"
    "assigned_dates m corpus ValidationFold = Inr va" "assigned_dates m corpus TestFold = Inr te"
    and b: "strictly_before tr va = Inr True" "strictly_before va te = Inr True"
    unfolding validate_chronology_def try_bind_Inr by (auto split: if_splits)
  define dt where "dt f = (case f of TrainFold \<Rightarrow> tr | ValidationFold \<Rightarrow> va | TestFold \<Rightarrow> te)" for f
  have "va \<noteq> []" using b(1) by (simp add: strictly_before_True)
  then obtain v where v: "v \<in> set va" using list.set_sel(1) by blast
  have tt: "x < y" if "x \<in> set tr" "y \<in> set te" for x y
    using that b v less_trans [of x v y] by (simp add: strictly_before_True)
  show ?thesis
  proof
    show "assigned_dates m corpus f = Inr (dt f)" for f using d by (cases f) (simp_all add: dt_def)
    show "dt f \<noteq> []" for f using b by (cases f) (simp_all add: dt_def strictly_before_True)
    fix f g x y
    assume "fold_rank f < fold_rank g" "x \<in> set (dt f)" "y \<in> set (dt g)"
    then show "x < y" using b tt
      by (cases f; cases g) (auto simp: dt_def strictly_before_True)
  qed
qed

lemma assignment_session:
  assumes "validate_assignment D corpus a = Inr ()"
  obtains s where "session_lookup corpus (sa_base_session_id a) = Inr s" and "sa_source_session_hash a = source_hash s"
  using assms by (auto simp: validate_assignment_def try_bind_Inr split: if_splits)

lemma leaked_sources_Nil:
  assumes "leaked_sources ps = []" and "(h, f) \<in> set ps" and "(h, g) \<in> set ps"
  shows "f = g"
proof -
  let ?fs = "sorted_set (map (\<lambda>(h', f). fold_str f) (filter (\<lambda>(h', f). h' = h) ps))"
  have "set (first_occurrences (map fst ps)) = set (map fst ps)" by (simp add: first_occurrences_def)
  then have "h \<in> set (first_occurrences (map fst ps))" using assms(2) by force
  then have "length ?fs \<le> 1" using assms(1) by (auto simp: leaked_sources_def filter_empty_conv not_less)
  moreover have "fold_str f \<in> set ?fs" "fold_str g \<in> set ?fs" using assms(2,3) by (force, force)
  ultimately have "fold_str f = fold_str g" by (cases ?fs) auto
  then show ?thesis by (cases f; cases g) (simp_all add: fold_str_def)
qed

lemma fold_of_Some:
  assumes "distinct (map sa_base_session_id (mf_assignments m))"
  shows "fold_of m i = Some f \<longleftrightarrow> (i, f) \<in> set (map (\<lambda>a. (sa_base_session_id a, sa_fold a)) (mf_assignments m))"
  unfolding fold_of_def using assms by (simp add: map_of_eq_Some_iff comp_def)

lemma fold_of_None: "fold_of m i = None \<longleftrightarrow> i \<notin> set (map sa_base_session_id (mf_assignments m))"
  by (force simp: fold_of_def map_of_eq_None_iff)

lemma fold_of_assignment:
  assumes "distinct (map sa_base_session_id (mf_assignments m))" and "fold_of m i = Some f"
  obtains a where "a \<in> set (mf_assignments m)" and "sa_base_session_id a = i" and "sa_fold a = f"
  using assms by (auto simp: fold_of_Some)

lemma accepted_by_date:
  assumes "validate_expected_partition m corpus protocol = Inr ()"
    and ids: "distinct (map gs_base_session_id (cm_sessions corpus))"
    and st: "s \<in> set (cm_sessions corpus)" "t \<in> set (cm_sessions corpus)" "gs_session_date s = gs_session_date t"
    and as: "distinct (map sa_base_session_id (mf_assignments m))"
  shows "fold_of m (gs_base_session_id s) = fold_of m (gs_base_session_id t)"
proof -
  let ?ss = "cm_sessions corpus"
  let ?e = "po_embargo_sessions (bp_splits protocol)"
  obtain ns where ns: "fractional_counts (int (length (dates_of ?ss)) - 2 * int ?e) (split_fractions (bp_splits protocol)) = Inr ns"
    using assms(1) unfolding validate_expected_partition_def Let_def try_bind_Inr by blast
  define fd where "fd = fold_dates (dates_of ?ss) ?e ns"
  have e: "set (map (\<lambda>a. (sa_base_session_id a, sa_fold a)) (mf_assignments m)) =
      set (concat (map (\<lambda>f. concat (map (\<lambda>d. map (\<lambda>s. (gs_base_session_id s, f)) (sessions_on ?ss d)) (fd f))) all_folds))"
  proof (rule ccontr)
    assume "\<not> ?thesis"
    then show False
      using assms(1) unfolding validate_expected_partition_def Let_def ns try_bind_simps fd_def if_not_P by simp
  qed
  have inj: "u = v" if "u \<in> set ?ss" "v \<in> set ?ss" "gs_base_session_id u = gs_base_session_id v" for u v
    using ids that by (metis distinct_map inj_onD)
  have mem: "(i, f) \<in> set (concat (map (\<lambda>f. concat (map (\<lambda>d. map (\<lambda>s. (gs_base_session_id s, f)) (sessions_on ?ss d)) (fd f))) all_folds))
      \<longleftrightarrow> (\<exists>u. u \<in> set ?ss \<and> gs_session_date u \<in> set (fd f) \<and> i = gs_base_session_id u)" for i f
  proof -
    have "(i, f) \<in> set (concat (map (\<lambda>f. concat (map (\<lambda>d. map (\<lambda>s. (gs_base_session_id s, f)) (sessions_on ?ss d)) (fd f))) all_folds))
      \<longleftrightarrow> (\<exists>d\<in>set (fd f). \<exists>u\<in>set (sessions_on ?ss d). i = gs_base_session_id u)"
      by (auto simp: set_all_folds)
    then show ?thesis unfolding Bex_def set_sessions_on by blast
  qed
  have "fold_of m (gs_base_session_id u) = Some f \<longleftrightarrow> gs_session_date u \<in> set (fd f)" if "u \<in> set ?ss" for u f
    unfolding fold_of_Some [OF as] e mem using that inj by metis
  then have "fold_of m (gs_base_session_id s) = Some f \<longleftrightarrow> fold_of m (gs_base_session_id t) = Some f" for f
    using st by simp
  then show ?thesis by (metis not_None_eq)
qed

text \<open>C27. A manifest that passes \<open>validate_split_manifest\<close> splits a corpus cleanly: a session has no fold exactly when
  an embargo group holds it; the sessions of a date stay together; sessions of an earlier fold lie strictly
  before those of a later one; and two sessions with the same source artifact are never in different folds.
\<close>
theorem accepted_split_sound:
  assumes "validate_manifest_model D m = Inr m" and "validate_unique_sessions corpus = Inr corpus"
    and "validate_split_manifest D m corpus protocol = Inr ()"
    and "s \<in> set (cm_sessions corpus)" and "t \<in> set (cm_sessions corpus)"
  shows "(fold_of m (gs_base_session_id s) = None \<longleftrightarrow>
      gs_base_session_id s \<in> set (concat (map eg_base_session_ids (mf_embargo m)))) \<and>
    (gs_session_date s = gs_session_date t \<longrightarrow> fold_of m (gs_base_session_id s) = fold_of m (gs_base_session_id t)) \<and>
    (fold_of m (gs_base_session_id s) = Some f \<and> fold_of m (gs_base_session_id t) = Some g \<longrightarrow>
      (fold_rank f < fold_rank g \<longrightarrow> gs_session_date s < gs_session_date t) \<and>
      (source_hash s = source_hash t \<longrightarrow> f = g))"
proof -
  note v = validate_split_manifest_Inr [OF assms(3)]
  have ids: "distinct (map gs_base_session_id (cm_sessions corpus))"
    using assms(2) by (auto simp: validate_unique_sessions_def split: if_splits)
  have as: "distinct (map sa_base_session_id (mf_assignments m))"
    using assms(1) by (auto simp: validate_manifest_model_def validate_fold_inventory_def split: if_splits)
  have look: "session_lookup corpus (gs_base_session_id u) = Inr u" if "u \<in> set (cm_sessions corpus)" for u
    by (rule session_lookup_Inr [OF ids that])
  obtain dt where dt: "\<And>f. assigned_dates m corpus f = Inr (dt f)"
    "\<And>f g x y. fold_rank f < fold_rank g \<Longrightarrow> x \<in> set (dt f) \<Longrightarrow> y \<in> set (dt g) \<Longrightarrow> x < y"
    by (rule chronology_Inr [OF v(2)]) blast
  have date: "gs_session_date u \<in> set (dt f)"
    if u: "u \<in> set (cm_sessions corpus)" and f: "fold_of m (gs_base_session_id u) = Some f" for u f
  proof -
    obtain a where "a \<in> set (mf_assignments m)" and i: "sa_base_session_id a = gs_base_session_id u" and "sa_fold a = f"
      by (rule fold_of_assignment [OF as f])
    then have a: "a \<in> set (filter (\<lambda>a. sa_fold a = f) (mf_assignments m))" by simp
    from try_map_mem [OF dt(1) [of f, unfolded assigned_dates_def] a] i look [OF u] show ?thesis by auto
  qed
  obtain ps where ps: "try_map (\<lambda>a. try_bind (session_lookup corpus (sa_base_session_id a)) (\<lambda>s.
      Inr (source_hash s, sa_fold a))) (mf_assignments m) = Inr ps" "leaked_sources ps = []"
    using v(3) unfolding validate_sources_def try_bind_Inr by (auto split: if_splits)
  have source: "(source_hash u, f) \<in> set ps"
    if u: "u \<in> set (cm_sessions corpus)" and f: "fold_of m (gs_base_session_id u) = Some f" for u f
  proof -
    obtain a where a: "a \<in> set (mf_assignments m)" "sa_base_session_id a = gs_base_session_id u" "sa_fold a = f"
      by (rule fold_of_assignment [OF as f])
    from try_map_mem [OF ps(1) a(1)] a(2,3) look [OF u] show ?thesis by auto
  qed
  have "gs_base_session_id s \<in> set (map gs_base_session_id (cm_sessions corpus))" using assms(4) by simp
  with validate_inventory_Inr [OF v(1)] have none: "fold_of m (gs_base_session_id s) = None \<longleftrightarrow>
      gs_base_session_id s \<in> set (concat (map eg_base_session_ids (mf_embargo m)))"
    unfolding fold_of_None by blast
  show ?thesis
  proof (intro conjI impI none)
    show "fold_of m (gs_base_session_id s) = fold_of m (gs_base_session_id t)" if "gs_session_date s = gs_session_date t"
      by (rule accepted_by_date [OF v(5) ids assms(4,5) that as])
    assume fg: "fold_of m (gs_base_session_id s) = Some f \<and> fold_of m (gs_base_session_id t) = Some g"
    show "gs_session_date s < gs_session_date t" if "fold_rank f < fold_rank g"
      using dt(2) [OF that date date] assms(4,5) fg by blast
    show "f = g" if "source_hash s = source_hash t"
      using leaked_sources_Nil [OF ps(2), of "source_hash s" f g] source assms(4,5) fg that by metis
  qed
qed

definition week_split :: split_manifest where
  "week_split = projr (generate_split_manifest no_digests ''s'' week_corpus week_protocol ''now'')"

lemma week_split_accepted:
  "validate_manifest_model no_digests week_split = Inr week_split"
  "validate_split_manifest no_digests week_split week_corpus week_protocol = Inr ()"
  "partitioned no_digests week_split week_corpus (po_embargo_sessions (bp_splits week_protocol)) [2, 1, 1]"
proof -
  have "fractional_counts (int (length (dates_of (cm_sessions week_corpus))) -
      2 * int (po_embargo_sessions (bp_splits week_protocol))) (split_fractions (bp_splits week_protocol)) = Inr [2, 1, 1]"
    by code_simp
  then show "validate_manifest_model no_digests week_split = Inr week_split"
    "validate_split_manifest no_digests week_split week_corpus week_protocol = Inr ()"
    "partitioned no_digests week_split week_corpus (po_embargo_sessions (bp_splits week_protocol)) [2, 1, 1]"
    using split_generated [OF week_facts, of "''now''"] by (auto simp: week_split_def)
qed

lemma week_folds: "fold_of week_split i = map_of [(''a'', TrainFold), (''g'', TrainFold), (''b'', TrainFold), (''d'', ValidationFold),
    (''f'', TestFold)] i"
proof -
  have "map (\<lambda>a. (sa_base_session_id a, sa_fold a)) (fold_assignments no_digests (cm_sessions week_corpus)
      (fold_dates (dates_of (cm_sessions week_corpus)) (po_embargo_sessions (bp_splits week_protocol)) [2, 1, 1])) =
    [(''a'', TrainFold), (''g'', TrainFold), (''b'', TrainFold), (''d'', ValidationFold), (''f'', TestFold)]" by code_simp
  then show ?thesis by (simp only: fold_of_def partitionedD(3) [OF week_split_accepted(3)])
qed

theorem accepted_split_sound_witness:
  "fold_of week_split ''b'' = Some TrainFold \<and> fold_of week_split ''f'' = Some TestFold \<and>
   fold_rank TrainFold < fold_rank TestFold \<and> gs_session_date (session_on 2 ''b'') < gs_session_date (session_on 8 ''f'')"
proof -
  have f: "fold_of week_split (gs_base_session_id (session_on 2 ''b'')) = Some TrainFold"
    "fold_of week_split (gs_base_session_id (session_on 8 ''f'')) = Some TestFold"
    by (simp_all add: week_folds session_on_def)
  have m: "session_on 2 ''b'' \<in> set (cm_sessions week_corpus)" "session_on 8 ''f'' \<in> set (cm_sessions week_corpus)"
    by (simp_all add: week_corpus_def Let_def)
  show ?thesis
    using accepted_split_sound [OF week_split_accepted(1) week_facts(3) week_split_accepted(2) m, of TrainFold TestFold] f
    by (simp add: session_on_def)
qed

end
