(* ===== verification/ItchIngestion.thy ===== *)
theory ItchIngestion
  imports ExchangeSchemas Determinism
begin

text \<open>
  Nasdaq ITCH 5.0 ingestion, \<open>backend/app/data_ingestion/itch.py\<close>: the length-prefixed record stream, the
  visible-order book that the messages maintain, and the two normalizers that turn a stream into event and
  snapshot rows, one for a single symbol and one for several symbols in one pass. The stream is the
  decompressed content of the file. The checks on memory and disk are the parameter \<open>nz_quota\<close>, asked with
  the sequence number and whether a chunk was just written; rows are kept in one list, which is what the
  chunks written to Parquet add up to.
\<close>

section \<open>Records\<close>

type_synonym bytes = "int list"

definition be_field :: "nat \<Rightarrow> nat \<Rightarrow> bytes \<Rightarrow> int" where
  "be_field off w p = int_from_bytes (take w (drop off p))"

definition message_length :: "char \<Rightarrow> nat option" where
  "message_length c = map_of [(CHR ''S'', 12), (CHR ''R'', 39), (CHR ''A'', 36), (CHR ''F'', 40), (CHR ''E'', 31),
     (CHR ''C'', 36), (CHR ''X'', 23), (CHR ''D'', 19), (CHR ''U'', 35)] c"

definition is_book_type :: "char \<Rightarrow> bool" where
  "is_book_type c = (c \<in> set ''AFECXDU'')"

record parsed_record =
  pr_source_sequence :: int
  pr_message_type :: char
  pr_stock_locate :: int
  pr_tracking_number :: int
  pr_timestamp_ns :: int
  pr_payload :: bytes

definition message_error :: "int \<Rightarrow> string \<Rightarrow> py_error" where
  "message_error n s = ValueError (''ITCH message '' @ int_dec n @ s)"

definition day_ns :: int where
  "day_ns = 86400 * 1000000000"

text \<open>One payload, with the number it gets and the timestamp before it.\<close>

definition parse_header :: "int \<Rightarrow> int \<Rightarrow> bytes \<Rightarrow> py_error + parsed_record" where
  "parse_header n previous p =
     (let ts = be_field 5 6 p in
      if length p < 11 then Inl (message_error n '': header is shorter than 11 bytes'')
      else if \<not> (0 \<le> ts \<and> ts < day_ns) then Inl (message_error n '': timestamp is outside the trading day'')
      else if ts < previous then Inl (message_error n '': timestamp decreased'')
      else Inr \<lparr>pr_source_sequence = n, pr_message_type = char_of (hd p), pr_stock_locate = be_field 1 2 p,
             pr_tracking_number = be_field 3 2 p, pr_timestamp_ns = ts, pr_payload = p\<rparr>)"

definition parse_payload :: "int \<Rightarrow> int \<Rightarrow> bytes \<Rightarrow> py_error + parsed_record" where
  "parse_payload n previous p =
     (let c = char_of (hd p) in
      case message_length c of
        Some expected \<Rightarrow>
          if length p \<noteq> expected
          then Inl (message_error n ('' type '' @ [c] @ '': expected '' @ nat_dec expected @ '' bytes, found '' @
            nat_dec (length p)))
          else parse_header n previous p
      | None \<Rightarrow> parse_header n previous p)"

text \<open>The generator as the records it yields and the exception it ends with.\<close>

function read_records :: "int \<Rightarrow> int \<Rightarrow> bytes \<Rightarrow> parsed_record list \<times> py_error option" where
  "read_records n previous [] = ([], None)"
| "read_records n previous [b] = ([], Some (ValueError ''truncated ITCH message length prefix''))"
| "read_records n previous (b1 # b2 # bs) =
     (let len = nat (int_from_bytes [b1, b2]) in
      if len = 0 then ([], Some (ValueError ''ITCH message length must be positive''))
      else if length bs < len then ([], Some (ValueError (''truncated ITCH message '' @ int_dec (n + 1))))
      else case parse_payload (n + 1) previous (take len bs) of
          Inl e \<Rightarrow> ([], Some e)
        | Inr r \<Rightarrow> (case read_records (n + 1) (pr_timestamp_ns r) (drop len bs) of (rs, e) \<Rightarrow> (r # rs, e)))"
  by pat_completeness auto

termination read_records
  by (relation "measure (\<lambda>(n, previous, bs). length bs)") auto

definition iter_records :: "bytes \<Rightarrow> parsed_record list \<times> py_error option" where
  "iter_records bs = read_records 0 (- 1) bs"

definition alpha :: "bytes \<Rightarrow> py_error + string" where
  "alpha bs = (if list_ex (\<lambda>b. 128 \<le> b) bs then Inl (ValueError ''ITCH alpha field is not ASCII'')
     else Inr (rev (dropWhile (\<lambda>c. c = CHR '' '') (rev (map char_of bs)))))"

definition directory_symbol :: "parsed_record \<Rightarrow> py_error + string" where
  "directory_symbol r = alpha (take 8 (drop 11 (pr_payload r)))"

section \<open>Symbols of a stream\<close>

fun discover_loop :: "(int, string) dict \<Rightarrow> parsed_record list \<times> py_error option \<Rightarrow> py_error + (int, string) dict" where
  "discover_loop d ([], None) = Inr d"
| "discover_loop d ([], Some e) = Inl e"
| "discover_loop d (r # rs, e) =
     (if pr_message_type r = CHR ''R'' then
        try_bind (directory_symbol r) (\<lambda>s.
          if s = [] then Inl (message_error (pr_source_sequence r) '': empty Stock Directory symbol'')
          else
            let d' = dsetdefault (pr_stock_locate r) s d in
            if dget d' (pr_stock_locate r) \<noteq> Some s
            then Inl (ValueError (''ITCH stock locate '' @ int_dec (pr_stock_locate r) @ '' maps to multiple symbols''))
            else discover_loop d' (rs, e))
      else if is_book_type (pr_message_type r) then Inr d
      else discover_loop d (rs, e))"

definition discover_symbols :: "bytes \<Rightarrow> py_error + string list" where
  "discover_symbols bs = try_bind (discover_loop [] (iter_records bs)) (\<lambda>d. Inr (sorted_set (map snd d)))"

text \<open>The bounded inspection that looks for symbols without order messages; \<open>None\<close> is the answer that nothing
  can be said.\<close>

fun inspect_loop ::
  "nat \<Rightarrow> int \<Rightarrow> (int, string) dict \<Rightarrow> string set \<Rightarrow> parsed_record list \<times> py_error option \<Rightarrow> py_error + string set option" where
  "inspect_loop 0 size_so_far d found records = Inr None"
| "inspect_loop (Suc k) size_so_far d found ([], None) = Inr (Some found)"
| "inspect_loop (Suc k) size_so_far d found ([], Some e) = Inl e"
| "inspect_loop (Suc k) size_so_far d found (r # rs, e) =
     (let total_size = size_so_far + int (length (pr_payload r)) + 2 in
      if 1024 ^ 2 < total_size then Inr None
      else if pr_message_type r = CHR ''R'' then
        try_bind (directory_symbol r) (\<lambda>s. inspect_loop k total_size (dset (pr_stock_locate r) s d) found (rs, e))
      else if is_book_type (pr_message_type r) then
        inspect_loop k total_size d
          (case dget d (pr_stock_locate r) of None \<Rightarrow> found | Some s \<Rightarrow> if s = [] then found else insert s found) (rs, e)
      else inspect_loop k total_size d found (rs, e))"

definition empty_symbols_in_small_source :: "int \<Rightarrow> bytes \<Rightarrow> string list \<Rightarrow> py_error + string set" where
  "empty_symbols_in_small_source file_size bs symbols =
     (if 1024 ^ 2 < file_size then Inr {}
      else try_bind (inspect_loop 10000 0 [] {} (iter_records bs)) (\<lambda>found.
        Inr (case found of None \<Rightarrow> {} | Some f \<Rightarrow> set symbols - f)))"

section \<open>The visible book\<close>

record itch_order =
  io_symbol :: string
  io_side :: side
  io_shares :: int
  io_price :: int
  io_mpid :: "string option"

record itch_state =
  is_active :: "(int, itch_order) dict"
  is_seen :: "int set"
  is_buy :: "(int, int) dict"
  is_sell :: "(int, int) dict"

definition empty_itch :: itch_state where
  "empty_itch = \<lparr>is_active = [], is_seen = {}, is_buy = [], is_sell = []\<rparr>"

definition side_levels :: "itch_state \<Rightarrow> side \<Rightarrow> (int, int) dict" where
  "side_levels st sd = (case sd of Buy \<Rightarrow> is_buy st | Sell \<Rightarrow> is_sell st)"

definition put_levels :: "side \<Rightarrow> (int, int) dict \<Rightarrow> itch_state \<Rightarrow> itch_state" where
  "put_levels sd d st = (case sd of Buy \<Rightarrow> st\<lparr>is_buy := d\<rparr> | Sell \<Rightarrow> st\<lparr>is_sell := d\<rparr>)"

definition adjust_level :: "side \<Rightarrow> int \<Rightarrow> int \<Rightarrow> int \<Rightarrow> itch_state \<Rightarrow> py_error + itch_state" where
  "adjust_level sd price delta n st =
     (let d = side_levels st sd; quantity = dget_or 0 d price + delta in
      if quantity < 0 then Inl (message_error n '': visible depth became negative'')
      else Inr (put_levels sd (if quantity \<noteq> 0 then dset price quantity d else dpop price d) st))"

definition validate_book :: "int \<Rightarrow> itch_state \<Rightarrow> py_error + unit" where
  "validate_book n st =
     (if list_ex (\<lambda>(p, q). q \<le> 0) (is_buy st @ is_sell st)
      then Inl (message_error n '': visible depth must be positive'')
      else case (max_opt (dkeys (is_buy st)), min_opt (dkeys (is_sell st))) of
          (Some bid, Some ask) \<Rightarrow>
            if ask < bid then Inl (message_error n '': visible book is crossed'') else Inr ()
        | _ \<Rightarrow> Inr ())"

definition read_side :: "bytes \<Rightarrow> int \<Rightarrow> py_error + side" where
  "read_side b n =
     (if b = [byte_of_char (CHR ''B'')] then Inr Buy
      else if b = [byte_of_char (CHR ''S'')] then Inr Sell
      else Inl (message_error n '': invalid buy/sell indicator''))"

definition require_positive :: "int \<Rightarrow> int \<Rightarrow> int \<Rightarrow> py_error + unit" where
  "require_positive shares price n =
     raise_if (shares \<le> 0 \<or> price \<le> 0) (message_error n '': size and price must be positive'')"

record itch_event =
  ie_source_sequence :: int
  ie_timestamp_ns :: int
  ie_event_kind :: string
  ie_source_event_code :: int
  ie_source_order_id :: int
  ie_size :: int
  ie_price :: int
  ie_direction :: int
  ie_book_side :: side
  ie_aggressor_side :: "side option"
  ie_symbol :: string
  ie_trade_date :: string
  ie_raw_message_type :: char
  ie_stock_locate :: int
  ie_tracking_number :: int
  ie_match_number :: "int option"
  ie_mpid :: "string option"
  ie_printable :: "bool option"
  ie_replacement :: "int option"

definition mk_itch_event ::
  "parsed_record \<Rightarrow> string \<Rightarrow> string \<Rightarrow> string \<Rightarrow> int \<Rightarrow> int \<Rightarrow> int \<Rightarrow> side \<Rightarrow> string option \<Rightarrow> itch_event" where
  "mk_itch_event r symbol trade_date kind ref shares price sd mpid =
     \<lparr>ie_source_sequence = pr_source_sequence r, ie_timestamp_ns = pr_timestamp_ns r, ie_event_kind = kind,
      ie_source_event_code = byte_of_char (pr_message_type r), ie_source_order_id = ref, ie_size = shares, ie_price = price,
      ie_direction = (if sd = Buy then 1 else - 1), ie_book_side = sd,
      ie_aggressor_side = (if pr_message_type r \<in> {CHR ''E'', CHR ''C''}
        then Some (if sd = Buy then Sell else Buy) else None),
      ie_symbol = symbol, ie_trade_date = trade_date, ie_raw_message_type = pr_message_type r,
      ie_stock_locate = pr_stock_locate r, ie_tracking_number = pr_tracking_number r, ie_match_number = None,
      ie_mpid = mpid, ie_printable = None, ie_replacement = None\<rparr>"

definition max_reference :: int where
  "max_reference = 2 ^ 63 - 1"

subsection \<open>The four kinds of messages\<close>

text \<open>The lengths checked by the reader put every field inside the payload.\<close>

definition apply_add :: "parsed_record \<Rightarrow> string \<Rightarrow> string \<Rightarrow> itch_state \<Rightarrow> py_error + itch_state \<times> itch_event" where
  "apply_add r symbol trade_date st =
     (let p = pr_payload r; n = pr_source_sequence r; ref = be_field 11 8 p; shares = be_field 20 4 p;
          price = be_field 32 4 p in
      try_bind (read_side (take 1 (drop 19 p)) n) (\<lambda>sd.
      try_bind (alpha (take 8 (drop 24 p))) (\<lambda>message_symbol.
      try_bind (if pr_message_type r = CHR ''F'' then try_bind (alpha (take 4 (drop 36 p))) (\<lambda>m. Inr (Some m)) else Inr None) (\<lambda>mpid.
        if message_symbol \<noteq> symbol then Inl (message_error n '': symbol does not match Stock Directory'')
        else if \<not> (0 < ref \<and> ref \<le> max_reference) \<or> ref \<in> is_seen st
        then Inl (message_error n '': order reference is reused'')
        else
          try_bind (require_positive shares price n) (\<lambda>_.
          let x = \<lparr>io_symbol = symbol, io_side = sd, io_shares = shares, io_price = price, io_mpid = mpid\<rparr>;
              st1 = st\<lparr>is_active := dset ref x (is_active st), is_seen := insert ref (is_seen st)\<rparr> in
          try_bind (adjust_level sd price shares n st1) (\<lambda>st2.
            Inr (st2, mk_itch_event r symbol trade_date ''ADD'' ref shares price sd mpid)))))))"

definition apply_reduction ::
  "parsed_record \<Rightarrow> string \<Rightarrow> string \<Rightarrow> int \<Rightarrow> itch_order \<Rightarrow> itch_state \<Rightarrow> py_error + itch_state \<times> itch_event" where
  "apply_reduction r symbol trade_date ref x st =
     (let p = pr_payload r; n = pr_source_sequence r; c = pr_message_type r; shares = be_field 19 4 p;
          remaining = io_shares x - shares in
      if shares \<le> 0 \<or> io_shares x < shares then Inl (message_error n '': invalid order reduction'')
      else
        try_bind (adjust_level (io_side x) (io_price x) (- shares) n st) (\<lambda>st1.
        let st2 = st1\<lparr>is_active := if remaining \<noteq> 0
              then dset ref \<lparr>io_symbol = symbol, io_side = io_side x, io_shares = remaining, io_price = io_price x,
                io_mpid = io_mpid x\<rparr> (is_active st1)
              else dpop ref (is_active st1)\<rparr>;
            event = (\<lambda>kind price. mk_itch_event r symbol trade_date kind ref shares price (io_side x) (io_mpid x)) in
        if c = CHR ''X'' then Inr (st2, event ''PARTIAL_CANCEL'' (io_price x))
        else if c = CHR ''C'' then
          if be_field 32 4 p \<le> 0 then Inl (message_error n '': execution price must be positive'')
          else Inr (st2, (event ''VISIBLE_EXECUTION'' (be_field 32 4 p))
            \<lparr>ie_match_number := Some (be_field 23 8 p),
             ie_printable := Some (take 1 (drop 31 p) = [byte_of_char (CHR ''Y'')])\<rparr>)
        else Inr (st2, (event ''VISIBLE_EXECUTION'' (io_price x))\<lparr>ie_match_number := Some (be_field 23 8 p)\<rparr>)))"

definition apply_delete ::
  "parsed_record \<Rightarrow> string \<Rightarrow> string \<Rightarrow> int \<Rightarrow> itch_order \<Rightarrow> itch_state \<Rightarrow> py_error + itch_state \<times> itch_event" where
  "apply_delete r symbol trade_date ref x st =
     try_bind (adjust_level (io_side x) (io_price x) (- io_shares x) (pr_source_sequence r) st) (\<lambda>st1.
       Inr (st1\<lparr>is_active := dpop ref (is_active st1)\<rparr>,
         mk_itch_event r symbol trade_date ''DELETE'' ref (io_shares x) (io_price x) (io_side x) (io_mpid x)))"

definition apply_replace ::
  "parsed_record \<Rightarrow> string \<Rightarrow> string \<Rightarrow> int \<Rightarrow> itch_order \<Rightarrow> itch_state \<Rightarrow> py_error + itch_state \<times> itch_event" where
  "apply_replace r symbol trade_date ref x st =
     (let p = pr_payload r; n = pr_source_sequence r; new_ref = be_field 19 8 p; shares = be_field 27 4 p;
          price = be_field 31 4 p in
      if \<not> (0 < new_ref \<and> new_ref \<le> max_reference) \<or> new_ref \<in> is_seen st
      then Inl (message_error n '': replacement reference is reused'')
      else
        try_bind (require_positive shares price n) (\<lambda>_.
        try_bind (adjust_level (io_side x) (io_price x) (- io_shares x) n st) (\<lambda>st1.
        try_bind (adjust_level (io_side x) price shares n st1) (\<lambda>st2.
        let y = \<lparr>io_symbol = symbol, io_side = io_side x, io_shares = shares, io_price = price, io_mpid = io_mpid x\<rparr> in
        Inr (st2\<lparr>is_active := dset new_ref y (dpop ref (is_active st2)), is_seen := insert new_ref (is_seen st2)\<rparr>,
          (mk_itch_event r symbol trade_date ''REPLACE'' ref shares price (io_side x) (io_mpid x))
            \<lparr>ie_replacement := Some new_ref\<rparr>)))))"

definition apply_book_message ::
  "parsed_record \<Rightarrow> string \<Rightarrow> string \<Rightarrow> itch_state \<Rightarrow> py_error + itch_state \<times> itch_event" where
  "apply_book_message r symbol trade_date st =
     (let n = pr_source_sequence r; c = pr_message_type r; ref = be_field 11 8 (pr_payload r) in
      if c = CHR ''A'' \<or> c = CHR ''F'' then apply_add r symbol trade_date st
      else if max_reference < ref then Inl (message_error n '': order reference exceeds int64'')
      else case dget (is_active st) ref of
          None \<Rightarrow> Inl (message_error n '': unknown active order reference'')
        | Some x \<Rightarrow>
            if c = CHR ''D'' then apply_delete r symbol trade_date ref x st
            else if c = CHR ''U'' then apply_replace r symbol trade_date ref x st
            else apply_reduction r symbol trade_date ref x st)"

section \<open>Normalization\<close>

definition book_rows :: "(int, int) dict \<Rightarrow> side \<Rightarrow> nat \<Rightarrow> (nat \<times> int \<times> int) list" where
  "book_rows d sd depth =
     (let prices = take depth (if sd = Buy then rev (sort (dkeys d)) else sort (dkeys d)) in
      map (\<lambda>(i, p). (i + 1, p, dget_or 0 d p)) (enumerate 0 prices))"

record book_row =
  br_source_sequence :: int
  br_timestamp_ns :: int
  br_depth :: nat
  br_asks :: "(nat \<times> int \<times> int) list"
  br_bids :: "(nat \<times> int \<times> int) list"

record normalizer =
  nz_trade_date :: string
  nz_start_ns :: int
  nz_end_ns :: int
  nz_depth :: nat
  nz_quota :: "int \<Rightarrow> bool \<Rightarrow> py_error + unit"

record symbol_state =
  sy_itch :: itch_state
  sy_event_counts :: "(string, nat) dict"
  sy_event_rows :: "itch_event list"
  sy_book_rows :: "book_row list"
  sy_first_timestamp_ns :: int
  sy_last_timestamp_ns :: int

definition empty_symbol :: symbol_state where
  "empty_symbol = \<lparr>sy_itch = empty_itch, sy_event_counts = [], sy_event_rows = [], sy_book_rows = [],
     sy_first_timestamp_ns = - 1, sy_last_timestamp_ns = - 1\<rparr>"

definition count_one :: "'k \<Rightarrow> ('k, nat) dict \<Rightarrow> ('k, nat) dict" where
  "count_one k d = dset k (dget_or 0 d k + 1) d"

text \<open>What both normalizers do with a book message of a symbol.\<close>

definition normalize_message ::
  "normalizer \<Rightarrow> string \<Rightarrow> parsed_record \<Rightarrow> symbol_state \<Rightarrow> py_error + symbol_state" where
  "normalize_message z symbol r s =
     try_bind (apply_book_message r symbol (nz_trade_date z) (sy_itch s)) (\<lambda>(st, event).
     try_bind (validate_book (pr_source_sequence r) st) (\<lambda>_.
       if \<not> (nz_start_ns z \<le> pr_timestamp_ns r \<and> pr_timestamp_ns r < nz_end_ns z) then Inr (s\<lparr>sy_itch := st\<rparr>)
       else Inr
         \<lparr>sy_itch = st, sy_event_counts = count_one (ie_event_kind event) (sy_event_counts s),
          sy_event_rows = sy_event_rows s @ [event],
          sy_book_rows = sy_book_rows s @
            [\<lparr>br_source_sequence = pr_source_sequence r, br_timestamp_ns = pr_timestamp_ns r, br_depth = nz_depth z,
              br_asks = book_rows (is_sell st) Sell (nz_depth z), br_bids = book_rows (is_buy st) Buy (nz_depth z)\<rparr>],
          sy_first_timestamp_ns = (if sy_first_timestamp_ns s < 0 then pr_timestamp_ns r else sy_first_timestamp_ns s),
          sy_last_timestamp_ns = pr_timestamp_ns r\<rparr>))"

record directory =
  dr_symbol_by_locate :: "(int, string) dict"
  dr_locate_by_symbol :: "(string, int) dict"

definition register_symbol :: "parsed_record \<Rightarrow> directory \<Rightarrow> py_error + directory \<times> string" where
  "register_symbol r d =
     try_bind (directory_symbol r) (\<lambda>symbol.
       let l = pr_stock_locate r;
           d' = \<lparr>dr_symbol_by_locate = dsetdefault l symbol (dr_symbol_by_locate d),
                 dr_locate_by_symbol = dsetdefault symbol l (dr_locate_by_symbol d)\<rparr> in
       if dget (dr_symbol_by_locate d') l \<noteq> Some symbol \<or> dget (dr_locate_by_symbol d') symbol \<noteq> Some l
       then Inl (ValueError ''ITCH Stock Directory mappings are not one-to-one'') else Inr (d', symbol))"

definition resource_check :: "normalizer \<Rightarrow> parsed_record \<Rightarrow> py_error + unit" where
  "resource_check z r = (if pr_source_sequence r mod 50000 = 0 then nz_quota z (pr_source_sequence r) False else Inr ())"

record normalization_result =
  nr_row_count :: nat
  nr_event_counts :: "(string \<times> nat) list"
  nr_message_counts :: "(char \<times> nat) list"
  nr_first_timestamp_ns :: int
  nr_last_timestamp_ns :: int
  nr_event_rows :: "itch_event list"
  nr_book_rows :: "book_row list"

definition result_of :: "(char, nat) dict \<Rightarrow> symbol_state \<Rightarrow> normalization_result" where
  "result_of counts s =
     \<lparr>nr_row_count = sum_list (map snd (sy_event_counts s)), nr_event_counts = sort_key fst (sy_event_counts s),
      nr_message_counts = sort_key fst counts, nr_first_timestamp_ns = sy_first_timestamp_ns s,
      nr_last_timestamp_ns = sy_last_timestamp_ns s, nr_event_rows = sy_event_rows s, nr_book_rows = sy_book_rows s\<rparr>"

text \<open>A loop over the generator: the body on each record, then the exception the generator ends with.\<close>

fun try_fold :: "('a \<Rightarrow> 's \<Rightarrow> py_error + 's) \<Rightarrow> 'a list \<Rightarrow> 's \<Rightarrow> py_error + 's" where
  "try_fold f [] s = Inr s"
| "try_fold f (x # xs) s = try_bind (f x s) (try_fold f xs)"

definition for_records ::
  "(parsed_record \<Rightarrow> 's \<Rightarrow> py_error + 's) \<Rightarrow> bytes \<Rightarrow> 's \<Rightarrow> py_error + 's" where
  "for_records f bs s =
     (case iter_records bs of (rs, e) \<Rightarrow>
        try_bind (try_fold f rs s) (\<lambda>s'. case e of None \<Rightarrow> Inr s' | Some x \<Rightarrow> Inl x))"

subsection \<open>One symbol\<close>

record norm_state =
  ns_directory :: directory
  ns_selected :: "int option"
  ns_symbol :: symbol_state
  ns_counts :: "(char, nat) dict"

definition start_norm :: norm_state where
  "start_norm = \<lparr>ns_directory = \<lparr>dr_symbol_by_locate = [], dr_locate_by_symbol = []\<rparr>, ns_selected = None,
     ns_symbol = empty_symbol, ns_counts = []\<rparr>"

definition chunk_check :: "normalizer \<Rightarrow> parsed_record \<Rightarrow> symbol_state \<Rightarrow> symbol_state \<Rightarrow> py_error + unit" where
  "chunk_check z r s s' =
     (if length (sy_event_rows s) < length (sy_event_rows s') \<and> int (length (sy_event_rows s')) mod 50000 = 0
      then nz_quota z (pr_source_sequence r) True else Inr ())"

definition norm_step :: "normalizer \<Rightarrow> string \<Rightarrow> parsed_record \<Rightarrow> norm_state \<Rightarrow> py_error + norm_state" where
  "norm_step z symbol r ns =
     (let ns = ns\<lparr>ns_counts := count_one (pr_message_type r) (ns_counts ns)\<rparr> in
      try_bind (resource_check z r) (\<lambda>_.
        if pr_message_type r = CHR ''R'' then
          try_bind (register_symbol r (ns_directory ns)) (\<lambda>(d, s).
            Inr (ns\<lparr>ns_directory := d, ns_selected := if s = symbol then Some (pr_stock_locate r) else ns_selected ns\<rparr>))
        else if \<not> is_book_type (pr_message_type r) then Inr ns
        else
          let selected = (case ns_selected ns of
              None \<Rightarrow> dget (dr_locate_by_symbol (ns_directory ns)) symbol | Some l \<Rightarrow> Some l) in
          case selected of
            None \<Rightarrow> Inl (ValueError (''ITCH book message appeared before Stock Directory entry for '' @ symbol))
          | Some l \<Rightarrow>
              if pr_stock_locate r \<noteq> l then Inr (ns\<lparr>ns_selected := Some l\<rparr>)
              else
                try_bind (normalize_message z symbol r (ns_symbol ns)) (\<lambda>s.
                try_bind (chunk_check z r (ns_symbol ns) s) (\<lambda>_.
                  Inr (ns\<lparr>ns_selected := Some l, ns_symbol := s\<rparr>)))))"

definition finish_norm :: "string \<Rightarrow> norm_state \<Rightarrow> py_error + normalization_result" where
  "finish_norm symbol ns =
     (if ns_selected ns = None
      then Inl (ValueError (''symbol '' @ symbol @ '' is absent from ITCH Stock Directory messages''))
      else if sy_event_rows (ns_symbol ns) = []
      then Inl (ValueError ''selected ITCH window contains no visible-order lifecycle events'')
      else Inr (result_of (ns_counts ns) (ns_symbol ns)))"

definition normalize :: "normalizer \<Rightarrow> bytes \<Rightarrow> string \<Rightarrow> py_error + normalization_result" where
  "normalize z bs symbol = try_bind (for_records (norm_step z symbol) bs start_norm) (finish_norm symbol)"

subsection \<open>Several symbols in one pass\<close>

record multi_state =
  mu_directory :: directory
  mu_states :: "(string, symbol_state) dict"
  mu_counts :: "(char, nat) dict"

definition start_multi :: "string list \<Rightarrow> multi_state" where
  "start_multi symbols = \<lparr>mu_directory = \<lparr>dr_symbol_by_locate = [], dr_locate_by_symbol = []\<rparr>,
     mu_states = map (\<lambda>s. (s, empty_symbol)) symbols, mu_counts = []\<rparr>"

definition multi_step :: "normalizer \<Rightarrow> parsed_record \<Rightarrow> multi_state \<Rightarrow> py_error + multi_state" where
  "multi_step z r mu =
     (let mu = mu\<lparr>mu_counts := count_one (pr_message_type r) (mu_counts mu)\<rparr> in
      try_bind (resource_check z r) (\<lambda>_.
        if pr_message_type r = CHR ''R'' then
          try_bind (register_symbol r (mu_directory mu)) (\<lambda>(d, s). Inr (mu\<lparr>mu_directory := d\<rparr>))
        else if \<not> is_book_type (pr_message_type r) then Inr mu
        else case dget (dr_symbol_by_locate (mu_directory mu)) (pr_stock_locate r) of
            None \<Rightarrow> Inr mu
          | Some symbol \<Rightarrow>
              (case dget (mu_states mu) symbol of
                 None \<Rightarrow> Inr mu
               | Some s \<Rightarrow>
                   try_bind (normalize_message z symbol r s) (\<lambda>s'.
                     Inr (mu\<lparr>mu_states := dset symbol s' (mu_states mu)\<rparr>)))))"

definition finish_multi :: "string list \<Rightarrow> multi_state \<Rightarrow> py_error + (string \<times> normalization_result) list" where
  "finish_multi symbols mu =
     (let missing = filter (\<lambda>s. dget (dr_locate_by_symbol (mu_directory mu)) s = None) symbols in
      if missing \<noteq> []
      then Inl (ValueError (''symbols absent from ITCH Stock Directory: '' @ str_join '','' missing))
      else case find (\<lambda>(symbol, s). sy_event_rows s = []) (mu_states mu) of
          Some (symbol, _) \<Rightarrow> Inl (ValueError (''selected ITCH window contains no events for '' @ symbol))
        | None \<Rightarrow> Inr (map (\<lambda>(symbol, s). (symbol, result_of (mu_counts mu) s)) (mu_states mu)))"

definition normalize_symbols_one_pass ::
  "normalizer \<Rightarrow> bytes \<Rightarrow> string list \<Rightarrow> py_error + (string \<times> normalization_result) list" where
  "normalize_symbols_one_pass z bs symbols =
     try_bind (for_records (multi_step z) bs (start_multi symbols)) (finish_multi symbols)"

end
