(* ===== verification/ItchBook.thy ===== *)
theory ItchBook
  imports ItchIngestion
begin

text \<open>
  The visible book of an ITCH stream is a function of the orders that are active: every level holds the sum
  of the shares of the active orders at its price. The abstract book is \<open>depth_at\<close>.
\<close>

definition depth_at :: "(int, itch_order) dict \<Rightarrow> side \<Rightarrow> int \<Rightarrow> int" where
  "depth_at d sd p = sum_list (map (\<lambda>(ref, x). if io_side x = sd \<and> io_price x = p then io_shares x else 0) d)"

definition level_of :: "int \<Rightarrow> int option" where
  "level_of q = (if q = 0 then None else Some q)"

definition itch_ok :: "itch_state \<Rightarrow> bool" where
  "itch_ok st =
     (dict_ok (is_active st) \<and> (\<forall>(ref, x) \<in> set (is_active st). 0 < io_shares x \<and> ref \<in> is_seen st) \<and>
      (\<forall>sd p. dget (side_levels st sd) p = level_of (depth_at (is_active st) sd p)) \<and>
      (\<forall>sd. dict_ok (side_levels st sd)))"

definition contribution :: "itch_order \<Rightarrow> side \<Rightarrow> int \<Rightarrow> int" where
  "contribution x sd p = (if io_side x = sd \<and> io_price x = p then io_shares x else 0)"

lemma depth_at_def2: "depth_at d sd p = sum_list (map (\<lambda>(ref, x). contribution x sd p) d)"
  by (simp add: depth_at_def contribution_def)

lemma depth_dset_new: "dget d ref = None \<Longrightarrow> depth_at (dset ref x d) sd p = depth_at d sd p + contribution x sd p"
  by (induction d) (auto simp: depth_at_def2 split: if_splits)

lemma depth_dpop:
  "dict_ok d \<Longrightarrow> dget d ref = Some x \<Longrightarrow> depth_at (dpop ref d) sd p = depth_at d sd p - contribution x sd p"
proof (induction d)
  case (Cons y ys)
  show ?case
  proof (cases "fst y = ref")
    case True
    with Cons.prems have "ref \<notin> set (dkeys ys)" by (auto simp: dict_ok_def)
    then have "dpop ref ys = ys" by (simp add: delete_id)
    with True Cons.prems show ?thesis by (cases y) (simp add: depth_at_def2)
  next
    case False
    with Cons show ?thesis by (cases y) (simp add: depth_at_def2 dict_ok_def)
  qed
qed simp

lemma depth_dset_old:
  "dict_ok d \<Longrightarrow> dget d ref = Some x \<Longrightarrow>
   depth_at (dset ref y d) sd p = depth_at d sd p - contribution x sd p + contribution y sd p"
  by (induction d) (auto simp: depth_at_def2 dict_ok_def split: if_splits)

lemma depth_nonneg: "\<forall>(ref, x) \<in> set d. 0 < io_shares x \<Longrightarrow> 0 \<le> depth_at d sd p"
  unfolding depth_at_def by (intro sum_list_nonneg) (auto simp: less_imp_le)

lemma depth_ge: "\<forall>(ref, x) \<in> set d. 0 < io_shares x \<Longrightarrow> (ref, x) \<in> set d \<Longrightarrow> contribution x sd p \<le> depth_at d sd p"
proof (induction d)
  case (Cons y ys)
  have "0 \<le> depth_at ys sd p" using Cons.prems(1) by (intro depth_nonneg) auto
  with Cons show ?case by (cases y) (auto simp: depth_at_def2 contribution_def)
qed simp

lemma visible_put: "side_levels (put_levels sd d st) sd' = (if sd' = sd then d else side_levels st sd')"
  by (cases sd; cases sd') (simp_all add: side_levels_def put_levels_def)

lemma put_levels_fields [simp]:
  "is_active (put_levels sd d st) = is_active st" "is_seen (put_levels sd d st) = is_seen st"
  by (cases sd; simp add: put_levels_def)+

lemma visible_update [simp]:
  "side_levels (st\<lparr>is_active := a\<rparr>) sd = side_levels st sd"
  "side_levels (st\<lparr>is_seen := b\<rparr>) sd = side_levels st sd"
  by (cases sd; simp add: side_levels_def)+

text \<open>A state whose levels show the depth \<open>f\<close>.\<close>

definition displays :: "itch_state \<Rightarrow> (side \<Rightarrow> int \<Rightarrow> int) \<Rightarrow> bool" where
  "displays st f = (\<forall>sd. dict_ok (side_levels st sd) \<and> (\<forall>p. dget (side_levels st sd) p = level_of (f sd p)))"

lemma itch_ok_displays:
  "itch_ok st \<longleftrightarrow> dict_ok (is_active st) \<and> (\<forall>(ref, x) \<in> set (is_active st). 0 < io_shares x \<and> ref \<in> is_seen st) \<and>
     displays st (depth_at (is_active st))"
  by (auto simp: itch_ok_def displays_def)

lemma dget_or_level: "dget d p = level_of q \<Longrightarrow> dget_or 0 d p = q"
  by (auto simp: dget_or_def level_of_def split: if_splits)

lemma adjust_level_displays:
  assumes "displays st f" and "0 \<le> f sd p + delta"
  shows "\<exists>st'. adjust_level sd p delta n st = Inr st' \<and> is_active st' = is_active st \<and> is_seen st' = is_seen st \<and>
    displays st' (\<lambda>sd' p'. f sd' p' + (if sd' = sd \<and> p' = p then delta else 0))"
proof -
  have q: "dget_or 0 (side_levels st sd) p = f sd p" using assms(1) by (intro dget_or_level) (simp add: displays_def)
  show ?thesis using assms
    by (auto simp: adjust_level_def q Let_def displays_def visible_put dict_laws level_of_def)
qed

section \<open>Messages\<close>

definition depth_failure :: "py_error \<Rightarrow> bool" where
  "depth_failure e = (\<exists>n. e = message_error n '': visible depth became negative'' \<or>
     e = message_error n '': visible depth must be positive'')"

lemma message_error_inject: "message_error n s = message_error n' s' \<longleftrightarrow> int_dec n @ s = int_dec n' @ s'"
  by (simp add: message_error_def)

definition keeps_book :: "py_error + itch_state \<times> itch_event \<Rightarrow> bool" where
  "keeps_book res = (case res of Inl e \<Rightarrow> \<not> depth_failure e | Inr (st, event) \<Rightarrow> itch_ok st)"

lemma keeps_book_bind:
  "(\<And>e. m = Inl e \<Longrightarrow> \<not> depth_failure e) \<Longrightarrow> (\<And>x. m = Inr x \<Longrightarrow> keeps_book (f x)) \<Longrightarrow> keeps_book (try_bind m f)"
  by (cases m) (simp_all add: keeps_book_def)

lemma keeps_book_Inl: "\<not> depth_failure e \<Longrightarrow> keeps_book (Inl e)"
  by (simp add: keeps_book_def)

lemma colon_not_in_number: "CHR '':'' \<notin> set (int_dec n)"
proof -
  have "CHR '':'' \<notin> set (nat_dec k)" for k by (rule not_digit_in_nat_dec) (simp add: is_digit_def)
  then show ?thesis by (simp add: int_dec_def)
qed

text \<open>Two messages of the reader with a colon after the number are equal only if their texts are.\<close>

lemma message_texts:
  "message_error n (CHR '':'' # s) = message_error n' (CHR '':'' # s') \<longleftrightarrow> n = n' \<and> s = s'"
  unfolding message_error_inject using prefix_split_inject [of "int_dec n" "CHR '':''" s "int_dec n'" s']
  by (auto simp: colon_not_in_number)

lemma no_depth_failure [simp]:
  "\<not> depth_failure (message_error n '': symbol does not match Stock Directory'')"
  "\<not> depth_failure (message_error n '': order reference is reused'')"
  "\<not> depth_failure (message_error n '': size and price must be positive'')"
  "\<not> depth_failure (message_error n '': invalid order reduction'')"
  "\<not> depth_failure (message_error n '': execution price must be positive'')"
  "\<not> depth_failure (message_error n '': replacement reference is reused'')"
  "\<not> depth_failure (message_error n '': order reference exceeds int64'')"
  "\<not> depth_failure (message_error n '': unknown active order reference'')"
  "\<not> depth_failure (message_error n '': invalid buy/sell indicator'')"
  "\<not> depth_failure (message_error n '': visible book is crossed'')"
  "\<not> depth_failure (ValueError ''ITCH alpha field is not ASCII'')"
  "\<not> depth_failure (ValueError ''ITCH Stock Directory mappings are not one-to-one'')"
  by (simp_all add: depth_failure_def message_texts) (simp_all add: message_error_def)

lemma no_depth_failure_fields:
  "alpha bs = Inl e \<Longrightarrow> \<not> depth_failure e"
  "read_side bs n = Inl e \<Longrightarrow> \<not> depth_failure e"
  "require_positive a b n = Inl e \<Longrightarrow> \<not> depth_failure e"
  by (auto simp: alpha_def read_side_def require_positive_def raise_if_def split: if_splits)

lemma displays_cong: "displays st f \<Longrightarrow> (\<And>sd p. f sd p = g sd p) \<Longrightarrow> displays st g"
  by (simp add: displays_def)

lemma displays_fields [simp]:
  "displays (st\<lparr>is_active := a\<rparr>) f = displays st f" "displays (st\<lparr>is_seen := b\<rparr>) f = displays st f"
  by (simp_all add: displays_def)

lemma keeps_book_adjust:
  assumes "displays st f" and "0 \<le> f sd p + delta"
    and "\<And>st'. is_active st' = is_active st \<Longrightarrow> is_seen st' = is_seen st \<Longrightarrow>
      displays st' (\<lambda>sd' p'. f sd' p' + (if sd' = sd \<and> p' = p then delta else 0)) \<Longrightarrow> keeps_book (g st')"
  shows "keeps_book (try_bind (adjust_level sd p delta n st) g)"
  using adjust_level_displays [OF assms(1,2), of n] assms(3) by auto

lemma itch_ok_active:
  assumes "itch_ok st" and "dget (is_active st) ref = Some x"
  shows "0 < io_shares x" and "ref \<in> is_seen st" and "io_shares x \<le> depth_at (is_active st) (io_side x) (io_price x)"
proof -
  have m: "(ref, x) \<in> set (is_active st)" using assms(2) by (rule map_of_SomeD)
  then show "0 < io_shares x" "ref \<in> is_seen st" using assms(1) by (auto simp: itch_ok_def)
  have "contribution x (io_side x) (io_price x) \<le> depth_at (is_active st) (io_side x) (io_price x)"
    using assms(1) m by (intro depth_ge) (auto simp: itch_ok_def)
  then show "io_shares x \<le> depth_at (is_active st) (io_side x) (io_price x)" by (simp add: contribution_def)
qed

lemma unseen_inactive: "itch_ok st \<Longrightarrow> ref \<notin> is_seen st \<Longrightarrow> dget (is_active st) ref = None"
  by (metis itch_ok_active(2) not_None_eq)

lemma keeps_book_if:
  "(c \<Longrightarrow> keeps_book a) \<Longrightarrow> (\<not> c \<Longrightarrow> keeps_book b) \<Longrightarrow> keeps_book (if c then a else b)"
  by simp

lemma set_dpop: "set (dpop k d) \<subseteq> set d"
  by (induction d) auto

lemma set_dset: "x \<in> set (dset k v d) \<Longrightarrow> x = (k, v) \<or> x \<in> set d"
  by (induction d) (auto split: if_splits)

lemma add_keeps:
  assumes ok: "itch_ok st" and new: "ref \<notin> is_seen st" and x: "0 < io_shares x"
    and a: "is_active st1 = dset ref x (is_active st)" "is_seen st1 = insert ref (is_seen st)"
      "displays st1 (depth_at (is_active st))"
  shows "keeps_book (try_bind (adjust_level (io_side x) (io_price x) (io_shares x) n st1) (\<lambda>st2. Inr (st2, event)))"
proof (rule keeps_book_adjust [OF a(3)])
  have act: "\<forall>(ref, x) \<in> set (is_active st). 0 < io_shares x \<and> ref \<in> is_seen st" "dict_ok (is_active st)"
    using ok by (simp_all add: itch_ok_def)
  have "0 \<le> depth_at (is_active st) (io_side x) (io_price x)" using act(1) by (intro depth_nonneg) auto
  then show "0 \<le> depth_at (is_active st) (io_side x) (io_price x) + io_shares x" using x by simp
  fix st2
  assume st2: "is_active st2 = is_active st1" "is_seen st2 = is_seen st1"
    and d: "displays st2 (\<lambda>sd' p'. depth_at (is_active st) sd' p' +
      (if sd' = io_side x \<and> p' = io_price x then io_shares x else 0))"
  have "displays st2 (depth_at (is_active st2))"
    using d unfolding st2(1) a(1) depth_dset_new [OF unseen_inactive [OF ok new]]
    by (rule displays_cong) (auto simp: contribution_def)
  moreover have "dict_ok (is_active st2)" unfolding st2(1) a(1) using act(2) by (simp add: dict_laws)
  moreover have "\<forall>(k, y) \<in> set (is_active st2). 0 < io_shares y \<and> k \<in> is_seen st2"
    unfolding st2 a(1,2) using act(1) x by (auto dest!: set_dset)
  ultimately show "keeps_book (Inr (st2, event))" by (simp add: keeps_book_def itch_ok_displays)
qed

lemma apply_add_keeps:
  assumes ok: "itch_ok st"
  shows "keeps_book (apply_add r symbol trade_date st)"
proof -
  let ?ref = "be_field 11 8 (pr_payload r)" and ?shares = "be_field 20 4 (pr_payload r)"
    and ?price = "be_field 32 4 (pr_payload r)" and ?n = "pr_source_sequence r"
  let ?x = "\<lambda>sd mpid. \<lparr>io_symbol = symbol, io_side = sd, io_shares = ?shares, io_price = ?price, io_mpid = mpid\<rparr>"
  let ?st = "\<lambda>sd mpid. st\<lparr>is_active := dset ?ref (?x sd mpid) (is_active st), is_seen := insert ?ref (is_seen st)\<rparr>"
  have add: "keeps_book (try_bind (adjust_level sd ?price ?shares ?n (?st sd mpid)) (\<lambda>st2. Inr (st2, event)))"
    if "?ref \<notin> is_seen st" "require_positive ?shares ?price ?n = Inr u" for sd mpid event u
    using add_keeps [OF ok that(1), of "?x sd mpid" "?st sd mpid" ?n event] that(2) ok
    by (simp add: require_positive_def itch_ok_displays)
  have mpid: "\<not> depth_failure e" if "(if b then try_bind (alpha bs) (\<lambda>m. Inr (Some m)) else Inr None) = Inl e" for b bs e
    using that by (cases "alpha bs") (auto split: if_splits dest: no_depth_failure_fields)
  show ?thesis
    unfolding apply_add_def Let_def
    by (rule keeps_book_bind, erule no_depth_failure_fields, rule keeps_book_bind, erule no_depth_failure_fields,
        rule keeps_book_bind, erule mpid, intro keeps_book_if keeps_book_Inl no_depth_failure, rule keeps_book_bind,
        erule no_depth_failure_fields, rule add) simp_all
qed

lemma reduce_keeps:
  assumes ok: "itch_ok st" and x: "dget (is_active st) ref = Some x" and d: "0 \<le> d" "d \<le> io_shares x"
    and g: "\<And>st1. is_active st1 = is_active st \<Longrightarrow> is_seen st1 = is_seen st \<Longrightarrow>
      displays st1 (\<lambda>sd p. depth_at (is_active st) sd p - (if sd = io_side x \<and> p = io_price x then d else 0)) \<Longrightarrow>
      keeps_book (g st1)"
  shows "keeps_book (try_bind (adjust_level (io_side x) (io_price x) (- d) n st) g)"
proof (rule keeps_book_adjust)
  show "displays st (depth_at (is_active st))" using ok by (simp add: itch_ok_displays)
  show "0 \<le> depth_at (is_active st) (io_side x) (io_price x) + - d" using itch_ok_active(3) [OF ok x] d by simp
  fix st1
  assume "is_active st1 = is_active st" "is_seen st1 = is_seen st"
    "displays st1 (\<lambda>sd' p'. depth_at (is_active st) sd' p' + (if sd' = io_side x \<and> p' = io_price x then - d else 0))"
  then show "keeps_book (g st1)" by (intro g) (auto elim: displays_cong)
qed

lemma after_reduction:
  assumes ok: "itch_ok st" and x: "dget (is_active st) ref = Some x"
    and st1: "is_active st1 = is_active st" "is_seen st1 = is_seen st"
      "displays st1 (\<lambda>sd p. depth_at (is_active st) sd p - (if sd = io_side x \<and> p = io_price x then d else 0))"
  shows "d = io_shares x \<Longrightarrow> itch_ok (st1\<lparr>is_active := dpop ref (is_active st1)\<rparr>)"
    and "0 < io_shares y \<Longrightarrow> io_shares y = io_shares x - d \<Longrightarrow> io_side y = io_side x \<Longrightarrow> io_price y = io_price x \<Longrightarrow>
      itch_ok (st1\<lparr>is_active := dset ref y (is_active st1)\<rparr>)"
proof -
  have a: "dict_ok (is_active st)" "\<forall>(ref, x) \<in> set (is_active st). 0 < io_shares x \<and> ref \<in> is_seen st"
    using ok by (simp_all add: itch_ok_displays)
  show "itch_ok (st1\<lparr>is_active := dpop ref (is_active st1)\<rparr>)" if "d = io_shares x"
  proof -
    have "displays st1 (depth_at (dpop ref (is_active st)))"
      using st1(3) unfolding depth_dpop [OF a(1) x] that by (rule displays_cong) (auto simp: contribution_def)
    then show ?thesis using a st1(1,2) set_dpop [of ref "is_active st"] by (auto simp: itch_ok_displays dict_laws)
  qed
  show "itch_ok (st1\<lparr>is_active := dset ref y (is_active st1)\<rparr>)"
    if y: "0 < io_shares y" "io_shares y = io_shares x - d" "io_side y = io_side x" "io_price y = io_price x"
  proof -
    have "displays st1 (depth_at (dset ref y (is_active st)))"
      using st1(3) unfolding depth_dset_old [OF a(1) x] by (rule displays_cong) (auto simp: contribution_def y)
    then show ?thesis using a st1(1,2) y(1) itch_ok_active(2) [OF ok x]
      by (auto simp: itch_ok_displays dict_laws dest!: set_dset)
  qed
qed

lemma apply_reduction_keeps:
  assumes ok: "itch_ok st" and x: "dget (is_active st) ref = Some x"
  shows "keeps_book (apply_reduction r symbol trade_date ref x st)"
proof -
  let ?d = "be_field 19 4 (pr_payload r)"
  have "itch_ok (st1\<lparr>is_active := if io_shares x - ?d \<noteq> 0
        then dset ref \<lparr>io_symbol = symbol, io_side = io_side x, io_shares = io_shares x - ?d, io_price = io_price x,
          io_mpid = io_mpid x\<rparr> (is_active st1) else dpop ref (is_active st1)\<rparr>)"
    if "\<not> (?d \<le> 0 \<or> io_shares x < ?d)" "is_active st1 = is_active st" "is_seen st1 = is_seen st"
      "displays st1 (\<lambda>sd p. depth_at (is_active st) sd p - (if sd = io_side x \<and> p = io_price x then ?d else 0))" for st1
    using after_reduction [OF ok x that(2-4)] that(1) by auto
  then show ?thesis
    unfolding apply_reduction_def Let_def
    by (intro keeps_book_if keeps_book_Inl no_depth_failure reduce_keeps [OF ok x]) (auto simp: keeps_book_def)
qed

lemma apply_delete_keeps:
  assumes ok: "itch_ok st" and x: "dget (is_active st) ref = Some x"
  shows "keeps_book (apply_delete r symbol trade_date ref x st)"
  unfolding apply_delete_def
proof (rule reduce_keeps [OF ok x])
  fix st1
  assume "is_active st1 = is_active st" "is_seen st1 = is_seen st"
    "displays st1 (\<lambda>sd p. depth_at (is_active st) sd p - (if sd = io_side x \<and> p = io_price x then io_shares x else 0))"
  then have "itch_ok (st1\<lparr>is_active := dpop ref (is_active st1)\<rparr>)" using refl by (rule after_reduction(1) [OF ok x])
  then show "keeps_book (Inr (st1\<lparr>is_active := dpop ref (is_active st1)\<rparr>, event))" for event
    by (simp only: keeps_book_def sum.case prod.case)
qed (use itch_ok_active(1) [OF ok x] in simp_all)

lemma after_replacement:
  assumes ok: "itch_ok st" and x: "dget (is_active st) ref = Some x" and new: "new \<notin> is_seen st" and y: "0 < io_shares y"
    and st2: "is_active st2 = is_active st" "is_seen st2 = is_seen st"
      "displays st2 (\<lambda>sd p. depth_at (dpop ref (is_active st)) sd p + contribution y sd p)"
  shows "itch_ok (st2\<lparr>is_active := dset new y (dpop ref (is_active st2)), is_seen := insert new (is_seen st2)\<rparr>)"
proof -
  have a: "dict_ok (is_active st)" "\<forall>(ref, x) \<in> set (is_active st). 0 < io_shares x \<and> ref \<in> is_seen st"
    using ok by (simp_all add: itch_ok_displays)
  have none: "dget (dpop ref (is_active st)) new = None" using unseen_inactive [OF ok new] by (simp add: dict_laws)
  have "displays st2 (depth_at (dset new y (dpop ref (is_active st))))"
    using st2(3) by (rule displays_cong) (simp add: depth_dset_new [OF none])
  then show ?thesis using a st2(1,2) y set_dpop [of ref "is_active st"]
    by (auto simp: itch_ok_displays dict_laws dest!: set_dset)
qed

lemma apply_replace_keeps:
  assumes ok: "itch_ok st" and x: "dget (is_active st) ref = Some x"
  shows "keeps_book (apply_replace r symbol trade_date ref x st)"
proof -
  let ?new = "be_field 19 8 (pr_payload r)" and ?shares = "be_field 27 4 (pr_payload r)"
    and ?price = "be_field 31 4 (pr_payload r)" and ?n = "pr_source_sequence r"
  let ?y = "\<lparr>io_symbol = symbol, io_side = io_side x, io_shares = ?shares, io_price = ?price, io_mpid = io_mpid x\<rparr>"
  have a: "dict_ok (is_active st)" "\<forall>(k, x) \<in> set (is_active st). 0 < io_shares x"
    using ok by (auto simp: itch_ok_displays)
  have repl: "keeps_book (try_bind (adjust_level (io_side x) (io_price x) (- io_shares x) ?n st) (\<lambda>st1.
      try_bind (adjust_level (io_side x) ?price ?shares ?n st1) (\<lambda>st2.
        Inr (st2\<lparr>is_active := dset ?new ?y (dpop ref (is_active st2)), is_seen := insert ?new (is_seen st2)\<rparr>, event))))"
    if new: "?new \<notin> is_seen st" and pos: "0 < ?shares" for event
  proof (rule reduce_keeps [OF ok x])
    fix st1
    assume st1: "is_active st1 = is_active st" "is_seen st1 = is_seen st"
      and d: "displays st1 (\<lambda>sd p. depth_at (is_active st) sd p - (if sd = io_side x \<and> p = io_price x then io_shares x else 0))"
    have d1: "displays st1 (depth_at (dpop ref (is_active st)))"
      using d by (rule displays_cong) (simp add: depth_dpop [OF a(1) x] contribution_def)
    show "keeps_book (try_bind (adjust_level (io_side x) ?price ?shares ?n st1) (\<lambda>st2.
        Inr (st2\<lparr>is_active := dset ?new ?y (dpop ref (is_active st2)), is_seen := insert ?new (is_seen st2)\<rparr>, event)))"
    proof (rule keeps_book_adjust [OF d1])
      have "0 \<le> depth_at (dpop ref (is_active st)) (io_side x) ?price"
        using a(2) set_dpop [of ref "is_active st"] by (intro depth_nonneg) blast
      then show "0 \<le> depth_at (dpop ref (is_active st)) (io_side x) ?price + ?shares" using pos by simp
      fix st2
      assume st2: "is_active st2 = is_active st1" "is_seen st2 = is_seen st1"
        and d2: "displays st2 (\<lambda>sd' p'. depth_at (dpop ref (is_active st)) sd' p' +
          (if sd' = io_side x \<and> p' = ?price then ?shares else 0))"
      have "displays st2 (\<lambda>sd p. depth_at (dpop ref (is_active st)) sd p + contribution ?y sd p)"
        using d2 by (rule displays_cong) (simp add: contribution_def)
      then have "itch_ok (st2\<lparr>is_active := dset ?new ?y (dpop ref (is_active st2)), is_seen := insert ?new (is_seen st2)\<rparr>)"
        using new pos st1 st2 by (intro after_replacement [OF ok x]) simp_all
      then show "keeps_book (Inr (st2\<lparr>is_active := dset ?new ?y (dpop ref (is_active st2)),
          is_seen := insert ?new (is_seen st2)\<rparr>, event))" by (simp only: keeps_book_def sum.case prod.case)
    qed
  qed (use itch_ok_active(1) [OF ok x] in simp_all)
  show ?thesis
    unfolding apply_replace_def Let_def
    by (intro keeps_book_if keeps_book_Inl no_depth_failure, rule keeps_book_bind, erule no_depth_failure_fields, rule repl)
      (simp_all add: require_positive_def)
qed

theorem apply_book_message_keeps: "itch_ok st \<Longrightarrow> keeps_book (apply_book_message r symbol trade_date st)"
  unfolding apply_book_message_def Let_def
  by (auto intro!: keeps_book_if keeps_book_Inl apply_add_keeps apply_delete_keeps apply_replace_keeps apply_reduction_keeps
    split: option.split)

section \<open>The check after a message\<close>

lemma level_values: "itch_ok st \<Longrightarrow> dget (side_levels st sd) p = Some q \<Longrightarrow> 0 < q"
proof -
  assume ok: "itch_ok st" and q: "dget (side_levels st sd) p = Some q"
  then have "q = depth_at (is_active st) sd p" "q \<noteq> 0"
    by (auto simp: itch_ok_def level_of_def split: if_splits)
  moreover have "0 \<le> depth_at (is_active st) sd p" using ok by (intro depth_nonneg) (auto simp: itch_ok_def)
  ultimately show "0 < q" by simp
qed

definition uncrossed_itch :: "itch_state \<Rightarrow> bool" where
  "uncrossed_itch st = (\<forall>b\<in>set (dkeys (is_buy st)). \<forall>a\<in>set (dkeys (is_sell st)). b \<le> a)"

lemma validate_book_outcome:
  assumes "itch_ok st"
  shows "validate_book n st = Inl e \<Longrightarrow> \<not> depth_failure e"
    and "validate_book n st = Inr () \<longleftrightarrow> uncrossed_itch st"
proof -
  have "0 < q" if "(p, q) \<in> set (is_buy st) \<or> (p, q) \<in> set (is_sell st)" for p q
    using that level_values [OF assms, of Buy p q] level_values [OF assms, of Sell p q] assms
      dget_in_set [of "is_buy st" p q] dget_in_set [of "is_sell st" p q]
    by (auto simp: itch_ok_def side_levels_def split: side.splits)
  then have pos: "\<not> list_ex (\<lambda>(p, q). q \<le> 0) (is_buy st @ is_sell st)" by (fastforce simp: list_ex_iff)
  show "validate_book n st = Inl e \<Longrightarrow> \<not> depth_failure e"
    using pos by (auto simp: validate_book_def split: option.splits if_splits)
  show "validate_book n st = Inr () \<longleftrightarrow> uncrossed_itch st"
  proof (cases "is_buy st = [] \<or> is_sell st = []")
    case True
    then show ?thesis using pos by (auto simp: validate_book_def uncrossed_itch_def max_opt_def min_opt_def split: option.splits)
  next
    case False
    then obtain bid ask where m: "max_opt (dkeys (is_buy st)) = Some bid" "min_opt (dkeys (is_sell st)) = Some ask"
      by (metis max_opt_None min_opt_None list.map_disc_iff not_None_eq)
    then have "validate_book n st = Inr () \<longleftrightarrow> \<not> ask < bid" using pos by (simp add: validate_book_def)
    also have "\<dots> \<longleftrightarrow> uncrossed_itch st"
      using max_opt_Some [THEN iffD1, OF m(1)] min_opt_Some [THEN iffD1, OF m(2)]
      unfolding uncrossed_itch_def not_less by (meson order_trans)
    finally show ?thesis .
  qed
qed

section \<open>Whole streams\<close>

definition book_state_ok :: "itch_state \<Rightarrow> bool" where
  "book_state_ok st = (itch_ok st \<and> uncrossed_itch st)"

lemma normalize_message_book:
  assumes "itch_ok (sy_itch s)"
  shows "normalize_message z symbol r s = Inl e \<Longrightarrow> \<not> depth_failure e"
    and "normalize_message z symbol r s = Inr s' \<Longrightarrow>
      book_state_ok (sy_itch s')"
proof -
  have k: "keeps_book (apply_book_message r symbol (nz_trade_date z) (sy_itch s))"
    by (rule apply_book_message_keeps [OF assms])
  show "normalize_message z symbol r s = Inl e \<Longrightarrow> \<not> depth_failure e"
    and "normalize_message z symbol r s = Inr s' \<Longrightarrow>
      book_state_ok (sy_itch s')"
    using k validate_book_outcome
    by (auto simp: normalize_message_def book_state_ok_def keeps_book_def try_bind_def split: sum.splits prod.splits if_splits)
qed

lemma empty_itch_ok: "book_state_ok empty_itch"
  by (auto simp: book_state_ok_def itch_ok_def empty_itch_def uncrossed_itch_def side_levels_def depth_at_def level_of_def
    split: side.splits)

definition plain_quota :: "normalizer \<Rightarrow> bool" where
  "plain_quota z = (\<forall>n b e. nz_quota z n b = Inl e \<longrightarrow> \<not> depth_failure e)"

lemma no_depth_failure_directory:
  "register_symbol r d = Inl e \<Longrightarrow> \<not> depth_failure e"
  by (auto simp: register_symbol_def directory_symbol_def Let_def try_bind_def split: sum.splits if_splits
    dest: no_depth_failure_fields)

lemma norm_step_book:
  assumes q: "plain_quota z" and ok: "book_state_ok (sy_itch (ns_symbol ns))"
  shows "norm_step z symbol r ns = Inl e \<Longrightarrow> \<not> depth_failure e"
    and "norm_step z symbol r ns = Inr ns' \<Longrightarrow> book_state_ok (sy_itch (ns_symbol ns'))"
proof -
  have i: "itch_ok (sy_itch (ns_symbol ns))" using ok by (simp add: book_state_ok_def)
  note m = normalize_message_book [OF i, of z symbol r]
  have quota: "\<not> depth_failure e" if "resource_check z r = Inl e \<or> chunk_check z r s s' = Inl e" for e s s'
    using q that by (auto simp: plain_quota_def resource_check_def chunk_check_def split: if_splits)
  show "norm_step z symbol r ns = Inl e \<Longrightarrow> \<not> depth_failure e"
    using m(1) quota no_depth_failure_directory
    by (auto simp: norm_step_def Let_def try_bind_def split: sum.splits prod.splits if_splits option.splits)
      (simp_all add: depth_failure_def message_error_def)
  show "norm_step z symbol r ns = Inr ns' \<Longrightarrow> book_state_ok (sy_itch (ns_symbol ns'))"
    using m(2) ok
    by (auto simp: norm_step_def Let_def try_bind_def
      split: sum.splits prod.splits if_splits option.splits)
qed

lemma try_fold_book:
  assumes "plain_quota z" and "book_state_ok (sy_itch (ns_symbol ns))"
  shows "case try_fold (norm_step z symbol) rs ns of
    Inl e \<Rightarrow> \<not> depth_failure e | Inr ns' \<Rightarrow> book_state_ok (sy_itch (ns_symbol ns'))"
  using assms(2)
proof (induction rs arbitrary: ns)
  case (Cons r rs)
  then show ?case
    using norm_step_book [OF assms(1) Cons.prems] by (cases "norm_step z symbol r ns") auto
qed simp

end
