(* ===== verification/ItchFraming.thy ===== *)
theory ItchFraming
  imports ItchIngestion
begin

text \<open>
  Reading back a framed stream: the writer is the format's, a two-byte length before each payload.
\<close>

definition frame :: "bytes \<Rightarrow> bytes" where
  "frame p = int_to_bytes 2 (int (length p)) @ p"

definition payload_time :: "bytes \<Rightarrow> int" where
  "payload_time p = be_field 5 6 p"

definition payload_ok :: "bytes \<Rightarrow> bool" where
  "payload_ok p =
     (11 \<le> length p \<and> int (length p) < 65536 \<and> 0 \<le> payload_time p \<and> payload_time p < day_ns \<and>
      (case message_length (char_of (hd p)) of None \<Rightarrow> True | Some l \<Rightarrow> length p = l))"

definition record_of :: "int \<Rightarrow> bytes \<Rightarrow> parsed_record" where
  "record_of n p =
     \<lparr>pr_source_sequence = n, pr_message_type = char_of (hd p), pr_stock_locate = be_field 1 2 p,
      pr_tracking_number = be_field 3 2 p, pr_timestamp_ns = payload_time p, pr_payload = p\<rparr>"

fun numbered :: "int \<Rightarrow> bytes list \<Rightarrow> parsed_record list" where
  "numbered n [] = []"
| "numbered n (p # ps) = record_of (n + 1) p # numbered (n + 1) ps"

lemma parse_payload_ok: "payload_ok p \<Longrightarrow> previous \<le> payload_time p \<Longrightarrow> parse_payload n previous p = Inr (record_of n p)"
  by (auto simp: parse_payload_def parse_header_def payload_ok_def record_of_def payload_time_def Let_def not_less
    split: option.splits)

lemma length_prefix:
  assumes "int (length p) < 65536"
  obtains b1 b2 where "frame p = b1 # b2 # p" and "int_from_bytes [b1, b2] = int (length p)"
proof
  let ?n = "int (length p)"
  show "frame p = ?n div 256 mod 256 # ?n mod 256 # p" by (simp add: frame_def numeral_2_eq_2)
  have "?n div 256 < 256" using assms by simp
  then have "?n div 256 mod 256 = ?n div 256" by simp
  then show "int_from_bytes [?n div 256 mod 256, ?n mod 256] = ?n" by (simp add: int_from_bytes_def)
qed

lemma read_framed:
  assumes "payload_ok p" and "previous \<le> payload_time p"
  shows "read_records n previous (frame p @ rest) =
    (case read_records (n + 1) (payload_time p) rest of (rs, e) \<Rightarrow> (record_of (n + 1) p # rs, e))"
proof -
  have len: "int (length p) < 65536" "0 < length p" using assms(1) by (auto simp: payload_ok_def)
  obtain b1 b2 where f: "frame p = b1 # b2 # p" "int_from_bytes [b1, b2] = int (length p)"
    by (rule length_prefix [OF len(1)])
  show ?thesis using len(2)
    by (simp add: f parse_payload_ok [OF assms] Let_def) (simp add: record_of_def)
qed

fun ordered_from :: "int \<Rightarrow> bytes list \<Rightarrow> bool" where
  "ordered_from t [] = True"
| "ordered_from t (p # ps) = (payload_ok p \<and> t \<le> payload_time p \<and> ordered_from (payload_time p) ps)"

definition last_time :: "int \<Rightarrow> bytes list \<Rightarrow> int" where
  "last_time t ps = (if ps = [] then t else payload_time (last ps))"

lemma read_stream:
  "ordered_from t ps \<Longrightarrow> read_records n t (concat (map frame ps) @ rest) =
     (case read_records (n + int (length ps)) (last_time t ps) rest of (rs, e) \<Rightarrow> (numbered n ps @ rs, e))"
proof (induction ps arbitrary: n t)
  case (Cons p ps)
  then have "read_records (n + 1) (payload_time p) (concat (map frame ps) @ rest) =
      (case read_records (n + 1 + int (length ps)) (last_time (payload_time p) ps) rest of (rs, e) \<Rightarrow> (numbered (n + 1) ps @ rs, e))"
    by simp
  with Cons.prems show ?case
    by (simp add: read_framed last_time_def algebra_simps split: prod.split)
qed (simp add: last_time_def)

definition cut_error :: "int \<Rightarrow> nat \<Rightarrow> py_error" where
  "cut_error n k = (if k = 1 then ValueError ''truncated ITCH message length prefix''
     else ValueError (''truncated ITCH message '' @ int_dec n))"

lemma read_truncated:
  assumes "payload_ok q" and "0 < k" and "k < length (frame q)"
  shows "read_records n t (take k (frame q)) = ([], Some (cut_error (n + 1) k))"
proof -
  have len: "int (length q) < 65536" "0 < length q" using assms(1) by (auto simp: payload_ok_def)
  obtain b1 b2 where f: "frame q = b1 # b2 # q" "int_from_bytes [b1, b2] = int (length q)"
    by (rule length_prefix [OF len(1)])
  show ?thesis
  proof (cases "k = 1")
    case True
    then show ?thesis by (simp add: f cut_error_def)
  next
    case False
    then obtain j where k: "k = Suc (Suc j)" using assms(2) by (metis One_nat_def gr0_implies_Suc not0_implies_Suc)
    with assms(3) have "j < length q" by (simp add: f)
    then show ?thesis using len(2) by (simp add: k f Let_def cut_error_def)
  qed
qed

text \<open>C35. The reader inverts the framing: a stream of framed payloads with known lengths and timestamps that do not
  decrease within the day is read back as exactly these payloads, numbered from one, and when the stream is cut
  anywhere inside a further message the complete messages before the cut are still yielded and then an error.\<close>

theorem framing_round_trip:
  assumes "ordered_from (- 1) ps" and "payload_ok q" and "0 < k" and "k < length (frame q)"
  shows "iter_records (concat (map frame ps)) = (numbered 0 ps, None) \<and>
    iter_records (concat (map frame ps) @ take k (frame q)) =
      (numbered 0 ps, Some (cut_error (int (length ps) + 1) k))"
proof -
  have "iter_records (concat (map frame ps)) = (numbered 0 ps, None)"
    using read_stream [OF assms(1), of 0 "[]"] by (simp add: iter_records_def)
  moreover have "iter_records (concat (map frame ps) @ take k (frame q)) =
      (numbered 0 ps, Some (cut_error (int (length ps) + 1) k))"
    using read_stream [OF assms(1), of 0 "take k (frame q)"] read_truncated [OF assms(2-4)] by (simp add: iter_records_def)
  ultimately show ?thesis by blast
qed

definition demo_payload :: "char \<Rightarrow> int \<Rightarrow> int \<Rightarrow> bytes \<Rightarrow> bytes" where
  "demo_payload c locate t body = byte_of_char c # int_to_bytes 2 locate @ int_to_bytes 2 0 @ int_to_bytes 6 t @ body"

definition demo_directory :: "int \<Rightarrow> string \<Rightarrow> bytes" where
  "demo_directory locate symbol = demo_payload (CHR ''R'') locate 1 (map byte_of_char symbol @
     replicate (28 - length symbol) (byte_of_char (CHR '' '')))"

definition demo_add :: "int \<Rightarrow> int \<Rightarrow> int \<Rightarrow> char \<Rightarrow> int \<Rightarrow> string \<Rightarrow> int \<Rightarrow> bytes" where
  "demo_add locate t ref sd shares symbol price = demo_payload (CHR ''A'') locate t
     (int_to_bytes 8 ref @ [byte_of_char sd] @ int_to_bytes 4 shares @ map byte_of_char symbol @
      replicate (8 - length symbol) (byte_of_char (CHR '' '')) @ int_to_bytes 4 price)"

definition demo_execute :: "int \<Rightarrow> int \<Rightarrow> int \<Rightarrow> int \<Rightarrow> bytes" where
  "demo_execute locate t ref shares = demo_payload (CHR ''E'') locate t
     (int_to_bytes 8 ref @ int_to_bytes 4 shares @ int_to_bytes 8 77)"

definition demo_messages :: "bytes list" where
  "demo_messages = [demo_directory 7 ''AAPL'', demo_directory 9 ''MSFT'', demo_add 7 5 100 (CHR ''B'') 300 ''AAPL'' 1500000,
     demo_add 9 6 101 (CHR ''S'') 50 ''MSFT'' 4000000, demo_add 7 7 102 (CHR ''B'') 40 ''AAPL'' 1500000,
     demo_execute 7 8 100 100]"

theorem framing_round_trip_witness:
  "iter_records (concat (map frame demo_messages)) = (numbered 0 demo_messages, None) \<and>
   iter_records (concat (map frame demo_messages) @ take 20 (frame (demo_execute 7 9 102 40))) =
     (numbered 0 demo_messages, Some (cut_error 7 20))"
proof -
  have o: "ordered_from (- 1) demo_messages" by code_simp
  have q: "payload_ok (demo_execute 7 9 102 40)" "20 < length (frame (demo_execute 7 9 102 40))" by code_simp+
  have l: "int (length demo_messages) + 1 = 7" by (simp add: demo_messages_def)
  show ?thesis using framing_round_trip [OF o q(1) _ q(2)] unfolding l by simp
qed

end
