(* ===== verification/ItchPasses.thy ===== *)
theory ItchPasses
  imports ItchFraming
begin

text \<open>
  Normalizing several symbols in one pass gives each symbol what normalizing it alone gives. The two loops
  are related step by step: \<open>same_symbol\<close> holds between the state of the one pass and the state of the
  pass for one of its symbols.
\<close>

definition directory_ok :: "directory \<Rightarrow> bool" where
  "directory_ok d = (\<forall>l s. dget (dr_symbol_by_locate d) l = Some s \<longleftrightarrow> dget (dr_locate_by_symbol d) s = Some l)"

lemma register_symbol_Inr:
  assumes "directory_ok d" and "register_symbol r d = Inr (d', s)"
  shows "directory_ok d'" and "dget (dr_locate_by_symbol d') s = Some (pr_stock_locate r)"
    and "s' \<noteq> s \<Longrightarrow> dget (dr_locate_by_symbol d') s' = dget (dr_locate_by_symbol d) s'"
    and "directory_symbol r = Inr s"
proof -
  let ?l = "pr_stock_locate r"
  have r: "directory_symbol r = Inr s"
    "d' = \<lparr>dr_symbol_by_locate = dsetdefault ?l s (dr_symbol_by_locate d), dr_locate_by_symbol = dsetdefault s ?l (dr_locate_by_symbol d)\<rparr>"
    "dget_or s (dr_symbol_by_locate d) ?l = s" "dget_or ?l (dr_locate_by_symbol d) s = ?l"
    using assms(2) by (auto simp: register_symbol_def Let_def try_bind_Inr dict_simps split: if_splits)
  have new: "dget (dr_symbol_by_locate d') l = (if l = ?l then Some s else dget (dr_symbol_by_locate d) l)"
    "dget (dr_locate_by_symbol d') k = (if k = s then Some ?l else dget (dr_locate_by_symbol d) k)" for l k
    by (simp_all add: r dget_setdefault)
  have old: "dget (dr_symbol_by_locate d) ?l \<in> {None, Some s}" "dget (dr_locate_by_symbol d) s \<in> {None, Some ?l}"
    using r(3,4) by (auto simp: dget_or_def split: option.splits)
  show "directory_ok d'"
    unfolding directory_ok_def new using assms(1) old unfolding directory_ok_def
    by (auto split: if_splits) (metis option.distinct(1) option.inject)+
  show "dget (dr_locate_by_symbol d') s = Some ?l" by (simp add: new)
  show "dget (dr_locate_by_symbol d') s' = dget (dr_locate_by_symbol d) s'" if "s' \<noteq> s" using that by (simp add: new)
  show "directory_symbol r = Inr s" by (rule r(1))
qed

definition same_symbol :: "string \<Rightarrow> multi_state \<Rightarrow> norm_state \<Rightarrow> bool" where
  "same_symbol symbol mu ns =
     (mu_directory mu = ns_directory ns \<and> mu_counts mu = ns_counts ns \<and>
      dget (mu_states mu) symbol = Some (ns_symbol ns) \<and> directory_ok (ns_directory ns) \<and>
      ns_selected ns = dget (dr_locate_by_symbol (ns_directory ns)) symbol)"

definition free_quota :: "normalizer \<Rightarrow> bool" where
  "free_quota z = (\<forall>n b. nz_quota z n b = Inr ())"

lemma free_checks: "free_quota z \<Longrightarrow> resource_check z r = Inr ()" "free_quota z \<Longrightarrow> chunk_check z r s s' = Inr ()"
  by (simp_all add: free_quota_def resource_check_def chunk_check_def)

text \<open>The symbol is in the directory before the first book message of any symbol.\<close>

fun listed_first :: "string \<Rightarrow> parsed_record list \<Rightarrow> bool" where
  "listed_first symbol [] = True"
| "listed_first symbol (r # rs) =
     (if pr_message_type r = CHR ''R'' then directory_symbol r = Inr symbol \<or> listed_first symbol rs
      else \<not> is_book_type (pr_message_type r) \<and> listed_first symbol rs)"

lemma multi_step_same:
  assumes z: "free_quota z" and same: "same_symbol symbol mu ns"
    and first: "ns_selected ns \<noteq> None \<or> listed_first symbol (r # rs)" and step: "multi_step z r mu = Inr mu'"
  shows "\<exists>ns'. norm_step z symbol r ns = Inr ns' \<and> same_symbol symbol mu' ns' \<and>
    (ns_selected ns' \<noteq> None \<or> listed_first symbol rs)"
proof -
  note s = same [unfolded same_symbol_def]
  show ?thesis
  proof (cases "pr_message_type r = CHR ''R''")
    case True
    with step obtain d t where d: "register_symbol r (ns_directory ns) = Inr (d, t)"
      "mu' = mu\<lparr>mu_counts := count_one (pr_message_type r) (mu_counts mu), mu_directory := d\<rparr>"
      using s free_checks(1) [OF z] by (auto simp: multi_step_def Let_def try_bind_Inr)
    note reg = register_symbol_Inr [OF _ d(1)]
    show ?thesis
      using s d(2) reg(1,2,4) reg(3) [of symbol] first
      by (auto simp: norm_step_def Let_def True free_checks(1) [OF z] d(1) same_symbol_def)
  next
    case False
    show ?thesis
    proof (cases "is_book_type (pr_message_type r)")
      case True
      then obtain l where l: "ns_selected ns = Some l" using first False by auto
      then have m: "dget (dr_symbol_by_locate (ns_directory ns)) l = Some symbol"
        using s unfolding directory_ok_def by simp
      show ?thesis
      proof (cases "pr_stock_locate r = l")
        case here: True
        with step s m l obtain t where t: "normalize_message z symbol r (ns_symbol ns) = Inr t"
          "mu' = mu\<lparr>mu_counts := count_one (pr_message_type r) (mu_counts mu), mu_states := dset symbol t (mu_states mu)\<rparr>"
          using False True free_checks(1) [OF z] by (auto simp: multi_step_def Let_def try_bind_Inr)
        have sel: "dget (dr_locate_by_symbol (ns_directory ns)) symbol = Some l" using s l by simp
        have "norm_step z symbol r ns =
            Inr (ns\<lparr>ns_counts := count_one (pr_message_type r) (ns_counts ns), ns_selected := Some l, ns_symbol := t\<rparr>)"
          using l here False True t(1) by (simp add: norm_step_def Let_def free_checks [OF z])
        then show ?thesis using s t(2) sel by (simp add: same_symbol_def dict_laws)
      next
        case other: False
        have ne: "dget (dr_symbol_by_locate (ns_directory ns)) (pr_stock_locate r) \<noteq> Some symbol"
          using s l other unfolding directory_ok_def by (metis option.inject)
        from step s have "mu_directory mu' = ns_directory ns \<and> mu_counts mu' = count_one (pr_message_type r) (ns_counts ns) \<and>
            dget (mu_states mu') symbol = Some (ns_symbol ns)"
          using ne False True free_checks(1) [OF z]
          by (auto simp: multi_step_def Let_def try_bind_Inr dict_laws split: option.splits)
        moreover have "norm_step z symbol r ns =
            Inr (ns\<lparr>ns_counts := count_one (pr_message_type r) (ns_counts ns), ns_selected := Some l\<rparr>)"
          using l other False True by (simp add: norm_step_def Let_def free_checks [OF z])
        moreover have "dget (dr_locate_by_symbol (ns_directory ns)) symbol = Some l" using s l by simp
        ultimately show ?thesis using s by (simp add: same_symbol_def)
      qed
    next
      case not_book: False
      then show ?thesis using step s first False
        by (auto simp: multi_step_def norm_step_def Let_def free_checks [OF z] same_symbol_def)
    qed
  qed
qed

lemma dkeys_dset_old: "dget d k = Some y \<Longrightarrow> dkeys (dset k v d) = dkeys d"
proof -
  assume "dget d k = Some y"
  then have "k \<in> set (dkeys d)" using dkeys_iff [of k d] by blast
  then show ?thesis unfolding update_keys by (rule if_P)
qed

lemma multi_step_keys: "multi_step z r mu = Inr mu' \<Longrightarrow> dkeys (mu_states mu') = dkeys (mu_states mu)"
  by (auto simp: multi_step_def Let_def try_bind_Inr dkeys_dset_old split: if_splits option.splits)

lemma multi_step_fails:
  assumes z: "free_quota z" and same: "\<And>s. s \<in> set symbols \<Longrightarrow> same_symbol s mu (ns s)" and "symbols \<noteq> []"
    and keys: "dkeys (mu_states mu) = symbols" and step: "multi_step z r mu = Inl e"
  shows "\<exists>s\<in>set symbols. \<exists>e'. norm_step z s r (ns s) = Inl e'"
proof (cases "pr_message_type r = CHR ''R''")
  case True
  obtain s where s: "s \<in> set symbols" using assms(3) by (cases symbols) auto
  with step True same [OF s] show ?thesis
    by (intro bexI [of _ s]) (auto simp: multi_step_def norm_step_def Let_def free_checks [OF z] same_symbol_def
      try_bind_def split: sum.splits)
next
  case False
  with step obtain s t where st: "is_book_type (pr_message_type r)"
    "dget (dr_symbol_by_locate (mu_directory mu)) (pr_stock_locate r) = Some s" "dget (mu_states mu) s = Some t"
    "normalize_message z s r t = Inl e"
    by (auto simp: multi_step_def Let_def free_checks [OF z] try_bind_def split: if_splits option.splits sum.splits)
  have s: "s \<in> set symbols" using st(3) keys by (metis dkeys_iff option.distinct(1))
  note r = same [OF s, unfolded same_symbol_def]
  have "ns_selected (ns s) = Some (pr_stock_locate r)" using r st(2) unfolding directory_ok_def by metis
  moreover have "ns_symbol (ns s) = t" using r st(3) by simp
  ultimately show ?thesis using s st(1,4) False
    by (intro bexI [of _ s]) (auto simp: norm_step_def Let_def free_checks [OF z])
qed

lemma multi_fold_same:
  assumes z: "free_quota z"
  shows "same_symbol symbol mu ns \<Longrightarrow> ns_selected ns \<noteq> None \<or> listed_first symbol rs \<Longrightarrow>
    try_fold (multi_step z) rs mu = Inr mu' \<Longrightarrow>
    \<exists>ns'. try_fold (norm_step z symbol) rs ns = Inr ns' \<and> same_symbol symbol mu' ns'"
proof (induction rs arbitrary: mu ns)
  case (Cons r rs)
  then obtain mu1 where mu1: "multi_step z r mu = Inr mu1" "try_fold (multi_step z) rs mu1 = Inr mu'"
    by (auto simp: try_bind_Inr)
  obtain ns1 where "norm_step z symbol r ns = Inr ns1" "same_symbol symbol mu1 ns1"
    "ns_selected ns1 \<noteq> None \<or> listed_first symbol rs"
    using multi_step_same [OF z Cons.prems(1,2) mu1(1)] by blast
  with Cons.IH [OF _ _ mu1(2)] show ?case by simp
qed simp

lemma multi_fold_fails:
  assumes z: "free_quota z" and "symbols \<noteq> []"
  shows "(\<And>s. s \<in> set symbols \<Longrightarrow> same_symbol s mu (ns s)) \<Longrightarrow>
    (\<And>s. s \<in> set symbols \<Longrightarrow> ns_selected (ns s) \<noteq> None \<or> listed_first s rs) \<Longrightarrow> dkeys (mu_states mu) = symbols \<Longrightarrow>
    try_fold (multi_step z) rs mu = Inl e \<Longrightarrow>
    \<exists>s\<in>set symbols. \<exists>e'. try_fold (norm_step z s) rs (ns s) = Inl e'"
proof (induction rs arbitrary: mu ns)
  case (Cons r rs)
  show ?case
  proof (cases "multi_step z r mu")
    case (Inl e1)
    from multi_step_fails [OF z Cons.prems(1) assms(2) Cons.prems(3) Inl]
    obtain s e' where "s \<in> set symbols" "norm_step z s r (ns s) = Inl e'" by blast
    then show ?thesis by (intro bexI [of _ s]) auto
  next
    case (Inr mu1)
    have "\<exists>ns1. norm_step z s r (ns s) = Inr ns1 \<and> same_symbol s mu1 ns1 \<and> (ns_selected ns1 \<noteq> None \<or> listed_first s rs)"
      if "s \<in> set symbols" for s
      by (rule multi_step_same [OF z Cons.prems(1) [OF that] Cons.prems(2) [OF that] Inr])
    then obtain ns1 where ns1: "\<And>s. s \<in> set symbols \<Longrightarrow> norm_step z s r (ns s) = Inr (ns1 s) \<and> same_symbol s mu1 (ns1 s) \<and>
        (ns_selected (ns1 s) \<noteq> None \<or> listed_first s rs)"
      by metis
    have "try_fold (multi_step z) rs mu1 = Inl e" using Cons.prems(4) Inr by simp
    then have "\<exists>s\<in>set symbols. \<exists>e'. try_fold (norm_step z s) rs (ns1 s) = Inl e'"
      using ns1 multi_step_keys [OF Inr] Cons.prems(3) by (intro Cons.IH [of mu1 ns1]) auto
    then show ?thesis using ns1 by force
  qed
qed simp

lemma start_same: "s \<in> set symbols \<Longrightarrow> same_symbol s (start_multi symbols) start_norm"
proof -
  assume s: "s \<in> set symbols"
  have "dget (map (\<lambda>s. (s, empty_symbol)) symbols) s = Some empty_symbol" using s by (induction symbols) auto
  then show ?thesis by (simp add: same_symbol_def start_multi_def start_norm_def directory_ok_def)
qed

lemma multi_fold_keys: "try_fold (multi_step z) rs mu = Inr mu' \<Longrightarrow> dkeys (mu_states mu') = dkeys (mu_states mu)"
  by (induction rs arbitrary: mu) (auto simp: try_bind_Inr dest: multi_step_keys)

lemma start_keys: "dkeys (mu_states (start_multi symbols)) = symbols"
  by (simp add: start_multi_def comp_def)

lemma finish_multi_Inr:
  assumes "finish_multi symbols mu = Inr outs" and "same_symbol s mu ns" and "s \<in> set symbols"
  shows "\<exists>out. dget outs s = Some out \<and> finish_norm s ns = Inr out"
proof -
  have m: "filter (\<lambda>s. dget (dr_locate_by_symbol (mu_directory mu)) s = None) symbols = []"
    "find (\<lambda>(symbol, s). sy_event_rows s = []) (mu_states mu) = None"
    "outs = map (\<lambda>(symbol, s). (symbol, result_of (mu_counts mu) s)) (mu_states mu)"
    using assms(1) by (auto simp: finish_multi_def Let_def split: if_splits option.splits)
  have "sy_event_rows (ns_symbol ns) \<noteq> []"
    using assms(2) m(2) map_of_SomeD [of "mu_states mu" s "ns_symbol ns"]
    by (fastforce simp: same_symbol_def find_None_iff)
  moreover have "ns_selected ns \<noteq> None" using assms(2,3) m(1) by (auto simp: same_symbol_def filter_empty_conv)
  moreover have "dget outs s = Some (result_of (ns_counts ns) (ns_symbol ns))"
    using assms(2) by (simp add: m(3) map_of_map same_symbol_def)
  ultimately show ?thesis by (simp add: finish_norm_def)
qed

lemma finish_multi_keys: "finish_multi symbols mu = Inr outs \<Longrightarrow> dkeys outs = dkeys (mu_states mu)"
  by (auto simp: finish_multi_def Let_def split: if_splits option.splits)

lemma finish_multi_Inl:
  assumes "finish_multi symbols mu = Inl e" and "dkeys (mu_states mu) = symbols" and "distinct symbols"
    and same: "\<And>s. s \<in> set symbols \<Longrightarrow> same_symbol s mu (ns s)"
  shows "\<exists>s\<in>set symbols. \<exists>e'. finish_norm s (ns s) = Inl e'"
proof (cases "filter (\<lambda>s. dget (dr_locate_by_symbol (mu_directory mu)) s = None) symbols = []")
  case True
  with assms(1) obtain s t where "find (\<lambda>(symbol, s). sy_event_rows s = []) (mu_states mu) = Some (s, t)"
    by (auto simp: finish_multi_def Let_def split: option.splits)
  then obtain i where "i < length (mu_states mu)" "mu_states mu ! i = (s, t)" "sy_event_rows t = []"
    by (auto simp: find_Some_iff)
  then have t: "(s, t) \<in> set (mu_states mu)" "sy_event_rows t = []" by (metis nth_mem, simp)
  then have s: "s \<in> set symbols" using assms(2) by force
  have "dget (mu_states mu) s = Some t" using t(1) assms(2,3) by (simp add: dict_ok_def flip: dget_in_set)
  with same [OF s] t(2) have "sy_event_rows (ns_symbol (ns s)) = []" by (simp add: same_symbol_def)
  with s show ?thesis by (intro bexI [of _ s]) (auto simp: finish_norm_def)
next
  case False
  then obtain s where s: "s \<in> set symbols" "dget (dr_locate_by_symbol (mu_directory mu)) s = None"
    by (auto simp: filter_empty_conv)
  with same [OF s(1)] have "ns_selected (ns s) = None" by (simp add: same_symbol_def)
  with s(1) show ?thesis by (intro bexI [of _ s]) (auto simp: finish_norm_def)
qed

end
