(* ===== verification/ItchProps.thy ===== *)
theory ItchProps
  imports ItchBook ItchPasses
begin

text \<open>
  The promises of ITCH ingestion: the visible book is the depth of the active orders, and one pass over a
  stream serves several symbols as separate passes would.
\<close>

section \<open>The visible book\<close>

text \<open>C33. The visible book is redundant. After any records the normalizer accepts, each level holds exactly the
  shares of the active orders on its side and price, and no bid is above an ask; and no stream makes the
  normalizer fail with negative or non-positive depth.\<close>

theorem visible_book_is_depth:
  assumes "plain_quota z"
  shows "case try_fold (norm_step z symbol) rs start_norm of
    Inl e \<Rightarrow> \<not> depth_failure e
  | Inr ns \<Rightarrow> uncrossed_itch (sy_itch (ns_symbol ns)) \<and>
      dget (side_levels (sy_itch (ns_symbol ns)) sd) p = level_of (depth_at (is_active (sy_itch (ns_symbol ns))) sd p)"
proof -
  have "book_state_ok (sy_itch (ns_symbol start_norm))"
    using empty_itch_ok by (simp add: start_norm_def empty_symbol_def)
  from try_fold_book [OF assms this, of symbol rs] show ?thesis
    by (auto simp: book_state_ok_def itch_ok_def split: sum.splits)
qed

definition demo_normalizer :: normalizer where
  "demo_normalizer = \<lparr>nz_trade_date = ''2026-07-01'', nz_start_ns = 0, nz_end_ns = 1000, nz_depth = 5,
     nz_quota = (\<lambda>_ _. Inr ())\<rparr>"

theorem visible_book_is_depth_witness:
  "case try_fold (norm_step demo_normalizer ''AAPL'') (numbered 0 demo_messages) start_norm of
    Inl e \<Rightarrow> False
  | Inr ns \<Rightarrow> dget (side_levels (sy_itch (ns_symbol ns)) Buy) 1500000 = Some 240 \<and>
      level_of (depth_at (is_active (sy_itch (ns_symbol ns))) Buy 1500000) = Some 240"
proof -
  have q: "plain_quota demo_normalizer" by (simp add: plain_quota_def demo_normalizer_def)
  define res where "res = try_fold (norm_step demo_normalizer ''AAPL'') (numbered 0 demo_messages) start_norm"
  have v: "case res of Inl e \<Rightarrow> False | Inr ns \<Rightarrow> dget (side_levels (sy_itch (ns_symbol ns)) Buy) 1500000 = Some 240"
    unfolding res_def by code_simp
  have "case res of Inl e \<Rightarrow> \<not> depth_failure e | Inr ns \<Rightarrow> uncrossed_itch (sy_itch (ns_symbol ns)) \<and>
      dget (side_levels (sy_itch (ns_symbol ns)) Buy) 1500000 =
        level_of (depth_at (is_active (sy_itch (ns_symbol ns))) Buy 1500000)"
    unfolding res_def by (rule visible_book_is_depth [OF q])
  with v show ?thesis unfolding res_def [symmetric] by (cases res) auto
qed

section \<open>One pass\<close>

text \<open>C34. For distinct symbols, when no resource limit is hit and every symbol is listed in the stock directory
  before the first book message, normalizing several symbols in one pass succeeds exactly when normalizing
  each of them alone does, and then returns for exactly these symbols the rows and counts of their own
  passes. When it fails, the pass of some symbol alone fails too (others may succeed alone, and the messages
  may differ).\<close>

theorem one_pass_equals_single_passes:
  assumes "free_quota z" and "distinct symbols" and "symbols \<noteq> []"
    and "list_all (\<lambda>s. listed_first s (fst (iter_records bs))) symbols"
  shows "case normalize_symbols_one_pass z bs symbols of
    Inr outs \<Rightarrow> dkeys outs = symbols \<and>
      (\<forall>s\<in>set symbols. \<exists>out. dget outs s = Some out \<and> normalize z bs s = Inr out)
  | Inl e \<Rightarrow> (\<exists>s\<in>set symbols. \<exists>e'. normalize z bs s = Inl e')"
proof -
  obtain rs err where rs: "iter_records bs = (rs, err)" by (cases "iter_records bs")
  have first: "ns_selected start_norm \<noteq> None \<or> listed_first s rs" if "s \<in> set symbols" for s
    using assms(4) that by (simp add: rs list_all_iff)
  show ?thesis
  proof (cases "try_fold (multi_step z) rs (start_multi symbols)")
    case (Inl e)
    from multi_fold_fails [OF assms(1,3) start_same first start_keys Inl]
    obtain s e' where "s \<in> set symbols" "try_fold (norm_step z s) rs start_norm = Inl e'" by blast
    then show ?thesis using Inl
      by (auto simp: normalize_symbols_one_pass_def normalize_def for_records_def rs intro!: bexI [of _ s])
  next
    case (Inr mu)
    have keys: "dkeys (mu_states mu) = symbols" using multi_fold_keys [OF Inr] start_keys by simp
    have "\<exists>ns. try_fold (norm_step z s) rs start_norm = Inr ns \<and> same_symbol s mu ns" if "s \<in> set symbols" for s
      by (rule multi_fold_same [OF assms(1) start_same [OF that] first [OF that] Inr])
    then obtain ns where ns: "\<And>s. s \<in> set symbols \<Longrightarrow> try_fold (norm_step z s) rs start_norm = Inr (ns s) \<and> same_symbol s mu (ns s)"
      by metis
    obtain s0 where s0: "s0 \<in> set symbols" using assms(3) by (cases symbols) auto
    have single: "normalize z bs s = (case err of None \<Rightarrow> finish_norm s (ns s) | Some e \<Rightarrow> Inl e)" if "s \<in> set symbols" for s
      using ns [OF that] by (simp add: normalize_def for_records_def rs split: option.split)
    have multi: "normalize_symbols_one_pass z bs symbols = (case err of None \<Rightarrow> finish_multi symbols mu | Some e \<Rightarrow> Inl e)"
      by (simp add: normalize_symbols_one_pass_def for_records_def rs Inr split: option.split)
    show ?thesis
    proof (cases err)
      case (Some e)
      then show ?thesis using s0 by (auto simp: multi single)
    next
      case None
      show ?thesis
      proof (cases "finish_multi symbols mu")
        case (Inl e)
        from finish_multi_Inl [OF this keys assms(2), of ns] ns show ?thesis by (auto simp: multi single None Inl)
      next
        case outs: (Inr outs)
        then show ?thesis using finish_multi_Inr [OF outs] ns finish_multi_keys [OF outs] keys
          by (auto simp: multi single None outs)
      qed
    qed
  qed
qed

theorem one_pass_equals_single_passes_witness:
  "case normalize_symbols_one_pass demo_normalizer (concat (map frame demo_messages)) [''AAPL'', ''MSFT''] of
    Inl e \<Rightarrow> False
  | Inr outs \<Rightarrow> (\<exists>out. dget outs ''AAPL'' = Some out \<and>
      normalize demo_normalizer (concat (map frame demo_messages)) ''AAPL'' = Inr out)"
proof -
  have q: "free_quota demo_normalizer" by (simp add: free_quota_def demo_normalizer_def)
  have l: "list_all (\<lambda>s. listed_first s (fst (iter_records (concat (map frame demo_messages))))) [''AAPL'', ''MSFT'']"
    by code_simp
  have d: "distinct [''AAPL'', ''MSFT'']" "[''AAPL'', ''MSFT''] \<noteq> []" by simp_all
  have "case normalize_symbols_one_pass demo_normalizer (concat (map frame demo_messages)) [''AAPL'', ''MSFT''] of
    Inl e \<Rightarrow> False | Inr outs \<Rightarrow> True" by code_simp
  then obtain outs where
    o: "normalize_symbols_one_pass demo_normalizer (concat (map frame demo_messages)) [''AAPL'', ''MSFT''] = Inr outs"
    by (auto split: sum.splits)
  have "\<forall>s\<in>set [''AAPL'', ''MSFT'']. \<exists>out. dget outs s = Some out \<and>
      normalize demo_normalizer (concat (map frame demo_messages)) s = Inr out"
    using one_pass_equals_single_passes [OF q d l] unfolding o sum.case by blast
  then show ?thesis unfolding o sum.case by (rule bspec) simp
qed

text \<open>Without that order the two differ: the single pass rejects a stream whose first book message comes before
  the directory entry of its symbol, the one pass accepts it.\<close>

theorem normalizers_disagree:
  "\<exists>bs. isl (normalize demo_normalizer bs ''AAPL'') \<and> \<not> isl (normalize_symbols_one_pass demo_normalizer bs [''AAPL''])"
proof -
  let ?bs = "concat (map frame [demo_directory 9 ''MSFT'', demo_add 9 6 101 (CHR ''S'') 50 ''MSFT'' 4000000,
    demo_payload (CHR ''R'') 7 6 (map byte_of_char ''AAPL'' @ replicate 24 32), demo_add 7 7 100 (CHR ''B'') 300 ''AAPL'' 1500000])"
  have "isl (normalize demo_normalizer ?bs ''AAPL'')" by code_simp
  moreover have "\<not> isl (normalize_symbols_one_pass demo_normalizer ?bs [''AAPL''])" by code_simp
  ultimately show ?thesis by blast
qed

end
