(* ===== verification/TickEvaluation.thy ===== *)
theory TickEvaluation
  imports CorpusGovernance EventLog
begin

text \<open>
  Scoring a detector against the ground truth of a run, \<open>backend/app/evaluation/ground_truth.py\<close>: the
  binary classification metrics, the timing and overlap of alert ticks with a labelled window, and the
  attribution of participants, orders and events. Metric dictionaries are payloads of JSON values; a
  label is a record of the keys the code reads, where a missing key is \<open>None\<close> or empty.
\<close>

section \<open>Ratios\<close>

text \<open>\<open>a / b\<close> on Python integers is the float nearest to the quotient.\<close>

definition true_div :: "int \<Rightarrow> int \<Rightarrow> rat" where
  "true_div a b = flit (of_int a / of_int b)"

text \<open>\<open>a / b if b else None\<close>\<close>

definition count_ratio :: "int \<Rightarrow> int \<Rightarrow> rat option" where
  "count_ratio a b = (if b \<noteq> 0 then Some (true_div a b) else None)"

definition rounded :: "rat option \<Rightarrow> rat option" where
  "rounded v = map_option (fround 4) v"

section \<open>Binary classification\<close>

definition f1_score :: "rat option \<Rightarrow> rat option \<Rightarrow> rat option" where
  "f1_score precision recall =
     (case (precision, recall) of
        (Some p, Some r) \<Rightarrow>
          if fadd p r \<noteq> 0 then Some (fdiv (fmul (fmul 2 p) r) (fadd p r))
          else if r = 0 then Some 0 else None
      | _ \<Rightarrow> if recall = Some 0 then Some 0 else None)"

definition binary_classification_metrics :: "int \<Rightarrow> int \<Rightarrow> int \<Rightarrow> int \<Rightarrow> py_error + payload" where
  "binary_classification_metrics tp fp fn tn =
     (if min (min tp fp) (min fn tn) < 0 then Inl (ValueError ''confusion-matrix counts must be non-negative'')
      else
        let precision = count_ratio tp (tp + fp); recall = count_ratio tp (tp + fn) in
        Inr [(''precision'', json_opt_float (rounded precision)),
             (''recall'', json_opt_float (rounded recall)),
             (''f1'', json_opt_float (rounded (f1_score precision recall))),
             (''specificity'', json_opt_float (rounded (count_ratio tn (tn + fp)))),
             (''false_positive_rate'', json_opt_float (rounded (count_ratio fp (fp + tn)))),
             (''true_positive'', JInt tp), (''false_positive'', JInt fp),
             (''false_negative'', JInt fn), (''true_negative'', JInt tn)])"

section \<open>Labels and their windows\<close>

record tick_bounds =
  tb_start_tick :: "int option"
  tb_end_tick :: "int option"

record truth_label =
  tl_manipulation_windows :: "tick_bounds list"
  tl_start_tick :: "int option"
  tl_actual_end_tick :: "int option"
  tl_expected_end_tick :: "int option"
  tl_agent_ids :: "string list"
  tl_order_ids :: "string list"
  tl_event_ids :: "string list"
  tl_phase_windows :: "(string \<times> tick_bounds) list"

definition bounds_of :: "tick_bounds \<Rightarrow> (int \<times> int) option" where
  "bounds_of v =
     (case (tb_start_tick v, tb_end_tick v) of
        (Some start, Some stop) \<Rightarrow> Some (start, max start stop)
      | _ \<Rightarrow> None)"

text \<open>\<open>a or b\<close> on optional integers: zero counts as missing.\<close>

definition int_or :: "int option \<Rightarrow> int option \<Rightarrow> int option" where
  "int_or a b = (if a = None \<or> a = Some 0 then b else a)"

definition label_bounds :: "truth_label \<Rightarrow> tick_bounds" where
  "label_bounds l = \<lparr>tb_start_tick = tl_start_tick l,
     tb_end_tick = int_or (tl_actual_end_tick l) (tl_expected_end_tick l)\<rparr>"

definition primary_window :: "truth_label \<Rightarrow> (int \<times> int) option" where
  "primary_window l =
     (case tl_manipulation_windows l of
        [] \<Rightarrow> bounds_of (label_bounds l)
      | w # _ \<Rightarrow> (case bounds_of w of None \<Rightarrow> bounds_of (label_bounds l) | Some b \<Rightarrow> Some b))"

section \<open>Detection\<close>

datatype detection_timing = FalsePositive | NotApplicable | Missed | Early | OnTime | Late

record detection_report =
  dn_temporal_overlap :: "rat option"
  dn_event_precision :: "rat option"
  dn_event_recall :: "rat option"
  dn_detection_timing :: detection_timing
  dn_participant_precision :: "rat option"
  dn_participant_recall :: "rat option"
  dn_order_precision :: "rat option"
  dn_order_recall :: "rat option"
  dn_phase_detection :: "(string \<times> bool) list"

text \<open>Sets of ticks and of ids come in as lists; their sizes count distinct members.\<close>

definition set_size :: "'a list \<Rightarrow> int" where
  "set_size xs = int (length (remdups xs))"

definition attribution :: "string list \<Rightarrow> string list \<Rightarrow> rat option \<times> rat option" where
  "attribution predicted truth =
     (if truth = [] then (None, None)
      else
        let matches = set_size (filter (\<lambda>x. x \<in> set truth) predicted) in
        (rounded (count_ratio matches (set_size predicted)), rounded (count_ratio matches (set_size truth))))"

definition window_ticks :: "int \<times> int \<Rightarrow> int list" where
  "window_ticks w = [fst w..snd w]"

definition timing_of :: "int option \<Rightarrow> (int \<times> int) option \<Rightarrow> detection_timing" where
  "timing_of first_alert window =
     (case first_alert of
        None \<Rightarrow> Missed
      | Some t \<Rightarrow> (case window of
            None \<Rightarrow> NotApplicable
          | Some w \<Rightarrow> if t < fst w then Early else if t \<le> snd w then OnTime else Late))"

definition phase_hits :: "int list \<Rightarrow> (string \<times> tick_bounds) list \<Rightarrow> (string \<times> bool) list" where
  "phase_hits alerts phases =
     List.map_filter (\<lambda>(phase, v). map_option (\<lambda>(start, stop). (phase, list_ex (\<lambda>t. start \<le> t \<and> t \<le> stop) alerts))
       (bounds_of v)) phases"

definition evaluate_detection ::
  "int list \<Rightarrow> truth_label option \<Rightarrow> string list \<Rightarrow> string list \<Rightarrow> string list \<Rightarrow> detection_report" where
  "evaluate_detection alert_ticks label participants orders events =
     (case label of
        None \<Rightarrow>
          \<lparr>dn_temporal_overlap = None, dn_event_precision = None, dn_event_recall = None,
           dn_detection_timing = (if alert_ticks \<noteq> [] then FalsePositive else NotApplicable),
           dn_participant_precision = None, dn_participant_recall = None,
           dn_order_precision = None, dn_order_recall = None, dn_phase_detection = []\<rparr>
      | Some l \<Rightarrow>
          let window = primary_window l;
              positive_ticks = (case window of None \<Rightarrow> [] | Some w \<Rightarrow> window_ticks w);
              overlapping = filter (\<lambda>t. t \<in> set positive_ticks) alert_ticks;
              p = attribution participants (tl_agent_ids l);
              orr = attribution orders (tl_order_ids l);
              e = attribution events (tl_event_ids l) in
          \<lparr>dn_temporal_overlap = rounded (count_ratio (set_size overlapping) (set_size (alert_ticks @ positive_ticks))),
           dn_event_precision = fst e, dn_event_recall = snd e,
           dn_detection_timing = timing_of (min_opt alert_ticks) window,
           dn_participant_precision = fst p, dn_participant_recall = snd p,
           dn_order_precision = fst orr, dn_order_recall = snd orr,
           dn_phase_detection = phase_hits alert_ticks (tl_phase_windows l)\<rparr>)"

section \<open>Evidence\<close>

text \<open>\<open>text.split(",")\<close>\<close>

fun split_on :: "char \<Rightarrow> string \<Rightarrow> string list" where
  "split_on c [] = [[]]"
| "split_on c (x # xs) =
     (if x = c then [] # split_on c xs
      else case split_on c xs of [] \<Rightarrow> [[x]] | s # ss \<Rightarrow> (x # s) # ss)"

text \<open>An evidence item is its key and the text of its value, empty when the value is missing.\<close>

definition evidence_ids :: "string \<Rightarrow> (string option \<times> string) list \<Rightarrow> string list" where
  "evidence_ids key evidence =
     remdups (filter (\<lambda>v. v \<noteq> [] \<and> v \<noteq> ''unavailable'')
       (concat (map (\<lambda>item. split_on (CHR '','') (snd item)) (filter (\<lambda>item. fst item = Some key) evidence))))"

definition evidence_attribution ::
  "(string option \<times> string) list \<Rightarrow> string list \<times> string list \<times> string list" where
  "evidence_attribution evidence =
     (evidence_ids ''linked_participant_ids'' evidence, evidence_ids ''linked_order_ids'' evidence,
      evidence_ids ''linked_event_ids'' evidence)"

end
