(* ===== verification/GovernedMetrics.thy ===== *)
theory GovernedMetrics
  imports TickEvaluation
begin

text \<open>
  Governed session metrics, \<open>backend/app/evaluation/governed_metrics.py\<close>: attack windows, verified clean
  windows and alerts of a session, the attribution of alerts to windows, alert clusters, the counts of a
  session and their aggregation over sessions.
\<close>

section \<open>Windows, alerts, session units\<close>

record attack_window =
  ak_campaign_id :: string
  ak_attack_family :: string
  ak_start_timestamp_ns :: int
  ak_end_timestamp_ns :: int
  ak_first_benefit_timestamp_ns :: "int option"

definition mk_attack_window :: "attack_window \<Rightarrow> py_error + attack_window" where
  "mk_attack_window w =
     (if ak_end_timestamp_ns w < ak_start_timestamp_ns w
      then Inl (ValueError ''attack window start must not exceed end'')
      else case ak_first_benefit_timestamp_ns w of
          None \<Rightarrow> Inr w
        | Some t \<Rightarrow>
            if t < ak_start_timestamp_ns w then Inl (ValueError ''realized benefit cannot precede attack start'')
            else Inr w)"

record clean_span =
  ck_window_id :: string
  ck_start_timestamp_ns :: int
  ck_end_timestamp_ns :: int

definition mk_clean_span :: "clean_span \<Rightarrow> py_error + clean_span" where
  "mk_clean_span w =
     (if ck_end_timestamp_ns w \<le> ck_start_timestamp_ns w
      then Inl (ValueError ''clean window start must be before end'') else Inr w)"

record alert_observation =
  ob_alert_id :: string
  ob_detector :: string
  ob_timestamp_ns :: int

definition mk_alert_observation :: "alert_observation \<Rightarrow> py_error + alert_observation" where
  "mk_alert_observation a =
     (if ob_alert_id a = [] \<or> ob_detector a = [] \<or> ob_timestamp_ns a < 0
      then Inl (ValueError ''alerts require an identity, detector, and non-negative timestamp'') else Inr a)"

definition governed_windows :: "attack_window list \<Rightarrow> clean_span list \<Rightarrow> (int \<times> int \<times> string) list" where
  "governed_windows attacks clean =
     map (\<lambda>w. (ak_start_timestamp_ns w, ak_end_timestamp_ns w, ''attack:'' @ ak_campaign_id w)) attacks @
     map (\<lambda>w. (ck_start_timestamp_ns w, ck_end_timestamp_ns w, ''clean:'' @ ck_window_id w)) clean"

fun touching_pair :: "(int \<times> int \<times> string) list \<Rightarrow> ((int \<times> int \<times> string) \<times> int \<times> int \<times> string) option" where
  "touching_pair (x # y # xs) = (if fst y \<le> fst (snd x) then Some (x, y) else touching_pair (y # xs))"
| "touching_pair xs = None"

definition validate_non_overlapping_windows :: "attack_window list \<Rightarrow> clean_span list \<Rightarrow> py_error + unit" where
  "validate_non_overlapping_windows attacks clean =
     (case touching_pair (sort (governed_windows attacks clean)) of
        None \<Rightarrow> Inr ()
      | Some (x, y) \<Rightarrow> Inl (ValueError (''governed evaluation windows overlap: '' @ snd (snd x) @ '' and '' @ snd (snd y))))"

record session_unit =
  gu_base_session_id :: string
  gu_instrument :: string
  gu_canonical_event_count :: int
  gu_evaluable_event_count :: int
  gu_attacks :: "attack_window list"
  gu_clean_windows :: "clean_span list"
  gu_alerts :: "alert_observation list"
  gu_regimes :: "(string, string) dict"

definition mk_session_unit :: "session_unit \<Rightarrow> py_error + session_unit" where
  "mk_session_unit u =
     (if gu_canonical_event_count u < 1 then Inl (ValueError ''session unit requires canonical events'')
      else if \<not> (0 \<le> gu_evaluable_event_count u \<and> gu_evaluable_event_count u \<le> gu_canonical_event_count u)
      then Inl (ValueError ''evaluable event count must be within the canonical session'')
      else try_bind (validate_non_overlapping_windows (gu_attacks u) (gu_clean_windows u)) (\<lambda>_. Inr u))"

section \<open>Attribution of alerts\<close>

text \<open>\<open>min(xs, key=f)\<close> is the first of the smallest elements.\<close>

fun min_by :: "('a \<Rightarrow> 'b::linorder) \<Rightarrow> 'a list \<Rightarrow> 'a option" where
  "min_by f [] = None"
| "min_by f (x # xs) = (case min_by f xs of None \<Rightarrow> Some x | Some y \<Rightarrow> if f y < f x then Some y else Some x)"

definition alert_order :: "alert_observation \<Rightarrow> int \<times> string \<times> string" where
  "alert_order a = (ob_timestamp_ns a, ob_detector a, ob_alert_id a)"

definition matching_attacks :: "int \<Rightarrow> session_unit \<Rightarrow> alert_observation \<Rightarrow> attack_window list" where
  "matching_attacks horizon u a =
     filter (\<lambda>w. ak_start_timestamp_ns w \<le> ob_timestamp_ns a \<and> ob_timestamp_ns a \<le> ak_end_timestamp_ns w + horizon)
       (gu_attacks u)"

definition attack_key :: "alert_observation \<Rightarrow> attack_window \<Rightarrow> int \<times> int \<times> string" where
  "attack_key a w = (\<bar>ob_timestamp_ns a - ak_start_timestamp_ns w\<bar>, ak_start_timestamp_ns w, ak_campaign_id w)"

definition matching_clean :: "session_unit \<Rightarrow> alert_observation \<Rightarrow> clean_span list" where
  "matching_clean u a =
     filter (\<lambda>w. ck_start_timestamp_ns w \<le> ob_timestamp_ns a \<and> ob_timestamp_ns a < ck_end_timestamp_ns w)
       (gu_clean_windows u)"

definition clean_key :: "clean_span \<Rightarrow> int \<times> string" where
  "clean_key w = (ck_start_timestamp_ns w, ck_window_id w)"

type_synonym alert_table = "(string, alert_observation list) dict"

definition empty_table :: "string list \<Rightarrow> alert_table" where
  "empty_table ids = foldl (\<lambda>d i. dset i [] d) [] ids"

definition note_alert :: "string \<Rightarrow> alert_observation \<Rightarrow> alert_table \<Rightarrow> alert_table" where
  "note_alert k a d = dset k (dget_or [] d k @ [a]) d"

definition match_alert ::
  "int \<Rightarrow> session_unit \<Rightarrow> alert_table \<times> alert_table \<Rightarrow> alert_observation \<Rightarrow> alert_table \<times> alert_table" where
  "match_alert horizon u t a =
     (case min_by (attack_key a) (matching_attacks horizon u a) of
        Some w \<Rightarrow> (note_alert (ak_campaign_id w) a (fst t), snd t)
      | None \<Rightarrow>
          (case min_by clean_key (matching_clean u a) of
             Some w \<Rightarrow> (fst t, note_alert (ck_window_id w) a (snd t))
           | None \<Rightarrow> t))"

definition match_alerts :: "int \<Rightarrow> session_unit \<Rightarrow> alert_table \<times> alert_table" where
  "match_alerts horizon u =
     foldl (match_alert horizon u)
       (empty_table (map ak_campaign_id (gu_attacks u)), empty_table (map ck_window_id (gu_clean_windows u)))
       (sort_key alert_order (gu_alerts u))"

section \<open>Clusters\<close>

definition cluster_order :: "alert_observation \<Rightarrow> string \<times> int \<times> string" where
  "cluster_order a = (ob_detector a, ob_timestamp_ns a, ob_alert_id a)"

definition cluster_step ::
  "int \<Rightarrow> alert_observation list list \<Rightarrow> alert_observation \<Rightarrow> alert_observation list list" where
  "cluster_step window_ns clusters a =
     (if clusters = [] \<or> ob_detector (last (last clusters)) \<noteq> ob_detector a \<or>
         window_ns < ob_timestamp_ns a - ob_timestamp_ns (last (last clusters))
      then clusters @ [[a]]
      else butlast clusters @ [last clusters @ [a]])"

definition cluster_alerts :: "alert_observation list \<Rightarrow> int \<Rightarrow> alert_observation list list" where
  "cluster_alerts alerts window_ns =
     sort_key (\<lambda>c. (ob_timestamp_ns (hd c), ob_detector (hd c)))
       (foldl (cluster_step window_ns) [] (sort_key cluster_order alerts))"

section \<open>The counts of a session\<close>

record session_components =
  sm_base_session_id :: string
  sm_instrument :: string
  sm_regimes :: "(string, string) dict"
  sm_true_positive :: int
  sm_false_positive :: int
  sm_false_negative :: int
  sm_true_negative :: int
  sm_evaluable_event_count :: int
  sm_raw_false_alert_count :: int
  sm_false_alert_cluster_count :: int
  sm_raw_evaluable_alert_count :: int
  sm_evaluable_alert_cluster_count :: int
  sm_benefit_eligible_attack_count :: int
  sm_detected_before_benefit_count :: int
  sm_detection_latencies_ns :: "int list"

record attack_tally =
  ta_detected :: int
  ta_benefit_eligible :: int
  ta_before_benefit :: int
  ta_latencies :: "int list"
  ta_clusters :: int
  ta_raw_alerts :: int

definition tally_attack :: "int \<Rightarrow> alert_table \<Rightarrow> attack_tally \<Rightarrow> attack_window \<Rightarrow> attack_tally" where
  "tally_attack window_ns attack_alerts t w =
     (let alerts = dget_or [] attack_alerts (ak_campaign_id w);
          clusters = cluster_alerts alerts window_ns;
          t1 = t\<lparr>ta_raw_alerts := ta_raw_alerts t + int (length alerts),
                 ta_clusters := ta_clusters t + int (length clusters)\<rparr>;
          first_alert_ns = ob_timestamp_ns (hd (hd clusters));
          t2 = (if clusters \<noteq> []
                then t1\<lparr>ta_detected := ta_detected t1 + 1,
                        ta_latencies := ta_latencies t1 @ [first_alert_ns - ak_start_timestamp_ns w]\<rparr>
                else t1)
      in case ak_first_benefit_timestamp_ns w of
           None \<Rightarrow> t2
         | Some benefit \<Rightarrow>
             t2\<lparr>ta_benefit_eligible := ta_benefit_eligible t2 + 1,
                ta_before_benefit := ta_before_benefit t2 +
                  (if clusters \<noteq> [] \<and> first_alert_ns \<le> benefit then 1 else 0)\<rparr>)"

record clean_tally =
  tc_false_positive_windows :: int
  tc_clusters :: int
  tc_raw_alerts :: int

definition tally_clean :: "int \<Rightarrow> alert_table \<Rightarrow> clean_tally \<Rightarrow> clean_span \<Rightarrow> clean_tally" where
  "tally_clean window_ns clean_alerts t w =
     (let alerts = dget_or [] clean_alerts (ck_window_id w);
          clusters = cluster_alerts alerts window_ns
      in \<lparr>tc_false_positive_windows = tc_false_positive_windows t + (if clusters \<noteq> [] then 1 else 0),
          tc_clusters = tc_clusters t + int (length clusters),
          tc_raw_alerts = tc_raw_alerts t + int (length alerts)\<rparr>)"

definition evaluate_governed_session :: "session_unit \<Rightarrow> int \<Rightarrow> int \<Rightarrow> py_error + session_components" where
  "evaluate_governed_session u dedup_ns horizon_ns =
     (if min dedup_ns horizon_ns < 0
      then Inl (ValueError ''alert matching and deduplication horizons must be non-negative'')
      else
        let tables = match_alerts horizon_ns u;
            ta = foldl (tally_attack dedup_ns (fst tables))
              \<lparr>ta_detected = 0, ta_benefit_eligible = 0, ta_before_benefit = 0, ta_latencies = [],
               ta_clusters = 0, ta_raw_alerts = 0\<rparr> (gu_attacks u);
            tc = foldl (tally_clean dedup_ns (snd tables))
              \<lparr>tc_false_positive_windows = 0, tc_clusters = 0, tc_raw_alerts = 0\<rparr> (gu_clean_windows u)
        in Inr
          \<lparr>sm_base_session_id = gu_base_session_id u, sm_instrument = gu_instrument u,
           sm_regimes = sort_key fst (gu_regimes u),
           sm_true_positive = ta_detected ta,
           sm_false_positive = tc_false_positive_windows tc,
           sm_false_negative = int (length (gu_attacks u)) - ta_detected ta,
           sm_true_negative = int (length (gu_clean_windows u)) - tc_false_positive_windows tc,
           sm_evaluable_event_count = gu_evaluable_event_count u,
           sm_raw_false_alert_count = tc_raw_alerts tc,
           sm_false_alert_cluster_count = tc_clusters tc,
           sm_raw_evaluable_alert_count = ta_raw_alerts ta + tc_raw_alerts tc,
           sm_evaluable_alert_cluster_count = ta_clusters ta + tc_clusters tc,
           sm_benefit_eligible_attack_count = ta_benefit_eligible ta,
           sm_detected_before_benefit_count = ta_before_benefit ta,
           sm_detection_latencies_ns = ta_latencies ta\<rparr>)"

section \<open>Aggregation\<close>

text \<open>The percentile of a sorted, non-empty list, by linear interpolation in floats.\<close>

definition percentile :: "rat list \<Rightarrow> rat \<Rightarrow> rat" where
  "percentile vs quantile =
     (let position = fmul (of_int (int (length vs) - 1)) quantile; lower = \<lfloor>position\<rfloor>; upper = \<lceil>position\<rceil> in
      if lower = upper then vs ! nat lower
      else
        let weight = fsub position (of_int lower) in
        fadd (fmul (vs ! nat lower) (fsub 1 weight)) (fmul (vs ! nat upper) weight))"

definition percentile_ns :: "int list \<Rightarrow> rat \<Rightarrow> rat" where
  "percentile_ns vs quantile = percentile (map (\<lambda>n. flit (of_int n)) vs) quantile"

definition latency_summary :: "int list \<Rightarrow> payload" where
  "latency_summary vs =
     (if vs = []
      then [(''count'', JInt 0), (''min'', JNull), (''mean'', JNull), (''p50'', JNull), (''p90'', JNull), (''max'', JNull)]
      else [(''count'', JInt (int (length vs))), (''min'', JInt (hd vs)),
            (''mean'', JFloat (true_div (sum_list vs) (int (length vs)))),
            (''p50'', JFloat (percentile_ns vs (1 / 2))), (''p90'', JFloat (percentile_ns vs (flit (9 / 10)))),
            (''max'', JInt (last vs))])"

definition rate_per_million :: "int \<Rightarrow> int \<Rightarrow> rat option" where
  "rate_per_million numerator denominator = map_option (fround 6) (count_ratio (numerator * 1000000) denominator)"

definition total :: "(session_components \<Rightarrow> int) \<Rightarrow> session_components list \<Rightarrow> int" where
  "total f cs = sum_list (map f cs)"

text \<open>The two dictionary lookups \<open>classification["recall"]\<close> copy the JSON value.\<close>

definition aggregate_governed_metrics :: "session_components list \<Rightarrow> py_error + payload" where
  "aggregate_governed_metrics cs =
     (if cs = [] then Inl (ValueError ''governed metric aggregation requires at least one session'')
      else
        let tp = total sm_true_positive cs; fp = total sm_false_positive cs;
            fn = total sm_false_negative cs; tn = total sm_true_negative cs in
        try_bind (binary_classification_metrics tp fp fn tn) (\<lambda>classification.
          let latencies = sort (concat (map sm_detection_latencies_ns cs));
              events = total sm_evaluable_event_count cs;
              raw_alerts = total sm_raw_evaluable_alert_count cs;
              clusters = total sm_evaluable_alert_cluster_count cs;
              eligible = total sm_benefit_eligible_attack_count cs;
              before = total sm_detected_before_benefit_count cs;
              false_clusters = total sm_false_alert_cluster_count cs;
              raw_false = total sm_raw_false_alert_count cs in
          Inr ([(''schema_version'', JStr ''governed_operational_metrics_v1'')] @ classification @
            [(''session_count'', JInt (int (length cs))),
             (''evaluable_event_count'', JInt events),
             (''attack_count'', JInt (tp + fn)),
             (''verified_clean_window_count'', JInt (fp + tn)),
             (''false_alert_cluster_count'', JInt false_clusters),
             (''raw_false_alert_count'', JInt raw_false),
             (''false_alerts_per_million_events'', json_opt_float (rate_per_million false_clusters events)),
             (''raw_false_alerts_per_million_events'', json_opt_float (rate_per_million raw_false events)),
             (''attack_level_recall'', pget classification ''recall''),
             (''benefit_eligible_attack_count'', JInt eligible),
             (''detected_before_benefit_count'', JInt before),
             (''detection_before_benefit_rate'', json_opt_float (map_option (fround 6) (count_ratio before eligible))),
             (''raw_evaluable_alert_count'', JInt raw_alerts),
             (''evaluable_alert_cluster_count'', JInt clusters),
             (''duplicate_alert_load'', json_opt_float (map_option (fround 6) (count_ratio raw_alerts clusters))),
             (''duplicate_alert_fraction'',
                json_opt_float (map_option (fround 6) (count_ratio (raw_alerts - clusters) raw_alerts))),
             (''detection_latency_ns'', JObj (latency_summary latencies))])))"

definition combine_session_components ::
  "session_components list \<Rightarrow> string \<Rightarrow> string \<Rightarrow> (string, string) dict \<Rightarrow> py_error + session_components" where
  "combine_session_components cs base_session_id instrument regimes =
     (if cs = [] then Inl (ValueError ''session component combination requires at least one replay'')
      else if \<not> list_all (\<lambda>c. sm_base_session_id c = base_session_id) cs
      then Inl (ValueError ''combined replay components must share one base session'')
      else Inr
        \<lparr>sm_base_session_id = base_session_id, sm_instrument = instrument, sm_regimes = sort_key fst regimes,
         sm_true_positive = total sm_true_positive cs,
         sm_false_positive = total sm_false_positive cs,
         sm_false_negative = total sm_false_negative cs,
         sm_true_negative = total sm_true_negative cs,
         sm_evaluable_event_count = total sm_evaluable_event_count cs,
         sm_raw_false_alert_count = total sm_raw_false_alert_count cs,
         sm_false_alert_cluster_count = total sm_false_alert_cluster_count cs,
         sm_raw_evaluable_alert_count = total sm_raw_evaluable_alert_count cs,
         sm_evaluable_alert_cluster_count = total sm_evaluable_alert_cluster_count cs,
         sm_benefit_eligible_attack_count = total sm_benefit_eligible_attack_count cs,
         sm_detected_before_benefit_count = total sm_detected_before_benefit_count cs,
         sm_detection_latencies_ns = concat (map sm_detection_latencies_ns cs)\<rparr>)"

end
