(* ===== verification/AlertClusters.thy ===== *)
theory AlertClusters
  imports GovernedMetrics
begin

text \<open>
  Alert clusters. The loop of \<open>cluster_alerts\<close> cuts the sorted alerts into runs of one detector whose
  neighbours are at most the deduplication window apart, and any two clusters of one detector are
  further apart than that, so the clusters do not depend on the order in which the alerts came.
\<close>

section \<open>Sorting by an injective key\<close>

lemma alert_order_inject [simp]: "alert_order a = alert_order b \<longleftrightarrow> a = b"
  by (cases a; cases b) (auto simp: alert_order_def)

lemma cluster_order_inject [simp]: "cluster_order a = cluster_order b \<longleftrightarrow> a = b"
  by (cases a; cases b) (auto simp: cluster_order_def)

lemma sort_key_same_mset:
  assumes "\<And>x y. f x = f y \<Longrightarrow> x = y" and "mset xs = mset ys"
  shows "sort_key f xs = sort_key f ys"
  using assms by (intro sort_key_inj_key_eq inj_onI) auto

lemma cluster_alerts_permuted: "mset xs = mset ys \<Longrightarrow> cluster_alerts xs w = cluster_alerts ys w"
proof -
  assume "mset xs = mset ys"
  then have "sort_key cluster_order xs = sort_key cluster_order ys" by (rule sort_key_same_mset [rotated]) simp
  then show ?thesis by (simp add: cluster_alerts_def)
qed

section \<open>What a list of clusters promises\<close>

definition chained :: "int \<Rightarrow> alert_observation \<Rightarrow> alert_observation \<Rightarrow> bool" where
  "chained w a b \<longleftrightarrow> ob_detector b = ob_detector a \<and> ob_timestamp_ns a \<le> ob_timestamp_ns b \<and>
     ob_timestamp_ns b - ob_timestamp_ns a \<le> w"

definition separated :: "int \<Rightarrow> alert_observation list \<Rightarrow> alert_observation list \<Rightarrow> bool" where
  "separated w c d \<longleftrightarrow> (\<forall>a\<in>set c. \<forall>b\<in>set d. ob_detector a = ob_detector b \<longrightarrow>
     w < ob_timestamp_ns b - ob_timestamp_ns a)"

definition clustering :: "int \<Rightarrow> alert_observation list list \<Rightarrow> bool" where
  "clustering w cs \<longleftrightarrow> list_all (\<lambda>c. c \<noteq> [] \<and> successively (chained w) c) cs \<and> sorted_wrt (separated w) cs"

lemma cluster_order_le:
  "cluster_order a \<le> cluster_order b \<Longrightarrow> ob_detector a = ob_detector b \<Longrightarrow> ob_timestamp_ns a \<le> ob_timestamp_ns b"
  by (auto simp: cluster_order_def less_eq_prod_def less_le)

lemma cluster_order_between:
  assumes "cluster_order a \<le> cluster_order b" and "cluster_order b \<le> cluster_order c" and "ob_detector a = ob_detector c"
  shows "ob_detector b = ob_detector a"
proof -
  have "ob_detector a \<le> ob_detector b" "ob_detector b \<le> ob_detector c"
    using assms(1,2) by (auto simp: cluster_order_def less_eq_prod_def less_le)
  with assms(3) show ?thesis by simp
qed

section \<open>The loop\<close>

lemma cluster_step_new:
  assumes "clustering w cs" and "sorted_wrt (\<lambda>a b. cluster_order a \<le> cluster_order b) (concat cs @ [a])"
    and "cs \<noteq> [] \<Longrightarrow> ob_detector (last (last cs)) \<noteq> ob_detector a \<or> w < ob_timestamp_ns a - ob_timestamp_ns (last (last cs))"
  shows "clustering w (cs @ [[a]])"
proof -
  have "separated w c [a]" if c: "c \<in> set cs" for c
    unfolding separated_def
  proof (intro ballI impI)
    fix x b
    assume x: "x \<in> set c" and "b \<in> set [a]" and d: "ob_detector x = ob_detector b"
    then have b: "b = a" by simp
    let ?l = "last (last cs)"
    have cs: "cs \<noteq> []" using c by auto
    have ne: "last cs \<noteq> []" using assms(1) cs by (simp add: clustering_def list_all_iff)
    have whole: "concat cs \<noteq> []" "last (concat cs) = ?l"
      using cs ne by (cases cs rule: rev_cases; simp)+
    have s: "sorted_wrt (\<lambda>a b. cluster_order a \<le> cluster_order b) (concat cs)" "cluster_order ?l \<le> cluster_order a"
      using assms(2) whole last_in_set [OF whole(1)] by (auto simp: sorted_wrt_append)
    have "x \<in> set (concat cs)" using c x by auto
    then have xl: "cluster_order x \<le> cluster_order ?l"
      using s(1) whole by (cases "concat cs" rule: rev_cases) (auto simp: sorted_wrt_append)
    have "ob_detector ?l = ob_detector x" by (rule cluster_order_between [OF xl s(2)]) (simp add: d b)
    then have "w < ob_timestamp_ns a - ob_timestamp_ns ?l" "ob_timestamp_ns x \<le> ob_timestamp_ns ?l"
      using assms(3) [OF cs] d b cluster_order_le [OF xl] by auto
    then show "w < ob_timestamp_ns b - ob_timestamp_ns x" unfolding b by linarith
  qed
  with assms(1) show ?thesis by (auto simp: clustering_def list_all_iff sorted_wrt_append)
qed

lemma cluster_step_join:
  assumes "clustering w (cs @ [c])" and "cluster_order (last c) \<le> cluster_order a"
    and "ob_detector (last c) = ob_detector a" and "ob_timestamp_ns a - ob_timestamp_ns (last c) \<le> w"
  shows "clustering w (cs @ [c @ [a]])"
proof -
  have c: "c \<noteq> []" "successively (chained w) c" "\<forall>d\<in>set cs. separated w d c"
    using assms(1) by (auto simp: clustering_def sorted_wrt_append)
  have le: "ob_timestamp_ns (last c) \<le> ob_timestamp_ns a" by (rule cluster_order_le [OF assms(2,3)])
  have "successively (chained w) (c @ [a])"
    using c assms(3,4) le by (simp add: successively_append_iff chained_def)
  moreover have "separated w d (c @ [a])" if "d \<in> set cs" for d
  proof -
    have "w < ob_timestamp_ns a - ob_timestamp_ns x" if "x \<in> set d" "ob_detector x = ob_detector a" for x
    proof -
      have "w < ob_timestamp_ns (last c) - ob_timestamp_ns x"
        using c \<open>d \<in> set cs\<close> that assms(3) by (auto simp: separated_def)
      then show ?thesis using le by linarith
    qed
    then show ?thesis using c(3) \<open>d \<in> set cs\<close> by (auto simp: separated_def)
  qed
  ultimately show ?thesis using assms(1) by (auto simp: clustering_def sorted_wrt_append)
qed

lemma cluster_loop:
  "sorted_wrt (\<lambda>a b. cluster_order a \<le> cluster_order b) as \<Longrightarrow>
     concat (foldl (cluster_step w) [] as) = as \<and> clustering w (foldl (cluster_step w) [] as)"
proof (induction as rule: rev_induct)
  case Nil
  then show ?case by (simp add: clustering_def)
next
  case (snoc a as)
  define cs where "cs = foldl (cluster_step w) [] as"
  have IH: "concat cs = as" "clustering w cs" using snoc by (auto simp: sorted_wrt_append cs_def)
  have "concat (cluster_step w cs a) = as @ [a] \<and> clustering w (cluster_step w cs a)"
  proof (cases "cs = [] \<or> ob_detector (last (last cs)) \<noteq> ob_detector a \<or>
      w < ob_timestamp_ns a - ob_timestamp_ns (last (last cs))")
    case True
    then have step: "cluster_step w cs a = cs @ [[a]]" by (simp add: cluster_step_def)
    have "clustering w (cs @ [[a]])"
      by (rule cluster_step_new [OF IH(2)]) (use IH(1) snoc.prems True in blast)+
    with IH(1) show ?thesis by (simp add: step)
  next
    case False
    then obtain ds c where cs: "cs = ds @ [c]" by (cases cs rule: rev_cases) auto
    have ne: "c \<noteq> []" using IH(2) by (simp add: cs clustering_def)
    have "last c \<in> set as" unfolding IH(1) [symmetric] cs using ne by simp
    then have le: "cluster_order (last c) \<le> cluster_order a" using snoc.prems by (simp add: sorted_wrt_append)
    have step: "cluster_step w cs a = ds @ [c @ [a]]" using False by (simp add: cluster_step_def cs)
    have "clustering w (ds @ [c @ [a]])"
      by (rule cluster_step_join [OF IH(2) [unfolded cs] le]) (use False in \<open>auto simp: cs\<close>)
    then show ?thesis unfolding step using IH(1) by (simp add: cs)
  qed
  then show ?case by (simp add: cs_def)
qed

section \<open>The clusters in order of their first alert\<close>

lemma separated_irrefl: "0 \<le> w \<Longrightarrow> c \<noteq> [] \<Longrightarrow> \<not> separated w c c"
  by (cases c) (auto simp: separated_def)

lemma sorted_wrt_pairs: "sorted_wrt R xs \<Longrightarrow> x \<in> set xs \<Longrightarrow> y \<in> set xs \<Longrightarrow> x = y \<or> R x y \<or> R y x"
  by (induction xs) auto

lemma sorted_wrt_strengthen:
  "(\<And>x y. x \<in> set xs \<Longrightarrow> y \<in> set xs \<Longrightarrow> x \<noteq> y \<Longrightarrow> R x y \<Longrightarrow> Q x y) \<Longrightarrow>
     sorted_wrt R xs \<Longrightarrow> distinct xs \<Longrightarrow> sorted_wrt Q xs"
  by (induction xs) auto

lemma clusters_distinct: "0 \<le> w \<Longrightarrow> clustering w cs \<Longrightarrow> distinct cs"
proof (induction cs)
  case (Cons c cs)
  then show ?case using separated_irrefl [of w c] by (auto simp: clustering_def)
qed simp

lemma separated_by_first:
  assumes "0 \<le> w" and "c \<noteq> []" and "d \<noteq> []" and "separated w d c"
    and "(ob_timestamp_ns (hd c), ob_detector (hd c)) \<le> (ob_timestamp_ns (hd d), ob_detector (hd d))"
    and "successively (chained w) c" and "successively (chained w) d"
  shows "separated w c d"
proof -
  have one: "ob_detector x = ob_detector (hd e)" if "successively (chained w) e" "x \<in> set e" for e x
    using that
  proof (induction e rule: induct_list012)
    case (3 a b e)
    then show ?case by (auto simp: chained_def)
  qed auto
  have "ob_detector (hd c) \<noteq> ob_detector (hd d)"
  proof
    assume "ob_detector (hd c) = ob_detector (hd d)"
    then have "w < ob_timestamp_ns (hd c) - ob_timestamp_ns (hd d)"
      using assms(2-4) by (auto simp: separated_def)
    with assms(1,5) show False by (auto simp: less_eq_prod_def)
  qed
  then show ?thesis using one [OF assms(6)] one [OF assms(7)] by (auto simp: separated_def)
qed

definition first_key :: "alert_observation list \<Rightarrow> int \<times> string" where
  "first_key c = (ob_timestamp_ns (hd c), ob_detector (hd c))"

lemma clustering_sorted:
  assumes "0 \<le> w" and "clustering w cs"
  shows "clustering w (sort_key first_key cs)"
proof -
  have all: "\<forall>c\<in>set cs. c \<noteq> [] \<and> successively (chained w) c" and s: "sorted_wrt (separated w) cs"
    using assms(2) by (auto simp: clustering_def list_all_iff)
  have sep: "separated w c d" if "c \<in> set cs" "d \<in> set cs" "c \<noteq> d" "first_key c \<le> first_key d" for c d
    using sorted_wrt_pairs [OF s that(1,2)] that all separated_by_first [OF assms(1), of c d]
    by (auto simp: first_key_def)
  have "sorted (map first_key (sort_key first_key cs))" by (rule sorted_sort_key)
  then have "sorted_wrt (\<lambda>c d. first_key c \<le> first_key d) (sort_key first_key cs)" by (simp only: sorted_map)
  then have "sorted_wrt (separated w) (sort_key first_key cs)"
    using clusters_distinct [OF assms] by (intro sorted_wrt_strengthen [OF sep]) auto
  with all show ?thesis by (auto simp: clustering_def list_all_iff)
qed

lemma cluster_alerts_first_key:
  "cluster_alerts alerts w = sort_key first_key (foldl (cluster_step w) [] (sort_key cluster_order alerts))"
  by (simp add: cluster_alerts_def first_key_def [abs_def])

lemma clustering_of_alerts:
  assumes "0 \<le> w"
  shows "mset (concat (cluster_alerts alerts w)) = mset alerts \<and> clustering w (cluster_alerts alerts w)"
proof -
  let ?cs = "foldl (cluster_step w) [] (sort_key cluster_order alerts)"
  have "sorted_wrt (\<lambda>a b. cluster_order a \<le> cluster_order b) (sort_key cluster_order alerts)"
    using sorted_sort_key [of cluster_order alerts] by (simp only: sorted_map)
  from cluster_loop [OF this] have c: "concat ?cs = sort_key cluster_order alerts" "clustering w ?cs" by auto
  have "mset (concat (cluster_alerts alerts w)) = mset (concat ?cs)"
    unfolding cluster_alerts_first_key mset_concat by (simp flip: sum_mset_sum_list)
  then have "mset (concat (cluster_alerts alerts w)) = mset alerts" by (simp add: c(1))
  with clustering_sorted [OF assms c(2)] show ?thesis by (simp add: cluster_alerts_first_key)
qed

section \<open>The property\<close>

text \<open>C37. The clusters hold the alerts, each as often as it was raised, in the order of their first alerts.
  Within a cluster neighbours are alerts of one detector at most the deduplication window apart; alerts of
  one detector in an earlier and a later cluster are more than the window apart.\<close>

theorem alert_clusters_exact:
  assumes "0 \<le> w"
  shows "mset (concat (cluster_alerts alerts w)) = mset alerts \<and>
    sorted (map first_key (cluster_alerts alerts w)) \<and>
    list_all (\<lambda>c. c \<noteq> [] \<and> successively (chained w) c) (cluster_alerts alerts w) \<and>
    sorted_wrt (separated w) (cluster_alerts alerts w)"
  using clustering_of_alerts [OF assms, of alerts] sorted_sort_key [of first_key]
  by (simp add: clustering_def cluster_alerts_first_key)

definition sample_alert :: "string \<Rightarrow> string \<Rightarrow> int \<Rightarrow> alert_observation" where
  "sample_alert i d t = \<lparr>ob_alert_id = i, ob_detector = d, ob_timestamp_ns = t\<rparr>"

definition sample_alerts :: "alert_observation list" where
  "sample_alerts = [sample_alert ''a'' ''x'' 100, sample_alert ''b'' ''y'' 105, sample_alert ''c'' ''x'' 130,
     sample_alert ''d'' ''x'' 161]"

theorem alert_clusters_exact_witness:
  "map (map ob_alert_id) (cluster_alerts sample_alerts 30) = [[''a'', ''c''], [''b''], [''d'']] \<and>
   mset (concat (cluster_alerts sample_alerts 30)) = mset sample_alerts \<and>
   sorted_wrt (separated 30) (cluster_alerts sample_alerts 30)"
proof -
  have "map (map ob_alert_id) (cluster_alerts sample_alerts 30) = [[''a'', ''c''], [''b''], [''d'']]" by code_simp
  with alert_clusters_exact [of 30 sample_alerts] show ?thesis by simp
qed

end
