(* ===== verification/SessionAccounting.thy ===== *)
theory SessionAccounting
  imports AlertClusters
begin

text \<open>
  What the counts of a governed session mean. Every alert is attributed to at most one window, the
  tables of the loop hold exactly the alerts attributed to each window, and the counts are those of the
  windows that were hit and of the alerts that fell in some window.
\<close>

section \<open>The smallest element\<close>

lemma min_by_None [simp]: "min_by f xs = None \<longleftrightarrow> xs = []"
  by (cases xs) (auto split: option.splits)

lemma min_by_Some: "min_by f xs = Some m \<Longrightarrow> m \<in> set xs \<and> (\<forall>x\<in>set xs. f m \<le> f x)"
proof (induction xs arbitrary: m)
  case (Cons x xs)
  then show ?case by (fastforce split: option.splits if_splits)
qed simp

section \<open>Attribution\<close>

definition attacker :: "int \<Rightarrow> session_unit \<Rightarrow> alert_observation \<Rightarrow> attack_window option" where
  "attacker h u a = min_by (attack_key a) (matching_attacks h u a)"

definition clean_hit :: "int \<Rightarrow> session_unit \<Rightarrow> alert_observation \<Rightarrow> clean_span option" where
  "clean_hit h u a = (if matching_attacks h u a = [] then min_by clean_key (matching_clean u a) else None)"

definition attack_hits :: "int \<Rightarrow> session_unit \<Rightarrow> attack_window \<Rightarrow> alert_observation list" where
  "attack_hits h u w = filter (\<lambda>a. attacker h u a = Some w) (gu_alerts u)"

definition clean_hits :: "int \<Rightarrow> session_unit \<Rightarrow> clean_span \<Rightarrow> alert_observation list" where
  "clean_hits h u w = filter (\<lambda>a. clean_hit h u a = Some w) (gu_alerts u)"

lemma attacker_mem: "attacker h u a = Some w \<Longrightarrow> w \<in> set (gu_attacks u)"
  unfolding attacker_def by (drule min_by_Some) (simp add: matching_attacks_def)

lemma clean_hit_mem: "clean_hit h u a = Some w \<Longrightarrow> w \<in> set (gu_clean_windows u)"
  unfolding clean_hit_def by (auto simp: matching_clean_def dest: min_by_Some split: if_splits)

lemma attacker_None: "attacker h u a = None \<longleftrightarrow> matching_attacks h u a = []"
  by (simp add: attacker_def)

lemma clean_hit_Some: "(\<exists>w. clean_hit h u a = Some w) \<longleftrightarrow> matching_attacks h u a = [] \<and> matching_clean u a \<noteq> []"
  by (auto simp: clean_hit_def simp flip: not_None_eq)

lemma match_alert_attacker:
  "match_alert h u t a =
     (case attacker h u a of
        Some w \<Rightarrow> (note_alert (ak_campaign_id w) a (fst t), snd t)
      | None \<Rightarrow> (case clean_hit h u a of
            Some w \<Rightarrow> (fst t, note_alert (ck_window_id w) a (snd t)) | None \<Rightarrow> t))"
  by (auto simp: match_alert_def attacker_def clean_hit_def split: option.splits)

section \<open>The tables\<close>

lemma dget_or_note [simp]:
  "dget_or [] (note_alert k a d) k' = (if k' = k then dget_or [] d k @ [a] else dget_or [] d k')"
  by (simp add: note_alert_def dget_or_def dict_laws)

lemma dget_or_empty [simp]: "dget_or [] (empty_table ids) k = []"
proof -
  have "dget_or [] (foldl (\<lambda>d i. dset i [] d) d ids) k = []" if "dget_or [] d k = []" for d :: alert_table
    using that by (induction ids arbitrary: d) (simp_all add: dget_or_def dict_laws)
  from this [of "[]"] show ?thesis by (simp add: empty_table_def dget_or_def)
qed

lemma match_loop:
  "dget_or [] (fst (foldl (match_alert h u) t as)) k =
     dget_or [] (fst t) k @ filter (\<lambda>a. map_option ak_campaign_id (attacker h u a) = Some k) as \<and>
   dget_or [] (snd (foldl (match_alert h u) t as)) k =
     dget_or [] (snd t) k @ filter (\<lambda>a. map_option ck_window_id (clean_hit h u a) = Some k) as"
proof (induction as arbitrary: t)
  case (Cons a as)
  have "attacker h u a \<noteq> None \<Longrightarrow> clean_hit h u a = None"
    by (auto simp: attacker_None clean_hit_def)
  moreover note match_alert_attacker [of h u t a]
  ultimately show ?case
    by (cases "attacker h u a"; cases "clean_hit h u a") (auto simp: Cons.IH)
qed simp

lemma map_option_key:
  assumes "distinct (map key ws)" and "w \<in> set ws" and "\<And>v. x = Some v \<Longrightarrow> v \<in> set ws"
  shows "map_option key x = Some (key w) \<longleftrightarrow> x = Some w"
  using assms by (cases x) (auto simp: distinct_map inj_on_def)

lemma attack_table:
  assumes "distinct (map ak_campaign_id (gu_attacks u))"
  shows "\<forall>w\<in>set (gu_attacks u). dget_or [] (fst (match_alerts h u)) (ak_campaign_id w) =
    filter (\<lambda>a. attacker h u a = Some w) (sort_key alert_order (gu_alerts u))"
  using map_option_key [OF assms _ attacker_mem] unfolding match_alerts_def by (simp add: match_loop)

lemma clean_table:
  assumes "distinct (map ck_window_id (gu_clean_windows u))"
  shows "\<forall>w\<in>set (gu_clean_windows u). dget_or [] (snd (match_alerts h u)) (ck_window_id w) =
    filter (\<lambda>a. clean_hit h u a = Some w) (sort_key alert_order (gu_alerts u))"
  using map_option_key [OF assms _ clean_hit_mem] unfolding match_alerts_def by (simp add: match_loop)

lemma hits_sorted:
  "mset (filter P (sort_key alert_order as)) = mset (filter P as)"
  by (simp add: mset_filter)

section \<open>Clusters of the hits\<close>

lemma sort_key_Nil_iff: "sort_key f xs = [] \<longleftrightarrow> xs = []"
  by (simp flip: length_0_conv)

lemma cluster_alerts_Nil [simp]: "cluster_alerts as w = [] \<longleftrightarrow> as = []"
proof -
  have "foldl (cluster_step w) [] bs = [] \<longleftrightarrow> bs = []" for bs
    by (cases bs rule: rev_cases) (auto simp: cluster_step_def)
  then show ?thesis by (simp only: cluster_alerts_def sort_key_Nil_iff)
qed

lemma cluster_count_le: "length (cluster_alerts as w) \<le> length as"
proof -
  have "length (foldl (cluster_step w) [] bs) \<le> length bs" for bs
    by (induction bs rule: rev_induct) (auto simp: cluster_step_def)
  from this [of "sort_key cluster_order as"] show ?thesis by (simp add: cluster_alerts_def)
qed

lemma first_cluster_alert:
  assumes "0 \<le> w" and "as \<noteq> []"
  shows "ob_timestamp_ns (hd (hd (cluster_alerts as w))) = Min (ob_timestamp_ns ` set as)"
proof -
  let ?cs = "cluster_alerts as w"
  have cl: "mset (concat ?cs) = mset as" "clustering w ?cs" using clustering_of_alerts [OF assms(1)] by auto
  have set: "set (concat ?cs) = set as" using mset_eq_setD [OF cl(1)] .
  obtain c cs where cs: "?cs = c # cs" using assms(2) cluster_alerts_Nil [of as w] by (cases ?cs) auto
  have c: "c \<noteq> []" using cl(2) by (simp add: cs clustering_def)
  have le: "ob_timestamp_ns (hd d) \<le> ob_timestamp_ns x" if "successively (chained w) d" "x \<in> set d" for d x
    using that
  proof (induction d rule: induct_list012)
    case (3 a b d)
    then show ?case by (auto simp: chained_def)
  qed auto
  have "sorted (map first_key ?cs)" unfolding cluster_alerts_first_key by (rule sorted_sort_key)
  then have first: "ob_timestamp_ns (hd c) \<le> ob_timestamp_ns (hd d)" if "d \<in> set ?cs" for d
    using that by (auto simp: cs first_key_def less_eq_prod_def)
  have "ob_timestamp_ns (hd c) \<le> ob_timestamp_ns x" if x: "x \<in> set as" for x
  proof -
    obtain d where d: "d \<in> set ?cs" "x \<in> set d" using x unfolding set [symmetric] set_concat by blast
    have "successively (chained w) d" using cl(2) d(1) by (simp add: clustering_def list_all_iff)
    from le [OF this d(2)] first [OF d(1)] show ?thesis by linarith
  qed
  moreover have "hd c \<in> set as" unfolding set [symmetric] using c by (auto simp: cs)
  ultimately have "Min (ob_timestamp_ns ` set as) = ob_timestamp_ns (hd c)" by (intro Min_eqI) auto
  then show ?thesis by (simp add: cs)
qed

section \<open>Totals over the windows\<close>

text \<open>Each alert is counted at the one window it is attributed to.\<close>

lemma sum_over_windows:
  assumes "distinct ws" and "\<And>a w. a \<in> set as \<Longrightarrow> f a = Some w \<Longrightarrow> w \<in> set ws"
  shows "(\<Sum>w\<leftarrow>ws. int (length (filter (\<lambda>a. f a = Some w) as))) = int (length (filter (\<lambda>a. f a \<noteq> None) as))"
  using assms(2)
proof (induction as)
  case (Cons a as)
  have one: "(\<Sum>w\<leftarrow>ws. if f a = Some w then 1 else 0 :: int) = (if f a \<noteq> None then 1 else 0)"
  proof (cases "f a")
    case (Some v)
    have "(\<Sum>w\<leftarrow>ws. if v = w then 1 else 0 :: int) = (\<Sum>w\<in>set ws. if v = w then 1 else 0)"
      using assms(1) by (simp add: sum_list_distinct_conv_sum_set)
    also have "\<dots> = 1" using Cons.prems [of a v] Some by simp
    finally show ?thesis by (simp add: Some)
  qed simp
  have "(\<Sum>w\<leftarrow>vs. int (length (filter (\<lambda>a. f a = Some w) (a # as)))) =
      (\<Sum>w\<leftarrow>vs. if f a = Some w then 1 else 0) + (\<Sum>w\<leftarrow>vs. int (length (filter (\<lambda>a. f a = Some w) as)))" for vs
    by (induction vs) auto
  note this [of ws]
  moreover have "(\<Sum>w\<leftarrow>ws. int (length (filter (\<lambda>a. f a = Some w) as))) = int (length (filter (\<lambda>a. f a \<noteq> None) as))"
    using Cons.prems by (intro Cons.IH) auto
  ultimately show ?case unfolding one by simp
qed (simp add: sum_list_triv)

text \<open>Closed forms of the two loops, for tables given as functions of the window.\<close>

definition hit_latency :: "attack_window \<Rightarrow> alert_observation list \<Rightarrow> int" where
  "hit_latency w as = Min (ob_timestamp_ns ` set as) - ak_start_timestamp_ns w"

definition hit_before_benefit :: "attack_window \<Rightarrow> alert_observation list \<Rightarrow> bool" where
  "hit_before_benefit w as \<longleftrightarrow> (case ak_first_benefit_timestamp_ns w of None \<Rightarrow> False
     | Some t \<Rightarrow> list_ex (\<lambda>a. ob_timestamp_ns a \<le> t) as)"

lemma Min_le_ex: "as \<noteq> [] \<Longrightarrow> Min (f ` set as) \<le> (t::int) \<longleftrightarrow> list_ex (\<lambda>a. f a \<le> t) as"
  by (subst Min_le_iff) (auto simp: list_ex_iff)

lemma tally_attack_closed:
  assumes "0 \<le> dw" and "\<forall>w\<in>set ws. dget_or [] d (ak_campaign_id w) = g w"
  shows "foldl (tally_attack dw d) t ws =
    t\<lparr>ta_detected := ta_detected t + int (length (filter (\<lambda>w. g w \<noteq> []) ws)),
      ta_benefit_eligible := ta_benefit_eligible t + int (length (filter (\<lambda>w. ak_first_benefit_timestamp_ns w \<noteq> None) ws)),
      ta_before_benefit := ta_before_benefit t + int (length (filter (\<lambda>w. hit_before_benefit w (g w)) ws)),
      ta_latencies := ta_latencies t @ map (\<lambda>w. hit_latency w (g w)) (filter (\<lambda>w. g w \<noteq> []) ws),
      ta_clusters := ta_clusters t + (\<Sum>w\<leftarrow>ws. int (length (cluster_alerts (g w) dw))),
      ta_raw_alerts := ta_raw_alerts t + (\<Sum>w\<leftarrow>ws. int (length (g w)))\<rparr>"
  using assms(2)
proof (induction ws arbitrary: t)
  case (Cons w ws)
  have g: "dget_or [] d (ak_campaign_id w) = g w" using Cons.prems by simp
  have step: "tally_attack dw d t w =
    t\<lparr>ta_detected := ta_detected t + (if g w \<noteq> [] then 1 else 0),
      ta_benefit_eligible := ta_benefit_eligible t + (if ak_first_benefit_timestamp_ns w \<noteq> None then 1 else 0),
      ta_before_benefit := ta_before_benefit t + (if hit_before_benefit w (g w) then 1 else 0),
      ta_latencies := ta_latencies t @ (if g w \<noteq> [] then [hit_latency w (g w)] else []),
      ta_clusters := ta_clusters t + int (length (cluster_alerts (g w) dw)),
      ta_raw_alerts := ta_raw_alerts t + int (length (g w))\<rparr>"
    by (cases "g w = []"; cases "ak_first_benefit_timestamp_ns w")
      (simp_all add: tally_attack_def g Let_def hit_latency_def hit_before_benefit_def first_cluster_alert [OF assms(1)]
        Min_le_ex)
  show ?case using Cons.prems by (simp add: Cons.IH step)
qed simp

lemma tally_clean_closed:
  assumes "\<forall>w\<in>set ws. dget_or [] d (ck_window_id w) = g w"
  shows "foldl (tally_clean dw d) t ws =
    \<lparr>tc_false_positive_windows = tc_false_positive_windows t + int (length (filter (\<lambda>w. g w \<noteq> []) ws)),
     tc_clusters = tc_clusters t + (\<Sum>w\<leftarrow>ws. int (length (cluster_alerts (g w) dw))),
     tc_raw_alerts = tc_raw_alerts t + (\<Sum>w\<leftarrow>ws. int (length (g w)))\<rparr>"
  using assms
proof (induction ws arbitrary: t)
  case (Cons w ws)
  have "dget_or [] d (ck_window_id w) = g w" using Cons.prems by simp
  with Cons show ?case by (simp add: tally_clean_def Let_def)
qed simp

end
