(* ===== verification/GovernedProps.thy ===== *)
theory GovernedProps
  imports SessionAccounting LabelAdjudication
begin

text \<open>
  Properties of governed session metrics: what the counts mean, where an alert is attributed, that
  combining replays before aggregation changes nothing, and the range of the rates.
\<close>

section \<open>Accepted units\<close>

lemma touching_None: "touching_pair ws = None \<longleftrightarrow> successively (\<lambda>x y. fst (snd x) < fst y) ws"
  by (induction ws rule: touching_pair.induct) auto

definition windows_valid :: "session_unit \<Rightarrow> bool" where
  "windows_valid u \<longleftrightarrow> list_all (\<lambda>w. mk_attack_window w = Inr w) (gu_attacks u) \<and>
     list_all (\<lambda>w. mk_clean_span w = Inr w) (gu_clean_windows u)"

lemma mk_attack_window_Inr: "mk_attack_window w = Inr v \<Longrightarrow> ak_start_timestamp_ns w \<le> ak_end_timestamp_ns w"
  by (simp add: mk_attack_window_def split: if_splits)

lemma mk_clean_span_Inr: "mk_clean_span w = Inr v \<longleftrightarrow> v = w \<and> ck_start_timestamp_ns w < ck_end_timestamp_ns w"
  by (auto simp: mk_clean_span_def)

lemma windows_valid_spans:
  assumes "windows_valid u" and "x \<in> set (governed_windows (gu_attacks u) (gu_clean_windows u))"
  shows "fst x \<le> fst (snd x)"
  using assms by (force simp: windows_valid_def governed_windows_def list_all_iff mk_clean_span_Inr
      dest: mk_attack_window_Inr)

lemma successively_apart:
  "successively (\<lambda>x y. fst (snd x) < fst y) ws \<Longrightarrow> \<forall>x\<in>set ws. fst x \<le> fst (snd x) \<Longrightarrow>
     sorted_wrt (\<lambda>x y :: int \<times> int \<times> string. fst (snd x) < fst y) ws"
proof (induction ws rule: induct_list012)
  case (3 x y ws)
  then have "fst (snd x) < fst y" "fst y \<le> fst (snd y)" "sorted_wrt (\<lambda>x y. fst (snd x) < fst y) (y # ws)" by auto
  then show ?case by fastforce
qed auto

lemma accepted_windows_apart:
  assumes "mk_session_unit u = Inr v" and "windows_valid u"
  shows "sorted_wrt (\<lambda>x y. fst (snd x) < fst y) (sort (governed_windows (gu_attacks u) (gu_clean_windows u)))"
proof (rule successively_apart)
  show "successively (\<lambda>x y. fst (snd x) < fst y) (sort (governed_windows (gu_attacks u) (gu_clean_windows u)))"
    using assms(1) unfolding touching_None [symmetric]
    by (auto simp: mk_session_unit_def validate_non_overlapping_windows_def try_bind_Inr split: if_splits option.splits)
qed (use windows_valid_spans [OF assms(2)] in auto)

lemma attack_starts_distinct:
  assumes "mk_session_unit u = Inr v" and "windows_valid u"
  shows "distinct (map ak_start_timestamp_ns (gu_attacks u))"
proof -
  let ?gs = "governed_windows (gu_attacks u) (gu_clean_windows u)"
  have v: "\<forall>x\<in>set (sort ?gs). fst x \<le> fst (snd x)" using windows_valid_spans [OF assms(2)] by simp
  have "sorted_wrt (\<lambda>x y. fst x < fst y) (sort ?gs)"
    by (rule sorted_wrt_mono_rel [OF _ accepted_windows_apart [OF assms]]) (use v in fastforce)
  then have "distinct (map fst (sort ?gs))"
    by (simp add: sorted_wrt_map [symmetric] strict_sorted_iff del: sort_key_simps)
  then have "distinct (map fst ?gs)"
    by (metis (no_types, lifting) mset_map mset_sort mset_eq_imp_distinct_iff)
  then show ?thesis by (simp add: governed_windows_def comp_def)
qed

section \<open>The properties\<close>

lemma attack_hits_sorted:
  fixes u h w
  defines "s \<equiv> filter (\<lambda>a. attacker h u a = Some w) (sort_key alert_order (gu_alerts u))"
  shows "mset s = mset (attack_hits h u w)" and "length s = length (attack_hits h u w)"
    and "s = [] \<longleftrightarrow> attack_hits h u w = []" and "hit_latency w s = hit_latency w (attack_hits h u w)"
    and "hit_before_benefit w s = hit_before_benefit w (attack_hits h u w)"
    and "cluster_alerts s d = cluster_alerts (attack_hits h u w) d"
proof -
  show m: "mset s = mset (attack_hits h u w)" by (simp add: s_def attack_hits_def mset_filter)
  show "length s = length (attack_hits h u w)" using mset_eq_length [OF m] .
  then show "s = [] \<longleftrightarrow> attack_hits h u w = []" by auto
  show "hit_latency w s = hit_latency w (attack_hits h u w)"
    "hit_before_benefit w s = hit_before_benefit w (attack_hits h u w)"
    using mset_eq_setD [OF m] by (simp_all add: hit_latency_def hit_before_benefit_def list_ex_iff split: option.split)
  show "cluster_alerts s d = cluster_alerts (attack_hits h u w) d" by (rule cluster_alerts_permuted [OF m])
qed

lemma clean_hits_sorted:
  fixes u h w
  defines "s \<equiv> filter (\<lambda>a. clean_hit h u a = Some w) (sort_key alert_order (gu_alerts u))"
  shows "length s = length (clean_hits h u w)" and "s = [] \<longleftrightarrow> clean_hits h u w = []"
    and "cluster_alerts s d = cluster_alerts (clean_hits h u w) d"
proof -
  have m: "mset s = mset (clean_hits h u w)" by (simp add: s_def clean_hits_def mset_filter)
  show "length s = length (clean_hits h u w)" using mset_eq_length [OF m] .
  then show "s = [] \<longleftrightarrow> clean_hits h u w = []" by auto
  show "cluster_alerts s d = cluster_alerts (clean_hits h u w) d" by (rule cluster_alerts_permuted [OF m])
qed

lemma evaluated_components:
  assumes "evaluate_governed_session u dedup h = Inr c"
    and "distinct (map ak_campaign_id (gu_attacks u))" and "distinct (map ck_window_id (gu_clean_windows u))"
  defines "as \<equiv> gu_attacks u" and "ws \<equiv> gu_clean_windows u"
  shows "sm_true_positive c = int (length (filter (\<lambda>w. attack_hits h u w \<noteq> []) as))"
    and "sm_false_negative c = int (length as) - sm_true_positive c"
    and "sm_false_positive c = int (length (filter (\<lambda>w. clean_hits h u w \<noteq> []) ws))"
    and "sm_true_negative c = int (length ws) - sm_false_positive c"
    and "sm_raw_false_alert_count c = (\<Sum>w\<leftarrow>ws. int (length (clean_hits h u w)))"
    and "sm_raw_evaluable_alert_count c = (\<Sum>w\<leftarrow>as. int (length (attack_hits h u w))) + sm_raw_false_alert_count c"
    and "sm_false_alert_cluster_count c = (\<Sum>w\<leftarrow>ws. int (length (cluster_alerts (clean_hits h u w) dedup)))"
    and "sm_evaluable_alert_cluster_count c =
      (\<Sum>w\<leftarrow>as. int (length (cluster_alerts (attack_hits h u w) dedup))) + sm_false_alert_cluster_count c"
    and "sm_benefit_eligible_attack_count c = int (length (filter (\<lambda>w. ak_first_benefit_timestamp_ns w \<noteq> None) as))"
    and "sm_detected_before_benefit_count c = int (length (filter (\<lambda>w. hit_before_benefit w (attack_hits h u w)) as))"
    and "sm_detection_latencies_ns c =
      map (\<lambda>w. hit_latency w (attack_hits h u w)) (filter (\<lambda>w. attack_hits h u w \<noteq> []) as)"
proof -
  have d: "0 \<le> dedup" using assms(1) by (simp add: evaluate_governed_session_def Let_def split: if_splits)
  note ta = tally_attack_closed [OF d attack_table [OF assms(2)]]
  note tc = tally_clean_closed [OF clean_table [OF assms(3)]]
  note eqs = assms(1) [unfolded evaluate_governed_session_def Let_def ta tc]
  show "sm_true_positive c = int (length (filter (\<lambda>w. attack_hits h u w \<noteq> []) as))"
    and "sm_false_negative c = int (length as) - sm_true_positive c"
    and "sm_false_positive c = int (length (filter (\<lambda>w. clean_hits h u w \<noteq> []) ws))"
    and "sm_true_negative c = int (length ws) - sm_false_positive c"
    and "sm_raw_false_alert_count c = (\<Sum>w\<leftarrow>ws. int (length (clean_hits h u w)))"
    and "sm_raw_evaluable_alert_count c = (\<Sum>w\<leftarrow>as. int (length (attack_hits h u w))) + sm_raw_false_alert_count c"
    and "sm_false_alert_cluster_count c = (\<Sum>w\<leftarrow>ws. int (length (cluster_alerts (clean_hits h u w) dedup)))"
    and "sm_evaluable_alert_cluster_count c =
      (\<Sum>w\<leftarrow>as. int (length (cluster_alerts (attack_hits h u w) dedup))) + sm_false_alert_cluster_count c"
    and "sm_benefit_eligible_attack_count c = int (length (filter (\<lambda>w. ak_first_benefit_timestamp_ns w \<noteq> None) as))"
    and "sm_detected_before_benefit_count c = int (length (filter (\<lambda>w. hit_before_benefit w (attack_hits h u w)) as))"
    and "sm_detection_latencies_ns c =
      map (\<lambda>w. hit_latency w (attack_hits h u w)) (filter (\<lambda>w. attack_hits h u w \<noteq> []) as)"
    using eqs unfolding as_def ws_def
    by (auto simp: attack_hits_sorted clean_hits_sorted simp del: not_None_eq split: if_splits)
qed

lemma attributed_counts:
  assumes "evaluate_governed_session u dedup h = Inr c"
    and "distinct (map ak_campaign_id (gu_attacks u))" and "distinct (map ck_window_id (gu_clean_windows u))"
  shows "sm_true_positive c = int (length (filter (\<lambda>w. attack_hits h u w \<noteq> []) (gu_attacks u))) \<and>
    sm_true_positive c + sm_false_negative c = int (length (gu_attacks u)) \<and>
    sm_false_positive c = int (length (filter (\<lambda>w. clean_hits h u w \<noteq> []) (gu_clean_windows u))) \<and>
    sm_false_positive c + sm_true_negative c = int (length (gu_clean_windows u)) \<and>
    sm_raw_evaluable_alert_count c =
      int (length (filter (\<lambda>a. matching_attacks h u a \<noteq> [] \<or> matching_clean u a \<noteq> []) (gu_alerts u))) \<and>
    sm_raw_false_alert_count c =
      int (length (filter (\<lambda>a. matching_attacks h u a = [] \<and> matching_clean u a \<noteq> []) (gu_alerts u))) \<and>
    sm_evaluable_alert_cluster_count c \<le> sm_raw_evaluable_alert_count c \<and>
    sm_false_alert_cluster_count c \<le> sm_raw_false_alert_count c \<and>
    sm_detected_before_benefit_count c \<le> sm_benefit_eligible_attack_count c \<and>
    sm_detection_latencies_ns c = map (\<lambda>w. hit_latency w (attack_hits h u w))
      (filter (\<lambda>w. attack_hits h u w \<noteq> []) (gu_attacks u))"
proof -
  note cs = evaluated_components [OF assms]
  have dist: "distinct (gu_attacks u)" "distinct (gu_clean_windows u)" using assms(2,3) by (simp_all add: distinct_map)
  have raw: "(\<Sum>w\<leftarrow>gu_attacks u. int (length (attack_hits h u w))) =
      int (length (filter (\<lambda>a. matching_attacks h u a \<noteq> []) (gu_alerts u)))"
    using sum_over_windows [where f = "attacker h u" and as = "gu_alerts u", OF dist(1) attacker_mem]
    by (simp add: attack_hits_def attacker_None del: not_None_eq)
  have false: "sm_raw_false_alert_count c =
      int (length (filter (\<lambda>a. matching_attacks h u a = [] \<and> matching_clean u a \<noteq> []) (gu_alerts u)))"
    using sum_over_windows [where f = "clean_hit h u" and as = "gu_alerts u", OF dist(2) clean_hit_mem]
    by (simp add: cs(5) clean_hits_def clean_hit_Some)
  have split: "int (length (filter P as)) + int (length (filter (\<lambda>a. \<not> P a \<and> Q a) as)) =
      int (length (filter (\<lambda>a. P a \<or> Q a) as))" for P Q and as :: "alert_observation list"
    by (induction as) auto
  have all: "sm_raw_evaluable_alert_count c =
      int (length (filter (\<lambda>a. matching_attacks h u a \<noteq> [] \<or> matching_clean u a \<noteq> []) (gu_alerts u)))"
    using split [of "\<lambda>a. matching_attacks h u a \<noteq> []" "gu_alerts u" "\<lambda>a. matching_clean u a \<noteq> []"]
    unfolding cs(6) raw false by simp
  have le: "(\<Sum>w\<leftarrow>xs. int (length (cluster_alerts (g w) dedup))) \<le> (\<Sum>w\<leftarrow>xs. int (length (g w)))" for g and xs :: "'x list"
    by (intro sum_list_mono) (simp add: cluster_count_le)
  have benefit: "sm_detected_before_benefit_count c \<le> sm_benefit_eligible_attack_count c"
  proof -
    have "length (filter (\<lambda>w. hit_before_benefit w (attack_hits h u w)) as) \<le>
        length (filter (\<lambda>w. ak_first_benefit_timestamp_ns w \<noteq> None) as)" for as
      by (induction as) (auto simp: hit_before_benefit_def split: option.splits)
    then show ?thesis unfolding cs(9,10) by (simp only: of_nat_le_iff)
  qed
  show ?thesis
    using all false benefit cs le [of "attack_hits h u" "gu_attacks u"] le [of "clean_hits h u" "gu_clean_windows u"]
    by linarith
qed

text \<open>The specification, from the windows alone. An attack is answered by the alerts between its start and the
  horizon after its end, each going to the attack that started last (between equal starts, to the smaller
  campaign id); an alert no attack covers counts against the clean window that holds it (the one that starts
  first, then the smaller window id).\<close>

definition covers_alert :: "int \<Rightarrow> attack_window \<Rightarrow> alert_observation \<Rightarrow> bool" where
  "covers_alert h w a \<longleftrightarrow> ak_start_timestamp_ns w \<le> ob_timestamp_ns a \<and> ob_timestamp_ns a \<le> ak_end_timestamp_ns w + h"

definition holds_alert :: "clean_span \<Rightarrow> alert_observation \<Rightarrow> bool" where
  "holds_alert w a \<longleftrightarrow> ck_start_timestamp_ns w \<le> ob_timestamp_ns a \<and> ob_timestamp_ns a < ck_end_timestamp_ns w"

definition owned_alerts :: "int \<Rightarrow> session_unit \<Rightarrow> attack_window \<Rightarrow> alert_observation list" where
  "owned_alerts h u w = filter (\<lambda>a. covers_alert h w a \<and>
     (\<forall>w'\<in>set (gu_attacks u). covers_alert h w' a \<and> w' \<noteq> w \<longrightarrow>
        ak_start_timestamp_ns w' < ak_start_timestamp_ns w \<or>
        ak_start_timestamp_ns w' = ak_start_timestamp_ns w \<and> ak_campaign_id w < ak_campaign_id w')) (gu_alerts u)"

definition stray_alerts :: "int \<Rightarrow> session_unit \<Rightarrow> clean_span \<Rightarrow> alert_observation list" where
  "stray_alerts h u w = filter (\<lambda>a. holds_alert w a \<and> (\<forall>v\<in>set (gu_attacks u). \<not> covers_alert h v a) \<and>
     (\<forall>w'\<in>set (gu_clean_windows u). holds_alert w' a \<and> w' \<noteq> w \<longrightarrow>
        ck_start_timestamp_ns w < ck_start_timestamp_ns w' \<or>
        ck_start_timestamp_ns w = ck_start_timestamp_ns w' \<and> ck_window_id w < ck_window_id w')) (gu_alerts u)"

lemma matching_iff:
  "v \<in> set (matching_attacks h u a) \<longleftrightarrow> v \<in> set (gu_attacks u) \<and> covers_alert h v a"
  "w \<in> set (matching_clean u a) \<longleftrightarrow> w \<in> set (gu_clean_windows u) \<and> holds_alert w a"
  by (auto simp: matching_attacks_def matching_clean_def covers_alert_def holds_alert_def)

lemma min_by_iff:
  assumes "inj_on f (set xs)"
  shows "min_by f xs = Some m \<longleftrightarrow> m \<in> set xs \<and> (\<forall>x\<in>set xs. x \<noteq> m \<longrightarrow> f m < f x)"
proof
  assume "min_by f xs = Some m"
  then have "m \<in> set xs \<and> (\<forall>x\<in>set xs. f m \<le> f x)" by (rule min_by_Some)
  then show "m \<in> set xs \<and> (\<forall>x\<in>set xs. x \<noteq> m \<longrightarrow> f m < f x)" using assms by (auto simp: inj_on_def less_le)
next
  assume m: "m \<in> set xs \<and> (\<forall>x\<in>set xs. x \<noteq> m \<longrightarrow> f m < f x)"
  then obtain n where n: "min_by f xs = Some n" by (cases "min_by f xs") auto
  with m min_by_Some [OF n] show "min_by f xs = Some m" by (metis leD)
qed

lemma attack_key_less:
  "covers_alert h w a \<Longrightarrow> covers_alert h w' a \<Longrightarrow> attack_key a w < attack_key a w' \<longleftrightarrow>
     ak_start_timestamp_ns w' < ak_start_timestamp_ns w \<or>
     ak_start_timestamp_ns w' = ak_start_timestamp_ns w \<and> ak_campaign_id w < ak_campaign_id w'"
  by (auto simp: attack_key_def covers_alert_def less_prod_simp)

lemma attack_hits_owned:
  assumes "distinct (map ak_campaign_id (gu_attacks u))" and "w \<in> set (gu_attacks u)"
  shows "attack_hits h u w = owned_alerts h u w"
proof -
  have "attacker h u a = Some w \<longleftrightarrow> covers_alert h w a \<and>
     (\<forall>w'\<in>set (gu_attacks u). covers_alert h w' a \<and> w' \<noteq> w \<longrightarrow>
        ak_start_timestamp_ns w' < ak_start_timestamp_ns w \<or>
        ak_start_timestamp_ns w' = ak_start_timestamp_ns w \<and> ak_campaign_id w < ak_campaign_id w')" for a
  proof -
    have "inj_on (attack_key a) (set (matching_attacks h u a))"
    proof (rule inj_onI)
      fix x y
      assume "x \<in> set (matching_attacks h u a)" "y \<in> set (matching_attacks h u a)" "attack_key a x = attack_key a y"
      then have "x \<in> set (gu_attacks u)" "y \<in> set (gu_attacks u)" "ak_campaign_id x = ak_campaign_id y"
        by (simp_all add: matching_iff attack_key_def)
      with assms(1) show "x = y" by (simp add: distinct_map inj_on_def)
    qed
    from min_by_iff [OF this, of w] have "attacker h u a = Some w \<longleftrightarrow> covers_alert h w a \<and>
        (\<forall>w'\<in>set (gu_attacks u). covers_alert h w' a \<and> w' \<noteq> w \<longrightarrow> attack_key a w < attack_key a w')"
      unfolding attacker_def matching_iff Ball_def by (simp only: assms(2) simp_thms imp_conjL)
    also have "\<dots> \<longleftrightarrow> covers_alert h w a \<and>
        (\<forall>w'\<in>set (gu_attacks u). covers_alert h w' a \<and> w' \<noteq> w \<longrightarrow>
          ak_start_timestamp_ns w' < ak_start_timestamp_ns w \<or>
          ak_start_timestamp_ns w' = ak_start_timestamp_ns w \<and> ak_campaign_id w < ak_campaign_id w')"
      by (intro conj_cong refl ball_cong imp_cong) (rule attack_key_less, blast+)
    finally show ?thesis .
  qed
  then show ?thesis by (simp add: attack_hits_def owned_alerts_def)
qed

lemma clean_hits_stray:
  assumes "distinct (map ck_window_id (gu_clean_windows u))" and "w \<in> set (gu_clean_windows u)"
  shows "clean_hits h u w = stray_alerts h u w"
proof -
  have "clean_hit h u a = Some w \<longleftrightarrow> holds_alert w a \<and> (\<forall>v\<in>set (gu_attacks u). \<not> covers_alert h v a) \<and>
     (\<forall>w'\<in>set (gu_clean_windows u). holds_alert w' a \<and> w' \<noteq> w \<longrightarrow>
        ck_start_timestamp_ns w < ck_start_timestamp_ns w' \<or>
        ck_start_timestamp_ns w = ck_start_timestamp_ns w' \<and> ck_window_id w < ck_window_id w')" for a
  proof -
    have "inj_on clean_key (set (matching_clean u a))"
      using assms(1) by (auto simp: inj_on_def matching_iff clean_key_def distinct_map)
    moreover have "matching_attacks h u a = [] \<longleftrightarrow> (\<forall>v\<in>set (gu_attacks u). \<not> covers_alert h v a)"
      using matching_iff(1) [of _ h u a] by (metis empty_iff last_in_set set_empty)
    ultimately show ?thesis
      unfolding clean_hit_def using min_by_iff [of clean_key "matching_clean u a" w] assms(2)
      by (auto simp: matching_iff clean_key_def less_prod_def)
  qed
  then show ?thesis by (simp add: clean_hits_def stray_alerts_def)
qed

text \<open>C36. The counts of an evaluated session whose campaign ids and clean window ids are distinct. An attack is
  detected exactly when it owns some alert and a clean window is a false positive exactly when some stray
  alert falls in it; raw counts count every alert inside some window once; cluster counts are those of each
  window's alerts clustered alone, and never exceed the raw counts; the latency of a detected attack is that
  of its earliest alert, and it counts as detected before benefit when that alert is not later.\<close>

theorem governed_session_accounts:
  assumes "evaluate_governed_session u dedup h = Inr c"
    and "distinct (map ak_campaign_id (gu_attacks u))" and "distinct (map ck_window_id (gu_clean_windows u))"
  shows "sm_true_positive c = int (length (filter (\<lambda>w. owned_alerts h u w \<noteq> []) (gu_attacks u))) \<and>
    sm_true_positive c + sm_false_negative c = int (length (gu_attacks u)) \<and>
    sm_false_positive c = int (length (filter (\<lambda>w. stray_alerts h u w \<noteq> []) (gu_clean_windows u))) \<and>
    sm_false_positive c + sm_true_negative c = int (length (gu_clean_windows u)) \<and>
    sm_raw_evaluable_alert_count c = int (length (filter
      (\<lambda>a. (\<exists>w\<in>set (gu_attacks u). covers_alert h w a) \<or> (\<exists>w\<in>set (gu_clean_windows u). holds_alert w a)) (gu_alerts u))) \<and>
    sm_raw_false_alert_count c = int (length (filter
      (\<lambda>a. (\<forall>w\<in>set (gu_attacks u). \<not> covers_alert h w a) \<and> (\<exists>w\<in>set (gu_clean_windows u). holds_alert w a)) (gu_alerts u))) \<and>
    sm_false_alert_cluster_count c =
      (\<Sum>w\<leftarrow>gu_clean_windows u. int (length (cluster_alerts (stray_alerts h u w) dedup))) \<and>
    sm_evaluable_alert_cluster_count c = sm_false_alert_cluster_count c +
      (\<Sum>w\<leftarrow>gu_attacks u. int (length (cluster_alerts (owned_alerts h u w) dedup))) \<and>
    sm_evaluable_alert_cluster_count c \<le> sm_raw_evaluable_alert_count c \<and>
    sm_false_alert_cluster_count c \<le> sm_raw_false_alert_count c \<and>
    sm_detected_before_benefit_count c =
      int (length (filter (\<lambda>w. hit_before_benefit w (owned_alerts h u w)) (gu_attacks u))) \<and>
    sm_detected_before_benefit_count c \<le> sm_benefit_eligible_attack_count c \<and>
    sm_detection_latencies_ns c = map (\<lambda>w. hit_latency w (owned_alerts h u w))
      (filter (\<lambda>w. owned_alerts h u w \<noteq> []) (gu_attacks u))"
proof -
  have o: "map (\<lambda>w. g w (attack_hits h u w)) (gu_attacks u) = map (\<lambda>w. g w (owned_alerts h u w)) (gu_attacks u)" for g
    using attack_hits_owned [OF assms(2)] by simp
  have fo: "filter (\<lambda>w. P w (attack_hits h u w)) (gu_attacks u) = filter (\<lambda>w. P w (owned_alerts h u w)) (gu_attacks u)" for P
    using attack_hits_owned [OF assms(2)] by (auto intro: filter_cong)
  have s: "map (\<lambda>w. g w (clean_hits h u w)) (gu_clean_windows u) = map (\<lambda>w. g w (stray_alerts h u w)) (gu_clean_windows u)" for g
    using clean_hits_stray [OF assms(3)] by simp
  have fs: "filter (\<lambda>w. clean_hits h u w \<noteq> []) (gu_clean_windows u) = filter (\<lambda>w. stray_alerts h u w \<noteq> []) (gu_clean_windows u)"
    using clean_hits_stray [OF assms(3)] by (auto intro: filter_cong)
  have ne: "matching_attacks h u a \<noteq> [] \<longleftrightarrow> (\<exists>w\<in>set (gu_attacks u). covers_alert h w a)"
    "matching_clean u a \<noteq> [] \<longleftrightarrow> (\<exists>w\<in>set (gu_clean_windows u). holds_alert w a)" for a
    using matching_iff by (metis empty_iff last_in_set set_empty)+
  have l: "map (\<lambda>w. hit_latency w (attack_hits h u w)) (filter (\<lambda>w. owned_alerts h u w \<noteq> []) (gu_attacks u)) =
      map (\<lambda>w. hit_latency w (owned_alerts h u w)) (filter (\<lambda>w. owned_alerts h u w \<noteq> []) (gu_attacks u))"
    using attack_hits_owned [OF assms(2)] by (intro map_cong) auto
  have ne2: "matching_attacks h u a = [] \<longleftrightarrow> (\<forall>w\<in>set (gu_attacks u). \<not> covers_alert h w a)" for a
    using ne(1) [of a] by blast
  show ?thesis
    using attributed_counts [OF assms] evaluated_components(7,8,10) [OF assms]
    unfolding fo [of "\<lambda>_ as. as \<noteq> []"] fo [of hit_before_benefit] l fs ne ne2
      o [of "\<lambda>_ as. int (length (cluster_alerts as dedup))"] s [of "\<lambda>_ as. int (length (cluster_alerts as dedup))"]
    by simp
qed

definition example_attacks :: "attack_window list" where
  "example_attacks =
     [\<lparr>ak_campaign_id = ''c1'', ak_attack_family = ''spoofing'', ak_start_timestamp_ns = 100,
       ak_end_timestamp_ns = 200, ak_first_benefit_timestamp_ns = Some 130\<rparr>,
      \<lparr>ak_campaign_id = ''c2'', ak_attack_family = ''layering'', ak_start_timestamp_ns = 210,
       ak_end_timestamp_ns = 300, ak_first_benefit_timestamp_ns = None\<rparr>]"

definition example_clean :: "clean_span list" where
  "example_clean = [\<lparr>ck_window_id = ''w1'', ck_start_timestamp_ns = 400, ck_end_timestamp_ns = 500\<rparr>]"

definition example_alert :: "string \<Rightarrow> int \<Rightarrow> alert_observation" where
  "example_alert i t = \<lparr>ob_alert_id = i, ob_detector = ''d'', ob_timestamp_ns = t\<rparr>"

definition example_unit :: session_unit where
  "example_unit = \<lparr>gu_base_session_id = ''s'', gu_instrument = ''X'', gu_canonical_event_count = 9,
     gu_evaluable_event_count = 7, gu_attacks = example_attacks, gu_clean_windows = example_clean,
     gu_alerts = [example_alert ''a4'' 450, example_alert ''a1'' 120, example_alert ''a2'' 140,
       example_alert ''a3'' 215, example_alert ''a5'' 900], gu_regimes = []\<rparr>"

lemmas example_defs = example_unit_def example_attacks_def example_clean_def example_alert_def

lemma example_evaluated:
  "map_sum id (\<lambda>c. (sm_true_positive c, sm_false_positive c, sm_detection_latencies_ns c))
     (evaluate_governed_session example_unit 30 50) = Inr (2, 1, [20, 5])"
  by code_simp

theorem governed_session_accounts_witness:
  "\<exists>c. evaluate_governed_session example_unit 30 50 = Inr c \<and> sm_true_positive c = 2 \<and>
     sm_true_positive c + sm_false_negative c = 2 \<and>
     sm_detection_latencies_ns c = map (\<lambda>w. hit_latency w (owned_alerts 50 example_unit w))
       (filter (\<lambda>w. owned_alerts 50 example_unit w \<noteq> []) (gu_attacks example_unit))"
proof -
  obtain c where c: "evaluate_governed_session example_unit 30 50 = Inr c" "sm_true_positive c = 2"
    using example_evaluated by (cases "evaluate_governed_session example_unit 30 50") auto
  have "distinct (map ak_campaign_id (gu_attacks example_unit))"
    "distinct (map ck_window_id (gu_clean_windows example_unit))" "length (gu_attacks example_unit) = 2"
    by (simp_all add: example_defs)
  with c governed_session_accounts [OF c(1)] show ?thesis by auto
qed

text \<open>In an accepted unit an alert belongs to an attack exactly when it falls between the start of the
  attack and the matching horizon after its end, and no attack that also covers it started later.\<close>

theorem alert_goes_to_latest_attack:
  assumes "mk_session_unit u = Inr v" and "windows_valid u"
  shows "attacker h u a = Some w \<longleftrightarrow> w \<in> set (matching_attacks h u a) \<and>
    (\<forall>w'\<in>set (matching_attacks h u a). ak_start_timestamp_ns w' \<le> ak_start_timestamp_ns w)"
proof -
  let ?M = "matching_attacks h u a"
  have inj: "v = w" if "v \<in> set ?M" "w \<in> set ?M" "ak_start_timestamp_ns v = ak_start_timestamp_ns w" for v w
    using attack_starts_distinct [OF assms] that by (auto simp: matching_attacks_def distinct_map inj_on_def)
  have start: "ak_start_timestamp_ns v \<le> ob_timestamp_ns a" if "v \<in> set ?M" for v
    using that by (simp add: matching_attacks_def)
  have key: "ak_start_timestamp_ns w \<le> ak_start_timestamp_ns v"
    if "v \<in> set ?M" "w \<in> set ?M" "attack_key a v \<le> attack_key a w" for v w
    using that(3) start [OF that(1)] start [OF that(2)] by (auto simp: attack_key_def less_eq_prod_def)
  show ?thesis
  proof
    assume "attacker h u a = Some w"
    then have "w \<in> set ?M \<and> (\<forall>w'\<in>set ?M. attack_key a w \<le> attack_key a w')"
      unfolding attacker_def by (rule min_by_Some)
    then show "w \<in> set ?M \<and> (\<forall>w'\<in>set ?M. ak_start_timestamp_ns w' \<le> ak_start_timestamp_ns w)"
      using key by blast
  next
    assume w: "w \<in> set ?M \<and> (\<forall>w'\<in>set ?M. ak_start_timestamp_ns w' \<le> ak_start_timestamp_ns w)"
    then obtain v where v: "attacker h u a = Some v"
      using attacker_None [of h u a] by (cases "attacker h u a") auto
    then have "v \<in> set ?M \<and> (\<forall>w'\<in>set ?M. attack_key a v \<le> attack_key a w')"
      unfolding attacker_def by (rule min_by_Some)
    then have "v = w" using w key [of v w] by (intro inj) (auto intro: antisym)
    with v show "attacker h u a = Some w" by simp
  qed
qed

theorem alert_goes_to_latest_attack_witness:
  "attacker 50 example_unit (example_alert ''a3'' 215) = Some (example_attacks ! 1)"
proof -
  have u: "mk_session_unit example_unit = Inr example_unit" by code_simp
  have v: "windows_valid example_unit" by code_simp
  show ?thesis
    by (rule iffD2 [OF alert_goes_to_latest_attack [OF u v]]) (simp add: matching_attacks_def example_defs)
qed

text \<open>The order in which the alerts were recorded does not matter.\<close>

theorem alert_order_irrelevant:
  assumes "mset as = mset (gu_alerts u)"
  shows "evaluate_governed_session (u\<lparr>gu_alerts := as\<rparr>) dedup h = evaluate_governed_session u dedup h"
proof -
  have "sort_key alert_order as = sort_key alert_order (gu_alerts u)"
    by (rule sort_key_same_mset [OF _ assms]) simp
  moreover have "matching_attacks h (u\<lparr>gu_alerts := as\<rparr>) a = matching_attacks h u a"
    "matching_clean (u\<lparr>gu_alerts := as\<rparr>) a = matching_clean u a" for a
    by (simp_all add: matching_attacks_def matching_clean_def)
  then have "match_alert h (u\<lparr>gu_alerts := as\<rparr>) = match_alert h u" by (intro ext) (simp add: match_alert_def cong: option.case_cong)
  ultimately have "match_alerts h (u\<lparr>gu_alerts := as\<rparr>) = match_alerts h u" by (simp add: match_alerts_def)
  then show ?thesis by (simp add: evaluate_governed_session_def)
qed

section \<open>Aggregation\<close>

lemma total_single [simp]: "total f [c] = f c"
  by (simp add: total_def)

text \<open>C38. Combining the replays of a session and aggregating the result gives the metrics of aggregating
  the replays themselves, but for the number of sessions.\<close>

theorem aggregate_of_combined:
  assumes "combine_session_components cs base instrument regimes = Inr c"
  shows "aggregate_governed_metrics [c] =
    try_bind (aggregate_governed_metrics cs) (\<lambda>m. Inr (dset ''session_count'' (JInt 1) m))"
proof -
  have cs: "cs \<noteq> []" using assms by (auto simp: combine_session_components_def)
  have c: "sm_true_positive c = total sm_true_positive cs" "sm_false_positive c = total sm_false_positive cs"
    "sm_false_negative c = total sm_false_negative cs" "sm_true_negative c = total sm_true_negative cs"
    "sm_evaluable_event_count c = total sm_evaluable_event_count cs"
    "sm_raw_false_alert_count c = total sm_raw_false_alert_count cs"
    "sm_false_alert_cluster_count c = total sm_false_alert_cluster_count cs"
    "sm_raw_evaluable_alert_count c = total sm_raw_evaluable_alert_count cs"
    "sm_evaluable_alert_cluster_count c = total sm_evaluable_alert_cluster_count cs"
    "sm_benefit_eligible_attack_count c = total sm_benefit_eligible_attack_count cs"
    "sm_detected_before_benefit_count c = total sm_detected_before_benefit_count cs"
    "sm_detection_latencies_ns c = concat (map sm_detection_latencies_ns cs)"
    using assms by (auto simp: combine_session_components_def split: if_splits)
  show ?thesis
    by (cases "binary_classification_metrics (total sm_true_positive cs) (total sm_false_positive cs)
          (total sm_false_negative cs) (total sm_true_negative cs)")
      (auto simp: aggregate_governed_metrics_def cs c Let_def binary_classification_metrics_def split: if_splits)
qed

definition example_components :: "int \<Rightarrow> int \<Rightarrow> int list \<Rightarrow> session_components" where
  "example_components tp fp latencies = \<lparr>sm_base_session_id = ''s'', sm_instrument = ''X'', sm_regimes = [],
     sm_true_positive = tp, sm_false_positive = fp, sm_false_negative = 1, sm_true_negative = 1,
     sm_evaluable_event_count = 1000, sm_raw_false_alert_count = 2 * fp, sm_false_alert_cluster_count = fp,
     sm_raw_evaluable_alert_count = 2 * fp + tp, sm_evaluable_alert_cluster_count = fp + tp,
     sm_benefit_eligible_attack_count = tp, sm_detected_before_benefit_count = 1,
     sm_detection_latencies_ns = latencies\<rparr>"

theorem aggregate_of_combined_witness:
  "\<exists>c. combine_session_components [example_components 2 1 [30, 10], example_components 1 0 [20]] ''s'' ''X'' [] = Inr c \<and>
     aggregate_governed_metrics [c] =
       try_bind (aggregate_governed_metrics [example_components 2 1 [30, 10], example_components 1 0 [20]])
         (\<lambda>m. Inr (dset ''session_count'' (JInt 1) m))"
proof -
  obtain c where
    c: "combine_session_components [example_components 2 1 [30, 10], example_components 1 0 [20]] ''s'' ''X'' [] = Inr c"
    by (simp add: combine_session_components_def example_components_def)
  from aggregate_of_combined [OF c] c show ?thesis by blast
qed

section \<open>Rates\<close>

lemma rnd64_double: "rnd64 (2 * x) = 2 * rnd64 x"
proof (cases "x = 0")
  case False
  have p: "pow2 (k + 1) = 2 * pow2 k" for k using pow2_add [of k 1] pow2_nat [of 1] by simp
  have e: "expo (2 * x) = expo x + 1"
    using expo_bounds [OF False] False p [of "expo x"] p [of "expo x + 1"] by (intro expo_unique) (simp_all add: abs_mult)
  have q: "pow2 (expo x + 1 - 52) = 2 * pow2 (expo x - 52)" using p [of "expo x - 52"] by (simp add: algebra_simps)
  have "rnd64 (2 * x) = of_int (rhe (2 * x / pow2 (expo x + 1 - 52))) * pow2 (expo x + 1 - 52)"
    using False by (simp only: rnd64_def [of "2 * x"] e Let_def) simp
  also have "\<dots> = 2 * (of_int (rhe (x / pow2 (expo x - 52))) * pow2 (expo x - 52))" unfolding q by simp
  finally show ?thesis using False by (simp add: rnd64_def [of x] Let_def)
qed simp

definition rate_ok :: "rat option \<Rightarrow> bool" where
  "rate_ok v \<longleftrightarrow> (case v of None \<Rightarrow> True | Some x \<Rightarrow> 0 \<le> x \<and> x \<le> 1 \<and> is_float x)"

lemma ratio_ok:
  assumes "0 \<le> a" and "0 \<le> b"
  shows "rate_ok (count_ratio a (a + b))"
proof -
  have "0 \<le> (of_int a / of_int (a + b) :: rat) \<and> of_int a / of_int (a + b) \<le> (1 :: rat)"
    using assms by (cases "a + b = 0") (auto simp: divide_le_eq)
  then have "0 \<le> true_div a (a + b) \<and> true_div a (a + b) \<le> 1"
    unfolding true_div_def flit_def using rnd64_mono [of _ 1] by (auto simp: rnd64_signs)
  then show ?thesis by (simp add: count_ratio_def rate_ok_def true_div_def is_float_def flit_def rnd64_idem)
qed

lemma rounded_ok: "rate_ok v \<Longrightarrow> rate_ok (rounded v)"
  by (cases v) (auto simp: rate_ok_def rounded_def fround_nonneg fround_le_one)

lemma harmonic_range:
  assumes "0 \<le> x" "x \<le> 1" "0 \<le> y" "y \<le> 1" "is_float x" and "fadd x y \<noteq> 0"
  shows "0 \<le> fdiv (fmul (fmul 2 x) y) (fadd x y) \<and> fdiv (fmul (fmul 2 x) y) (fadd x y) \<le> 1"
proof -
  have two: "fmul 2 x = 2 * x" using assms(5) by (simp add: fmul_def rnd64_double is_float_def)
  have "x * y \<le> x" "x * y \<le> y" using assms(1-4) by (simp_all add: mult_left_le mult_left_le_one_le)
  then have "2 * x * y \<le> x + y" by linarith
  then have le: "fmul (fmul 2 x) y \<le> fadd x y" unfolding two unfolding fmul_def fadd_def by (rule rnd64_mono)
  have n: "0 \<le> fmul (fmul 2 x) y" unfolding two using assms by (intro fmul_nonneg) auto
  have p: "0 < fadd x y" using fadd_nonneg [OF assms(1,3)] assms(6) by linarith
  then have "fmul (fmul 2 x) y / fadd x y \<le> 1" using le by simp
  then have "fdiv (fmul (fmul 2 x) y) (fadd x y) \<le> 1" unfolding fdiv_def using rnd64_mono [of _ 1] by simp
  with n p show ?thesis by (simp add: fdiv_nonneg)
qed

lemma f1_ok: "rate_ok p \<Longrightarrow> rate_ok r \<Longrightarrow> rate_ok (f1_score p r)"
  using harmonic_range by (auto simp: f1_score_def rate_ok_def split: option.splits)

text \<open>Classification succeeds exactly on non-negative counts. Every rate it reports lies between 0 and 1;
  precision is missing exactly when there were no alerts, recall and F1 exactly when there are no
  positives, and the other two exactly when there are no negatives.\<close>

definition rate_at :: "payload \<Rightarrow> string \<Rightarrow> bool \<Rightarrow> bool" where
  "rate_at m k missing \<longleftrightarrow> (\<exists>v. dget m k = Some (json_opt_float v) \<and> rate_ok v \<and> (v = None \<longleftrightarrow> missing))"

lemma rate_at_intro:
  "dget m k = Some (json_opt_float (rounded v)) \<Longrightarrow> rate_ok v \<Longrightarrow> (v = None \<longleftrightarrow> missing) \<Longrightarrow> rate_at m k missing"
  unfolding rate_at_def using rounded_ok [of v] by (intro exI [of _ "rounded v"]) (auto simp: rounded_def)

theorem classification_rates:
  "case binary_classification_metrics tp fp fn tn of
     Inl e \<Rightarrow> tp < 0 \<or> fp < 0 \<or> fn < 0 \<or> tn < 0
   | Inr m \<Rightarrow> 0 \<le> tp \<and> 0 \<le> fp \<and> 0 \<le> fn \<and> 0 \<le> tn \<and>
       rate_at m ''precision'' (tp + fp = 0) \<and> rate_at m ''recall'' (tp + fn = 0) \<and> rate_at m ''f1'' (tp + fn = 0) \<and>
       rate_at m ''specificity'' (tn + fp = 0) \<and> rate_at m ''false_positive_rate'' (fp + tn = 0)"
proof (cases "0 \<le> tp \<and> 0 \<le> fp \<and> 0 \<le> fn \<and> 0 \<le> tn")
  case True
  let ?p = "count_ratio tp (tp + fp)" and ?r = "count_ratio tp (tp + fn)"
  have ok: "rate_ok ?p" "rate_ok ?r" "rate_ok (count_ratio tn (tn + fp))" "rate_ok (count_ratio fp (fp + tn))"
    using True by (intro ratio_ok; simp)+
  have f1: "f1_score ?p ?r = None \<longleftrightarrow> tp + fn = 0"
  proof (cases "tp = 0")
    case True
    then have "?r = (if fn = 0 then None else Some 0)" by (simp add: count_ratio_def true_div_def flit_def)
    then show ?thesis using True by (auto simp: f1_score_def split: option.splits)
  next
    case False
    then have pos: "0 < tp" using True by simp
    have t: "0 < true_div tp (tp + n)" if "0 \<le> n" for n
      using pos that by (simp add: true_div_def flit_def rnd64_signs)
    have "fadd (true_div tp (tp + fp)) (true_div tp (tp + fn)) \<noteq> 0"
      using t [of fp] t [of fn] True fadd_pos [of "true_div tp (tp + fp)" "true_div tp (tp + fn)"] by simp
    then show ?thesis using pos True by (simp add: f1_score_def count_ratio_def)
  qed
  have res: "count_ratio a b = None \<longleftrightarrow> b = 0" for a b by (simp add: count_ratio_def)
  define m where "m = [(''precision'', json_opt_float (rounded ?p)), (''recall'', json_opt_float (rounded ?r)),
      (''f1'', json_opt_float (rounded (f1_score ?p ?r))),
      (''specificity'', json_opt_float (rounded (count_ratio tn (tn + fp)))),
      (''false_positive_rate'', json_opt_float (rounded (count_ratio fp (fp + tn)))),
      (''true_positive'', JInt tp), (''false_positive'', JInt fp), (''false_negative'', JInt fn), (''true_negative'', JInt tn)]"
  have "rate_at m ''precision'' (tp + fp = 0)" "rate_at m ''recall'' (tp + fn = 0)" "rate_at m ''f1'' (tp + fn = 0)"
    "rate_at m ''specificity'' (tn + fp = 0)" "rate_at m ''false_positive_rate'' (fp + tn = 0)"
    using ok f1_ok [OF ok(1,2)] f1 res by (auto simp: m_def intro!: rate_at_intro)
  moreover have "\<not> min (min tp fp) (min fn tn) < 0" using True unfolding min_less_iff_disj by linarith
  then have "binary_classification_metrics tp fp fn tn = Inr m"
    by (simp add: binary_classification_metrics_def m_def Let_def)
  ultimately show ?thesis using True by simp
next
  case False
  then show ?thesis by (auto simp: binary_classification_metrics_def Let_def)
qed

section \<open>Two disagreements\<close>

text \<open>
  Clean windows are half-open, and adjudication accepts two that share a boundary; the session unit
  compares starts and ends as if both were included and rejects the same windows.
\<close>

theorem adjacent_clean_windows_rejected:
  "check_overlaps [((''s'', ''control''), [(0, 10, ''w1''), (10, 20, ''w2'')])] = Inr () \<and>
   validate_non_overlapping_windows []
     [\<lparr>ck_window_id = ''w1'', ck_start_timestamp_ns = 0, ck_end_timestamp_ns = 10\<rparr>,
      \<lparr>ck_window_id = ''w2'', ck_start_timestamp_ns = 10, ck_end_timestamp_ns = 20\<rparr>] =
   Inl (ValueError ''governed evaluation windows overlap: clean:w1 and clean:w2'')"
  by code_simp

text \<open>
  Two attacks of one campaign share their list of alerts: an accepted unit with one alert reports two
  detections and two evaluable alerts.
\<close>

definition shared_campaign_unit :: session_unit where
  "shared_campaign_unit = example_unit\<lparr>gu_alerts := [example_alert ''a1'' 120],
     gu_attacks := map (\<lambda>w. w\<lparr>ak_campaign_id := ''c''\<rparr>) example_attacks\<rparr>"

theorem shared_campaign_counted_twice:
  "mk_session_unit shared_campaign_unit = Inr shared_campaign_unit \<and>
   map_sum id (\<lambda>c. (sm_true_positive c, sm_raw_evaluable_alert_count c)) (evaluate_governed_session shared_campaign_unit 0 0)
     = Inr (2, 2)"
  by (intro conjI; code_simp)

end
