(* ===== verification/Regimes.thy ===== *)
theory Regimes
  imports GovernedMetrics
begin

text \<open>
  Market regimes, \<open>backend/app/evaluation/regimes.py\<close>: thresholds fitted on training controls, the regimes
  of a session, the metric matrix over regimes and the worst-decile analysis. The digest over the JSON
  dump of the fit rows is a parameter; the constraints pydantic checks on a single field are not repeated.
\<close>

section \<open>Thresholds\<close>

record regime_fit_row =
  rf_base_session_id :: string
  rf_feature_schema_version :: string
  rf_feature_config_hash :: string
  rf_liquidity_score :: rat
  rf_realized_volatility_long :: rat
  rf_spread_bps :: rat
  rf_message_rate_long :: rat

definition regime_features :: "(string \<times> (regime_fit_row \<Rightarrow> rat)) list" where
  "regime_features =
     [(''liquidity_score'', rf_liquidity_score), (''realized_volatility_long'', rf_realized_volatility_long),
      (''spread_bps'', rf_spread_bps), (''message_rate_long'', rf_message_rate_long)]"

record regime_boundary =
  rb_lower :: rat
  rb_upper :: rat

definition validate_order :: "regime_boundary \<Rightarrow> py_error + regime_boundary" where
  "validate_order b =
     (if rb_upper b < rb_lower b then Inl (ValueError ''regime lower boundary must not exceed upper'') else Inr b)"

record regime_thresholds =
  rt_feature_schema_version :: string
  rt_feature_config_hash :: string
  rt_fit_row_count :: int
  rt_fit_input_hash :: string
  rt_boundaries :: "(string, regime_boundary) dict"

definition validate_complete_features :: "regime_thresholds \<Rightarrow> py_error + regime_thresholds" where
  "validate_complete_features t =
     (if set (dkeys (rt_boundaries t)) \<noteq> set (map fst regime_features)
      then Inl (ValueError ''regime threshold manifest must contain every governed regime feature'') else Inr t)"

definition row_key :: "regime_fit_row \<Rightarrow> rat \<times> rat \<times> rat \<times> rat" where
  "row_key r = (rf_liquidity_score r, rf_realized_volatility_long r, rf_spread_bps r, rf_message_rate_long r)"

definition fit_boundary :: "regime_fit_row list \<Rightarrow> (regime_fit_row \<Rightarrow> rat) \<Rightarrow> py_error + regime_boundary" where
  "fit_boundary rows f =
     (let vs = sort (map f rows) in
      validate_order \<lparr>rb_lower = percentile vs (fdiv 1 3), rb_upper = percentile vs (fdiv 2 3)\<rparr>)"

definition fit_regime_thresholds ::
  "(regime_fit_row list \<Rightarrow> string) \<Rightarrow> regime_fit_row list \<Rightarrow> py_error + regime_thresholds" where
  "fit_regime_thresholds hash_rows rows =
     (if length rows < 3 then Inl (ValueError ''regime fitting requires at least three training control rows'')
      else if length (remdups (map rf_feature_schema_version rows)) \<noteq> 1 \<or>
        length (remdups (map rf_feature_config_hash rows)) \<noteq> 1
      then Inl (ValueError ''regime fitting requires one feature schema and configuration'')
      else
        try_bind (try_map (\<lambda>(name, f). try_bind (fit_boundary rows f) (\<lambda>b. Inr (name, b))) regime_features) (\<lambda>bs.
          validate_complete_features
            \<lparr>rt_feature_schema_version = rf_feature_schema_version (hd rows),
             rt_feature_config_hash = rf_feature_config_hash (hd rows), rt_fit_row_count = int (length rows),
             rt_fit_input_hash = hash_rows (sort_key row_key rows), rt_boundaries = bs\<rparr>))"

record regime_evidence =
  re_fit_session_ids :: "string list"
  re_fit_rows :: "regime_fit_row list"
  re_thresholds :: regime_thresholds
  re_target_features :: "(string, payload) dict"

definition validate_frozen_thresholds ::
  "(regime_fit_row list \<Rightarrow> string) \<Rightarrow> regime_evidence \<Rightarrow> py_error + regime_evidence" where
  "validate_frozen_thresholds hash_rows e =
     try_bind (fit_regime_thresholds hash_rows (re_fit_rows e)) (\<lambda>t.
       if re_thresholds e \<noteq> t
       then Inl (ValueError ''regime thresholds do not match the supplied training-control rows'')
       else if \<not> distinct (re_fit_session_ids e) \<or>
         set (re_fit_session_ids e) \<noteq> set (map rf_base_session_id (re_fit_rows e))
       then Inl (ValueError ''regime fit session inventory does not match fit rows'')
       else if list_ex (\<lambda>fs. set (dkeys (snd fs)) \<noteq> set (map fst regime_features)) (re_target_features e)
       then Inl (ValueError ''target regime evidence must contain exactly the governed features'')
       else Inr e)"

section \<open>Regimes of a session\<close>

definition bucket :: "rat \<Rightarrow> regime_boundary \<Rightarrow> string \<times> string \<times> string \<Rightarrow> string" where
  "bucket v b names =
     (if v < rb_lower b then fst names else if v \<le> rb_upper b then fst (snd names) else snd (snd names))"

text \<open>A finite number, not a boolean.\<close>

definition finite_number :: "json \<Rightarrow> rat option" where
  "finite_number j = (case j of JInt n \<Rightarrow> Some (of_int n) | JFloat x \<Rightarrow> Some x | _ \<Rightarrow> None)"

definition regime_names :: "(string \<times> string \<times> string \<times> string \<times> string) list" where
  "regime_names =
     [(''liquidity'', ''liquidity_score'', ''thin'', ''normal'', ''deep''),
      (''volatility'', ''realized_volatility_long'', ''low'', ''normal'', ''high''),
      (''spread'', ''spread_bps'', ''tight'', ''normal'', ''wide''),
      (''message_intensity'', ''message_rate_long'', ''quiet'', ''normal'', ''busy'')]"

definition regime_of ::
  "payload \<Rightarrow> regime_thresholds \<Rightarrow> string \<times> string \<times> string \<times> string \<times> string \<Rightarrow> py_error + string \<times> string" where
  "regime_of features t entry =
     (case entry of (dimension, name, names) \<Rightarrow>
        (case dget (rt_boundaries t) name of
           None \<Rightarrow> Inl (KeyError name)
         | Some b \<Rightarrow>
             Inr (dimension, bucket (case finite_number (pget features name) of None \<Rightarrow> 0 | Some v \<Rightarrow> v) b names)))"

definition assign_regimes :: "payload \<Rightarrow> regime_thresholds \<Rightarrow> py_error + (string, string) dict" where
  "assign_regimes features t =
     (case find (\<lambda>name. finite_number (pget features name) = None) (map fst regime_features) of
        Some name \<Rightarrow> Inl (ValueError (''regime assignment requires finite feature: '' @ name))
      | None \<Rightarrow> try_map (regime_of features t) regime_names)"

section \<open>The metric matrix\<close>

record regime_cell =
  rc_session_count :: int
  rc_sufficient :: bool
  rc_metrics :: "payload option"

definition mk_regime_cell :: "session_components list \<Rightarrow> int \<Rightarrow> py_error + regime_cell" where
  "mk_regime_cell ss minimum =
     (if minimum \<le> int (length ss)
      then try_bind (aggregate_governed_metrics ss) (\<lambda>m.
        Inr \<lparr>rc_session_count = int (length ss), rc_sufficient = True, rc_metrics = Some m\<rparr>)
      else Inr \<lparr>rc_session_count = int (length ss), rc_sufficient = False, rc_metrics = None\<rparr>)"

text \<open>Sessions grouped by a value, in the order of the values; sessions without one are left out.\<close>

definition grouped_cells ::
  "(session_components \<Rightarrow> string option) \<Rightarrow> session_components list \<Rightarrow> int \<Rightarrow> py_error + (string \<times> regime_cell) list" where
  "grouped_cells value_of ss minimum =
     try_map (\<lambda>v. try_bind (mk_regime_cell (filter (\<lambda>s. value_of s = Some v) ss) minimum) (\<lambda>c. Inr (v, c)))
       (sorted_set (List.map_filter value_of ss))"

definition regime_dimensions :: "session_components list \<Rightarrow> string list" where
  "regime_dimensions ss = sorted_set (concat (map (\<lambda>s. dkeys (sm_regimes s)) ss))"

definition cross_key :: "session_components \<Rightarrow> py_error + string" where
  "cross_key s =
     (case dget (sm_regimes s) ''liquidity'' of
        None \<Rightarrow> Inl (KeyError ''liquidity'')
      | Some l \<Rightarrow>
          (case dget (sm_regimes s) ''volatility'' of
             None \<Rightarrow> Inl (KeyError ''volatility'')
           | Some v \<Rightarrow> Inr (l @ ''|'' @ v)))"

definition regime_metric_matrix ::
  "session_components list \<Rightarrow> int \<Rightarrow> py_error + (string \<times> (string \<times> regime_cell) list) list" where
  "regime_metric_matrix ss minimum =
     (if minimum < 1 then Inl (ValueError ''regime matrix minimum cell count must be positive'')
      else
        let dimensions = regime_dimensions ss in
        try_bind (try_map (\<lambda>d. try_bind (grouped_cells (\<lambda>s. dget (sm_regimes s) d) ss minimum) (\<lambda>cs. Inr (d, cs)))
          dimensions) (\<lambda>matrix.
        if {''liquidity'', ''volatility''} \<subseteq> set dimensions
        then
          try_bind (try_map cross_key ss) (\<lambda>_.
          try_bind (grouped_cells (\<lambda>s. case cross_key s of Inl _ \<Rightarrow> None | Inr k \<Rightarrow> Some k) ss minimum) (\<lambda>cs.
          Inr (dset ''liquidity_x_volatility'' cs matrix)))
        else Inr matrix))"

section \<open>Worst sessions\<close>

datatype worse_direction = WorseLower | WorseHigher

record worst_selection =
  wd_worse_direction :: worse_direction
  wd_eligible_session_count :: int
  wd_selected_session_count :: int
  wd_session_ids :: "string list"
  wd_values :: "rat list"
  wd_aggregate :: "payload option"

definition metric_value :: "payload \<Rightarrow> string \<Rightarrow> rat option" where
  "metric_value m metric =
     (case pget m metric of JInt n \<Rightarrow> Some (flit (of_int n)) | JFloat x \<Rightarrow> Some x | _ \<Rightarrow> None)"

definition session_values ::
  "session_components list \<Rightarrow> string \<Rightarrow> py_error + (rat \<times> string \<times> session_components) list" where
  "session_values ss metric =
     try_bind (try_map (\<lambda>s. try_bind (aggregate_governed_metrics [s]) (\<lambda>m. Inr (metric_value m metric, s))) ss) (\<lambda>vs.
       Inr (List.map_filter (\<lambda>(v, s). map_option (\<lambda>x. (x, sm_base_session_id s, s)) v) vs))"

definition worst_ordered ::
  "worse_direction \<Rightarrow> (rat \<times> string \<times> session_components) list \<Rightarrow> (rat \<times> string \<times> session_components) list" where
  "worst_ordered d vs =
     (case d of
        WorseHigher \<Rightarrow> sorted_desc (\<lambda>(x, i, s). (x, i)) vs
      | WorseLower \<Rightarrow> sort_key (\<lambda>(x, i, s). (x, i)) vs)"

definition worst_count :: "nat \<Rightarrow> rat \<Rightarrow> int" where
  "worst_count n fraction = (if n = 0 then 0 else max 1 \<lceil>fmul (of_int (int n)) fraction\<rceil>)"

definition select_worst ::
  "session_components list \<Rightarrow> rat \<Rightarrow> string \<times> worse_direction \<Rightarrow> py_error + string \<times> worst_selection" where
  "select_worst ss fraction entry =
     (case entry of (metric, d) \<Rightarrow>
        try_bind (session_values ss metric) (\<lambda>vs.
          let ordered = worst_ordered d vs;
              count = worst_count (length ordered) fraction;
              selected = take (nat count) ordered in
          try_bind (if selected \<noteq> []
              then try_bind (aggregate_governed_metrics (map (\<lambda>(x, i, s). s) selected)) (\<lambda>m. Inr (Some m))
              else Inr None) (\<lambda>agg.
          Inr (metric, \<lparr>wd_worse_direction = d, wd_eligible_session_count = int (length ordered),
            wd_selected_session_count = count, wd_session_ids = map (\<lambda>(x, i, s). i) selected,
            wd_values = map fst selected, wd_aggregate = agg\<rparr>))))"

definition worst_decile_results ::
  "session_components list \<Rightarrow> (string, worse_direction) dict \<Rightarrow> rat \<Rightarrow> py_error + (string, worst_selection) dict" where
  "worst_decile_results ss directions fraction =
     (if ss = [] then Inl (ValueError ''worst-decile analysis requires sessions'')
      else if \<not> (0 < fraction \<and> fraction \<le> 1 / 2)
      then Inl (ValueError ''worst-decile fraction must be between zero and one half'')
      else try_map (select_worst ss fraction) directions)"

end
