(* ===== verification/SessionStatistics.thy ===== *)
theory SessionStatistics
  imports Regimes
begin

text \<open>
  Session statistics, \<open>backend/app/evaluation/statistics.py\<close>: the cluster bootstrap over base sessions and
  the paired comparison of two detectors. \<open>random.Random(seed).randrange(n)\<close> is the parameter \<open>rand\<close>:
  \<open>rand seed n k\<close> is the result of call \<open>k\<close>, a number below \<open>n\<close>.
\<close>

type_synonym sampler = "int \<Rightarrow> nat \<Rightarrow> nat \<Rightarrow> nat"

definition numeric_metric :: "payload \<Rightarrow> string \<Rightarrow> py_error + rat option" where
  "numeric_metric m metric =
     (case pget m metric of
        JNull \<Rightarrow> Inr None
      | JInt n \<Rightarrow> Inr (Some (flit (of_int n)))
      | JFloat x \<Rightarrow> Inr (Some x)
      | _ \<Rightarrow> Inl (ValueError (''metric is not a numeric aggregate: '' @ metric)))"

definition metric_of :: "string \<Rightarrow> session_components list \<Rightarrow> py_error + rat option" where
  "metric_of metric ss = try_bind (aggregate_governed_metrics ss) (\<lambda>m. numeric_metric m metric)"

definition float_difference :: "rat option \<Rightarrow> rat option \<Rightarrow> rat option" where
  "float_difference right left =
     (case (right, left) of (Some r, Some l) \<Rightarrow> Some (fsub r l) | _ \<Rightarrow> None)"

text \<open>The indices drawn for resample \<open>i\<close> of a list of length \<open>n\<close>.\<close>

definition drawn :: "sampler \<Rightarrow> int \<Rightarrow> nat \<Rightarrow> nat \<Rightarrow> nat list" where
  "drawn rand seed n i = map (\<lambda>j. rand seed n (i * n + j)) [0..<n]"

definition resample :: "sampler \<Rightarrow> int \<Rightarrow> 'a list \<Rightarrow> nat \<Rightarrow> 'a list" where
  "resample rand seed xs i = map (\<lambda>j. xs ! j) (drawn rand seed (length xs) i)"

section \<open>Bootstrap\<close>

record confidence_interval =
  ci_point_estimate :: "rat option"
  ci_lower :: "rat option"
  ci_upper :: "rat option"
  ci_confidence_level :: rat
  ci_resamples :: int

definition tail_quantile :: "rat \<Rightarrow> rat" where
  "tail_quantile level = fdiv (fsub 1 level) 2"

definition session_cluster_bootstrap ::
  "sampler \<Rightarrow> session_components list \<Rightarrow> string \<Rightarrow> int \<Rightarrow> rat \<Rightarrow> int \<Rightarrow> py_error + confidence_interval" where
  "session_cluster_bootstrap rand sessions metric resamples level seed =
     (if sessions = [] then Inl (ValueError ''session bootstrap requires at least one session'')
      else if resamples < 100 then Inl (ValueError ''session bootstrap requires at least 100 resamples'')
      else if \<not> (0 < level \<and> level < 1) then Inl (ValueError ''confidence level must be between zero and one'')
      else
        try_bind (metric_of metric sessions) (\<lambda>point.
        try_bind (try_map (\<lambda>i. metric_of metric (resample rand seed sessions i)) [0..<nat resamples]) (\<lambda>values.
          let estimates = sort (List.map_filter id values); alpha = tail_quantile level in
          if point = None \<or> estimates = []
          then Inr \<lparr>ci_point_estimate = point, ci_lower = None, ci_upper = None, ci_confidence_level = level,
                 ci_resamples = resamples\<rparr>
          else Inr \<lparr>ci_point_estimate = point, ci_lower = Some (percentile estimates alpha),
                 ci_upper = Some (percentile estimates (fsub 1 alpha)), ci_confidence_level = level,
                 ci_resamples = resamples\<rparr>)))"

definition bootstrap_metric_matrix ::
  "sampler \<Rightarrow> session_components list \<Rightarrow> string list \<Rightarrow> int \<Rightarrow> rat \<Rightarrow> int
    \<Rightarrow> py_error + (string \<times> confidence_interval) list" where
  "bootstrap_metric_matrix rand sessions metrics resamples level seed =
     try_map (\<lambda>metric. try_bind (session_cluster_bootstrap rand sessions metric resamples level seed)
       (\<lambda>c. Inr (metric, c))) metrics"

section \<open>Paired comparison\<close>

record paired_comparison =
  pc_metric :: string
  pc_higher_is_better :: bool
  pc_session_count :: int
  pc_baseline :: "rat option"
  pc_candidate :: "rat option"
  pc_difference :: "rat option"
  pc_lower :: "rat option"
  pc_upper :: "rat option"
  pc_confidence_level :: rat
  pc_resamples :: int
  pc_wins :: int
  pc_ties :: int
  pc_losses :: int
  pc_statistically_resolved :: bool

definition components_by_id :: "session_components list \<Rightarrow> (string, session_components) dict" where
  "components_by_id ss = foldl (\<lambda>d s. dset (sm_base_session_id s) s d) [] ss"

text \<open>\<open>math.isclose(d, 0.0, abs_tol=1e-12)\<close>, whose relative tolerance is 1e-9.\<close>

definition close_to_zero :: "rat \<Rightarrow> bool" where
  "close_to_zero d \<longleftrightarrow> d = 0 \<or> \<bar>d\<bar> \<le> fmul (flit (1 / 10 ^ 9)) \<bar>d\<bar> \<or> \<bar>d\<bar> \<le> flit (1 / 10 ^ 12)"

datatype pair_outcome = Win | Tie | Loss

definition pair_outcome_of :: "bool \<Rightarrow> rat option \<Rightarrow> pair_outcome" where
  "pair_outcome_of higher_is_better difference =
     (case difference of
        None \<Rightarrow> Tie
      | Some d \<Rightarrow> if close_to_zero d then Tie else if (0 < d) = higher_is_better then Win else Loss)"

definition paired_difference ::
  "string \<Rightarrow> session_components list \<Rightarrow> session_components list \<Rightarrow> py_error + rat option" where
  "paired_difference metric baseline candidate =
     try_bind (metric_of metric baseline) (\<lambda>left.
     try_bind (metric_of metric candidate) (\<lambda>right. Inr (float_difference right left)))"

definition outcome_count :: "pair_outcome \<Rightarrow> pair_outcome list \<Rightarrow> int" where
  "outcome_count x os = int (length (filter (\<lambda>y. y = x) os))"

definition paired_session_comparison ::
  "sampler \<Rightarrow> session_components list \<Rightarrow> session_components list \<Rightarrow> string \<Rightarrow> bool \<Rightarrow> int \<Rightarrow> rat \<Rightarrow> int
    \<Rightarrow> py_error + paired_comparison" where
  "paired_session_comparison rand baseline candidate metric higher_is_better resamples level seed =
     (if resamples < 100 then Inl (ValueError ''paired comparison requires at least 100 resamples'')
      else if \<not> (0 < level \<and> level < 1) then Inl (ValueError ''confidence level must be between zero and one'')
      else
        let bs = components_by_id baseline; cs = components_by_id candidate in
        if length bs \<noteq> length baseline \<or> length cs \<noteq> length candidate
        then Inl (ValueError ''paired comparison session IDs must be unique'')
        else if set (dkeys bs) \<noteq> set (dkeys cs)
        then Inl (ValueError ''paired comparison requires identical base sessions'')
        else
          let ids = sort (dkeys bs); b = (\<lambda>i. the (dget bs i)); c = (\<lambda>i. the (dget cs i)) in
          try_bind (metric_of metric baseline) (\<lambda>baseline_point.
          try_bind (metric_of metric candidate) (\<lambda>candidate_point.
          try_bind (try_map (\<lambda>i. let sampled = resample rand seed ids i in
              paired_difference metric (map b sampled) (map c sampled)) [0..<nat resamples]) (\<lambda>ds.
          try_bind (try_map (\<lambda>i. paired_difference metric [b i] [c i]) ids) (\<lambda>each.
            let differences = sort (List.map_filter id ds);
                alpha = tail_quantile level;
                lower = (if differences = [] then None else Some (percentile differences alpha));
                upper = (if differences = [] then None else Some (percentile differences (fsub 1 alpha)));
                outcomes = map (pair_outcome_of higher_is_better) each in
            Inr \<lparr>pc_metric = metric, pc_higher_is_better = higher_is_better,
              pc_session_count = int (length ids), pc_baseline = baseline_point, pc_candidate = candidate_point,
              pc_difference = float_difference candidate_point baseline_point,
              pc_lower = lower, pc_upper = upper, pc_confidence_level = level, pc_resamples = resamples,
              pc_wins = outcome_count Win outcomes, pc_ties = outcome_count Tie outcomes,
              pc_losses = outcome_count Loss outcomes,
              pc_statistically_resolved =
                (case lower of None \<Rightarrow> False | Some x \<Rightarrow> 0 < x) \<or> (case upper of None \<Rightarrow> False | Some x \<Rightarrow> x < 0)\<rparr>)))))"

end
