(* ===== verification/RegimeProps.thy ===== *)
theory RegimeProps
  imports Regimes SessionAccounting SplitCounts
begin

text \<open>
  Properties of the regime analysis: the cells of a dimension partition the sessions that have it, the
  worst-decile selection takes the worst sessions and the right number of them, fitting ignores the
  order of the rows up to the digest, and two runs where fitting misbehaves.
\<close>

section \<open>Loops that may raise\<close>

lemma try_map_nth: "try_map f xs = Inr ys \<longleftrightarrow> length ys = length xs \<and> (\<forall>i<length xs. f (xs ! i) = Inr (ys ! i))"
proof (induction xs arbitrary: ys)
  case (Cons x xs)
  show ?case
    by (cases ys) (auto simp: try_bind_Inr Cons.IH less_Suc_eq_0_disj)
qed auto

lemma try_map_member: "try_map f xs = Inr ys \<Longrightarrow> y \<in> set ys \<Longrightarrow> \<exists>x\<in>set xs. f x = Inr y"
  by (metis try_map_nth in_set_conv_nth)

section \<open>Cells\<close>

lemma mk_regime_cell_Inr:
  assumes "mk_regime_cell ss minimum = Inr c"
  shows "rc_session_count c = int (length ss)" and "rc_sufficient c \<longleftrightarrow> minimum \<le> int (length ss)"
    and "(rc_metrics c \<noteq> None) = rc_sufficient c"
    and "rc_sufficient c \<Longrightarrow> map_sum id Some (aggregate_governed_metrics ss) = (Inr (rc_metrics c) :: py_error + payload option)"
  using assms by (auto simp: mk_regime_cell_def try_bind_Inr split: if_splits)

definition cells_partition ::
  "(session_components \<Rightarrow> string option) \<Rightarrow> session_components list \<Rightarrow> int \<Rightarrow> (string \<times> regime_cell) list \<Rightarrow> bool" where
  "cells_partition g ss minimum cs \<longleftrightarrow>
     sorted (map fst cs) \<and> distinct (map fst cs) \<and> set (map fst cs) = {v. \<exists>s\<in>set ss. g s = Some v} \<and>
     (\<Sum>(v, c)\<leftarrow>cs. rc_session_count c) = int (length (filter (\<lambda>s. g s \<noteq> None) ss)) \<and>
     list_all (\<lambda>(v, c). rc_session_count c = int (length (filter (\<lambda>s. g s = Some v) ss)) \<and>
       (rc_metrics c \<noteq> None \<longleftrightarrow> minimum \<le> rc_session_count c)) cs"

lemma grouped_cells_partition:
  assumes "grouped_cells g ss minimum = Inr cs"
  shows "cells_partition g ss minimum cs"
proof -
  let ?vs = "sorted_set (List.map_filter g ss)"
  let ?in = "\<lambda>v. filter (\<lambda>s. g s = Some v) ss"
  have vs: "set ?vs = {v. \<exists>s\<in>set ss. g s = Some v}" by (auto simp: map_filter_def image_iff) force
  let ?f = "\<lambda>v. try_bind (mk_regime_cell (?in v) minimum) (\<lambda>c. Inr (v, c))"
  have tm: "try_map ?f ?vs = Inr cs" using assms by (simp only: grouped_cells_def)
  have f: "?f v = Inr x \<Longrightarrow> fst x = v \<and> mk_regime_cell (?in v) minimum = Inr (snd x)" for v x
    by (auto simp: try_bind_Inr)
  have nth: "length cs = length ?vs" "\<And>i. i < length ?vs \<Longrightarrow>
      fst (cs ! i) = ?vs ! i \<and> mk_regime_cell (?in (?vs ! i)) minimum = Inr (snd (cs ! i))"
    using tm f unfolding try_map_nth by blast+
  have keys: "map fst cs = ?vs" using nth by (intro nth_equalityI) auto
  have cell: "mk_regime_cell (?in v) minimum = Inr c" if "(v, c) \<in> set cs" for v c
    using that nth by (fastforce simp: in_set_conv_nth)
  have counts: "rc_session_count c = int (length (?in v))" "rc_metrics c \<noteq> None \<longleftrightarrow> minimum \<le> rc_session_count c"
    if "(v, c) \<in> set cs" for v c
    using mk_regime_cell_Inr [OF cell [OF that]] by auto
  have "(\<Sum>(v, c)\<leftarrow>cs. rc_session_count c) = (\<Sum>vc\<leftarrow>cs. int (length (?in (fst vc))))"
    using counts(1) by (intro arg_cong [of _ _ sum_list] map_cong) auto
  also have "\<dots> = (\<Sum>v\<leftarrow>?vs. int (length (?in v)))" unfolding keys [symmetric] by (simp add: comp_def)
  also have "\<dots> = int (length (filter (\<lambda>s. g s \<noteq> None) ss))" by (rule sum_over_windows) (auto simp only: vs distinct_sorted_set)
  finally have "(\<Sum>(v, c)\<leftarrow>cs. rc_session_count c) = int (length (filter (\<lambda>s. g s \<noteq> None) ss))" .
  moreover have "list_all (\<lambda>(v, c). rc_session_count c = int (length (?in v)) \<and>
      (rc_metrics c \<noteq> None \<longleftrightarrow> minimum \<le> rc_session_count c)) cs"
    unfolding list_all_iff using counts by blast
  ultimately show ?thesis unfolding cells_partition_def keys using vs by simp
qed

section \<open>The worst sessions\<close>

lemma worst_count_bounds:
  assumes "0 < f" and "f \<le> 1 / 2" and "0 < n"
  shows "1 \<le> worst_count n f" and "worst_count n f \<le> int n"
proof -
  let ?n = "of_int (int n) :: rat"
  have "?n * f \<le> ?n * (1 / 2)" using assms(2) by (intro mult_left_mono) auto
  moreover have "0 \<le> ?n * f" using assms(1) by simp
  moreover have "fmul ?n f - ?n * f \<le> \<bar>?n * f\<bar> / 2 ^ 53"
    unfolding fmul_def by (rule order_trans [OF abs_ge_self rnd64_error])
  moreover have "\<bar>?n * f\<bar> = ?n * f" using \<open>0 \<le> ?n * f\<close> by (rule abs_of_nonneg)
  moreover have "?n * f / 2 ^ 53 \<le> ?n * f" using \<open>0 \<le> ?n * f\<close> by (simp add: divide_le_eq mult.commute [of f])
  ultimately have "fmul ?n f \<le> ?n" by linarith
  then have "\<lceil>fmul ?n f\<rceil> \<le> int n" by (simp only: ceiling_le_iff of_int_of_nat_eq)
  then show "1 \<le> worst_count n f" "worst_count n f \<le> int n" using assms(3) by (auto simp: worst_count_def)
qed

definition at_least_as_bad :: "worse_direction \<Rightarrow> rat \<Rightarrow> rat \<Rightarrow> bool" where
  "at_least_as_bad d x y \<longleftrightarrow> (case d of WorseHigher \<Rightarrow> y \<le> x | WorseLower \<Rightarrow> x \<le> y)"

lemma worst_ordered_sorted: "sorted_wrt (\<lambda>a b. at_least_as_bad d (fst a) (fst b)) (worst_ordered d vs)"
proof -
  let ?k = "\<lambda>(x :: rat, i :: string, s :: session_components). (x, i)"
  have key: "?k a \<le> ?k b \<Longrightarrow> fst a \<le> fst b" for a b :: "rat \<times> string \<times> session_components"
    by (cases a; cases b) (auto simp: less_eq_prod_def)
  have "sorted_wrt (\<lambda>a b. ?k a \<le> ?k b) (sort_key ?k us)" for us
    using sorted_sort_key [of ?k us] by (simp only: sorted_map)
  then have s: "sorted_wrt (\<lambda>a b. fst a \<le> fst b) (sort_key ?k us)" for us
    using key sorted_wrt_mono_rel [of "sort_key ?k us" "\<lambda>a b. ?k a \<le> ?k b" "\<lambda>a b. fst a \<le> fst b"] by blast
  show ?thesis
    using s [of vs] s [of "rev vs"]
    by (cases d) (simp_all add: worst_ordered_def at_least_as_bad_def sorted_desc_def sorted_wrt_rev)
qed

lemma worst_ordered_Nil [simp]: "worst_ordered d [] = []"
  by (cases d) (simp_all add: worst_ordered_def sorted_desc_def)

lemma mset_worst_ordered: "mset (worst_ordered d vs) = mset vs"
  by (cases d) (simp_all add: worst_ordered_def)

text \<open>C5. Of the sessions where the metric is defined, the analysis selects between one and all of them; the
  selected ones and the others make up all of them, none of the others is worse than a selected one, and
  nothing is selected exactly when no session has the metric.\<close>

theorem worst_sessions_selected:
  assumes "worst_decile_results ss directions f = Inr out" and "(metric, sel) \<in> set out"
  shows "\<exists>vs rest. session_values ss metric = Inr vs \<and> wd_eligible_session_count sel = int (length vs) \<and>
    wd_selected_session_count sel = worst_count (length vs) f \<and>
    int (length (wd_values sel)) = wd_selected_session_count sel \<and>
    (vs = [] \<longleftrightarrow> wd_values sel = []) \<and> (wd_aggregate sel = None \<longleftrightarrow> vs = []) \<and>
    mset (wd_values sel) + mset rest = mset (map fst vs) \<and>
    (\<forall>x\<in>set (wd_values sel). \<forall>y\<in>set rest. at_least_as_bad (wd_worse_direction sel) x y)"
proof -
  have f: "0 < f" "f \<le> 1 / 2" and tm: "try_map (select_worst ss f) directions = Inr out"
    using assms(1) by (auto simp: worst_decile_results_def split: if_splits)
  obtain e where e: "select_worst ss f e = Inr (metric, sel)" using try_map_member [OF tm assms(2)] by blast
  obtain d where d: "e = (metric, d)" using e by (cases e) (auto simp: select_worst_def try_bind_Inr Let_def)
  obtain vs agg where vs: "session_values ss metric = Inr vs"
    and sel: "sel = \<lparr>wd_worse_direction = d, wd_eligible_session_count = int (length (worst_ordered d vs)),
        wd_selected_session_count = worst_count (length (worst_ordered d vs)) f,
        wd_session_ids = map (\<lambda>(x, i, s). i) (take (nat (worst_count (length (worst_ordered d vs)) f)) (worst_ordered d vs)),
        wd_values = map fst (take (nat (worst_count (length (worst_ordered d vs)) f)) (worst_ordered d vs)),
        wd_aggregate = agg\<rparr>"
    and agg: "(if take (nat (worst_count (length (worst_ordered d vs)) f)) (worst_ordered d vs) \<noteq> []
        then try_bind (aggregate_governed_metrics (map (\<lambda>(x, i, s). s)
          (take (nat (worst_count (length (worst_ordered d vs)) f)) (worst_ordered d vs)))) (\<lambda>m. Inr (Some m))
        else Inr None) = Inr agg"
    using e by (auto simp: d select_worst_def try_bind_Inr Let_def)
  have len: "length (worst_ordered d vs) = length vs" using mset_worst_ordered by (rule mset_eq_length)
  define n where "n = nat (worst_count (length vs) f)"
  have n: "vs \<noteq> [] \<Longrightarrow> 1 \<le> n \<and> n \<le> length vs" "int n = worst_count (length vs) f"
    using worst_count_bounds [OF f, of "length vs"] by (cases "vs = []"; auto simp: n_def worst_count_def)+
  have nil: "take n (worst_ordered d vs) = [] \<longleftrightarrow> vs = []" using n(1) len by (cases "vs = []") auto
  define rest where "rest = map fst (drop n (worst_ordered d vs))"
  have vals: "wd_values sel = map fst (take n (worst_ordered d vs))" by (simp add: sel len n_def)
  have "mset (wd_values sel) + mset rest = mset (map fst (worst_ordered d vs))"
    unfolding vals rest_def by (metis append_take_drop_id map_append mset_append)
  also have "\<dots> = mset (map fst vs)" by (simp add: mset_worst_ordered)
  finally have m: "mset (wd_values sel) + mset rest = mset (map fst vs)" .
  have "sorted_wrt (\<lambda>a b. at_least_as_bad d (fst a) (fst b)) (take n (worst_ordered d vs) @ drop n (worst_ordered d vs))"
    using worst_ordered_sorted by simp
  then have w: "\<forall>x\<in>set (wd_values sel). \<forall>y\<in>set rest. at_least_as_bad d x y"
    unfolding vals rest_def sorted_wrt_append by auto
  have a: "wd_aggregate sel = None \<longleftrightarrow> vs = []" using agg nil by (auto simp: sel len n_def try_bind_Inr split: if_splits)
  have "int (length (wd_values sel)) = wd_selected_session_count sel"
    using n by (cases "vs = []") (auto simp: vals sel len worst_count_def)
  moreover have "wd_eligible_session_count sel = int (length vs)" "wd_selected_session_count sel = worst_count (length vs) f"
    "wd_worse_direction sel = d" "vs = [] \<longleftrightarrow> wd_values sel = []"
    using nil by (simp_all add: sel len n_def)
  ultimately show ?thesis using vs m w a
    by (intro exI [of _ vs] exI [of _ rest] conjI) (assumption | simp)+
qed

definition rated_session :: "string \<Rightarrow> int \<Rightarrow> (string, string) dict \<Rightarrow> session_components" where
  "rated_session i fp regimes = \<lparr>sm_base_session_id = i, sm_instrument = ''X'', sm_regimes = regimes,
     sm_true_positive = 1, sm_false_positive = fp, sm_false_negative = 1, sm_true_negative = 1,
     sm_evaluable_event_count = 1000, sm_raw_false_alert_count = fp, sm_false_alert_cluster_count = fp,
     sm_raw_evaluable_alert_count = fp + 1, sm_evaluable_alert_cluster_count = fp + 1,
     sm_benefit_eligible_attack_count = 0, sm_detected_before_benefit_count = 0, sm_detection_latencies_ns = [fp]\<rparr>"

definition rated_sessions :: "session_components list" where
  "rated_sessions = [rated_session ''a'' 1 [(''liquidity'', ''thin'')], rated_session ''b'' 3 [(''liquidity'', ''deep'')],
     rated_session ''c'' 2 [(''liquidity'', ''thin'')]]"

lemma rated_worst:
  "map_sum id (map (\<lambda>(m, s). (m, wd_session_ids s, wd_values s)))
     (worst_decile_results rated_sessions [(''false_positive'', WorseHigher), (''recall'', WorseLower)] (1 / 2)) =
   Inr [(''false_positive'', [''b'', ''c''], [3, 2]), (''recall'', [''a'', ''b''], [1 / 2, 1 / 2])]"
  by code_simp

theorem worst_sessions_selected_witness:
  "\<exists>out sel. worst_decile_results rated_sessions [(''false_positive'', WorseHigher), (''recall'', WorseLower)] (1 / 2) = Inr out \<and>
     (''false_positive'', sel) \<in> set out \<and>
     (\<exists>vs. session_values rated_sessions ''false_positive'' = Inr vs \<and> wd_eligible_session_count sel = int (length vs))"
proof -
  obtain out where o: "worst_decile_results rated_sessions [(''false_positive'', WorseHigher), (''recall'', WorseLower)] (1 / 2) = Inr out"
    "map (\<lambda>(m, s). (m, wd_session_ids s, wd_values s)) out =
      [(''false_positive'', [''b'', ''c''], [3, 2]), (''recall'', [''a'', ''b''], [1 / 2, 1 / 2])]"
    using rated_worst
    by (cases "worst_decile_results rated_sessions [(''false_positive'', WorseHigher), (''recall'', WorseLower)] (1 / 2)") auto
  then obtain sel where sel: "(''false_positive'', sel) \<in> set out" by (cases out) auto
  from worst_sessions_selected [OF o(1) sel] o sel show ?thesis by blast
qed

section \<open>The matrix\<close>

definition cross_value :: "session_components \<Rightarrow> string option" where
  "cross_value s = (case cross_key s of Inl _ \<Rightarrow> None | Inr k \<Rightarrow> Some k)"

lemma try_map_entries:
  assumes "try_map (\<lambda>d. try_bind (g d) (\<lambda>c. Inr (d, c))) ds = Inr ys" and "d \<in> set ds"
  shows "\<exists>c. g d = Inr c \<and> map_of ys d = Some c"
  using assms by (induction ds arbitrary: ys) (auto simp: try_bind_Inr)

definition crossed :: "session_components list \<Rightarrow> bool" where
  "crossed ss \<longleftrightarrow> {''liquidity'', ''volatility''} \<subseteq> set (regime_dimensions ss)"

lemma matrix_parts:
  assumes "regime_metric_matrix ss k = Inr m"
  obtains m0 where "try_map (\<lambda>d. try_bind (grouped_cells (\<lambda>s. dget (sm_regimes s) d) ss k) (\<lambda>cs. Inr (d, cs)))
      (regime_dimensions ss) = Inr m0" and "\<not> crossed ss \<Longrightarrow> m = m0"
    and "crossed ss \<Longrightarrow> \<exists>ks cs. try_map cross_key ss = Inr ks \<and> grouped_cells cross_value ss k = Inr cs \<and>
      m = dset ''liquidity_x_volatility'' cs m0"
  using assms unfolding regime_metric_matrix_def Let_def crossed_def [symmetric] cross_value_def [abs_def, symmetric]
  by (auto simp: try_bind_Inr split: if_splits)

lemma cross_total:
  assumes "regime_metric_matrix ss k = Inr m" and "crossed ss"
  shows "list_all (\<lambda>s. cross_value s \<noteq> None) ss"
  by (rule matrix_parts [OF assms(1)]) (use assms(2) in \<open>auto simp: try_map_nth list_all_length cross_value_def\<close>)

text \<open>In an accepted matrix every dimension has its cells, which partition the sessions that have the
  dimension; cells are reported with metrics exactly when they are large enough. When liquidity and
  volatility both occur, their product partitions all sessions.\<close>

theorem regime_cells_partition:
  assumes "regime_metric_matrix ss k = Inr m" and "d \<in> set (regime_dimensions ss)"
  shows "(d \<noteq> ''liquidity_x_volatility'' \<longrightarrow>
      (\<exists>cs. dget m d = Some cs \<and> cells_partition (\<lambda>s. dget (sm_regimes s) d) ss k cs)) \<and>
    (crossed ss \<longrightarrow> (\<exists>cs. dget m ''liquidity_x_volatility'' = Some cs \<and> cells_partition cross_value ss k cs \<and>
        list_all (\<lambda>s. cross_value s \<noteq> None) ss))"
proof (rule matrix_parts [OF assms(1)])
  fix m0
  assume m0: "try_map (\<lambda>d. try_bind (grouped_cells (\<lambda>s. dget (sm_regimes s) d) ss k) (\<lambda>cs. Inr (d, cs)))
      (regime_dimensions ss) = Inr m0"
    and plain: "\<not> crossed ss \<Longrightarrow> m = m0"
    and cross: "crossed ss \<Longrightarrow> \<exists>ks cs. try_map cross_key ss = Inr ks \<and> grouped_cells cross_value ss k = Inr cs \<and>
      m = dset ''liquidity_x_volatility'' cs m0"
  obtain cs where cs: "grouped_cells (\<lambda>s. dget (sm_regimes s) d) ss k = Inr cs" "dget m0 d = Some cs"
    using try_map_entries [OF m0 assms(2)] by blast
  have "dget m d = Some cs" if "d \<noteq> ''liquidity_x_volatility''"
    using cs(2) that plain cross by (cases "crossed ss") (auto simp: dict_laws)
  moreover have "\<exists>cs. dget m ''liquidity_x_volatility'' = Some cs \<and> cells_partition cross_value ss k cs \<and>
      list_all (\<lambda>s. cross_value s \<noteq> None) ss" if c: "crossed ss"
  proof -
    obtain xs where x: "grouped_cells cross_value ss k = Inr xs" "m = dset ''liquidity_x_volatility'' xs m0"
      using cross [OF c] by blast
    then have "dget m ''liquidity_x_volatility'' = Some xs" by (simp add: dict_laws)
    with grouped_cells_partition [OF x(1)] cross_total [OF assms(1) c] show ?thesis by blast
  qed
  ultimately show ?thesis using grouped_cells_partition [OF cs(1)] by blast
qed

theorem regime_cells_partition_witness:
  "\<exists>m cs. regime_metric_matrix rated_sessions 2 = Inr m \<and> dget m ''liquidity'' = Some cs \<and>
     cells_partition (\<lambda>s. dget (sm_regimes s) ''liquidity'') rated_sessions 2 cs"
proof -
  have "case regime_metric_matrix rated_sessions 2 of Inl e \<Rightarrow> False | Inr m \<Rightarrow> True" by code_simp
  then obtain m where m: "regime_metric_matrix rated_sessions 2 = Inr m" by (auto split: sum.splits)
  have d: "''liquidity'' \<in> set (regime_dimensions rated_sessions)" by code_simp
  from regime_cells_partition [OF m d] m show ?thesis by auto
qed

text \<open>
  The loop over one dimension leaves out the sessions that lack it, the cross of liquidity and volatility
  does not: one session without regimes makes the whole matrix raise.
\<close>

theorem session_without_regimes_breaks_matrix:
  assumes "crossed ss" and "s \<in> set ss" and "sm_regimes s = []"
  shows "regime_metric_matrix ss k \<noteq> Inr m"
proof
  assume "regime_metric_matrix ss k = Inr m"
  from cross_total [OF this assms(1)] have "cross_value s \<noteq> None" using assms(2) by (simp add: list_all_iff)
  then show False using assms(3) by (simp add: cross_value_def cross_key_def)
qed

section \<open>Fitting\<close>

definition fit_row :: "string \<Rightarrow> rat \<Rightarrow> regime_fit_row" where
  "fit_row i spread = \<lparr>rf_base_session_id = i, rf_feature_schema_version = ''v1'', rf_feature_config_hash = ''h'',
     rf_liquidity_score = 1, rf_realized_volatility_long = 1, rf_spread_bps = spread, rf_message_rate_long = 1\<rparr>"

text \<open>
  Five sessions with the same spread of 0.11: interpolation rounds the lower threshold above the upper
  one, and fitting raises. With a spread of one it succeeds.
\<close>

theorem constant_spread_rejected:
  "fit_regime_thresholds h (map (\<lambda>i. fit_row i (flit (11 / 100))) [''a'', ''b'', ''c'', ''d'', ''e'']) =
     Inl (ValueError ''regime lower boundary must not exceed upper'') \<and>
   map_sum id rt_fit_row_count (fit_regime_thresholds (\<lambda>_. ''h'') (map (\<lambda>i. fit_row i 1) [''a'', ''b'', ''c'', ''d'', ''e'']))
     = Inr 5"
  by (intro conjI; code_simp)

text \<open>
  Rows that agree in all four features keep their order in the canonical list, so the digest of the fit
  input depends on the order in which the same rows were given.
\<close>

theorem fit_digest_depends_on_order:
  "map_sum id rt_fit_input_hash (fit_regime_thresholds (\<lambda>rs. rf_base_session_id (hd rs)) (map (\<lambda>i. fit_row i 1) [''a'', ''b'', ''c'']))
     = Inr ''a'' \<and>
   map_sum id rt_fit_input_hash (fit_regime_thresholds (\<lambda>rs. rf_base_session_id (hd rs)) (map (\<lambda>i. fit_row i 1) [''b'', ''a'', ''c'']))
     = Inr ''b''"
  by (intro conjI; code_simp)

lemma sort_same_mset: "mset xs = mset ys \<Longrightarrow> sort xs = sort ys"
  by (metis sorted_list_of_multiset_mset)

text \<open>The boundaries themselves do not.\<close>

theorem boundaries_ignore_order: "mset rows = mset rows' \<Longrightarrow> fit_boundary rows f = fit_boundary rows' f"
proof -
  assume "mset rows = mset rows'"
  then have "sort (map f rows) = sort (map f rows')" by (intro sort_same_mset) simp
  then show ?thesis by (simp add: fit_boundary_def)
qed

end
