(* ===== verification/RunPlanning.thy ===== *)
theory RunPlanning
  imports SplitCounts Determinism
begin

text \<open>
  Run planning, \<open>backend/app/evaluation/run_planning.py\<close>: run seeds, difficulty mixes, and plans with exact
  counts. \<open>random.Random(seed)\<close> is a parameter: \<open>shuffle seed\<close> permutes a list, and the draws of
  \<open>engine_profile\<close> come from the record \<open>profile_draws\<close>. The digest \<open>sha256\<close> is a parameter too.
\<close>

definition derive_run_seed :: "(int list \<Rightarrow> int list) \<Rightarrow> int \<Rightarrow> int \<Rightarrow> py_error + int" where
  "derive_run_seed sha256 base_seed run_index =
     (if base_seed < 0 \<or> run_index < 0 then Inl (ValueError ''base seed and run index must be non-negative'')
      else Inr (int_from_bytes (take 8 (sha256 (map byte_of_char
        (''lob-arena:'' @ int_dec base_seed @ '':'' @ int_dec run_index)))) mod 2147483647))"

section \<open>Difficulty mixes\<close>

definition difficulties :: "string list" where
  "difficulties = [''easy'', ''medium'', ''hard'', ''adversarial'']"

definition default_difficulty_mix :: "(string, rat) dict" where
  "default_difficulty_mix =
     [(''easy'', flit (2 / 10)), (''medium'', flit (5 / 10)), (''hard'', flit (2 / 10)), (''adversarial'', flit (1 / 10))]"

text \<open>A mix given as text is decoded first; the argument is the decoded mapping.\<close>

definition parse_difficulty_mix :: "(string, rat) dict \<Rightarrow> py_error + rat list" where
  "parse_difficulty_mix decoded =
     (let unknown = filter (\<lambda>k. k \<notin> set difficulties) (dkeys decoded) in
      if unknown \<noteq> [] then Inl (ValueError (''unknown difficulties: '' @ str_join '', '' (sort unknown)))
      else
        let weights = map (dget_or 0 decoded) difficulties in
        if list_ex (\<lambda>w. w < 0) weights \<or> fsum weights \<le> 0
        then Inl (ValueError ''difficulty weights must be non-negative and sum to more than zero'')
        else Inr (map (\<lambda>w. fdiv w (fsum weights)) weights))"

section \<open>Plans\<close>

definition exact_balanced_plan ::
  "(int \<Rightarrow> string list \<Rightarrow> string list) \<Rightarrow> int \<Rightarrow> string list \<Rightarrow> int \<Rightarrow> py_error + string list" where
  "exact_balanced_plan shuffle total_runs values seed =
     (if total_runs < 1 then Inl (ValueError ''total must be positive'')
      else if values = [] then Inl (ValueError ''at least one value is required'')
      else Inr (shuffle seed (map (\<lambda>i. values ! (i mod length values)) [0..<nat total_runs])))"

text \<open>\<open>int(x)\<close> truncates toward zero.\<close>

definition py_trunc :: "rat \<Rightarrow> int" where
  "py_trunc x = (if x < 0 then \<lceil>x\<rceil> else \<lfloor>x\<rfloor>)"

definition weighted_counts :: "rat list \<Rightarrow> int \<Rightarrow> int list" where
  "weighted_counts normalized total_runs =
     (let raw = map (\<lambda>w. fmul w (flit (of_int total_runs))) normalized;
          counts = map py_trunc raw;
          remaining = total_runs - sum_list counts;
          ranked = sorted_desc (\<lambda>i. (fsub (raw ! i) (flit (of_int (counts ! i))), - int i)) [0..<length raw];
          chosen = py_prefix remaining ranked
      in map (\<lambda>i. counts ! i + (if i \<in> set chosen then 1 else 0)) [0..<length raw])"

definition exact_weighted_plan ::
  "(int \<Rightarrow> string list \<Rightarrow> string list) \<Rightarrow> int \<Rightarrow> (string, rat) dict \<Rightarrow> int \<Rightarrow> py_error + string list" where
  "exact_weighted_plan shuffle total_runs weights seed =
     try_bind (parse_difficulty_mix weights) (\<lambda>normalized.
       Inr (shuffle seed (concat (map (\<lambda>(name, n). replicate (nat n) name)
         (zip difficulties (weighted_counts normalized total_runs))))))"

section \<open>Engine profiles\<close>

record engine_profile =
  ep_baseline_liquidity_reference_price :: "rat option"
  ep_baseline_liquidity_tick_size :: "rat option"
  ep_baseline_liquidity_base_size :: rat
  ep_normal_agent_count :: int

definition base_profiles :: "(string, rat \<times> int) dict" where
  "base_profiles = [(''easy'', (1, 2)), (''medium'', (3 / 2, 3)), (''hard'', (5 / 2, 4)), (''adversarial'', (4, 5))]"

text \<open>The four draws of a seeded profile: two \<open>uniform\<close> results and two \<open>choice\<close> results.\<close>

record profile_draws =
  pd_price_factor :: rat
  pd_tick_size :: rat
  pd_size_factor :: rat
  pd_agent_delta :: int

definition engine_profile_of :: "(int \<Rightarrow> profile_draws) \<Rightarrow> string \<Rightarrow> int option \<Rightarrow> py_error + engine_profile" where
  "engine_profile_of draws difficulty seed =
     (case dget base_profiles difficulty of
        None \<Rightarrow> Inl (ValueError (''unknown difficulty: '' @ difficulty))
      | Some (base_size, agents) \<Rightarrow>
          (case seed of
             None \<Rightarrow> Inr \<lparr>ep_baseline_liquidity_reference_price = None, ep_baseline_liquidity_tick_size = None,
               ep_baseline_liquidity_base_size = base_size, ep_normal_agent_count = agents\<rparr>
           | Some s \<Rightarrow>
               Inr \<lparr>ep_baseline_liquidity_reference_price = Some (fround 2 (fmul 68125 (pd_price_factor (draws s)))),
                 ep_baseline_liquidity_tick_size = Some (pd_tick_size (draws s)),
                 ep_baseline_liquidity_base_size = fround 3 (fmul base_size (pd_size_factor (draws s))),
                 ep_normal_agent_count = max 1 (agents + pd_agent_delta (draws s))\<rparr>))"

section \<open>Balanced plans\<close>

text \<open>How often a residue occurs among the first numbers.\<close>

lemma residue_count:
  "r < k \<Longrightarrow> length (filter (\<lambda>i. i mod k = r) [0..<n]) = n div k + (if r < n mod k then 1 else 0)"
proof (induction n)
  case (Suc n)
  then have m: "n mod k < k" by (intro mod_less_divisor) simp
  have IH: "length (filter (\<lambda>i. i mod k = r) [0..<n]) = n div k + (if r < n mod k then 1 else 0)" using Suc by simp
  have step: "length (filter (\<lambda>i. i mod k = r) [0..<Suc n]) =
      n div k + (if r < n mod k then 1 else 0) + (if n mod k = r then 1 else 0)"
    using IH by simp
  show ?case
  proof (cases "Suc (n mod k) = k")
    case True
    then have "Suc n mod k = 0" "Suc n div k = Suc (n div k)" by (simp_all add: mod_Suc div_Suc)
    then show ?thesis unfolding step using True Suc.prems by simp
  next
    case False
    then have "Suc n mod k = Suc (n mod k)" "Suc n div k = n div k" by (simp_all add: mod_Suc div_Suc)
    then show ?thesis unfolding step by simp
  qed
qed simp

definition shuffles :: "(int \<Rightarrow> string list \<Rightarrow> string list) \<Rightarrow> bool" where
  "shuffles shuffle \<longleftrightarrow> (\<forall>seed xs. mset (shuffle seed xs) = mset xs)"

lemma count_list_mset: "mset xs = mset ys \<Longrightarrow> count_list xs v = count_list ys v"
  by (metis count_mset)

text \<open>A balanced plan has the requested length, and any two values occur equally often up to one.\<close>

theorem balanced_plan_counts:
  assumes "exact_balanced_plan shuffle n values seed = Inr plan" and "shuffles shuffle" and "distinct values"
    and "u \<in> set values" and "v \<in> set values"
  shows "int (length plan) = n \<and> count_list plan u \<le> count_list plan v + 1"
proof -
  let ?k = "length values"
  define base where "base = map (\<lambda>i. values ! (i mod ?k)) [0..<nat n]"
  have n: "1 \<le> n" "0 < ?k" and plan: "plan = shuffle seed base"
    using assms(1) by (auto simp: exact_balanced_plan_def base_def split: if_splits)
  then have m: "mset plan = mset base" using assms(2) by (simp add: shuffles_def)
  have cnt: "\<exists>r. count_list base w = nat n div ?k + (if r < nat n mod ?k then 1 else 0)"
    if w: "w \<in> set values" for w
  proof -
    obtain r where r: "r < ?k" "w = values ! r" using w by (auto simp: in_set_conv_nth)
    have eq: "w = values ! (i mod ?k) \<longleftrightarrow> i mod ?k = r" for i
      using nth_eq_iff_index_eq [OF assms(3) r(1), of "i mod ?k"] n(2) r(2) by auto
    have "count_list base w = length (filter (\<lambda>i. w = values ! (i mod ?k)) [0..<nat n])"
      unfolding base_def count_list_eq_length_filter filter_map by (simp add: comp_def)
    also have "\<dots> = length (filter (\<lambda>i. i mod ?k = r) [0..<nat n])" by (simp only: eq)
    finally have "count_list base w = length (filter (\<lambda>i. i mod ?k = r) [0..<nat n])" .
    with residue_count [OF r(1)] show ?thesis by auto
  qed
  have "count_list base u \<le> count_list base v + 1"
    using cnt [OF assms(4)] cnt [OF assms(5)] by (auto split: if_splits)
  then show ?thesis using m n(1) count_list_mset [OF m] mset_eq_length [OF m] by (simp add: base_def)
qed

section \<open>Weighted plans\<close>

lemma rnd64_relative:
  assumes "0 \<le> x"
  shows "(1 - ulp) * x \<le> rnd64 x" and "rnd64 x \<le> (1 + ulp) * x"
  using rnd64_close [of x x] assms by (simp_all add: algebra_simps abs_le_iff)

lemma fsum_relative:
  "\<forall>x\<in>set xs. 0 \<le> x \<Longrightarrow> 0 \<le> a \<Longrightarrow>
     (1 - ulp) ^ length xs * (a + sum_list xs) \<le> foldl fadd a xs \<and>
     foldl fadd a xs \<le> (1 + ulp) ^ length xs * (a + sum_list xs)"
proof (induction xs arbitrary: a)
  case (Cons x xs)
  have ax: "0 \<le> a + x" "0 \<le> sum_list xs" using Cons.prems by (simp_all add: sum_list_nonneg)
  have f: "(1 - ulp) * (a + x) \<le> fadd a x" "fadd a x \<le> (1 + ulp) * (a + x)"
    unfolding fadd_def using rnd64_relative [OF ax(1)] by auto
  have u: "0 \<le> 1 - ulp" "1 - ulp \<le> 1" "1 \<le> 1 + ulp" using ulp_small by linarith+
  have "0 \<le> fadd a x" using Cons.prems by (intro fadd_nonneg) auto
  note IH = Cons.IH [OF _ this]
  have s: "(1 - ulp) * sum_list xs \<le> sum_list xs" "sum_list xs \<le> (1 + ulp) * sum_list xs"
    using mult_right_mono [OF u(2) ax(2)] mult_right_mono [OF u(3) ax(2)] by simp_all
  have "(1 - ulp) * (a + x + sum_list xs) \<le> fadd a x + sum_list xs"
    using f(1) s(1) by (simp only: distrib_left [of _ "a + x"])
  then have "(1 - ulp) ^ length xs * ((1 - ulp) * (a + x + sum_list xs)) \<le> (1 - ulp) ^ length xs * (fadd a x + sum_list xs)"
    using u by (intro mult_left_mono) auto
  also have "\<dots> \<le> foldl fadd (fadd a x) xs" using IH Cons.prems by simp
  finally have lo: "(1 - ulp) ^ length (x # xs) * (a + sum_list (x # xs)) \<le> foldl fadd a (x # xs)"
    by (simp add: add.assoc mult.assoc mult.left_commute)
  have "fadd a x + sum_list xs \<le> (1 + ulp) * (a + x + sum_list xs)"
    using f(2) s(2) by (simp only: distrib_left [of _ "a + x"])
  then have "(1 + ulp) ^ length xs * (fadd a x + sum_list xs) \<le> (1 + ulp) ^ length xs * ((1 + ulp) * (a + x + sum_list xs))"
    using u by (intro mult_left_mono) auto
  moreover have "foldl fadd (fadd a x) xs \<le> (1 + ulp) ^ length xs * (fadd a x + sum_list xs)"
    using IH Cons.prems by simp
  ultimately have "foldl fadd a (x # xs) \<le> (1 + ulp) ^ length (x # xs) * (a + sum_list (x # xs))"
    by (simp add: add.assoc mult.assoc mult.left_commute)
  with lo show ?case ..
qed auto

definition weight_share :: "rat list \<Rightarrow> int \<Rightarrow> rat \<Rightarrow> rat" where
  "weight_share weights r w = fmul (fdiv w (fsum weights)) (flit (of_int r))"

lemma weight_share_relative:
  assumes "0 \<le> w" and "0 < fsum ws" and "0 \<le> r" and "r \<le> 2 ^ 30"
  shows "(1 - ulp) ^ 2 * (w * of_int r / fsum ws) \<le> weight_share ws r w"
    and "weight_share ws r w \<le> (1 + ulp) ^ 2 * (w * of_int r / fsum ws)"
proof -
  have e: "flit (of_int r) = of_int r" unfolding flit_def using assms(3,4) by (intro rnd64_of_int) auto
  have q: "0 \<le> w / fsum ws" and rr: "0 \<le> (of_int r :: rat)" using assms by auto
  have u: "0 \<le> 1 - ulp" "0 \<le> 1 + ulp" using ulp_small by linarith+
  have n: "(1 - ulp) * (w / fsum ws) \<le> fdiv w (fsum ws)" "fdiv w (fsum ws) \<le> (1 + ulp) * (w / fsum ws)" "0 \<le> fdiv w (fsum ws)"
    using rnd64_relative [OF q] assms by (simp_all add: fdiv_def rnd64_signs)
  have m: "(1 - ulp) * (fdiv w (fsum ws) * of_int r) \<le> weight_share ws r w"
    "weight_share ws r w \<le> (1 + ulp) * (fdiv w (fsum ws) * of_int r)"
    using rnd64_relative [of "fdiv w (fsum ws) * of_int r"] n(3) rr by (simp_all add: weight_share_def e fmul_def)
  have "(1 - ulp) * ((1 - ulp) * (w / fsum ws) * of_int r) \<le> (1 - ulp) * (fdiv w (fsum ws) * of_int r)"
    using n(1) rr u by (intro mult_left_mono mult_right_mono) auto
  with m(1) show "(1 - ulp) ^ 2 * (w * of_int r / fsum ws) \<le> weight_share ws r w"
    by (simp add: power2_eq_square mult.assoc)
  have "(1 + ulp) * (fdiv w (fsum ws) * of_int r) \<le> (1 + ulp) * ((1 + ulp) * (w / fsum ws) * of_int r)"
    using n(2) rr u by (intro mult_left_mono mult_right_mono) auto
  with m(2) show "weight_share ws r w \<le> (1 + ulp) ^ 2 * (w * of_int r / fsum ws)"
    by (simp add: power2_eq_square mult.assoc)
qed

lemma sum_list_bounds:
  fixes f :: "'a \<Rightarrow> rat"
  shows "\<forall>x\<in>set xs. l * g x \<le> f x \<and> f x \<le> h * g x \<Longrightarrow>
    l * (\<Sum>x\<leftarrow>xs. g x) \<le> (\<Sum>x\<leftarrow>xs. f x) \<and> (\<Sum>x\<leftarrow>xs. f x) \<le> h * (\<Sum>x\<leftarrow>xs. g x)"
  by (induction xs) (auto simp: distrib_left intro: add_mono)

lemma weight_share_total:
  assumes len: "length ws = 4" and ws: "\<forall>w\<in>set ws. 0 \<le> w" "0 < fsum ws" and r: "0 \<le> r" "r \<le> 2 ^ 30"
  shows "\<bar>sum_list (map (weight_share ws r) ws) - of_int r\<bar> < 1"
proof -
  let ?T = "fsum ws" and ?S = "sum_list ws" and ?r = "of_int r :: rat"
  have T: "(1 - ulp) ^ 4 * ?S \<le> ?T" "?T \<le> (1 + ulp) ^ 4 * ?S"
    using fsum_relative [of ws 0] ws(1) len by (simp_all add: fsum_def)
  have r30: "0 \<le> ?r" "?r \<le> 2 ^ 30" using r by (simp, metis of_int_le_iff of_int_numeral of_int_power)
  have S: "0 \<le> ?S / ?T" using ws by (intro divide_nonneg_pos sum_list_nonneg) auto
  have c: "(1 - ulp) ^ 4 * (?S / ?T) \<le> 1" "1 \<le> (1 + ulp) ^ 4 * (?S / ?T)"
    using T ws(2) by (simp_all add: pos_divide_le_eq pos_le_divide_eq)
  have "(\<Sum>w\<leftarrow>vs. w * ?r / t) = sum_list vs / t * ?r" for vs :: "rat list" and t
    by (induction vs) (simp_all add: algebra_simps add_divide_distrib)
  then have eq: "(\<Sum>w\<leftarrow>ws. w * ?r / ?T) = ?S / ?T * ?r" .
  have b: "(1 - ulp) ^ 2 * (?S / ?T * ?r) \<le> sum_list (map (weight_share ws r) ws)"
    "sum_list (map (weight_share ws r) ws) \<le> (1 + ulp) ^ 2 * (?S / ?T * ?r)"
    using sum_list_bounds [of ws "(1 - ulp) ^ 2" "\<lambda>w. w * ?r / ?T" "weight_share ws r" "(1 + ulp) ^ 2"]
      weight_share_relative [OF _ ws(2) r] ws(1) unfolding eq by blast+
  have k: "(1 + ulp) ^ 2 \<le> (1 + 10 * ulp) * (1 - ulp) ^ 4" "(1 - 10 * ulp) * (1 + ulp) ^ 4 \<le> (1 - ulp) ^ 2"
    by (simp_all add: ulp_def power_numeral_reduce)
  have "(1 + ulp) ^ 2 * (?S / ?T) \<le> (1 + 10 * ulp) * ((1 - ulp) ^ 4 * (?S / ?T))"
    using mult_right_mono [OF k(1) S] by (simp add: mult.assoc)
  also have "\<dots> \<le> (1 + 10 * ulp) * 1" using c(1) ulp_small by (intro mult_left_mono) auto
  finally have "(1 + ulp) ^ 2 * (?S / ?T) * ?r \<le> (1 + 10 * ulp) * ?r" using r30(1) by (intro mult_right_mono) auto
  moreover have "(1 - 10 * ulp) * 1 \<le> (1 - 10 * ulp) * ((1 + ulp) ^ 4 * (?S / ?T))"
    using c(2) ulp_small by (intro mult_left_mono) auto
  then have "1 - 10 * ulp \<le> (1 - ulp) ^ 2 * (?S / ?T)"
    using mult_right_mono [OF k(2) S] by (simp add: mult.assoc)
  then have "(1 - 10 * ulp) * ?r \<le> (1 - ulp) ^ 2 * (?S / ?T) * ?r" using r30(1) by (intro mult_right_mono) auto
  moreover have "10 * ulp * ?r \<le> 10 * ulp * 2 ^ 30" using r30(2) ulp_small by (intro mult_left_mono) auto
  moreover have "10 * ulp * 2 ^ 30 < (1 :: rat)" by (simp add: ulp_def)
  ultimately show ?thesis using b by (simp add: algebra_simps abs_less_iff)
qed

section \<open>Handing out the remainder\<close>

lemma floor_list_total:
  assumes "\<bar>sum_list xs - of_int r\<bar> < (1 :: rat)"
  shows "0 \<le> r - sum_list (map floor xs)" and "r - sum_list (map floor xs) \<le> int (length xs)"
proof -
  have lo: "of_int (sum_list (map floor xs)) \<le> sum_list xs" for xs :: "rat list"
    by (induction xs) (simp_all add: add_mono)
  have hi: "sum_list xs \<le> of_int (sum_list (map floor xs)) + of_int (int (length xs))" for xs :: "rat list"
  proof (induction xs)
    case (Cons x xs)
    have "x \<le> of_int \<lfloor>x\<rfloor> + 1" by linarith
    with Cons show ?case by simp
  qed simp
  have "of_int (sum_list (map floor xs)) < (of_int (r + 1) :: rat)"
    "(of_int r :: rat) < of_int (sum_list (map floor xs) + int (length xs) + 1)"
    using assms lo [of xs] hi [of xs] unfolding abs_less_iff of_int_add of_int_1 by linarith+
  then show "0 \<le> r - sum_list (map floor xs)" "r - sum_list (map floor xs) \<le> int (length xs)"
    unfolding of_int_less_iff by linarith+
qed

lemma chosen_total:
  assumes "mset ranked = mset [0..<k]" and "n \<le> k"
  shows "(\<Sum>i\<leftarrow>[0..<k]. if i \<in> set (take n ranked) then 1 else 0 :: int) = int n"
proof -
  have d: "distinct ranked" "set ranked = {0..<k}" "length ranked = k"
    using mset_eq_imp_distinct_iff [OF assms(1)] mset_eq_setD [OF assms(1)] mset_eq_length [OF assms(1)] by auto
  have sub: "set (take n ranked) \<subseteq> {0..<k}" using set_take_subset d(2) by metis
  have "(\<Sum>i\<leftarrow>[0..<k]. if i \<in> set (take n ranked) then 1 else 0 :: int)
      = (\<Sum>i\<in>{0..<k}. if i \<in> set (take n ranked) then 1 else 0)"
    by (simp add: sum_list_distinct_conv_sum_set)
  also have "\<dots> = int (card ({0..<k} \<inter> set (take n ranked)))" by (simp add: sum.inter_restrict [symmetric])
  also have "{0..<k} \<inter> set (take n ranked) = set (take n ranked)" using sub by auto
  also have "card (set (take n ranked)) = n" using d assms(2) by (simp add: distinct_card)
  finally show ?thesis .
qed

lemma weighted_counts_exact:
  assumes "\<forall>x\<in>set raw. 0 \<le> x" and "\<bar>sum_list raw - of_int r\<bar> < 1"
    and "raw = map (\<lambda>w. fmul w (flit (of_int r))) normalized"
  shows "sum_list (weighted_counts normalized r) = r \<and> length (weighted_counts normalized r) = length raw \<and>
    (\<forall>i<length raw. 0 \<le> weighted_counts normalized r ! i \<and> \<bar>of_int (weighted_counts normalized r ! i) - raw ! i\<bar> \<le> 1)"
proof -
  let ?counts = "map py_trunc raw"
  define left where "left = r - sum_list (map floor raw)"
  define ranked where "ranked = sorted_desc (\<lambda>i. (fsub (raw ! i) (flit (of_int (?counts ! i))), - int i)) [0..<length raw]"
  have counts: "?counts = map floor raw" using assms(1) by (intro map_cong) (auto simp: py_trunc_def)
  have left: "0 \<le> left" "left \<le> int (length raw)" using floor_list_total [OF assms(2)] by (simp_all add: left_def)
  define ch where "ch = set (take (nat left) ranked)"
  have eq: "weighted_counts normalized r = map (\<lambda>i. ?counts ! i + (if i \<in> ch then 1 else 0)) [0..<length raw]"
    using left unfolding weighted_counts_def Let_def assms(3) [symmetric] ch_def ranked_def counts left_def
    by (simp add: py_prefix_def)
  have "(\<Sum>i\<leftarrow>[0..<length raw]. if i \<in> ch then 1 else 0 :: int) = left"
    using chosen_total [of ranked "length raw" "nat left"] left by (simp add: ranked_def ch_def)
  moreover have "(\<Sum>i\<leftarrow>[0..<length raw]. ?counts ! i) = sum_list (map floor raw)"
    unfolding counts by (metis length_map map_nth)
  ultimately have "sum_list (weighted_counts normalized r) = r" unfolding eq by (simp add: sum_list_addf left_def)
  moreover have "\<bar>of_int (weighted_counts normalized r ! i) - raw ! i\<bar> \<le> 1 \<and> 0 \<le> weighted_counts normalized r ! i"
    if "i < length raw" for i
  proof -
    have c: "weighted_counts normalized r ! i = \<lfloor>raw ! i\<rfloor> + (if i \<in> ch then 1 else 0)"
      unfolding eq counts using that by simp
    have "0 \<le> \<lfloor>raw ! i\<rfloor>" using assms(1) that by simp
    then show ?thesis unfolding c by (auto; linarith)
  qed
  ultimately show ?thesis by (simp add: eq)
qed

section \<open>The weighted plan\<close>

lemma parse_difficulty_mix_Inr:
  assumes "parse_difficulty_mix decoded = Inr ns"
  defines "ws \<equiv> map (dget_or 0 decoded) difficulties"
  shows "ns = map (\<lambda>w. fdiv w (fsum ws)) ws" and "\<forall>w\<in>set ws. 0 \<le> w" and "0 < fsum ws" and "length ws = 4"
  using assms(1) unfolding ws_def
  by (auto simp: parse_difficulty_mix_def Let_def list_ex_iff difficulties_def not_less split: if_splits)

lemma plan_length: "length ns = length names \<Longrightarrow> \<forall>n\<in>set ns. 0 \<le> n \<Longrightarrow>
    int (length (concat (map (\<lambda>(name, n). replicate (nat n) name) (zip names ns)))) = sum_list ns"
  by (induction ns names rule: list_induct2) auto

lemma plan_count: "length ns = length names \<Longrightarrow> distinct names \<Longrightarrow> i < length names \<Longrightarrow>
    count_list (concat (map (\<lambda>(name, n). replicate (nat n) name) (zip names ns))) (names ! i) = nat (ns ! i)"
proof (induction ns names arbitrary: i rule: list_induct2)
  case (Cons n ns name names)
  have rep: "count_list (replicate k x) y = (if x = y then k else 0)" for k and x y :: 'a
    by (induction k) auto
  have none: "count_list (concat (map (\<lambda>(name, n). replicate (nat n) name) (zip names ns))) name = 0"
    using Cons.prems(1) by (auto simp: count_list_0_iff dest: set_zip_leftD)
  show ?case
    using Cons none by (cases i) (auto simp: rep in_set_conv_nth)
qed simp

text \<open>C40. A weighted plan of an accepted mix has exactly the requested length, and each difficulty occurs
  within one of its floating-point share.\<close>

theorem weighted_plan_exact:
  assumes "exact_weighted_plan shuffle n weights seed = Inr plan" and "shuffles shuffle"
    and "0 \<le> n" and "n \<le> 2 ^ 30"
  shows "int (length plan) = n \<and> (\<forall>d\<in>set difficulties.
    \<bar>of_nat (count_list plan d) - weight_share (map (dget_or 0 weights) difficulties) n (dget_or 0 weights d)\<bar> \<le> 1)"
proof -
  define ws where "ws = map (dget_or 0 weights) difficulties"
  obtain ns where ns: "parse_difficulty_mix weights = Inr ns" using assms(1)
    by (auto simp: exact_weighted_plan_def try_bind_Inr)
  note mix = parse_difficulty_mix_Inr [OF ns, folded ws_def]
  let ?raw = "map (weight_share ws n) ws" and ?cs = "weighted_counts ns n"
  let ?base = "concat (map (\<lambda>(name, k). replicate (nat k) name) (zip difficulties ?cs))"
  have raw: "?raw = map (\<lambda>w. fmul w (flit (of_int n))) ns" by (simp add: mix(1) weight_share_def)
  have "0 \<le> weight_share ws n w" if "w \<in> set ws" for w
    using that mix assms(3) by (auto simp: weight_share_def flit_def rnd64_signs intro!: fmul_nonneg fdiv_nonneg)
  then have cs: "sum_list ?cs = n" "length ?cs = 4"
    "\<And>i. i < 4 \<Longrightarrow> 0 \<le> ?cs ! i \<and> \<bar>of_int (?cs ! i) - weight_share ws n (ws ! i)\<bar> \<le> 1"
    using weighted_counts_exact [OF _ weight_share_total [OF mix(4,2,3) assms(3,4)] raw] mix(4) by auto
  have len: "length ?cs = length difficulties" "distinct difficulties" using cs(2) by (simp_all add: difficulties_def)
  have nonneg: "\<forall>k\<in>set ?cs. 0 \<le> k" using cs(2,3) by (auto simp: in_set_conv_nth)
  have plan: "mset plan = mset ?base" using assms(1,2) ns by (simp add: exact_weighted_plan_def shuffles_def) auto
  have "int (length plan) = n" using plan_length [OF len(1) nonneg] mset_eq_length [OF plan] cs(1) by simp
  moreover have "\<bar>of_nat (count_list plan d) - weight_share ws n (dget_or 0 weights d)\<bar> \<le> 1"
    if d: "d \<in> set difficulties" for d
  proof -
    obtain i where i: "i < 4" "d = difficulties ! i" using d len(1) cs(2) by (auto simp: in_set_conv_nth)
    have "count_list plan d = nat (?cs ! i)"
      using plan_count [OF len, of i] i len(1) cs(2) count_list_mset [OF plan] by simp
    moreover have "ws ! i = dget_or 0 weights d" using i len(1) cs(2) by (simp add: ws_def)
    ultimately show ?thesis using cs(3) [OF i(1)] by simp
  qed
  ultimately show ?thesis unfolding ws_def by blast
qed

theorem weighted_plan_exact_witness:
  "\<exists>plan. exact_weighted_plan (\<lambda>_ xs. xs) 7 default_difficulty_mix 3 = Inr plan \<and> int (length plan) = 7 \<and>
     count_list plan ''medium'' = 4"
proof -
  have p: "exact_weighted_plan (\<lambda>_ xs. xs) 7 default_difficulty_mix 3 =
      Inr [''easy'', ''medium'', ''medium'', ''medium'', ''medium'', ''hard'', ''adversarial'']"
    by code_simp
  have "shuffles (\<lambda>_ xs. xs)" by (simp add: shuffles_def)
  from weighted_plan_exact [OF p this] p show ?thesis by simp
qed

end
