(* ===== verification/Spec2Isabelle.thy ===== *)
theory Spec2Isabelle
  imports MatchProperties BookOperations AgentProps ArenaProps CanonicalHashingProps AdjudicationProps SplitProps ItchProps
    GovernedProps StatisticsProps RunPlanning
begin

text \<open>
  LOB Arena is a limit order book exchange with a simulated market around it: agents and scripted
  manipulation scenarios send order intents, an engine matches them and records every change as an
  event, detectors score what they see, governed corpora of recorded sessions are labelled and split for
  training, and detectors are evaluated against the labelled sessions. This development models the Python
  core under \<open>src/backend/app\<close> and proves what its parts promise to one another. Paths below are relative to that directory unless they start with \<open>src/\<close>.

  \<^bold>\<open>How the parts interact.\<close> An intent or request reaches \<open>MatchingEngine\<close>, which changes the \<open>OrderBook\<close>; the
  book reports each mutation to its listener, and the engine turns mutations and executions into events
  of the \<open>EventLog\<close>. \<open>ArenaEngine\<close> owns the exchange: each tick it collects agent intents, runs the active
  scenario, records a snapshot, extracts features, runs the detectors and raises incidents. The contracts
  package fixes the random streams, identifiers and canonical bytes a second implementation has to
  reproduce. The corpus package describes recorded sessions, adjudicates clean windows into labels and
  cuts chronological folds. The evaluation package attributes the alerts of a detector to the attack and
  clean windows of a session, aggregates the counts and compares detectors over sessions.

  \<^bold>\<open>Shared layer.\<close>
  \<^item> \<open>LobPrelude\<close>: exceptions as the left half of a sum, methods that change state and may raise
    (\<open>step_bind\<close>: what was changed before the exception stays changed), dictionaries in insertion order with the
    locale \<open>keyed_store\<close>, string and sorting functions of Python.
  \<^item> \<open>PyFloat\<close>: floats as rationals rounded to 53 bits after every operation, with the locale \<open>float_rounding\<close>
    and exactness on a binary grid. \<open>PyDecimal\<close>: 28-digit decimal arithmetic.

  \<^bold>\<open>Exchange\<close> (\<open>exchange/\<close>).
  \<^item> \<open>ExchangeSchemas\<close> (\<open>schemas.py\<close>): orders, levels, snapshots, the five event classes, their validation,
    dictionary form and parser.
  \<^item> \<open>OrderBook\<close> (\<open>order_book.py\<close>): the record \<open>order_book\<close> has the code's three dictionaries and owner tables; one
    definition per method; a method returns the new book and the mutations its listener was told.
    \<open>OrderBookInvariant\<close> has the invariant \<open>book_ok\<close> and that every method keeps it, \<open>OrderMatching\<close> the walk over one
    level and over the prices, \<open>BookReplay\<close> the abstract book and the fact that the listener's mutations
    determine it, \<open>BookOperations\<close> the contracts of feed updates, modifications and snapshots.
  \<^item> \<open>EventLog\<close> (\<open>event_log.py\<close>, \<open>sources.py\<close>, \<open>stream_validation.py\<close>): the append-only log, its files and paging, with
    the locale \<open>sequenced_log\<close>; termination of paging and the round trips, with the owners (\<open>owners_kept\<close>) that
    survive them.
  \<^item> \<open>MatchingEngine\<close> (\<open>matching_engine.py\<close>): requests, mutation contexts and event recording. \<open>EngineReplay\<close> proves
    the refinement: from the starting book the event log alone rebuilds the resting orders, in every state that
    well-formed requests and snapshots reach, including requests that raised half way; a limit order with a
    non-positive price, which is not well formed, is the counterexample. \<open>MatchProperties\<close> proves price-time priority,
    conservation and that limit orders do not cross the book, with two runs that show where floats and
    modifications break it.

  \<^bold>\<open>Agents, scenarios, detectors, arena.\<close>
  \<^item> \<open>ArenaSchemas\<close> (\<open>schemas/arena.py\<close>, \<open>scenarios/catalog.py\<close>): the published models.
  \<^item> \<open>Agents\<close> and \<open>AgentProps\<close> (\<open>agents/\<close>): intents, local and scripted agents, the manager; the locales
    \<open>intent_source\<close> and \<open>quoting_agent\<close> are the contract between agents and the manager. Intents do not depend on
    the order in which agents complete.
  \<^item> \<open>Scenarios\<close> and \<open>ScenarioProps\<close> (\<open>scenarios/\<close>): the template method as one function over the handlers of the four
    scenarios, label tracker and controller; the locale \<open>scenario_handlers\<close> is what the template needs of a
    handler, and each of the four is an interpretation.
  \<^item> \<open>Detectors\<close> and \<open>DetectorProps\<close> (\<open>detectors/\<close>): features, four detectors (locale \<open>risk_detector\<close>) and the
    aggregate; totality and bounds on books that are not crossed.
  \<^item> \<open>ArenaEngine\<close> and \<open>ArenaProps\<close> (\<open>arena/engine.py\<close>, \<open>clock.py\<close>, \<open>state.py\<close>): the record \<open>arena\<close>, every method with
    the store absent, and the step relation \<open>arena_trans\<close> of public calls and loop turns in any order. Its
    invariants are proved by rule induction: a well-formed log that only grows, a numbered incident
    ledger without duplicates; further what a tick, a reset and an error leave behind.

  \<^bold>\<open>Contracts\<close> (\<open>contracts/\<close>).
  \<^item> \<open>Determinism\<close> and \<open>DeterminismProps\<close> (\<open>determinism.py\<close>): SplitMix64 on 64-bit words, bounded draws, stream seeds,
    unit conversion, event ids. The output function is a permutation, so draws return and are unbiased.
  \<^item> \<open>CanonicalHashing\<close> and \<open>CanonicalHashingProps\<close> (\<open>hashing.py\<close>): the length-prefixed encoding; every writer is an
    interpretation of the locale \<open>prefix_writer\<close>, which makes the whole encoding uniquely readable, and the
    stream digest binds the sequence of events.

  \<^bold>\<open>Labels and corpora\<close> (\<open>features/models.py\<close>, \<open>corpus/\<close>).
  \<^item> \<open>FeatureModels\<close> and \<open>LabelProps\<close>: label windows, specifications and \<open>assign_label\<close>; comparing neighbours in sorted
    order is enough to make labels unambiguous within one coordinate, not across the two.
  \<^item> \<open>CorpusGovernance\<close> and \<open>CorpusValidation\<close> (\<open>models.py\<close>, \<open>governance.py\<close>): protocol, sessions, manifests, coverage
    and the validation report.
  \<^item> \<open>LabelAdjudication\<close> and \<open>AdjudicationProps\<close> (\<open>governance.py\<close>): review windows and their merge into labels.
  \<^item> \<open>CorpusSplits\<close> (\<open>splits.py\<close>), with \<open>SplitCounts\<close> (the shares, computed in floating point, add up exactly),
    \<open>SplitPartition\<close> (the cut of the dates), \<open>SplitGeneration\<close> (each validation step accepts the generated
    manifest) and \<open>SplitProps\<close>: generation succeeds and is accepted, and whatever is accepted is chronological,
    complete and free of shared sources.

  \<^bold>\<open>Market data\<close> (\<open>data_ingestion/itch.py\<close>).
  \<^item> \<open>ItchIngestion\<close>: the record reader over the bytes of a stream, the visible book that order messages maintain,
    and the two normalizers. \<open>ItchBook\<close> proves that the book is the depth of the active orders, \<open>ItchFraming\<close> that the
    reader inverts the framing, \<open>ItchPasses\<close> relates the one-pass loop to the single-symbol loop step by step, and
    \<open>ItchProps\<close> states the results, with a stream on which the two normalizers differ.

  \<^bold>\<open>Evaluation\<close> (\<open>evaluation/\<close>).
  \<^item> \<open>TickEvaluation\<close> (\<open>ground_truth.py\<close>): classification metrics, detection timing and attribution.
  \<^item> \<open>GovernedMetrics\<close> (\<open>governed_metrics.py\<close>): session units, the loop that attributes alerts, clusters, counts,
    aggregation. \<open>AlertClusters\<close> characterises the clusters, \<open>SessionAccounting\<close> gives the closed forms of the
    loops, \<open>GovernedProps\<close> states what the counts mean in terms of the windows alone (\<open>owned_alerts\<close>,
    \<open>stray_alerts\<close>), the range of the rates, that combining replays and
    aggregating commute, and two inputs on which the code disagrees with itself.
  \<^item> \<open>Regimes\<close> and \<open>RegimeProps\<close> (\<open>regimes.py\<close>): thresholds, buckets, the matrix, whose cells partition the sessions,
    and the worst-decile selection; with runs where fitting raises or depends on the order of rows.
  \<^item> \<open>SessionStatistics\<close> and \<open>StatisticsProps\<close> (\<open>statistics.py\<close>): bootstrap and paired comparison, which is
    antisymmetric in the two detectors.
  \<^item> \<open>RunPlanning\<close> (\<open>run_planning.py\<close>): seeds, difficulty mixes and plans with exact counts.

  \<^bold>\<open>Bounds and termination.\<close> All loops of the code are structural recursion or recursion with a proved measure.
  The exception is the rejection loop \<open>draw_below\<close>, a \<open>partial_function\<close>: it returns for every bound and state
  because the generator visits all \<open>2 ^ 64\<close> words in one period and at least one of them is accepted. The
  paging loops end because the cursor grows up to the length of the log. Splits are proved up to \<open>2 ^ 30\<close> date
  groups and plans up to \<open>2 ^ 30\<close> runs, far more than occur, which keeps the rounding errors of the shares
  below one.

  \<^bold>\<open>Parameters.\<close> SHA-256, Unicode normalisation, wall clocks, Python's random generator, the runners behind HTTP, digests over JSON dumps
  and access to artifact files are arguments of the definitions that use them. Statements that rest on
  collision freedom say so, for the inputs used. Decoded JSON is the datatype \<open>json\<close>; constraints that pydantic
  checks on one field alone are assumed of the values that reach the modelled validators.

  \<^bold>\<open>Not modelled.\<close> Transport and process I/O to the Java kernel, the FastAPI routes, storage, vendor
  downloads, LOBSTER files, feature pipelines over Parquet, machine learning, cloud orchestration, experiments,
  replay bundles, benchmark releases and the entry points (\<open>src/serverless\<close>, \<open>src/scripts\<close>, \<open>src/agent-runner\<close>): I/O and
  third-party numerics carry their behaviour. Float overflow, subnormals, NaN and the sign of zero are outside \<open>PyFloat\<close>.
  Of the arena, persistence and the scheduling of the background task are left out, and of the synchronous
  manager the exception it raises when it is called inside a running event loop; a wire snapshot whose book
  is unset is one whose book is empty, since the hashing code never asks; of the corpus, writing
  and loading files. The Java kernel, the frontend and the website are in other languages.
\<close>

end
